(* ===== verification/Prelude.thy ===== *)
theory Prelude
  imports Main "HOL-Library.Word"
begin

text \<open>
  Shared vocabulary of the development: the machine integers of the C sources, byte blocks as lists,
  the libc routines the sources call on character arrays (\<open>strlen\<close>, \<open>strncpy\<close>, \<open>memcpy\<close> into a
  fixed array, \<open>strstr\<close>, \<open>strncmp\<close>), the conversions between \<open>int64_t\<close> and \<open>double\<close>
  at the level of the IEEE-754 bit pattern, and the generic lemmas on them.
  Strings are byte lists; \<open>bytes_of\<close> turns a HOL string literal into one.
\<close>

unbundle bit_operations_syntax

named_theorems gengo_defs \<open>definitions that component proofs unfold\<close>
named_theorems gengo_bounds \<open>length and range facts\<close>

type_synonym byte = "8 word"
type_synonym u16 = "16 word"
type_synonym u32 = "32 word"
type_synonym u64 = "64 word"
type_synonym f64 = "64 word"

section \<open>Byte strings\<close>

definition bytes_of :: "string \<Rightarrow> byte list" where
  "bytes_of s = map (\<lambda>c. of_nat (of_char c)) s"

lemma length_bytes_of [simp]: "length (bytes_of s) = length s"
  by (simp add: bytes_of_def)

lemma bytes_of_Nil [simp]: "bytes_of [] = []"
  by (simp add: bytes_of_def)

lemma bytes_of_Cons [simp]: "bytes_of (c # s) = of_nat (of_char c) # bytes_of s"
  by (simp add: bytes_of_def)

text \<open>The C string held by a character array: the bytes before the first NUL.\<close>

definition cstr :: "byte list \<Rightarrow> byte list" where
  "cstr b = takeWhile (\<lambda>x. x \<noteq> 0) b"

definition nul_terminated :: "byte list \<Rightarrow> bool" where
  "nul_terminated b \<longleftrightarrow> 0 \<in> set b"

lemma length_cstr_le [gengo_bounds]: "length (cstr b) \<le> length b"
  by (simp add: cstr_def length_takeWhile_le)

lemma length_cstr_less [gengo_bounds]: "nul_terminated b \<Longrightarrow> length (cstr b) < length b"
  unfolding nul_terminated_def cstr_def
  by (induction b) auto

lemma cstr_no_nul: "0 \<notin> set (cstr b)"
  by (auto simp: cstr_def dest: set_takeWhileD)

lemma cstr_append_stop [simp]: "cstr (xs @ 0 # ys) = cstr xs"
  unfolding cstr_def by (induction xs) auto

lemma cstr_id: "0 \<notin> set xs \<Longrightarrow> cstr xs = xs"
  unfolding cstr_def by (induction xs) auto

lemma cstr_take_nth:
  assumes n: "n < length b" and z: "b ! n = 0"
  shows "cstr b = cstr (take n b)"
proof -
  have "b = take n b @ 0 # drop (Suc n) b"
    using id_take_nth_drop [OF n] z by simp
  then show ?thesis
    by (metis cstr_append_stop)
qed

section \<open>Character arrays\<close>

text \<open>\<open>memcpy(dest, src, n); dest[n] = '\0'\<close> on a fixed array: the array keeps its length.\<close>

definition put_cstr :: "byte list \<Rightarrow> byte list \<Rightarrow> byte list" where
  "put_cstr dest src = src @ 0 # drop (Suc (length src)) dest"

lemma length_put_cstr [simp]:
  "length src < length dest \<Longrightarrow> length (put_cstr dest src) = length dest"
  by (simp add: put_cstr_def)

lemma put_cstr_take: "take (length src) (put_cstr dest src) = src"
  by (simp add: put_cstr_def)

lemma put_cstr_nul [simp]: "nul_terminated (put_cstr dest src)"
  by (simp add: put_cstr_def nul_terminated_def)

lemma cstr_put_cstr [simp]: "cstr (put_cstr dest src) = cstr src"
  by (simp add: put_cstr_def)

text \<open>
  \<open>strncpy(dest, src, n)\<close>: at most \<open>n\<close> bytes of the C string \<open>src\<close>, then NULs up to \<open>n\<close>;
  the bytes of \<open>dest\<close> from \<open>n\<close> on are not written.
\<close>

definition c_strncpy :: "byte list \<Rightarrow> byte list \<Rightarrow> nat \<Rightarrow> byte list" where
  "c_strncpy dest src n =
     (let s = take n (cstr src) in s @ replicate (n - length s) 0 @ drop n dest)"

lemma length_c_strncpy [simp]: "n \<le> length dest \<Longrightarrow> length (c_strncpy dest src n) = length dest"
  by (simp add: c_strncpy_def Let_def)

lemma c_strncpy_nth_ge: "n \<le> i \<Longrightarrow> i < length dest \<Longrightarrow> c_strncpy dest src n ! i = dest ! i"
  by (auto simp: c_strncpy_def Let_def nth_append min_def)

lemma drop_c_strncpy: "drop n (c_strncpy dest src n) = drop n dest"
  by (simp add: c_strncpy_def Let_def)

lemma cstr_c_strncpy:
  assumes "n < length dest" and "dest ! n = 0"
  shows "cstr (c_strncpy dest src n) = take n (cstr src)"
proof -
  have d: "drop n dest = 0 # drop (Suc n) dest"
    using assms by (metis Cons_nth_drop_Suc)
  have z: "0 \<notin> set (take n (cstr src))"
    using cstr_no_nul in_set_takeD by metis
  show ?thesis
  proof (cases "n - length (take n (cstr src))")
    case 0
    then show ?thesis
      using z by (simp add: c_strncpy_def Let_def d cstr_id)
  next
    case (Suc k)
    then have "c_strncpy dest src n = take n (cstr src) @ 0 # replicate k 0 @ drop n dest"
      by (simp add: c_strncpy_def Let_def del: length_take)
    then show ?thesis
      using z by (simp add: cstr_id)
  qed
qed

text \<open>\<open>strstr(hay, needle)\<close>: the suffix of the C string \<open>hay\<close> that starts at the first occurrence.\<close>

fun c_strstr :: "byte list \<Rightarrow> byte list \<Rightarrow> byte list option" where
  "c_strstr [] needle = (if needle = [] then Some [] else None)"
| "c_strstr (x # xs) needle =
     (if take (length needle) (x # xs) = needle then Some (x # xs) else c_strstr xs needle)"

lemma c_strstr_suffix:
  "c_strstr hay needle = Some s \<Longrightarrow> \<exists>p. hay = p @ s \<and> take (length needle) s = needle"
  by (induction hay needle rule: c_strstr.induct) (force split: if_splits)+

text \<open>\<open>strncmp(a, b, length b) == 0\<close> for a literal \<open>b\<close> without NUL: \<open>b\<close> is a prefix of the C string \<open>a\<close>.\<close>

definition c_starts_with :: "byte list \<Rightarrow> byte list \<Rightarrow> bool" where
  "c_starts_with a b \<longleftrightarrow> take (length b) a = b"

end
