(* ===== verification/GengoWire.thy ===== *)
theory GengoWire
  imports Prelude
begin

text \<open>
  The C side of the wire format: the value struct and its constants from
  \<open>sdk/c/include/gengo-engine.h\<close> and the inline constructors and readers of
  \<open>sdk/c/include/gengo-wire.h\<close>.
  C memory is a store of blocks: \<open>mem_bytes\<close> maps the address of a character array to its bytes,
  \<open>mem_wires\<close> the address of a wire array to its elements. A read outside every block, or past the
  end of one, is undefined behaviour in C; the readers return it as \<open>None\<close> (or \<open>Wild\<close>) and the
  theorems show where it cannot happen.
  \<open>double\<close> values are their IEEE-754 bit patterns, so the \<open>memcpy\<close> between a double and its bits is
  the identity, and the two casts between \<open>int64_t\<close> and \<open>double\<close> are written out on the bits.
\<close>

section \<open>Types and constants of gengo-engine.h\<close>

datatype gengo_wire_tag_t =
    GENGO_WIRE_NULL | GENGO_WIRE_BOOLEAN | GENGO_WIRE_NUMBER | GENGO_WIRE_STRING
  | GENGO_WIRE_ARRAY | GENGO_WIRE_MAP | GENGO_WIRE_ERROR

fun tag_code :: "gengo_wire_tag_t \<Rightarrow> byte" where
  "tag_code GENGO_WIRE_NULL = 0"
| "tag_code GENGO_WIRE_BOOLEAN = 1"
| "tag_code GENGO_WIRE_NUMBER = 2"
| "tag_code GENGO_WIRE_STRING = 3"
| "tag_code GENGO_WIRE_ARRAY = 4"
| "tag_code GENGO_WIRE_MAP = 5"
| "tag_code GENGO_WIRE_ERROR = 6"

lemma tag_code_inject [simp]: "tag_code a = tag_code b \<longleftrightarrow> a = b"
  by (cases a; cases b) simp_all

definition GENGO_WIRE_FLAG_INTEGER :: byte where "GENGO_WIRE_FLAG_INTEGER = 0x01"
definition GENGO_WIRE_FLAG_DECIMAL :: byte where "GENGO_WIRE_FLAG_DECIMAL = 0x02"
definition GENGO_WIRE_FLAG_RUNE :: byte where "GENGO_WIRE_FLAG_RUNE = 0x04"

record gengo_value_wire_t =
  w_tag :: byte
  w_flags :: byte
  w_reserved :: u16
  w_payload :: u64
  w_len :: u32
  w_reserved2 :: u32

record gengo_instance_config_t =
  heap_size_bytes :: nat
  max_objects :: nat
  max_stack :: nat
  max_frames :: nat
  max_defers :: nat
  max_ops :: int
  allow_io :: bool

section \<open>Memory\<close>

record cmem =
  mem_bytes :: "u64 \<Rightarrow> byte list option"
  mem_wires :: "u64 \<Rightarrow> gengo_value_wire_t list option"

datatype 'a ptr_read = NullPtr | Points 'a | Wild

definition load_bytes :: "cmem \<Rightarrow> u64 \<Rightarrow> nat \<Rightarrow> byte list option" where
  "load_bytes m p n =
     (case mem_bytes m p of None \<Rightarrow> None
      | Some b \<Rightarrow> if n \<le> length b then Some (take n b) else None)"

definition load_wire :: "cmem \<Rightarrow> u64 \<Rightarrow> nat \<Rightarrow> gengo_value_wire_t ptr_read" where
  "load_wire m p i =
     (case mem_wires m p of None \<Rightarrow> Wild
      | Some ws \<Rightarrow> if i < length ws then Points (ws ! i) else Wild)"

definition c_strlen :: "cmem \<Rightarrow> u64 \<Rightarrow> nat option" where
  "c_strlen m p =
     (case mem_bytes m p of None \<Rightarrow> None
      | Some b \<Rightarrow> if nul_terminated b then Some (length (cstr b)) else None)"

section \<open>The casts between int64_t and double\<close>

fun ilog2 :: "nat \<Rightarrow> nat" where
  "ilog2 n = (if n < 2 then 0 else Suc (ilog2 (n div 2)))"

declare ilog2.simps [simp del]

definition f64_exp :: "f64 \<Rightarrow> nat" where
  "f64_exp d = unat d div 2 ^ 52 mod 2 ^ 11"

definition f64_frac :: "f64 \<Rightarrow> nat" where
  "f64_frac d = unat d mod 2 ^ 52"

definition f64_neg :: "f64 \<Rightarrow> bool" where
  "f64_neg d \<longleftrightarrow> 2 ^ 63 \<le> unat d"

text \<open>
  \<open>(int64_t)d\<close> drops the fraction. For a NaN, an infinity or a value outside the range of
  \<open>int64_t\<close> the C standard leaves it undefined: \<open>None\<close>.
\<close>

definition f64_trunc_mag :: "nat \<Rightarrow> nat \<Rightarrow> nat" where
  "f64_trunc_mag e f =
     (let mant = (if e = 0 then f else 2 ^ 52 + f); sc = (if e = 0 then 1 else e)
      in if 1075 \<le> sc then mant * 2 ^ (sc - 1075) else mant div 2 ^ (1075 - sc))"

definition i64_of_f64 :: "f64 \<Rightarrow> int option" where
  "i64_of_f64 d =
     (if f64_exp d = 2047 then None
      else let mag = f64_trunc_mag (f64_exp d) (f64_frac d);
               v = (if f64_neg d then - int mag else int mag)
           in if - (2 ^ 63) \<le> v \<and> v < 2 ^ 63 then Some v else None)"

text \<open>\<open>(double)n\<close>: round to nearest, ties to even.\<close>

definition f64_pack :: "bool \<Rightarrow> nat \<Rightarrow> nat \<Rightarrow> f64" where
  "f64_pack neg e f = of_nat ((if neg then 2 ^ 63 else 0) + e * 2 ^ 52 + f)"

definition f64_of_i64 :: "int \<Rightarrow> f64" where
  "f64_of_i64 n =
     (let a = nat \<bar>n\<bar>; k = ilog2 a in
      if a = 0 then 0
      else if k \<le> 52 then f64_pack (n < 0) (k + 1023) ((a - 2 ^ k) * 2 ^ (52 - k))
      else let s = k - 52; q = a div 2 ^ s; r = a mod 2 ^ s;
               q' = (if r > 2 ^ (s - 1) \<or> r = 2 ^ (s - 1) \<and> odd q then Suc q else q)
           in if q' = 2 ^ 53 then f64_pack (n < 0) (k + 1024) 0
              else f64_pack (n < 0) (k + 1023) (q' - 2 ^ 52))"

section \<open>Constructors of gengo-wire.h\<close>

definition gengo__f64_bits :: "f64 \<Rightarrow> u64" where
  "gengo__f64_bits x = x"

definition gengo_wire_null :: gengo_value_wire_t where
  "gengo_wire_null =
     \<lparr>w_tag = tag_code GENGO_WIRE_NULL, w_flags = 0, w_reserved = 0, w_payload = 0, w_len = 0, w_reserved2 = 0\<rparr>"

definition gengo_wire_bool :: "int \<Rightarrow> gengo_value_wire_t" where
  "gengo_wire_bool value = gengo_wire_null
     \<lparr>w_tag := tag_code GENGO_WIRE_BOOLEAN, w_payload := (if value \<noteq> 0 then 1 else 0)\<rparr>"

definition gengo_wire_int :: "int \<Rightarrow> gengo_value_wire_t" where
  "gengo_wire_int value = gengo_wire_null
     \<lparr>w_tag := tag_code GENGO_WIRE_NUMBER, w_flags := GENGO_WIRE_FLAG_INTEGER, w_payload := word_of_int value\<rparr>"

definition gengo_wire_float :: "f64 \<Rightarrow> gengo_value_wire_t" where
  "gengo_wire_float value = gengo_wire_null
     \<lparr>w_tag := tag_code GENGO_WIRE_NUMBER, w_payload := gengo__f64_bits value\<rparr>"

definition gengo_wire_str_n :: "u64 \<Rightarrow> u32 \<Rightarrow> gengo_value_wire_t" where
  "gengo_wire_str_n s n =
     (if s = 0 then gengo_wire_null
      else gengo_wire_null\<lparr>w_tag := tag_code GENGO_WIRE_STRING, w_payload := s, w_len := n\<rparr>)"

definition gengo_wire_str :: "cmem \<Rightarrow> u64 \<Rightarrow> gengo_value_wire_t option" where
  "gengo_wire_str m s =
     (if s = 0 then Some (gengo_wire_str_n s 0)
      else case c_strlen m s of None \<Rightarrow> None | Some n \<Rightarrow> Some (gengo_wire_str_n s (of_nat n)))"

definition gengo_wire_array :: "u64 \<Rightarrow> u32 \<Rightarrow> gengo_value_wire_t" where
  "gengo_wire_array elems count = gengo_wire_null
     \<lparr>w_tag := tag_code GENGO_WIRE_ARRAY, w_payload := elems, w_len := count\<rparr>"

definition gengo_wire_map :: "u64 \<Rightarrow> u32 \<Rightarrow> gengo_value_wire_t" where
  "gengo_wire_map kv_pairs entry_count = gengo_wire_null
     \<lparr>w_tag := tag_code GENGO_WIRE_MAP, w_payload := kv_pairs, w_len := entry_count\<rparr>"

section \<open>Readers of gengo-wire.h\<close>

definition gengo_wire_as_bool :: "gengo_value_wire_t \<Rightarrow> bool" where
  "gengo_wire_as_bool v \<longleftrightarrow> w_tag v = tag_code GENGO_WIRE_BOOLEAN \<and> w_payload v = 1"

definition gengo_wire_as_int :: "gengo_value_wire_t \<Rightarrow> int option" where
  "gengo_wire_as_int v =
     (if w_tag v \<noteq> tag_code GENGO_WIRE_NUMBER then Some 0
      else if w_flags v AND GENGO_WIRE_FLAG_INTEGER \<noteq> 0 then Some (sint (w_payload v))
      else i64_of_f64 (w_payload v))"

definition gengo_wire_as_float :: "gengo_value_wire_t \<Rightarrow> f64" where
  "gengo_wire_as_float v =
     (if w_tag v \<noteq> tag_code GENGO_WIRE_NUMBER then 0
      else if w_flags v AND GENGO_WIRE_FLAG_INTEGER \<noteq> 0 then f64_of_i64 (sint (w_payload v))
      else w_payload v)"

text \<open>The buffer is the character array itself; the result is the return value and the new buffer.\<close>

definition gengo_wire_read_str ::
  "cmem \<Rightarrow> gengo_value_wire_t \<Rightarrow> byte list \<Rightarrow> (nat \<times> byte list) option" where
  "gengo_wire_read_str m v buf =
     (if length buf = 0 then Some (0, buf)
      else if w_tag v \<noteq> tag_code GENGO_WIRE_STRING \<or> w_payload v = 0 \<or> w_len v = 0
      then Some (0, buf[0 := 0])
      else let n = (if unat (w_len v) < length buf then unat (w_len v) else length buf - 1)
           in case load_bytes m (w_payload v) n of None \<Rightarrow> None
              | Some bs \<Rightarrow> Some (n, put_cstr buf bs))"

definition gengo_wire_array_len :: "gengo_value_wire_t \<Rightarrow> u32" where
  "gengo_wire_array_len v = (if w_tag v = tag_code GENGO_WIRE_ARRAY then w_len v else 0)"

definition gengo_wire_array_at :: "cmem \<Rightarrow> gengo_value_wire_t \<Rightarrow> u32 \<Rightarrow> gengo_value_wire_t ptr_read" where
  "gengo_wire_array_at m v index =
     (if w_tag v \<noteq> tag_code GENGO_WIRE_ARRAY \<or> w_len v \<le> index then NullPtr
      else load_wire m (w_payload v) (unat index))"

definition gengo_wire_map_len :: "gengo_value_wire_t \<Rightarrow> u32" where
  "gengo_wire_map_len v = (if w_tag v = tag_code GENGO_WIRE_MAP then w_len v else 0)"

definition gengo_wire_map_key_at :: "cmem \<Rightarrow> gengo_value_wire_t \<Rightarrow> u32 \<Rightarrow> gengo_value_wire_t ptr_read" where
  "gengo_wire_map_key_at m v index =
     (if w_tag v \<noteq> tag_code GENGO_WIRE_MAP \<or> w_len v \<le> index then NullPtr
      else load_wire m (w_payload v) (unat (index * 2)))"

definition gengo_wire_map_value_at :: "cmem \<Rightarrow> gengo_value_wire_t \<Rightarrow> u32 \<Rightarrow> gengo_value_wire_t ptr_read" where
  "gengo_wire_map_value_at m v index =
     (if w_tag v \<noteq> tag_code GENGO_WIRE_MAP \<or> w_len v \<le> index then NullPtr
      else load_wire m (w_payload v) (unat (index * 2 + 1)))"

lemmas wire_flag_defs [simp] =
  GENGO_WIRE_FLAG_INTEGER_def GENGO_WIRE_FLAG_DECIMAL_def GENGO_WIRE_FLAG_RUNE_def

lemmas wire_constructor_defs [gengo_defs] =
  gengo_wire_null_def gengo_wire_bool_def gengo_wire_int_def gengo_wire_float_def gengo__f64_bits_def
  gengo_wire_str_n_def gengo_wire_str_def gengo_wire_array_def gengo_wire_map_def

section \<open>Lemmas on the casts\<close>

lemma ilog2_bounds:
  assumes "0 < n"
  shows "2 ^ ilog2 n \<le> n \<and> n < 2 ^ Suc (ilog2 n)"
  using assms
proof (induction n rule: ilog2.induct)
  case (1 n)
  show ?case
  proof (cases "n < 2")
    case True
    with "1.prems" show ?thesis by (simp add: ilog2.simps)
  next
    case False
    then have "2 ^ ilog2 (n div 2) \<le> n div 2 \<and> n div 2 < 2 ^ Suc (ilog2 (n div 2))"
      using "1.IH" by simp
    with False show ?thesis
      by (subst (1 2) ilog2.simps) auto
  qed
qed

lemma unat_f64_pack:
  assumes "e < 2048" and "f < 2 ^ 52"
  shows "unat (f64_pack neg e f) = (if neg then 2 ^ 63 else 0) + e * 2 ^ 52 + f"
proof -
  have "(if neg then 2 ^ 63 else 0) + e * 2 ^ 52 + f < (2::nat) ^ 64"
    using assms by simp
  then show ?thesis
    unfolding f64_pack_def unat_of_nat by (subst mod_less) simp_all
qed

lemma f64_pack_fields:
  assumes "e < 2048" and "f < 2 ^ 52"
  shows "f64_exp (f64_pack neg e f) = e" and "f64_frac (f64_pack neg e f) = f"
    and "f64_neg (f64_pack neg e f) = neg"
proof -
  have u: "unat (f64_pack neg e f) = ((if neg then 2048 else 0) + e) * 2 ^ 52 + f"
    using unat_f64_pack [OF assms] by simp
  have d: "unat (f64_pack neg e f) div 2 ^ 52 = (if neg then 2048 else 0) + e"
    using assms(2) unfolding u by (subst div_mult_self3) auto
  show "f64_exp (f64_pack neg e f) = e"
    using assms(1) unfolding f64_exp_def d by simp
  show "f64_frac (f64_pack neg e f) = f"
    using assms(2) unfolding f64_frac_def u by (simp only: mod_mult_self3 mod_less)
  show "f64_neg (f64_pack neg e f) = neg"
    using assms unfolding f64_neg_def u by auto
qed

lemma f64_small_scale:
  assumes "k \<le> 52" and "2 ^ k \<le> a"
  shows "(2 ^ 52 + (a - 2 ^ k) * 2 ^ (52 - k)) div 2 ^ (52 - k) = (a::nat)"
proof -
  have "(2::nat) ^ 52 = 2 ^ k * 2 ^ (52 - k)"
    using assms(1) by (metis le_add_diff_inverse power_add)
  then have "2 ^ 52 + (a - 2 ^ k) * 2 ^ (52 - k) = a * 2 ^ (52 - k)"
    using assms(2) by (metis add_mult_distrib le_add_diff_inverse)
  then show ?thesis by simp
qed

lemma f64_frac_small:
  assumes "k \<le> 52" and "a < 2 ^ Suc k" and "2 ^ k \<le> a"
  shows "(a - 2 ^ k) * 2 ^ (52 - k) < (2::nat) ^ 52"
proof -
  have "a - 2 ^ k < 2 ^ k" using assms(2,3) by simp
  then have "(a - 2 ^ k) * 2 ^ (52 - k) < 2 ^ k * 2 ^ (52 - k)" by simp
  also have "\<dots> = 2 ^ 52" using assms(1) by (metis le_add_diff_inverse power_add)
  finally show ?thesis .
qed

lemma i64_of_f64_pack:
  assumes "e < 2047" and "f < 2 ^ 52" and "f64_trunc_mag e f < 2 ^ 63"
  shows "i64_of_f64 (f64_pack neg e f) = Some (if neg then - int (f64_trunc_mag e f) else int (f64_trunc_mag e f))"
proof -
  have "f64_exp (f64_pack neg e f) = e" "f64_frac (f64_pack neg e f) = f" "f64_neg (f64_pack neg e f) = neg"
    using assms(1,2) by (simp_all add: f64_pack_fields)
  moreover have "int (f64_trunc_mag e f) < 2 ^ 63"
    using assms(3) by (metis of_nat_less_iff of_nat_numeral of_nat_power)
  ultimately show ?thesis
    using assms(1) by (simp add: i64_of_f64_def Let_def)
qed

lemma i64_f64_small:
  assumes "\<bar>n\<bar> < 2 ^ 53"
  shows "i64_of_f64 (f64_of_i64 n) = Some n"
proof (cases "n = 0")
  case True
  then show ?thesis
    by (simp add: f64_of_i64_def i64_of_f64_def f64_exp_def f64_frac_def f64_neg_def f64_trunc_mag_def Let_def)
next
  case False
  define a where "a = nat \<bar>n\<bar>"
  define k where "k = ilog2 a"
  have a: "0 < a" "a < 2 ^ 53" using False assms by (auto simp: a_def)
  have k: "2 ^ k \<le> a" "a < 2 ^ Suc k" using ilog2_bounds [OF a(1)] by (auto simp: k_def)
  have "(2::nat) ^ k < 2 ^ 53" using k(1) a(2) by (rule le_less_trans)
  then have k52: "k \<le> 52" by (metis less_Suc_eq_le numeral_eq_Suc one_less_numeral_iff power_strict_increasing_iff pred_numeral_simps(3) semiring_norm(76))
  have eq: "f64_of_i64 n = f64_pack (n < 0) (k + 1023) ((a - 2 ^ k) * 2 ^ (52 - k))"
    using a(1) k52 by (simp add: f64_of_i64_def Let_def flip: a_def k_def)
  have mag: "f64_trunc_mag (k + 1023) ((a - 2 ^ k) * 2 ^ (52 - k)) = a"
  proof (cases "k = 52")
    case True
    then show ?thesis using k(1) by (simp add: f64_trunc_mag_def Let_def)
  next
    case ne: False
    then have "1075 - (k + 1023) = 52 - k" using k52 by simp
    then show ?thesis
      using ne k52 f64_small_scale [OF k52 k(1)] by (simp add: f64_trunc_mag_def Let_def)
  qed
  have "i64_of_f64 (f64_of_i64 n) = Some (if n < 0 then - int a else int a)"
    unfolding eq using i64_of_f64_pack [OF _ f64_frac_small [OF k52 k(2) k(1)], of "k + 1023"] a k52
    by (simp add: mag)
  then show ?thesis by (simp add: a_def)
qed

section \<open>Properties of the wire helpers\<close>

lemma sint_word_of_int_i64:
  assumes "- (2 ^ 63) \<le> n" and "n < 2 ^ 63"
  shows "sint (word_of_int n :: u64) = n"
  using assms by (simp add: signed_of_int signed_take_bit_int_eq_self)

lemma wire_int_exact:
  assumes "- (2 ^ 63) \<le> n" and "n < 2 ^ 63"
  shows "gengo_wire_as_int (gengo_wire_int n) = Some n"
  using sint_word_of_int_i64 [OF assms] by (simp add: gengo_wire_as_int_def gengo_defs)

lemma wire_float_int:
  assumes "\<bar>n\<bar> < 2 ^ 53"
  shows "gengo_wire_as_int (gengo_wire_float (f64_of_i64 n)) = Some n"
  using i64_f64_small [OF assms] by (simp add: gengo_wire_as_int_def gengo_defs)

text \<open>A string wire whose bytes are readable: the block behind the payload holds at least \<open>w_len\<close> bytes.\<close>

definition string_wire_ok :: "cmem \<Rightarrow> gengo_value_wire_t \<Rightarrow> bool" where
  "string_wire_ok m v \<longleftrightarrow> w_tag v = tag_code GENGO_WIRE_STRING \<and> w_payload v \<noteq> 0 \<and>
     (\<exists>b. mem_bytes m (w_payload v) = Some b \<and> unat (w_len v) \<le> length b)"

definition wire_string :: "cmem \<Rightarrow> gengo_value_wire_t \<Rightarrow> byte list" where
  "wire_string m v =
     (case mem_bytes m (w_payload v) of None \<Rightarrow> [] | Some b \<Rightarrow> take (unat (w_len v)) b)"

lemma read_str_ok:
  assumes "string_wire_ok m v" and "buf \<noteq> []"
  obtains n buf' where "gengo_wire_read_str m v buf = Some (n, buf')" and "length buf' = length buf"
    and "n = min (unat (w_len v)) (length buf - 1)" and "take n buf' = take n (wire_string m v)"
    and "buf' ! n = 0" and "cstr buf' = cstr (take n (wire_string m v))"
proof -
  from assms(1) obtain b where b: "mem_bytes m (w_payload v) = Some b" "unat (w_len v) \<le> length b"
    and t: "w_tag v = tag_code GENGO_WIRE_STRING" "w_payload v \<noteq> 0"
    by (auto simp: string_wire_ok_def)
  have ws: "wire_string m v = take (unat (w_len v)) b" using b by (simp add: wire_string_def)
  define n where "n = min (unat (w_len v)) (length buf - 1)"
  have n: "n < length buf" "n \<le> unat (w_len v)" "n \<le> length b" using assms(2) b by (cases buf; auto simp: n_def)+
  have tk: "take n (wire_string m v) = take n b" using n ws by (simp add: min_absorb1)
  show thesis
  proof (cases "w_len v = 0")
    case True
    then have "gengo_wire_read_str m v buf = Some (0, buf[0 := 0])" "n = 0"
      using assms(2) by (simp_all add: gengo_wire_read_str_def n_def)
    moreover have "cstr (buf[0 := 0]) = []"
      using assms(2) by (cases buf) (simp_all add: cstr_def)
    ultimately show thesis
      using assms(2) that [of 0 "buf[0 := 0]"] by (auto simp: n_def cstr_def)
  next
    case False
    have n_eq: "(if unat (w_len v) < length buf then unat (w_len v) else length buf - 1) = n"
      using assms(2) by (auto simp: n_def)
    have rd: "gengo_wire_read_str m v buf = Some (n, put_cstr buf (take n b))"
      using False assms(2) t b n unfolding gengo_wire_read_str_def n_eq
      by (simp add: load_bytes_def Let_def)
    have ln: "length (take n b) = n" using n by simp
    show thesis
    proof (rule that [OF rd _ n_def])
      show "length (put_cstr buf (take n b)) = length buf" using n(1) by simp
      show "take n (put_cstr buf (take n b)) = take n (wire_string m v)"
        using put_cstr_take [of "take n b" buf] ln tk by simp
      show "put_cstr buf (take n b) ! n = 0" using ln by (simp add: put_cstr_def nth_append)
      show "cstr (put_cstr buf (take n b)) = cstr (take n (wire_string m v))" using tk by simp
    qed
  qed
qed

lemma gengo_wire_str_ok:
  assumes "s \<noteq> 0" and "mem_bytes m s = Some b" and "nul_terminated b" and "length b \<le> 2 ^ 32"
  obtains v where "gengo_wire_str m s = Some v" and "string_wire_ok m v" and "wire_string m v = cstr b"
    and "unat (w_len v) = length (cstr b)"
proof -
  have l: "length (cstr b) < 2 ^ 32" using assms(3,4) length_cstr_less by (metis less_le_trans)
  then have u: "unat (of_nat (length (cstr b)) :: u32) = length (cstr b)"
    by (simp add: unat_of_nat)
  have "take (length (cstr b)) b = cstr b"
    by (simp add: cstr_def takeWhile_eq_take [symmetric])
  then show thesis
    using assms u that [of "gengo_wire_str_n s (of_nat (length (cstr b)))"] length_cstr_le [of b]
    by (simp add: gengo_defs c_strlen_def string_wire_ok_def wire_string_def)
qed

lemma load_wire_nth:
  "mem_wires m p = Some ws \<Longrightarrow> i < length ws \<Longrightarrow> load_wire m p i = Points (ws ! i)"
  by (simp add: load_wire_def)

lemma unat_double:
  assumes "i < n" and "unat n \<le> 2 ^ 31"
  shows "unat (i * 2 :: u32) = 2 * unat i" and "unat (i * 2 + 1 :: u32) = 2 * unat i + 1"
proof -
  have "unat i < 2 ^ 31" using assms by (metis less_le_trans word_less_nat_alt)
  then show "unat (i * 2) = 2 * unat i" "unat (i * 2 + 1) = 2 * unat i + 1"
    by (simp_all add: unat_word_ariths)
qed

section \<open>Claims\<close>

text \<open>
  Reading back an integer wire gives exactly the \<open>int64_t\<close> it was built from, over the whole
  64-bit range: the raw bits travel, so no value is rounded through a double.
\<close>

theorem wire_int_roundtrip:
  assumes "- (2 ^ 63) \<le> n" and "n < 2 ^ 63"
  shows "gengo_wire_as_int (gengo_wire_int n) = Some n"
  using assms by (rule wire_int_exact)

theorem wire_int_roundtrip_witness:
  "gengo_wire_as_int (gengo_wire_int (- 9223372036854775808)) = Some (- 9223372036854775808)"
  by (rule wire_int_roundtrip) simp_all

text \<open>
  An integer of magnitude below \<open>2 ^ 53\<close> that is sent as a float wire (converted to double with
  round-to-nearest-even) is read back by \<open>gengo_wire_as_int\<close> unchanged, and the read is defined: the cast
  of the double to \<open>int64_t\<close> is in range.
\<close>

theorem wire_float_int_roundtrip:
  assumes "\<bar>n\<bar> < 2 ^ 53"
  shows "gengo_wire_as_int (gengo_wire_float (f64_of_i64 n)) = Some n"
  using assms by (rule wire_float_int)

theorem wire_float_int_roundtrip_witness:
  "gengo_wire_as_int (gengo_wire_float (f64_of_i64 (- 9007199254740991))) = Some (- 9007199254740991)"
  by (rule wire_float_int_roundtrip) simp

text \<open>
  A C string of fewer than \<open>2 ^ 32\<close> bytes put into a wire with \<open>gengo_wire_str\<close> and copied out with
  \<open>gengo_wire_read_str\<close> into a non-empty buffer: no byte outside the string or the buffer is touched (both
  calls succeed, the buffer keeps its size), the buffer ends up NUL-terminated, and it holds the string, cut
  to the buffer size less one; the return value is the number of bytes copied.
\<close>

theorem wire_str_read_back:
  assumes "s \<noteq> 0" and "mem_bytes m s = Some b" and "nul_terminated b" and "length b \<le> 2 ^ 32" and "buf \<noteq> []"
  shows "\<exists>v buf'. gengo_wire_str m s = Some v \<and>
    gengo_wire_read_str m v buf = Some (min (length (cstr b)) (length buf - 1), buf') \<and>
    length buf' = length buf \<and> nul_terminated buf' \<and> cstr buf' = take (length buf - 1) (cstr b)"
proof -
  obtain v where v: "gengo_wire_str m s = Some v" "string_wire_ok m v" "wire_string m v = cstr b"
      "unat (w_len v) = length (cstr b)"
    using gengo_wire_str_ok [OF assms(1-4)] by blast
  obtain n buf' where r: "gengo_wire_read_str m v buf = Some (n, buf')" "length buf' = length buf"
      "n = min (length (cstr b)) (length buf - 1)" "buf' ! n = 0" "cstr buf' = cstr (take n (cstr b))"
    using read_str_ok [OF v(2) assms(5)] v(3,4) by metis
  have "n < length buf'" using r(2,3) assms(5) by (cases buf) auto
  then have "nul_terminated buf'" using r(4) unfolding nul_terminated_def by (metis nth_mem)
  moreover have "0 \<notin> set (take n (cstr b))" using cstr_no_nul in_set_takeD by metis
  then have "cstr buf' = take (length buf - 1) (cstr b)" using r(3,5) by (simp add: cstr_id min_def)
  ultimately show ?thesis using v(1) r by auto
qed

definition demo_mem :: cmem where
  "demo_mem = \<lparr>mem_bytes = (\<lambda>p. if p = 64 then Some [104, 105, 0, 7] else None), mem_wires = (\<lambda>_. None)\<rparr>"

theorem wire_str_read_back_witness:
  "\<exists>v buf'. gengo_wire_str demo_mem 64 = Some v \<and>
    gengo_wire_read_str demo_mem v [9, 9] = Some (1, buf') \<and>
    length buf' = length [9, 9 :: byte] \<and> nul_terminated buf' \<and> cstr buf' = [104]"
  using wire_str_read_back [of 64 demo_mem "[104, 105, 0, 7]" "[9, 9]"]
  by (simp add: demo_mem_def nul_terminated_def cstr_def)

text \<open>
  For a map wire of at most \<open>2 ^ 31\<close> entries over a block of alternating keys and values, the key and value
  accessors are total and exact: inside the bounds they yield entry \<open>i\<close>'s key and value, outside they
  yield NULL, and they never read outside the block.
\<close>

theorem wire_map_access:
  assumes "unat n \<le> 2 ^ 31" and "mem_wires m p = Some kvs" and "length kvs = 2 * unat n"
  shows "gengo_wire_map_key_at m (gengo_wire_map p n) i = (if i < n then Points (kvs ! (2 * unat i)) else NullPtr)
    \<and> gengo_wire_map_value_at m (gengo_wire_map p n) i = (if i < n then Points (kvs ! (2 * unat i + 1)) else NullPtr)"
proof -
  have lt: "2 * unat i + 1 < length kvs" if "i < n"
    using that assms(3) by (simp add: word_less_nat_alt)
  have "gengo_wire_map_key_at m (gengo_wire_map p n) i = (if i < n then Points (kvs ! (2 * unat i)) else NullPtr)"
    using lt assms unat_double [of i n]
    by (auto simp: gengo_wire_map_key_at_def gengo_defs load_wire_nth not_less)
  moreover have "gengo_wire_map_value_at m (gengo_wire_map p n) i = (if i < n then Points (kvs ! (2 * unat i + 1)) else NullPtr)"
    using lt assms unat_double [of i n]
    by (auto simp: gengo_wire_map_value_at_def gengo_defs load_wire_nth not_less)
  ultimately show ?thesis by simp
qed

definition demo_map_mem :: cmem where
  "demo_map_mem = \<lparr>mem_bytes = (\<lambda>_. None),
     mem_wires = (\<lambda>p. if p = 8 then Some [gengo_wire_int 1, gengo_wire_bool 1, gengo_wire_int 2, gengo_wire_bool 0] else None)\<rparr>"

theorem wire_map_access_witness:
  "gengo_wire_map_key_at demo_map_mem (gengo_wire_map 8 2) 1 = Points (gengo_wire_int 2)"
  using wire_map_access [of 2 demo_map_mem 8 "[gengo_wire_int 1, gengo_wire_bool 1, gengo_wire_int 2, gengo_wire_bool 0]" 1]
  by (simp add: demo_map_mem_def)

text \<open>
  Beyond \<open>2 ^ 31\<close> entries the 32-bit product \<open>index * 2u\<close> wraps: the accessor for entry
  \<open>2 ^ 31 + i\<close> reads entry \<open>i\<close> again instead of its own key, although the index passed the bounds check.
\<close>

theorem wire_map_key_wraps:
  assumes "0x80000000 + i < w_len v" and "i < 0x80000000"
  shows "gengo_wire_map_key_at m v (0x80000000 + i) = gengo_wire_map_key_at m v i"
proof -
  have "(0x80000000 * 2 :: u32) = 0" by code_simp
  then have "(0x80000000 + i) * 2 = i * (2::u32)" by (simp only: distrib_right add_0)
  moreover have "i < w_len v" using assms by (simp add: word_less_nat_alt unat_word_ariths)
  ultimately show ?thesis
    using assms(1) unfolding gengo_wire_map_key_at_def by (simp only: not_le [symmetric] simp_thms)
qed

theorem wire_map_key_wraps_witness:
  "gengo_wire_map_key_at demo_map_mem (gengo_wire_map 8 0x80000005) 0x80000001 = Points (gengo_wire_int 2)"
proof -
  have "gengo_wire_map_key_at demo_map_mem (gengo_wire_map 8 0x80000005) (0x80000000 + 1)
    = gengo_wire_map_key_at demo_map_mem (gengo_wire_map 8 0x80000005) 1"
    by (rule wire_map_key_wraps) (simp_all add: gengo_defs)
  then show ?thesis
    by (simp add: gengo_wire_map_key_at_def gengo_wire_map_def gengo_wire_null_def load_wire_def demo_map_mem_def)
qed

end
