(* ===== verification/ValueCodec.thy ===== *)
theory ValueCodec
  imports GengoWire
begin

text \<open>
  The conversion between script values and wires at the engine's boundary (\<open>src/engine.zig\<close>:
  \<open>wireToValueDepth\<close>, \<open>valueToWireDepth\<close>, \<open>fillArrayWires\<close>, \<open>fillMapWires\<close>, \<open>wireLen\<close>, \<open>makeWire\<close>) with the bump
  allocator it takes its wire arrays from (\<open>State.bump\<close> of \<open>src/runtime/heap.zig\<close>).
  A value is a tree; \<open>'s\<close> is what stands for a string: a pointer with the bytes behind it when a value is sent out,
  the bytes alone when a value comes in (the engine copies them). The object kinds of the garbage-collected heap that
  are sent alike share a constructor: the four array kinds, the three map kinds, the two struct kinds, the two
  variant kinds. A cyclic value is the limit of its unfoldings and fails like any that is deeper than 64.
  In the decoder \<open>None\<close> is a panic of the engine or a read of wild memory.
\<close>

section \<open>Values\<close>

datatype 's Value =
    VNull
  | VBool bool
  | VInt u64
  | VFloat u64
  | VDecimal u64
  | VRune nat
  | VString 's
  | VError 's
  | VArray "'s Value list"
  | VMap "('s Value \<times> 's Value) list"
  | VStruct "('s Value \<times> 's Value) list"
  | VNamed "'s Value"
  | VEnum 's
  | VVariant 's 's 's "'s Value" "('s \<times> 's Value) list"
  | VUnsupported

datatype wire_error =
  HostValueTooDeep | HostValueTooLarge | UnsupportedWireType | UnsupportedHostValueType | WireBufferOverflow | OutOfMemory

definition MaxWireDepth :: nat where "MaxWireDepth = 64"

definition makeWire :: "gengo_wire_tag_t \<Rightarrow> u64 \<Rightarrow> u32 \<Rightarrow> gengo_value_wire_t" where
  "makeWire t p n = \<lparr>w_tag = tag_code t, w_flags = 0, w_reserved = 0, w_payload = p, w_len = n, w_reserved2 = 0\<rparr>"

definition wireLen :: "nat \<Rightarrow> wire_error + u32" where
  "wireLen n = (if 2 ^ 32 \<le> n then Inl HostValueTooLarge else Inr (of_nat n))"

section \<open>The bump allocator\<close>

text \<open>
  Wires are 24 bytes with alignment 8. \<open>bh_base\<close> is the address of the heap array, \<open>bh_top\<close> its \<open>permanent_bump\<close> and
  \<open>bh_floor\<close> its \<open>overflow_bump\<close>.
\<close>

record wire_heap =
  bh_base :: nat
  bh_top :: nat
  bh_floor :: nat
  bh_mem :: cmem

definition bump :: "nat \<Rightarrow> wire_heap \<Rightarrow> (nat \<times> wire_heap) option" where
  "bump n s =
     (let sz = 24 * n in
      if bh_top s < sz then None
      else let pos = (bh_top s - sz) div 8 * 8 in
        if pos < bh_floor s then None else Some (bh_base s + pos, s\<lparr>bh_top := pos\<rparr>))"

text \<open>The slice handed out by the allocator is filled in place; a slice of no elements writes nothing.\<close>

definition store_wires :: "nat \<Rightarrow> gengo_value_wire_t list \<Rightarrow> wire_heap \<Rightarrow> wire_heap" where
  "store_wires p ws s =
     (if ws = [] then s
      else s\<lparr>bh_mem := (bh_mem s)\<lparr>mem_wires := (mem_wires (bh_mem s))(of_nat p \<mapsto> ws)\<rparr>\<rparr>)"

section \<open>Values to wires\<close>

type_synonym hval = "(u64 \<times> byte list) Value"
type_synonym enc_result = "wire_error + (gengo_value_wire_t \<times> wire_heap)"

definition string_wire :: "gengo_wire_tag_t \<Rightarrow> u64 \<times> byte list \<Rightarrow> wire_heap \<Rightarrow> enc_result" where
  "string_wire t b s = (case wireLen (length (snd b)) of Inl e \<Rightarrow> Inl e | Inr n \<Rightarrow> Inr (makeWire t (fst b) n, s))"

definition too_deep :: "nat \<Rightarrow> enc_result \<Rightarrow> enc_result" where
  "too_deep depth r = (if MaxWireDepth \<le> depth then Inl HostValueTooDeep else r)"

text \<open>A container whose elements are already encoded: the length check and the final wire.\<close>

definition close_wires :: "gengo_wire_tag_t \<Rightarrow> nat \<Rightarrow> nat \<Rightarrow> wire_error + (gengo_value_wire_t list \<times> wire_heap) \<Rightarrow> enc_result" where
  "close_wires t n p r =
     (case r of Inl e \<Rightarrow> Inl e
      | Inr (ws, s) \<Rightarrow> (case wireLen n of Inl e \<Rightarrow> Inl e | Inr k \<Rightarrow> Inr (makeWire t (of_nat p) k, store_wires p ws s)))"

definition null_wire :: gengo_value_wire_t where
  "null_wire = makeWire GENGO_WIRE_NULL 0 0"

definition number_wire :: "byte \<Rightarrow> u64 \<Rightarrow> gengo_value_wire_t" where
  "number_wire flags p = (makeWire GENGO_WIRE_NUMBER p 0)\<lparr>w_flags := flags\<rparr>"

text \<open>
  The three loops that fill a slice of wires, over the conversion \<open>enc\<close> of one element: array elements, the keys and
  values of entries, and the named fields of a variant.
\<close>

definition then_wire ::
  "enc_result \<Rightarrow> (wire_heap \<Rightarrow> wire_error + (gengo_value_wire_t list \<times> wire_heap)) \<Rightarrow> wire_error + (gengo_value_wire_t list \<times> wire_heap)" where
  "then_wire r k = (case r of Inl e \<Rightarrow> Inl e | Inr (w, s) \<Rightarrow>
     (case k s of Inl e \<Rightarrow> Inl e | Inr (ws, s) \<Rightarrow> Inr (w # ws, s)))"

fun fillArrayWires :: "('a \<Rightarrow> wire_heap \<Rightarrow> enc_result) \<Rightarrow> 'a list \<Rightarrow> wire_heap \<Rightarrow> wire_error + (gengo_value_wire_t list \<times> wire_heap)" where
  "fillArrayWires enc [] s = Inr ([], s)"
| "fillArrayWires enc (v # vs) s = then_wire (enc v s) (fillArrayWires enc vs)"

fun fillMapWires :: "('a \<Rightarrow> wire_heap \<Rightarrow> enc_result) \<Rightarrow> ('a \<times> 'a) list \<Rightarrow> wire_heap \<Rightarrow> wire_error + (gengo_value_wire_t list \<times> wire_heap)" where
  "fillMapWires enc [] s = Inr ([], s)"
| "fillMapWires enc ((k, v) # kvs) s = then_wire (enc k s) (\<lambda>s. then_wire (enc v s) (fillMapWires enc kvs))"

fun fillFieldWires :: "nat \<Rightarrow> ('a \<Rightarrow> wire_heap \<Rightarrow> enc_result) \<Rightarrow> ((u64 \<times> byte list) \<times> 'a) list \<Rightarrow> wire_heap
    \<Rightarrow> wire_error + (gengo_value_wire_t list \<times> wire_heap)" where
  "fillFieldWires depth enc [] s = Inr ([], s)"
| "fillFieldWires depth enc ((k, v) # kvs) s =
     then_wire (too_deep depth (string_wire GENGO_WIRE_STRING k s)) (\<lambda>s. then_wire (enc v s) (fillFieldWires depth enc kvs))"

lemma fillArrayWires_cong [fundef_cong]:
  assumes "xs = ys" and "\<And>x s. x \<in> set ys \<Longrightarrow> f x s = g x s"
  shows "fillArrayWires f xs = fillArrayWires g ys"
  unfolding assms(1) using assms(2)
proof (induction ys)
  case (Cons v ys)
  have "f v = g v" by (rule ext) (rule Cons.prems, simp)
  moreover have "fillArrayWires f ys = fillArrayWires g ys" by (rule Cons.IH) (rule Cons.prems, simp)
  ultimately show ?case by (intro ext) simp
qed (simp add: fun_eq_iff)

lemma fillMapWires_cong [fundef_cong]:
  assumes "xs = ys" and "\<And>x y s. (x, y) \<in> set ys \<Longrightarrow> f x s = g x s" and "\<And>x y s. (x, y) \<in> set ys \<Longrightarrow> f y s = g y s"
  shows "fillMapWires f xs = fillMapWires g ys"
  unfolding assms(1) using assms(2,3)
proof (induction ys)
  case (Cons p ys)
  obtain k v where p: "p = (k, v)" by (cases p)
  have "f k = g k" by (rule ext) (rule Cons.prems(1) [of k v], simp add: p)
  moreover have "f v = g v" by (rule ext) (rule Cons.prems(2) [of k v], simp add: p)
  moreover have "fillMapWires f ys = fillMapWires g ys" 
    by (rule Cons.IH) (erule Cons.prems [OF list.set_intros(2)])+
  ultimately show ?case by (intro ext) (simp add: p)
qed (simp add: fun_eq_iff)

lemma fillFieldWires_cong [fundef_cong]:
  assumes "xs = ys" and "d = e" and "\<And>x y s. (x, y) \<in> set ys \<Longrightarrow> f y s = g y s"
  shows "fillFieldWires d f xs = fillFieldWires e g ys"
  unfolding assms(1,2) using assms(3)
proof (induction ys)
  case (Cons p ys)
  obtain k v where p: "p = (k, v)" by (cases p)
  have "f v = g v" by (rule ext) (rule Cons.prems [of k v], simp add: p)
  moreover have "fillFieldWires e f ys = fillFieldWires e g ys"
    by (rule Cons.IH) (erule Cons.prems [OF list.set_intros(2)])
  ultimately show ?case by (intro ext) (simp add: p)
qed (simp add: fun_eq_iff)

text \<open>A container of \<open>n\<close> wires from the bump allocator; without room the value is sent as null.\<close>

definition bumped :: "gengo_wire_tag_t \<Rightarrow> nat \<Rightarrow> nat \<Rightarrow> (wire_heap \<Rightarrow> wire_error + (gengo_value_wire_t list \<times> wire_heap)) \<Rightarrow> wire_heap \<Rightarrow> enc_result" where
  "bumped t n k fill s =
     (case bump k s of None \<Rightarrow> Inr (null_wire, s) | Some (p, s) \<Rightarrow> close_wires t n p (fill s))"

fun valueToWireDepth :: "hval \<Rightarrow> nat \<Rightarrow> wire_heap \<Rightarrow> enc_result" where
  "valueToWireDepth VNull depth s = too_deep depth (Inr (null_wire, s))"
| "valueToWireDepth (VBool b) depth s = too_deep depth (Inr (makeWire GENGO_WIRE_BOOLEAN (if b then 1 else 0) 0, s))"
| "valueToWireDepth (VInt n) depth s = too_deep depth (Inr (number_wire GENGO_WIRE_FLAG_INTEGER n, s))"
| "valueToWireDepth (VFloat n) depth s = too_deep depth (Inr (number_wire 0 n, s))"
| "valueToWireDepth (VDecimal d) depth s = too_deep depth (Inr (number_wire GENGO_WIRE_FLAG_DECIMAL d, s))"
| "valueToWireDepth (VRune r) depth s = too_deep depth (Inr (number_wire GENGO_WIRE_FLAG_RUNE (of_nat r), s))"
| "valueToWireDepth (VString b) depth s = too_deep depth (string_wire GENGO_WIRE_STRING b s)"
| "valueToWireDepth (VError b) depth s = too_deep depth (string_wire GENGO_WIRE_ERROR b s)"
| "valueToWireDepth (VArray items) depth s = too_deep depth
     (bumped GENGO_WIRE_ARRAY (length items) (length items) (fillArrayWires (\<lambda>v s. valueToWireDepth v (depth + 1) s) items) s)"
| "valueToWireDepth (VMap entries) depth s = too_deep depth
     (bumped GENGO_WIRE_MAP (length entries) (length entries * 2) (fillMapWires (\<lambda>v s. valueToWireDepth v (depth + 1) s) entries) s)"
| "valueToWireDepth (VStruct fs) depth s = too_deep depth
     (bumped GENGO_WIRE_MAP (length fs) (length fs * 2) (fillMapWires (\<lambda>v s. valueToWireDepth v (depth + 1) s) fs) s)"
| "valueToWireDepth (VNamed v) depth s = too_deep depth (valueToWireDepth v (depth + 1) s)"
| "valueToWireDepth (VEnum name) depth s = too_deep depth (string_wire GENGO_WIRE_STRING name s)"
| "valueToWireDepth (VVariant ktag tag kvalue payload fs) depth s = too_deep depth
     (bumped GENGO_WIRE_MAP (2 + length fs) ((2 + length fs) * 2)
       (\<lambda>s. then_wire (too_deep (depth + 1) (string_wire GENGO_WIRE_STRING ktag s))
         (\<lambda>s. then_wire (too_deep (depth + 1) (string_wire GENGO_WIRE_STRING tag s))
           (\<lambda>s. then_wire (too_deep (depth + 1) (string_wire GENGO_WIRE_STRING kvalue s))
             (\<lambda>s. then_wire (valueToWireDepth payload (depth + 1) s)
               (fillFieldWires (depth + 1) (\<lambda>v s. valueToWireDepth v (depth + 1) s) fs))))) s)"
| "valueToWireDepth VUnsupported depth s = too_deep depth (Inl UnsupportedWireType)"

definition valueToWire :: "hval \<Rightarrow> wire_heap \<Rightarrow> enc_result" where
  "valueToWire v s = valueToWireDepth v 0 s"

section \<open>Wires to values\<close>

definition load_wires :: "cmem \<Rightarrow> u64 \<Rightarrow> nat \<Rightarrow> gengo_value_wire_t list option" where
  "load_wires m p n =
     (if n = 0 then Some []
      else case mem_wires m p of None \<Rightarrow> None | Some ws \<Rightarrow> if n \<le> length ws then Some (take n ws) else None)"

type_synonym 'a dec = "(wire_error + 'a) option"

definition dec_then :: "'a dec \<Rightarrow> ('a \<Rightarrow> 'b dec) \<Rightarrow> 'b dec" where
  "dec_then r k = (case r of None \<Rightarrow> None | Some (Inl e) \<Rightarrow> Some (Inl e) | Some (Inr x) \<Rightarrow> k x)"

fun dec_all :: "('a \<Rightarrow> 'b dec) \<Rightarrow> 'a list \<Rightarrow> 'b list dec" where
  "dec_all f [] = Some (Inr [])"
| "dec_all f (x # xs) = dec_then (f x) (\<lambda>y. dec_then (dec_all f xs) (\<lambda>ys. Some (Inr (y # ys))))"

lemma dec_all_cong [fundef_cong]:
  assumes "xs = ys" and "\<And>x. x \<in> set ys \<Longrightarrow> f x = g x" shows "dec_all f xs = dec_all g ys"
  unfolding assms(1) using assms(2) by (induction ys) auto

fun pair_up :: "'a list \<Rightarrow> ('a \<times> 'a) list" where
  "pair_up (k # v # vs) = (k, v) # pair_up vs"
| "pair_up _ = []"

text \<open>
  The bytes of a string or an error: an empty one is not dereferenced. \<open>gc_ok n\<close> tells whether the managed heap has
  room for \<open>n\<close> bytes or elements.
\<close>

definition wire_text :: "(nat \<Rightarrow> bool) \<Rightarrow> cmem \<Rightarrow> gengo_value_wire_t \<Rightarrow> byte list dec" where
  "wire_text gc_ok m w =
     (if w_len w = 0 then Some (Inr [])
      else if w_payload w = 0 then None
      else case load_bytes m (w_payload w) (unat (w_len w)) of None \<Rightarrow> None
           | Some b \<Rightarrow> if gc_ok (length b) then Some (Inr b) else Some (Inl OutOfMemory))"

text \<open>
  A null payload of an array or a map panics even when the length is 0, a rune beyond 21 bits panics, and so does the
  32-bit product \<open>count * 2\<close>.
\<close>

definition wire_elems :: "(nat \<Rightarrow> bool) \<Rightarrow> cmem \<Rightarrow> gengo_value_wire_t \<Rightarrow> nat \<Rightarrow> gengo_value_wire_t list dec" where
  "wire_elems gc_ok m w n =
     (if w_payload w = 0 \<or> 2 ^ 32 \<le> n then None
      else case load_wires m (w_payload w) n of None \<Rightarrow> None
           | Some ws \<Rightarrow> if gc_ok (unat (w_len w)) then Some (Inr ws) else Some (Inl OutOfMemory))"

function wireToValueDepth :: "(nat \<Rightarrow> bool) \<Rightarrow> cmem \<Rightarrow> gengo_value_wire_t \<Rightarrow> nat \<Rightarrow> byte list Value dec" where
  "wireToValueDepth gc_ok m w depth =
     (if MaxWireDepth \<le> depth then Some (Inl HostValueTooDeep)
      else if w_tag w = tag_code GENGO_WIRE_NULL then Some (Inr VNull)
      else if w_tag w = tag_code GENGO_WIRE_BOOLEAN then Some (Inr (VBool (w_payload w \<noteq> 0)))
      else if w_tag w = tag_code GENGO_WIRE_NUMBER then
        (if w_flags w AND GENGO_WIRE_FLAG_DECIMAL \<noteq> 0 then Some (Inr (VDecimal (w_payload w)))
         else if w_flags w AND GENGO_WIRE_FLAG_RUNE \<noteq> 0 then
           (if 2 ^ 21 \<le> unat (w_payload w) then None else Some (Inr (VRune (unat (w_payload w)))))
         else if w_flags w AND GENGO_WIRE_FLAG_INTEGER \<noteq> 0 then Some (Inr (VInt (w_payload w)))
         else Some (Inr (VFloat (w_payload w))))
      else if w_tag w = tag_code GENGO_WIRE_ERROR then dec_then (wire_text gc_ok m w) (\<lambda>b. Some (Inr (VError b)))
      else if w_tag w = tag_code GENGO_WIRE_STRING then dec_then (wire_text gc_ok m w) (\<lambda>b. Some (Inr (VString b)))
      else if w_tag w = tag_code GENGO_WIRE_ARRAY then
        dec_then (wire_elems gc_ok m w (unat (w_len w)))
          (\<lambda>ws. dec_then (dec_all (\<lambda>e. wireToValueDepth gc_ok m e (depth + 1)) ws) (\<lambda>vs. Some (Inr (VArray vs))))
      else if w_tag w = tag_code GENGO_WIRE_MAP then
        dec_then (wire_elems gc_ok m w (unat (w_len w) * 2))
          (\<lambda>ws. dec_then (dec_all (\<lambda>e. wireToValueDepth gc_ok m e (depth + 1)) ws) (\<lambda>vs. Some (Inr (VMap (pair_up vs)))))
      else Some (Inr VNull))"
  by pat_completeness auto
termination by (relation "measure (\<lambda>(gc_ok, m, w, depth). MaxWireDepth - depth)") (auto simp: MaxWireDepth_def)

declare wireToValueDepth.simps [simp del]

definition wireToValue :: "(nat \<Rightarrow> bool) \<Rightarrow> cmem \<Rightarrow> gengo_value_wire_t \<Rightarrow> byte list Value dec" where
  "wireToValue gc_ok m w = wireToValueDepth gc_ok m w 0"

section \<open>What a value becomes at the boundary\<close>

text \<open>Structs and variants arrive as maps, enum members as strings, and a named value as the value it wraps.\<close>

fun contents :: "hval \<Rightarrow> byte list Value" where
  "contents VNull = VNull"
| "contents (VBool b) = VBool b"
| "contents (VInt n) = VInt n"
| "contents (VFloat n) = VFloat n"
| "contents (VDecimal n) = VDecimal n"
| "contents (VRune r) = VRune r"
| "contents (VString b) = VString (snd b)"
| "contents (VError b) = VError (snd b)"
| "contents (VArray vs) = VArray (map contents vs)"
| "contents (VMap kvs) = VMap (map (\<lambda>(k, v). (contents k, contents v)) kvs)"
| "contents (VStruct kvs) = VMap (map (\<lambda>(k, v). (contents k, contents v)) kvs)"
| "contents (VNamed v) = contents v"
| "contents (VEnum b) = VString (snd b)"
| "contents (VVariant kt t kv p fs) = VMap ((VString (snd kt), VString (snd t)) # (VString (snd kv), contents p)
     # map (\<lambda>(k, v). (VString (snd k), contents v)) fs)"
| "contents VUnsupported = VNull"

text \<open>The number of wires a value takes from the bump allocator, and the depth it needs.\<close>

fun cells :: "'s Value \<Rightarrow> nat" where
  "cells (VArray vs) = length vs + sum_list (map cells vs)"
| "cells (VMap kvs) = length kvs * 2 + sum_list (map (\<lambda>(k, v). cells k + cells v) kvs)"
| "cells (VStruct kvs) = length kvs * 2 + sum_list (map (\<lambda>(k, v). cells k + cells v) kvs)"
| "cells (VNamed v) = cells v"
| "cells (VVariant kt t kv p fs) = (2 + length fs) * 2 + cells p + sum_list (map (\<lambda>(k, v). cells v) fs)"
| "cells _ = 0"

text \<open>
  A value that can be sent from depth \<open>d\<close> of the 64 levels: supported, not too deep, with lengths of 32 bits, runes
  of 21 bits and strings whose bytes are in memory.
\<close>

definition readable :: "cmem \<Rightarrow> u64 \<times> byte list \<Rightarrow> bool" where
  "readable m b \<longleftrightarrow> length (snd b) < 2 ^ 32 \<and>
     (snd b \<noteq> [] \<longrightarrow> fst b \<noteq> 0 \<and> load_bytes m (fst b) (length (snd b)) = Some (snd b))"

fun sendable :: "cmem \<Rightarrow> nat \<Rightarrow> hval \<Rightarrow> bool" where
  "sendable m d VUnsupported = False"
| "sendable m d VNull = (d < MaxWireDepth)"
| "sendable m d (VBool b) = (d < MaxWireDepth)"
| "sendable m d (VInt n) = (d < MaxWireDepth)"
| "sendable m d (VFloat n) = (d < MaxWireDepth)"
| "sendable m d (VDecimal n) = (d < MaxWireDepth)"
| "sendable m d (VRune r) = (d < MaxWireDepth \<and> r < 2 ^ 21)"
| "sendable m d (VString b) = (d < MaxWireDepth \<and> readable m b)"
| "sendable m d (VError b) = (d < MaxWireDepth \<and> readable m b)"
| "sendable m d (VEnum b) = (d < MaxWireDepth \<and> readable m b)"
| "sendable m d (VArray vs) = (d < MaxWireDepth \<and> length vs < 2 ^ 32 \<and> (\<forall>v \<in> set vs. sendable m (d + 1) v))"
| "sendable m d (VMap kvs) = (d < MaxWireDepth \<and> length kvs * 2 < 2 ^ 32
     \<and> (\<forall>(k, v) \<in> set kvs. sendable m (d + 1) k \<and> sendable m (d + 1) v))"
| "sendable m d (VStruct kvs) = (d < MaxWireDepth \<and> length kvs * 2 < 2 ^ 32
     \<and> (\<forall>(k, v) \<in> set kvs. sendable m (d + 1) k \<and> sendable m (d + 1) v))"
| "sendable m d (VNamed v) = (d < MaxWireDepth \<and> sendable m (d + 1) v)"
| "sendable m d (VVariant kt t kv p fs) = (d + 1 < MaxWireDepth \<and> (2 + length fs) * 2 < 2 ^ 32
     \<and> readable m kt \<and> readable m t \<and> readable m kv \<and> sendable m (d + 1) p
     \<and> (\<forall>(k, v) \<in> set fs. readable m k \<and> sendable m (d + 1) v))"

section \<open>Sending and receiving\<close>

definition heap_ok :: "wire_heap \<Rightarrow> bool" where
  "heap_ok s \<longleftrightarrow> 0 < bh_base s \<and> bh_base s + bh_top s < 2 ^ 64 \<and> 8 dvd bh_top s"

text \<open>
  \<open>frame s s'\<close>: from \<open>s\<close> to \<open>s'\<close> the allocator only moved down, and only wires between the two tops were written.
\<close>

definition frame :: "wire_heap \<Rightarrow> wire_heap \<Rightarrow> nat \<Rightarrow> bool" where
  "frame s s' n \<longleftrightarrow> bh_base s' = bh_base s \<and> bh_floor s' = bh_floor s \<and> bh_top s' + 24 * n = bh_top s
     \<and> mem_bytes (bh_mem s') = mem_bytes (bh_mem s)
     \<and> (\<forall>a. \<not> (bh_base s + bh_top s' \<le> unat a \<and> unat a < bh_base s + bh_top s)
          \<longrightarrow> mem_wires (bh_mem s') a = mem_wires (bh_mem s) a)"

definition agree :: "cmem \<Rightarrow> wire_heap \<Rightarrow> wire_heap \<Rightarrow> bool" where
  "agree m s s' \<longleftrightarrow> mem_bytes m = mem_bytes (bh_mem s') \<and>
     (\<forall>a. bh_base s + bh_top s' \<le> unat a \<and> unat a < bh_base s + bh_top s \<longrightarrow> mem_wires m a = mem_wires (bh_mem s') a)"

text \<open>\<open>sent d s vs ws s'\<close>: the wires \<open>ws\<close> stand for the values \<open>vs\<close> in every memory that keeps what was written.\<close>

definition sent :: "(nat \<Rightarrow> bool) \<Rightarrow> nat \<Rightarrow> wire_heap \<Rightarrow> hval list \<Rightarrow> gengo_value_wire_t list \<Rightarrow> wire_heap \<Rightarrow> bool" where
  "sent gc_ok d s vs ws s' \<longleftrightarrow> frame s s' (sum_list (map cells vs)) \<and> length ws = length vs \<and>
     (\<forall>m e. agree m s s' \<longrightarrow> e \<le> d \<longrightarrow> dec_all (\<lambda>w. wireToValueDepth gc_ok m w e) ws = Some (Inr (map contents vs)))"

lemma frame_refl [simp]: "frame s s 0"
  by (simp add: frame_def)

lemma frame_trans: "frame s t n \<Longrightarrow> frame t u k \<Longrightarrow> frame s u (n + k)"
  unfolding frame_def by (auto simp: not_le)

end
