(* ===== verification/HostApi.thy ===== *)
theory HostApi
  imports GengoWire
begin

text \<open>
  What a C program that embeds the engine sees: the prototypes of \<open>gengo-engine.h\<close> as a record of operations on
  the state \<open>'w\<close> of the engine library, and the few stdio calls the hosts use.
  A pointer argument with its length is a \<open>cslice\<close>: the bytes behind the pointer (\<open>None\<close> for a null pointer)
  and the \<open>int32_t\<close> length that is passed. A call that takes wires also takes and returns the C memory they
  point into. An output parameter that may be left unwritten is an \<open>option\<close>.
  \<open>None\<close> as the result of a host function is undefined behaviour of the C program.
\<close>

section \<open>The prototypes of gengo-engine.h\<close>

type_synonym cslice = "byte list option \<times> int"

definition i32_of_nat :: "nat \<Rightarrow> int" where
  "i32_of_nat n = sint (of_nat n :: u32)"

definition slice_of :: "byte list \<Rightarrow> cslice" where
  "slice_of b = (Some b, i32_of_nat (length b))"

lemma i32_of_nat_small: "n < 2 ^ 31 \<Longrightarrow> i32_of_nat n = int n"
  by (simp add: i32_of_nat_def signed_of_nat signed_take_bit_int_eq_self)

record 'w engine_api =
  api_init :: "'w \<Rightarrow> int \<times> 'w"
  api_init_with_config :: "gengo_instance_config_t option \<Rightarrow> 'w \<Rightarrow> int \<times> 'w"
  api_destroy :: "int \<Rightarrow> 'w \<Rightarrow> 'w"
  api_reset :: "int \<Rightarrow> 'w \<Rightarrow> 'w"
  api_run :: "int \<Rightarrow> cslice \<Rightarrow> 'w \<Rightarrow> int \<times> 'w"
  api_run_path :: "int \<Rightarrow> cslice \<Rightarrow> cslice \<Rightarrow> 'w \<Rightarrow> int \<times> 'w"
  api_call :: "int \<Rightarrow> cslice \<Rightarrow> gengo_value_wire_t list \<Rightarrow> cmem \<Rightarrow> 'w
    \<Rightarrow> int \<times> gengo_value_wire_t option \<times> cmem \<times> 'w"
  api_load_bundle :: "int \<Rightarrow> cslice \<Rightarrow> cslice \<Rightarrow> 'w \<Rightarrow> int \<times> 'w"
  api_load_bundle_dir :: "int \<Rightarrow> cslice \<Rightarrow> cslice \<Rightarrow> 'w \<Rightarrow> int \<times> 'w"
  api_last_error :: "int \<Rightarrow> int \<Rightarrow> 'w \<Rightarrow> int \<times> byte list"
  api_last_error_line :: "int \<Rightarrow> 'w \<Rightarrow> int"
  api_last_error_col :: "int \<Rightarrow> 'w \<Rightarrow> int"
  api_set_write_fn :: "int \<Rightarrow> 'w \<Rightarrow> 'w"
  api_take_output :: "'w \<Rightarrow> (byte list \<times> bool) list \<times> 'w"

text \<open>
  The promises of the header that the hosts' memory safety rests on: the error text never exceeds the buffer,
  and a successful call writes its result, whose bytes are readable when it is a non-null string.
\<close>

locale engine_contract =
  fixes api :: "'w engine_api" and engine_ok :: "'w \<Rightarrow> bool"
  assumes last_error_fits:
      "engine_ok w \<Longrightarrow> api_last_error api h n w = (r, b) \<Longrightarrow> 0 \<le> r \<and> int (length b) = min r (max n 0)"
    and call_result:
      "engine_ok w \<Longrightarrow> api_call api h name args m w = (rc, out, m', w') \<Longrightarrow>
         engine_ok w' \<and> (rc = 0 \<longrightarrow> (\<exists>v. out = Some v
           \<and> (w_tag v = tag_code GENGO_WIRE_STRING \<and> w_payload v \<noteq> 0 \<longrightarrow> string_wire_ok m' v)))"
    and init_ok: "engine_ok w \<Longrightarrow> engine_ok (snd (api_init_with_config api c w)) \<and> engine_ok (snd (api_init api w))"
    and run_ok: "engine_ok w \<Longrightarrow> engine_ok (snd (api_run api h s w)) \<and> engine_ok (snd (api_run_path api h s p w))"
    and drop_ok: "engine_ok w \<Longrightarrow> engine_ok (api_destroy api h w) \<and> engine_ok (api_reset api h w)"
    and load_ok: "engine_ok w \<Longrightarrow> engine_ok (snd (api_load_bundle api h nm z w)) \<and> engine_ok (snd (api_load_bundle_dir api h nm d w))"
    and write_ok: "engine_ok w \<Longrightarrow> engine_ok (api_set_write_fn api h w) \<and> engine_ok (snd (api_take_output api w))"

text \<open>The engine keeps its error text in 512 bytes, which a host may rely on when it does not clamp the length.\<close>

locale engine_limits = engine_contract +
  assumes last_error_short: "engine_ok w \<Longrightarrow> fst (api_last_error api h n w) \<le> 512"

section \<open>Stdio\<close>

text \<open>
  A file as the hosts read it: whether the two seeks succeed, what \<open>ftell\<close> returns at the end, and the bytes
  \<open>fread\<close> delivers. \<open>malloc_ok\<close> is the allocator.
\<close>

record c_file =
  f_seek_end :: bool
  f_tell :: int
  f_seek_set :: bool
  f_bytes :: "byte list"

type_synonym file_system = "byte list \<Rightarrow> c_file option"

definition regular_file :: "byte list \<Rightarrow> c_file" where
  "regular_file b = \<lparr>f_seek_end = True, f_tell = int (length b), f_seek_set = True, f_bytes = b\<rparr>"

text \<open>The conversion \<open>%d\<close> of \<open>printf\<close>.\<close>

fun dec_nat :: "nat \<Rightarrow> byte list" where
  "dec_nat n = (if n < 10 then [48 + of_nat n] else dec_nat (n div 10) @ [48 + of_nat (n mod 10)])"

declare dec_nat.simps [simp del]

definition dec_int :: "int \<Rightarrow> byte list" where
  "dec_int i = (if i < 0 then 45 # dec_nat (nat (- i)) else dec_nat (nat i))"

text \<open>
  An automatic array of \<open>n\<close> bytes that starts with the bytes a callee wrote; what is behind them is whatever the
  stack held (\<open>junk\<close>). Writing more than \<open>n\<close> bytes is undefined.
\<close>

definition stack_buf :: "byte list \<Rightarrow> nat \<Rightarrow> byte list \<Rightarrow> byte list option" where
  "stack_buf junk n written =
     (if length written \<le> n then Some (written @ take (n - length written) (junk @ replicate n 0)) else None)"

lemma length_stack_buf: "stack_buf junk n b = Some buf \<Longrightarrow> length buf = n"
  by (auto simp: stack_buf_def split: if_splits)

text \<open>
  The conversion \<open>%.*s\<close>: at most \<open>n\<close> bytes of the array, up to a NUL; a negative precision is as if none was given.
  Without a NUL, reading on behind the array is undefined.
\<close>

definition fmt_prec :: "int \<Rightarrow> byte list \<Rightarrow> byte list option" where
  "fmt_prec n buf =
     (if 0 \<le> n \<and> nat n \<le> length buf then Some (cstr (take (nat n) buf))
      else if nul_terminated buf then Some (cstr buf) else None)"

lemma read_str_defined:
  assumes "buf \<noteq> []" and "w_tag v = tag_code GENGO_WIRE_STRING \<and> w_payload v \<noteq> 0 \<longrightarrow> string_wire_ok m v"
  shows "\<exists>n buf'. gengo_wire_read_str m v buf = Some (n, buf') \<and> length buf' = length buf \<and> nul_terminated buf'"
proof (cases "string_wire_ok m v")
  case True
  obtain n buf' where "gengo_wire_read_str m v buf = Some (n, buf')" "length buf' = length buf" "buf' ! n = 0"
    "n = min (unat (w_len v)) (length buf - 1)"
    using read_str_ok [OF True assms(1)] by metis
  moreover have "n < length buf'" using calculation assms(1) by (cases buf) auto
  ultimately show ?thesis by (auto simp: nul_terminated_def in_set_conv_nth)
next
  case False
  then have "gengo_wire_read_str m v buf = Some (0, buf[0 := 0])"
    using assms by (auto simp: gengo_wire_read_str_def)
  moreover have "nul_terminated (buf[0 := 0])"
    using assms(1) by (cases buf) (simp_all add: nul_terminated_def)
  ultimately show ?thesis by simp
qed

section \<open>The state of a console program\<close>

record 'w host =
  ho_out :: "byte list"
  ho_err :: "byte list"
  ho_junk :: "byte list"
  ho_mem :: cmem
  ho_eng :: 'w

definition puts_out :: "byte list \<Rightarrow> 'w host \<Rightarrow> 'w host" where
  "puts_out b s = s\<lparr>ho_out := ho_out s @ b\<rparr>"

definition puts_err :: "byte list \<Rightarrow> 'w host \<Rightarrow> 'w host" where
  "puts_err b s = s\<lparr>ho_err := ho_err s @ b\<rparr>"

text \<open>A call of the library: the engine state is replaced.\<close>

definition set_eng :: "'w \<Rightarrow> 'w host \<Rightarrow> 'w host" where
  "set_eng w s = s\<lparr>ho_eng := w\<rparr>"

text \<open>
  String literals and constant strings: \<open>lit\<close> is where the program has them, each with its NUL.
\<close>

definition put_lits :: "(byte list \<Rightarrow> u64) \<Rightarrow> byte list list \<Rightarrow> cmem \<Rightarrow> cmem" where
  "put_lits lit ss m = m\<lparr>mem_bytes := fold (\<lambda>s f. f(lit s \<mapsto> s @ [0])) ss (mem_bytes m)\<rparr>"

text \<open>The error line two of the hosts print: the text is clamped to the buffer by the caller.\<close>

definition engine_error_line :: "'w engine_api \<Rightarrow> int \<Rightarrow> byte list \<Rightarrow> byte list \<Rightarrow> 'w host \<Rightarrow> 'w host" where
  "engine_error_line api engine what text s =
     puts_err (what @ bytes_of '' (line '' @ dec_int (api_last_error_line api engine (ho_eng s)) @ bytes_of '', col ''
       @ dec_int (api_last_error_col api engine (ho_eng s)) @ bytes_of ''): '' @ text @ [10]) s"

subsection \<open>Defined results\<close>

text \<open>\<open>defined P r\<close>: no undefined behaviour, and the result satisfies \<open>P\<close>.\<close>

definition defined :: "('a \<Rightarrow> bool) \<Rightarrow> 'a option \<Rightarrow> bool" where
  "defined P r \<longleftrightarrow> (\<exists>x. r = Some x \<and> P x)"

lemma defined_simps [simp]: "defined P (Some x) \<longleftrightarrow> P x" "\<not> defined P None"
  by (simp_all add: defined_def)

lemma defined_bind:
  "defined P r \<Longrightarrow> (\<And>x. r = Some x \<Longrightarrow> P x \<Longrightarrow> defined Q (k x)) \<Longrightarrow> defined Q (Option.bind r k)"
  by (auto simp: defined_def)

lemma defined_mono: "defined P r \<Longrightarrow> (\<And>x. P x \<Longrightarrow> Q x) \<Longrightarrow> defined Q r"
  by (auto simp: defined_def)

lemma definedE: "defined P r \<Longrightarrow> (\<And>x. r = Some x \<Longrightarrow> P x \<Longrightarrow> thesis) \<Longrightarrow> thesis"
  by (auto simp: defined_def)

lemma defined_not_None: "defined P r \<Longrightarrow> r \<noteq> None"
  by (auto simp: defined_def)

lemma stack_buf_defined: "length b \<le> n \<Longrightarrow> defined (\<lambda>buf. length buf = n \<and> take (length b) buf = b) (stack_buf junk n b)"
  by (simp add: stack_buf_def)

lemma fmt_prec_defined: "0 \<le> n \<Longrightarrow> n \<le> int (length buf) \<Longrightarrow> defined (\<lambda>t. t = cstr (take (nat n) buf)) (fmt_prec n buf)"
  by (simp add: fmt_prec_def nat_le_iff)

subsection \<open>Facts on the host vocabulary\<close>

lemma host_frame [simp]:
  "ho_eng (puts_out b s) = ho_eng s" "ho_mem (puts_out b s) = ho_mem s" "ho_junk (puts_out b s) = ho_junk s"
  "ho_err (puts_out b s) = ho_err s" "ho_out (puts_out b s) = ho_out s @ b"
  "ho_eng (puts_err b s) = ho_eng s" "ho_mem (puts_err b s) = ho_mem s" "ho_junk (puts_err b s) = ho_junk s"
  "ho_out (puts_err b s) = ho_out s" "ho_err (puts_err b s) = ho_err s @ b"
  "ho_eng (set_eng w s) = w" "ho_mem (set_eng w s) = ho_mem s" "ho_junk (set_eng w s) = ho_junk s"
  "ho_out (set_eng w s) = ho_out s" "ho_err (set_eng w s) = ho_err s"
  "ho_eng (engine_error_line api e wh t s) = ho_eng s" "ho_mem (engine_error_line api e wh t s) = ho_mem s"
  "ho_junk (engine_error_line api e wh t s) = ho_junk s" "ho_out (engine_error_line api e wh t s) = ho_out s"
  by (simp_all add: puts_out_def puts_err_def set_eng_def engine_error_line_def)

lemma fold_lits:
  "(\<exists>s \<in> set ss. lit s = lit x) \<Longrightarrow> \<exists>s \<in> set ss. lit s = lit x \<and> fold (\<lambda>s f. f(lit s \<mapsto> s @ [0])) ss f (lit x) = Some (s @ [0])"
proof (induction ss arbitrary: f rule: rev_induct)
  case (snoc t ss)
  then show ?case by (cases "lit t = lit x") auto
qed simp

lemma fold_lits_other:
  "\<forall>s \<in> set ss. lit s \<noteq> p \<Longrightarrow> fold (\<lambda>s f. f(lit s \<mapsto> s @ [0])) ss f p = f p"
  by (induction ss arbitrary: f) auto

lemma put_lits_at: "s \<in> set ss \<Longrightarrow> inj_on lit (set ss) \<Longrightarrow> mem_bytes (put_lits lit ss m) (lit s) = Some (s @ [0])"
  using fold_lits [of ss lit s] by (auto simp: put_lits_def dest: inj_onD)

lemma put_lits_wire: "s \<in> set ss \<Longrightarrow> \<exists>w. gengo_wire_str (put_lits lit ss m) (lit s) = Some w"
proof -
  assume "s \<in> set ss"
  then have "\<exists>t. fold (\<lambda>s f. f(lit s \<mapsto> s @ [0])) ss (mem_bytes m) (lit s) = Some (t @ [0])"
    using fold_lits [of ss lit s "mem_bytes m"] by blast
  then show ?thesis by (auto simp: put_lits_def gengo_wire_str_def c_strlen_def nul_terminated_def)
qed

lemma put_lits_wire_exact:
  assumes "s \<in> set ss" and "inj_on lit (set ss)" and "0 \<notin> set s"
  shows "gengo_wire_str (put_lits lit ss m) (lit s) = Some (gengo_wire_str_n (lit s) (of_nat (length s)))"
  using put_lits_at [OF assms(1,2), of m] assms(3)
  by (simp add: gengo_wire_str_def gengo_wire_str_n_def c_strlen_def nul_terminated_def cstr_id)

end
