(* ===== verification/ZigStd.thy ===== *)
theory ZigStd
  imports Prelude
begin

text \<open>
  The routines of the Zig standard library that the engine's sources call on byte slices:
  \<open>std.mem.indexOfScalar\<close>, \<open>lastIndexOfScalar\<close>, \<open>splitScalar\<close>, \<open>startsWith\<close>, \<open>endsWith\<close>,
  \<open>std.ascii.toLower\<close> and \<open>std.fmt.parseInt\<close>/\<open>parseUnsigned\<close> in base 10 for an unsigned result.
  A slice is a byte list, an optional is \<open>option\<close>, an error union without a payload of interest is
  \<open>option\<close> with \<open>None\<close> for the error.
\<close>

section \<open>Searching and splitting\<close>

fun indexOfScalar :: "byte list \<Rightarrow> byte \<Rightarrow> nat option" where
  "indexOfScalar [] c = None"
| "indexOfScalar (x # xs) c = (if x = c then Some 0 else map_option Suc (indexOfScalar xs c))"

fun lastIndexOfScalar :: "byte list \<Rightarrow> byte \<Rightarrow> nat option" where
  "lastIndexOfScalar [] c = None"
| "lastIndexOfScalar (x # xs) c =
     (case lastIndexOfScalar xs c of Some i \<Rightarrow> Some (Suc i) | None \<Rightarrow> if x = c then Some 0 else None)"

fun splitScalar :: "byte list \<Rightarrow> byte \<Rightarrow> byte list list" where
  "splitScalar [] c = [[]]"
| "splitScalar (x # xs) c =
     (if x = c then [] # splitScalar xs c
      else case splitScalar xs c of [] \<Rightarrow> [[x]] | p # ps \<Rightarrow> (x # p) # ps)"

definition startsWith :: "byte list \<Rightarrow> byte list \<Rightarrow> bool" where
  "startsWith hay needle \<longleftrightarrow> take (length needle) hay = needle"

definition endsWith :: "byte list \<Rightarrow> byte list \<Rightarrow> bool" where
  "endsWith hay needle \<longleftrightarrow> length needle \<le> length hay \<and> drop (length hay - length needle) hay = needle"

lemma indexOfScalar_None: "indexOfScalar xs c = None \<longleftrightarrow> c \<notin> set xs"
  by (induction xs) auto

lemma indexOfScalar_SomeD:
  "indexOfScalar xs c = Some i \<Longrightarrow> i < length xs \<and> xs ! i = c \<and> c \<notin> set (take i xs)"
  by (induction xs arbitrary: i) (auto split: if_splits)

lemma indexOfScalar_append: "c \<notin> set xs \<Longrightarrow> indexOfScalar (xs @ c # ys) c = Some (length xs)"
  by (induction xs) auto

lemma lastIndexOfScalar_append: "c \<notin> set ys \<Longrightarrow> lastIndexOfScalar (xs @ c # ys) c = Some (length xs)"
proof (induction xs)
  case Nil
  have "lastIndexOfScalar ys c = None"
    using Nil by (induction ys) auto
  then show ?case by simp
qed auto

lemma lastIndexOfScalar_None: "lastIndexOfScalar xs c = None \<longleftrightarrow> c \<notin> set xs"
  by (induction xs) (auto split: option.splits)

lemma lastIndexOfScalar_SomeD:
  "lastIndexOfScalar xs c = Some i \<Longrightarrow> i < length xs \<and> xs ! i = c \<and> c \<notin> set (drop (Suc i) xs)"
  by (induction xs arbitrary: i) (auto split: option.splits if_splits simp: lastIndexOfScalar_None)

lemma splitScalar_ne [simp]: "splitScalar xs c \<noteq> []"
  by (induction xs) (auto split: list.splits)

text \<open>The pieces contain no separator, and joining them gives the string back.\<close>

fun join_with :: "byte \<Rightarrow> byte list list \<Rightarrow> byte list" where
  "join_with c [] = []"
| "join_with c [p] = p"
| "join_with c (p # q # ps) = p @ c # join_with c (q # ps)"

lemma join_with_Cons: "ps \<noteq> [] \<Longrightarrow> join_with c (p # ps) = p @ c # join_with c ps"
  by (cases ps) auto

lemma join_splitScalar: "join_with c (splitScalar xs c) = xs"
proof (induction xs)
  case (Cons x xs)
  obtain p ps where s: "splitScalar xs c = p # ps"
    by (meson neq_Nil_conv splitScalar_ne)
  with Cons show ?case
    by (cases ps) (auto simp: join_with_Cons)
qed simp

lemma splitScalar_no_sep: "p \<in> set (splitScalar xs c) \<Longrightarrow> c \<notin> set p"
  by (induction xs arbitrary: p) (auto split: list.splits if_splits)

lemma splitScalar_nosep_id: "c \<notin> set xs \<Longrightarrow> splitScalar xs c = [xs]"
  by (induction xs) auto

lemma splitScalar_append: "c \<notin> set xs \<Longrightarrow> splitScalar (xs @ c # ys) c = xs # splitScalar ys c"
  by (induction xs) auto

section \<open>ASCII case\<close>

definition toLower :: "byte \<Rightarrow> byte" where
  "toLower c = (if 65 \<le> c \<and> c \<le> 90 then c + 32 else c)"

lemmas byte_nat = word_le_nat_alt word_less_nat_alt word_unat_eq_iff

lemma unat_toLower:
  "unat (toLower c) = (if 65 \<le> unat c \<and> unat c \<le> 90 then unat c + 32 else unat c)"
  by (auto simp: toLower_def byte_nat unat_word_ariths)

lemma toLower_idem [simp]: "toLower (toLower c) = toLower c"
  by (simp add: byte_nat unat_toLower)

lemma toLower_eq_nonletter:
  assumes "d < 65 \<or> 122 < d \<or> (90 < d \<and> d < 97)"
  shows "toLower c = d \<longleftrightarrow> c = d"
  using assms by (auto simp: byte_nat unat_toLower split: if_splits)

section \<open>Decimal numbers\<close>

definition is_digit :: "byte \<Rightarrow> bool" where
  "is_digit c \<longleftrightarrow> 48 \<le> c \<and> c \<le> 57"

definition digit_val :: "byte \<Rightarrow> nat" where
  "digit_val c = unat c - 48"

text \<open>
  The accumulation loop of \<open>parseIntWithSign\<close>: underscores are skipped, a digit that would take the
  value past \<open>mx\<close> is an overflow, every other character is invalid. Both errors are \<open>None\<close>.
\<close>

fun parse_digits :: "nat \<Rightarrow> nat \<Rightarrow> byte list \<Rightarrow> nat option" where
  "parse_digits mx acc [] = Some acc"
| "parse_digits mx acc (c # cs) =
     (if c = 95 then parse_digits mx acc cs
      else if is_digit c then
        (if acc * 10 + digit_val c \<le> mx then parse_digits mx (acc * 10 + digit_val c) cs else None)
      else None)"

definition underscore_edge :: "byte list \<Rightarrow> bool" where
  "underscore_edge s \<longleftrightarrow> s \<noteq> [] \<and> (hd s = 95 \<or> last s = 95)"

definition parseUnsigned :: "nat \<Rightarrow> byte list \<Rightarrow> nat option" where
  "parseUnsigned mx s = (if s = [] \<or> underscore_edge s then None else parse_digits mx 0 s)"

text \<open>A minus sign on an unsigned type: only zeros fit.\<close>

definition parse_negative :: "byte list \<Rightarrow> nat option" where
  "parse_negative s =
     (if s = [] \<or> underscore_edge s then None
      else if list_all (\<lambda>c. c = 95 \<or> c = 48) s then Some 0 else None)"

definition parseInt :: "nat \<Rightarrow> byte list \<Rightarrow> nat option" where
  "parseInt mx s =
     (case s of [] \<Rightarrow> None
      | c # cs \<Rightarrow> if c = 43 then parseUnsigned mx cs
                  else if c = 45 then parse_negative cs
                  else parseUnsigned mx s)"

lemma parse_digits_bound: "acc \<le> mx \<Longrightarrow> parse_digits mx acc s = Some n \<Longrightarrow> n \<le> mx"
  by (induction mx acc s rule: parse_digits.induct) (auto split: if_splits)

lemma parseUnsigned_bound [gengo_bounds]: "parseUnsigned mx s = Some n \<Longrightarrow> n \<le> mx"
  by (auto simp: parseUnsigned_def dest: parse_digits_bound [rotated] split: if_splits)

lemma parseInt_bound [gengo_bounds]: "parseInt mx s = Some n \<Longrightarrow> n \<le> mx"
  by (auto simp: parseInt_def parse_negative_def dest: parseUnsigned_bound split: list.splits if_splits)

lemma is_digit_toLower [simp]: "is_digit (toLower c) = is_digit c"
  by (auto simp: is_digit_def byte_nat unat_toLower)

lemma digit_val_toLower: "is_digit c \<Longrightarrow> digit_val (toLower c) = digit_val c"
  by (auto simp: is_digit_def digit_val_def byte_nat unat_toLower)

lemma parse_digits_toLower: "parse_digits mx acc (map toLower s) = parse_digits mx acc s"
  by (induction mx acc s rule: parse_digits.induct) (auto simp: toLower_eq_nonletter digit_val_toLower)

lemma underscore_edge_toLower: "underscore_edge (map toLower s) = underscore_edge s"
  by (auto simp: underscore_edge_def hd_map last_map toLower_eq_nonletter)

lemma parseUnsigned_toLower: "parseUnsigned mx (map toLower s) = parseUnsigned mx s"
  by (simp add: parseUnsigned_def parse_digits_toLower underscore_edge_toLower)

lemma parse_negative_toLower: "parse_negative (map toLower s) = parse_negative s"
  by (simp add: parse_negative_def underscore_edge_toLower list_all_iff toLower_eq_nonletter)

lemma parseInt_toLower: "parseInt mx (map toLower s) = parseInt mx s"
  by (auto simp: parseInt_def toLower_eq_nonletter parseUnsigned_toLower parse_negative_toLower
      split: list.splits) (use parseUnsigned_toLower [of mx "_ # _"] in force)

lemma splitScalar_toLower:
  assumes "c < 65 \<or> 122 < c \<or> (90 < c \<and> c < 97)"
  shows "splitScalar (map toLower s) c = map (map toLower) (splitScalar s c)"
  by (induction s) (auto simp: toLower_eq_nonletter [OF assms] split: list.splits)

lemma lastIndexOfScalar_toLower:
  assumes "c < 65 \<or> 122 < c \<or> (90 < c \<and> c < 97)"
  shows "lastIndexOfScalar (map toLower s) c = lastIndexOfScalar s c"
  by (induction s) (auto simp: toLower_eq_nonletter [OF assms] split: option.splits)

end
