(* ===== verification/NetPolicy.thy ===== *)
theory NetPolicy
  imports ZigStd
begin

text \<open>
  The network policy of \<open>cap:net\<close> (\<open>src/lang/native/net_state.zig\<close>): parsing a host pattern into a rule,
  the bounded rule list, and the LIFO decision for a dial or listen address. The rule array with its
  \<open>count\<close> is the list of the rules in use, oldest first; the data bytes of a rule are the list of its
  \<open>data_len\<close> bytes. The IPv6 address parser of the Zig standard library is the parameter \<open>ip_six\<close> (the
  16 address bytes, or \<open>None\<close>).
\<close>

section \<open>Rules\<close>

datatype PolicyAction = Deny | Allow

datatype PatternKind =
    match_all | hostname_exact | wildcard_suffix | ipv4_exact | ipv4_cidr | ipv6_exact | ipv6_cidr

record NetPolicyRule =
  r_action :: PolicyAction
  r_kind :: PatternKind
  r_port :: nat
  r_data :: "byte list"
  r_prefix_len :: nat

type_synonym PolicyState = "NetPolicyRule list"
type_synonym ip6_parser = "byte list \<Rightarrow> byte list option"

definition MaxPolicyRules :: nat where "MaxPolicyRules = 32"

section \<open>Addresses\<close>

fun parse_ip4_parts :: "byte list list \<Rightarrow> byte list \<Rightarrow> byte list option" where
  "parse_ip4_parts [] result = (if length result \<noteq> 4 then None else Some result)"
| "parse_ip4_parts (part # parts) result =
     (if 4 \<le> length result then None
      else case parseInt 255 part of None \<Rightarrow> None
           | Some n \<Rightarrow> parse_ip4_parts parts (result @ [of_nat n]))"

definition parseIPv4 :: "byte list \<Rightarrow> byte list option" where
  "parseIPv4 s = parse_ip4_parts (splitScalar s 46) []"

definition read_u32_big :: "byte list \<Rightarrow> u32" where
  "read_u32_big bs = push_bit 24 (ucast (bs ! 0)) OR push_bit 16 (ucast (bs ! 1))
     OR push_bit 8 (ucast (bs ! 2)) OR ucast (bs ! 3)"

definition ipv4InCidr :: "byte list \<Rightarrow> byte list \<Rightarrow> nat \<Rightarrow> bool" where
  "ipv4InCidr ip network prefix_len =
     (if prefix_len = 0 then True
      else let mask = push_bit (32 - prefix_len) (NOT 0)
           in read_u32_big ip AND mask = read_u32_big network AND mask)"

fun ipv6_cidr_loop :: "byte list \<Rightarrow> byte list \<Rightarrow> nat \<Rightarrow> bool" where
  "ipv6_cidr_loop (a # ip) (b # network) remaining =
     (if remaining = 0 then True
      else let bits = min remaining 8; mask = push_bit (8 - bits) (NOT 0)
           in if a AND mask \<noteq> b AND mask then False
              else ipv6_cidr_loop ip network (remaining - bits))"
| "ipv6_cidr_loop _ _ remaining = True"

definition ipv6InCidr :: "byte list \<Rightarrow> byte list \<Rightarrow> nat \<Rightarrow> bool" where
  "ipv6InCidr ip network prefix_len =
     (if prefix_len = 0 then True else ipv6_cidr_loop ip network prefix_len)"

section \<open>Building and adding rules\<close>

definition mk_rule :: "PolicyAction \<Rightarrow> nat \<Rightarrow> PatternKind \<Rightarrow> byte list \<Rightarrow> nat \<Rightarrow> NetPolicyRule" where
  "mk_rule act prt knd dat pre =
     \<lparr>r_action = act, r_kind = knd, r_port = prt, r_data = dat, r_prefix_len = pre\<rparr>"

definition buildPolicyRule :: "ip6_parser \<Rightarrow> PolicyAction \<Rightarrow> byte list \<Rightarrow> nat \<Rightarrow> int + NetPolicyRule" where
  "buildPolicyRule ip_six action pattern port =
     (if pattern = [42] then Inr (mk_rule action port match_all [] 0)
      else if startsWith pattern [42, 46] then
        (let suffix = tl pattern in
         if length suffix > 63 then Inl (-2) else Inr (mk_rule action port wildcard_suffix suffix 0))
      else case indexOfScalar pattern 47 of
        Some slash \<Rightarrow>
          (let addr_part = take slash pattern; prefix_str = drop (slash + 1) pattern in
           case parseInt 255 prefix_str of None \<Rightarrow> Inl (-2)
           | Some prefix_len \<Rightarrow>
               (case parseIPv4 addr_part of
                  Some ip4 \<Rightarrow> if prefix_len > 32 then Inl (-2)
                              else Inr (mk_rule action port ipv4_cidr ip4 prefix_len)
                | None \<Rightarrow>
                    (case ip_six addr_part of
                       Some a6 \<Rightarrow> if prefix_len > 128 then Inl (-2)
                                  else Inr (mk_rule action port ipv6_cidr a6 prefix_len)
                     | None \<Rightarrow> Inl (-2))))
      | None \<Rightarrow>
          (case parseIPv4 pattern of
             Some ip4 \<Rightarrow> Inr (mk_rule action port ipv4_exact ip4 0)
           | None \<Rightarrow>
               (case ip_six pattern of
                  Some a6 \<Rightarrow> Inr (mk_rule action port ipv6_exact a6 0)
                | None \<Rightarrow> if length pattern > 63 then Inl (-2)
                          else Inr (mk_rule action port hostname_exact pattern 0))))"

definition addRuleTo :: "ip6_parser \<Rightarrow> PolicyState \<Rightarrow> PolicyAction \<Rightarrow> byte list \<Rightarrow> nat \<Rightarrow> int \<times> PolicyState" where
  "addRuleTo ip_six policy action pattern port =
     (if MaxPolicyRules \<le> length policy then (-1, policy)
      else case buildPolicyRule ip_six action pattern port of
             Inl e \<Rightarrow> (e, policy)
           | Inr rule \<Rightarrow> (0, policy @ [rule]))"

section \<open>The decision\<close>

definition eqlIgnoreCase :: "byte list \<Rightarrow> byte list \<Rightarrow> bool" where
  "eqlIgnoreCase a b \<longleftrightarrow>
     (if length a \<noteq> length b then False else list_all2 (\<lambda>ca cb. toLower ca = toLower cb) a b)"

definition endsWithIgnoreCase :: "byte list \<Rightarrow> byte list \<Rightarrow> bool" where
  "endsWithIgnoreCase haystack suffix =
     (if length haystack < length suffix then False
      else eqlIgnoreCase (drop (length haystack - length suffix) haystack) suffix)"

definition strip_brackets :: "byte list \<Rightarrow> byte list" where
  "strip_brackets host =
     (if 2 \<le> length host \<and> hd host = 91 \<and> last host = 93 then butlast (tl host) else host)"

text \<open>The body of the loop over the rules: the port filter and the switch on the kind.\<close>

definition rule_matches :: "byte list \<Rightarrow> nat \<Rightarrow> byte list option \<Rightarrow> byte list option \<Rightarrow> NetPolicyRule \<Rightarrow> bool" where
  "rule_matches host port host_v4 host_v6 rule =
     (if r_port rule \<noteq> 0 \<and> r_port rule \<noteq> port then False
      else case r_kind rule of
        match_all \<Rightarrow> True
      | hostname_exact \<Rightarrow> eqlIgnoreCase host (r_data rule)
      | wildcard_suffix \<Rightarrow> endsWithIgnoreCase host (r_data rule)
      | ipv4_exact \<Rightarrow> (case host_v4 of Some ip \<Rightarrow> ip = take 4 (r_data rule) | None \<Rightarrow> False)
      | ipv4_cidr \<Rightarrow> (case host_v4 of Some ip \<Rightarrow> ipv4InCidr ip (take 4 (r_data rule)) (r_prefix_len rule) | None \<Rightarrow> False)
      | ipv6_exact \<Rightarrow> (case host_v6 of Some ip \<Rightarrow> ip = take 16 (r_data rule) | None \<Rightarrow> False)
      | ipv6_cidr \<Rightarrow> (case host_v6 of Some ip \<Rightarrow> ipv6InCidr ip (take 16 (r_data rule)) (r_prefix_len rule) | None \<Rightarrow> False))"

fun match_loop :: "(NetPolicyRule \<Rightarrow> bool) \<Rightarrow> PolicyState \<Rightarrow> nat \<Rightarrow> bool \<Rightarrow> bool" where
  "match_loop matches rules 0 default_allow = default_allow"
| "match_loop matches rules (Suc i) default_allow =
     (if matches (rules ! i) then r_action (rules ! i) = Allow
      else match_loop matches rules i default_allow)"

definition split_address :: "byte list \<Rightarrow> (byte list \<times> nat) option" where
  "split_address address =
     (case lastIndexOfScalar address 58 of None \<Rightarrow> None
      | Some colon \<Rightarrow>
          (case parseUnsigned 65535 (drop (colon + 1) address) of None \<Rightarrow> None
           | Some port \<Rightarrow> Some (strip_brackets (take colon address), port)))"

definition host_ips :: "ip6_parser \<Rightarrow> byte list \<Rightarrow> byte list option \<times> byte list option" where
  "host_ips ip_six host =
     (let host_v4 = parseIPv4 host;
          host_v6 = (if host_v4 = None then ip_six host else None)
      in if length host = 0 then (Some (replicate 4 0), Some (replicate 16 0)) else (host_v4, host_v6))"

definition matchPolicy :: "ip6_parser \<Rightarrow> PolicyState \<Rightarrow> byte list \<Rightarrow> bool \<Rightarrow> bool" where
  "matchPolicy ip_six policy address default_allow =
     (if policy = [] then default_allow
      else case split_address address of None \<Rightarrow> default_allow
           | Some (host, port) \<Rightarrow>
               (let (host_v4, host_v6) = host_ips ip_six host
                in match_loop (rule_matches host port host_v4 host_v6) policy (length policy) default_allow))"

definition checkDialPolicy :: "ip6_parser \<Rightarrow> PolicyState \<Rightarrow> byte list \<Rightarrow> bool" where
  "checkDialPolicy ip_six policy address = matchPolicy ip_six policy address False"

definition checkListenPolicy :: "ip6_parser \<Rightarrow> PolicyState \<Rightarrow> byte list \<Rightarrow> bool" where
  "checkListenPolicy ip_six listen_policy address = matchPolicy ip_six listen_policy address False"

section \<open>Prefixes, bit by bit\<close>

text \<open>The reference: two addresses agree on a prefix when their first bits, most significant first, are equal.\<close>

definition byte_bits :: "byte \<Rightarrow> bool list" where
  "byte_bits b = map (\<lambda>i. bit b (7 - i)) [0..<8]"

definition addr_bits :: "byte list \<Rightarrow> bool list" where
  "addr_bits bs = concat (map byte_bits bs)"

definition same_prefix :: "nat \<Rightarrow> byte list \<Rightarrow> byte list \<Rightarrow> bool" where
  "same_prefix n a b \<longleftrightarrow> take n (addr_bits a) = take n (addr_bits b)"

lemma length_byte_bits [simp]: "length (byte_bits b) = 8"
  by (simp add: byte_bits_def)

lemma addr_bits_Cons [simp]: "addr_bits (b # bs) = byte_bits b @ addr_bits bs"
  by (simp add: addr_bits_def)

lemma take_byte_bits: "k \<le> 8 \<Longrightarrow> take k (byte_bits b) = map (\<lambda>i. bit b (7 - i)) [0..<k]"
  by (simp add: byte_bits_def take_map)

lemma masked_eq_iff:
  fixes a b :: "'a::len word"
  shows "a AND push_bit s (NOT 0) = b AND push_bit s (NOT 0) \<longleftrightarrow> (\<forall>n<LENGTH('a). s \<le> n \<longrightarrow> bit a n = bit b n)"
  by (auto simp: bit_eq_iff bit_and_iff bit_push_bit_iff bit_not_iff bit_mask_iff not_less)

lemma masked_byte_eq:
  assumes "k \<le> 8"
  shows "a AND push_bit (8 - k) (NOT 0) = b AND push_bit (8 - k) (NOT 0) \<longleftrightarrow>
    take k (byte_bits a) = take k (byte_bits (b :: byte))"
proof -
  have "(a AND push_bit (8 - k) (NOT 0) = b AND push_bit (8 - k) (NOT 0)) \<longleftrightarrow>
    (\<forall>n<8. 8 - k \<le> n \<longrightarrow> bit a n = bit b n)"
    using masked_eq_iff [of a "8 - k" b] by simp
  also have "\<dots> \<longleftrightarrow> (\<forall>i<k. bit a (7 - i) = bit b (7 - i))"
  proof
    assume "\<forall>n<8. 8 - k \<le> n \<longrightarrow> bit a n = bit b n"
    then show "\<forall>i<k. bit a (7 - i) = bit b (7 - i)" using assms by auto
  next
    assume R: "\<forall>i<k. bit a (7 - i) = bit b (7 - i)"
    show "\<forall>n<8. 8 - k \<le> n \<longrightarrow> bit a n = bit b n"
    proof (intro allI impI)
      fix n :: nat
      assume "n < 8" "8 - k \<le> n"
      with R [rule_format, of "7 - n"] assms show "bit a n = bit b n" by auto
    qed
  qed
  also have "\<dots> \<longleftrightarrow> take k (byte_bits a) = take k (byte_bits b)"
    using assms by (auto simp: take_byte_bits)
  finally show ?thesis .
qed

lemma ipv6_loop_prefix:
  "length ip = length network \<Longrightarrow> ipv6_cidr_loop ip network n \<longleftrightarrow> same_prefix n ip network"
proof (induction ip network n rule: ipv6_cidr_loop.induct)
  case (1 a ip b network n)
  show ?case
  proof (cases "n = 0")
    case False
    define k where "k = min n 8"
    have "same_prefix n (a # ip) (b # network) \<longleftrightarrow>
      take k (byte_bits a) = take k (byte_bits b) \<and> same_prefix (n - k) ip network"
      by (auto simp: same_prefix_def k_def min_def)
    with False "1.IH" [of k] "1.prems" show ?thesis
      using masked_byte_eq [of k a b] by (auto simp: k_def Let_def)
  qed (simp add: same_prefix_def)
qed (auto simp: same_prefix_def)

lemma length_addr_bits [simp]: "length (addr_bits bs) = 8 * length bs"
  by (induction bs) (simp_all add: addr_bits_def)

lemma nth_byte_bits: "i < 8 \<Longrightarrow> byte_bits b ! i = bit b (7 - i)"
  by (simp add: byte_bits_def)

lemma bit_byte_high: "8 \<le> n \<Longrightarrow> \<not> bit (b :: byte) n"
  using bit_imp_le_length [of b n] by auto

lemma bit_read_u32_big:
  assumes "j < 32"
  shows "bit (read_u32_big [a, b, c, d]) (31 - j) = addr_bits [a, b, c, d] ! j"
proof -
  consider "j < 8" | "8 \<le> j" "j < 16" | "16 \<le> j" "j < 24" | "24 \<le> j" using assms by linarith
  then show ?thesis
    using assms
    by cases (auto simp: read_u32_big_def bit_or_iff bit_push_bit_iff bit_ucast_iff nth_append nth_byte_bits
        addr_bits_def bit_byte_high dest: bit_imp_le_length)
qed

lemma ipv4_prefix:
  assumes "length ip = 4" and "length network = 4" and "n \<le> 32"
  shows "ipv4InCidr ip network n \<longleftrightarrow> same_prefix n ip network"
proof (cases "n = 0")
  case True
  then show ?thesis by (simp add: ipv4InCidr_def same_prefix_def)
next
  case False
  obtain a b c d where ip: "ip = [a, b, c, d]"
    using assms(1) by (auto simp: length_Suc_conv numeral_eq_Suc)
  obtain a' b' c' d' where nw: "network = [a', b', c', d']"
    using assms(2) by (auto simp: length_Suc_conv numeral_eq_Suc)
  have "ipv4InCidr ip network n \<longleftrightarrow>
    (\<forall>k<32. 32 - n \<le> k \<longrightarrow> bit (read_u32_big ip) k = bit (read_u32_big network) k)"
    using False masked_eq_iff [of "read_u32_big ip" "32 - n" "read_u32_big network"]
    by (simp add: ipv4InCidr_def Let_def)
  also have "\<dots> \<longleftrightarrow> (\<forall>j<n. bit (read_u32_big ip) (31 - j) = bit (read_u32_big network) (31 - j))"
  proof
    assume L: "\<forall>k<32. 32 - n \<le> k \<longrightarrow> bit (read_u32_big ip) k = bit (read_u32_big network) k"
    show "\<forall>j<n. bit (read_u32_big ip) (31 - j) = bit (read_u32_big network) (31 - j)"
      using assms(3) by (intro allI impI L [rule_format]) auto
  next
    assume R: "\<forall>j<n. bit (read_u32_big ip) (31 - j) = bit (read_u32_big network) (31 - j)"
    show "\<forall>k<32. 32 - n \<le> k \<longrightarrow> bit (read_u32_big ip) k = bit (read_u32_big network) k"
    proof (intro allI impI)
      fix k :: nat
      assume "k < 32" "32 - n \<le> k"
      with R [rule_format, of "31 - k"] assms(3) show "bit (read_u32_big ip) k = bit (read_u32_big network) k"
        by auto
    qed
  qed
  also have "\<dots> \<longleftrightarrow> (\<forall>j<n. addr_bits ip ! j = addr_bits network ! j)"
    using assms(3) by (simp add: ip nw bit_read_u32_big del: addr_bits_Cons)
  also have "\<dots> \<longleftrightarrow> same_prefix n ip network"
    using assms by (auto simp: same_prefix_def list_eq_iff_nth_eq min_def)
  finally show ?thesis .
qed

section \<open>The decision as a first match\<close>

text \<open>When a rule applies to an address: the address splits into host and port and the rule matches them.\<close>

definition rule_applies :: "ip6_parser \<Rightarrow> NetPolicyRule \<Rightarrow> byte list \<Rightarrow> bool" where
  "rule_applies ip_six rule address \<longleftrightarrow>
     (case split_address address of None \<Rightarrow> False
      | Some (host, port) \<Rightarrow> rule_matches host port (fst (host_ips ip_six host)) (snd (host_ips ip_six host)) rule)"

lemma match_loop_append:
  "n \<le> length rules \<Longrightarrow> match_loop m (rules @ rs) n d = match_loop m rules n d"
  by (induction n) (auto simp: nth_append)

lemma matchPolicy_unfold:
  "matchPolicy ip_six rules address False =
    (case split_address address of None \<Rightarrow> False
     | Some (host, port) \<Rightarrow>
         match_loop (rule_matches host port (fst (host_ips ip_six host)) (snd (host_ips ip_six host))) rules (length rules) False)"
  by (auto simp: matchPolicy_def case_prod_beta split: option.splits)

lemma matchPolicy_append:
  "matchPolicy ip_six (rules @ [r]) address False =
    (if rule_applies ip_six r address then r_action r = Allow else matchPolicy ip_six rules address False)"
  by (auto simp: matchPolicy_unfold rule_applies_def match_loop_append nth_append split: option.splits)

text \<open>
  The contract of a rule stack with default deny: nothing is allowed without rules, and the newest rule
  that applies decides.
\<close>

locale lifo_policy =
  fixes check :: "'p \<Rightarrow> 'a \<Rightarrow> bool"
    and add :: "'p \<Rightarrow> 'r \<Rightarrow> 'p"
    and none :: 'p
    and applies :: "'r \<Rightarrow> 'a \<Rightarrow> bool"
    and allows :: "'r \<Rightarrow> bool"
  assumes check_none: "\<not> check none a"
    and check_add: "check (add p r) a \<longleftrightarrow> (if applies r a then allows r else check p a)"
begin

lemma check_stack:
  "check (foldl add none rs) a \<longleftrightarrow>
    (case find (\<lambda>r. applies r a) (rev rs) of Some r \<Rightarrow> allows r | None \<Rightarrow> False)"
  by (induction rs rule: rev_induct) (auto simp: check_none check_add)

lemma needs_allow:
  assumes "check (foldl add none rs) a"
  shows "\<exists>r\<in>set rs. applies r a \<and> allows r"
proof -
  obtain r where "find (\<lambda>r. applies r a) (rev rs) = Some r" "allows r"
    using assms by (auto simp: check_stack split: option.splits)
  moreover from this(1) have "r \<in> set rs" "applies r a"
    by (auto simp: find_Some_iff) (metis length_rev nth_mem set_rev)
  ultimately show ?thesis by blast
qed

lemma deny_last:
  assumes "applies r a" and "\<not> allows r"
  shows "\<not> check (foldl add none (rs @ [r])) a"
  using assms by (simp add: check_add)

end

interpretation net: lifo_policy
  "\<lambda>p a. matchPolicy ip_six p a False" "\<lambda>p r. p @ [r]" "[]" "rule_applies ip_six" "\<lambda>r. r_action r = Allow"
  for ip_six
  by unfold_locales (simp add: matchPolicy_def, rule matchPolicy_append)

lemma foldl_snoc [simp]: "foldl (\<lambda>p r. p @ [r]) acc rs = acc @ rs"
  by (induction rs arbitrary: acc) simp_all

section \<open>Letter case\<close>

text \<open>What the policy relies on of the IPv6 parser: 16 bytes, and no regard to letter case.\<close>

definition ip_case_blind :: "ip6_parser \<Rightarrow> bool" where
  "ip_case_blind ip_six \<longleftrightarrow> (\<forall>s. ip_six (map toLower s) = ip_six s)"

definition ip_sixteen :: "ip6_parser \<Rightarrow> bool" where
  "ip_sixteen ip_six \<longleftrightarrow> (\<forall>s a. ip_six s = Some a \<longrightarrow> length a = 16)"

lemma parse_ip4_parts_toLower: "parse_ip4_parts (map (map toLower) ps) acc = parse_ip4_parts ps acc"
  by (induction ps acc rule: parse_ip4_parts.induct) (auto simp: parseInt_toLower split: option.splits)

lemma parseIPv4_toLower: "parseIPv4 (map toLower s) = parseIPv4 s"
  by (simp add: parseIPv4_def splitScalar_toLower parse_ip4_parts_toLower)

lemma strip_brackets_toLower: "strip_brackets (map toLower h) = map toLower (strip_brackets h)"
proof (cases "2 \<le> length h")
  case True
  then have "h \<noteq> []" by auto
  then show ?thesis
    by (simp add: strip_brackets_def hd_map last_map toLower_eq_nonletter map_butlast map_tl)
qed (simp add: strip_brackets_def)

lemma split_address_toLower:
  "split_address (map toLower a) = map_option (\<lambda>(h, p). (map toLower h, p)) (split_address a)"
  by (auto simp: split_address_def lastIndexOfScalar_toLower parseUnsigned_toLower strip_brackets_toLower
      drop_map take_map split: option.splits)

lemma eqlIgnoreCase_iff: "eqlIgnoreCase a b \<longleftrightarrow> map toLower a = map toLower b"
  by (auto simp: eqlIgnoreCase_def list_all2_conv_all_nth list_eq_iff_nth_eq)

lemma eqlIgnoreCase_toLower: "eqlIgnoreCase (map toLower a) b = eqlIgnoreCase a b"
  by (simp add: eqlIgnoreCase_iff comp_def)

lemma endsWithIgnoreCase_toLower: "endsWithIgnoreCase (map toLower a) b = endsWithIgnoreCase a b"
  by (simp add: endsWithIgnoreCase_def drop_map eqlIgnoreCase_toLower)

lemma rule_matches_toLower: "rule_matches (map toLower h) p i j = rule_matches h p i j"
proof
  show "rule_matches (map toLower h) p i j r = rule_matches h p i j r" for r
    by (cases "r_kind r") (simp_all add: rule_matches_def eqlIgnoreCase_toLower endsWithIgnoreCase_toLower)
qed

lemma host_ips_toLower:
  assumes "ip_case_blind ip_six"
  shows "host_ips ip_six (map toLower h) = host_ips ip_six h"
  using assms by (simp add: host_ips_def parseIPv4_toLower ip_case_blind_def Let_def)

lemma matchPolicy_toLower:
  assumes "ip_case_blind ip_six"
  shows "matchPolicy ip_six rules (map toLower a) False = matchPolicy ip_six rules a False"
  by (auto simp: matchPolicy_unfold split_address_toLower host_ips_toLower [OF assms] rule_matches_toLower
      split: option.splits)

section \<open>Well-formed rules\<close>

definition rule_ok :: "NetPolicyRule \<Rightarrow> bool" where
  "rule_ok r = (case r_kind r of
       match_all \<Rightarrow> r_data r = []
     | hostname_exact \<Rightarrow> length (r_data r) \<le> 63
     | wildcard_suffix \<Rightarrow> length (r_data r) \<le> 63 \<and> startsWith (r_data r) [46]
     | ipv4_exact \<Rightarrow> length (r_data r) = 4
     | ipv4_cidr \<Rightarrow> length (r_data r) = 4 \<and> r_prefix_len r \<le> 32
     | ipv6_exact \<Rightarrow> length (r_data r) = 16
     | ipv6_cidr \<Rightarrow> length (r_data r) = 16 \<and> r_prefix_len r \<le> 128)"

definition policy_ok :: "PolicyState \<Rightarrow> bool" where
  "policy_ok p \<longleftrightarrow> length p \<le> MaxPolicyRules \<and> list_all rule_ok p"

lemma parse_ip4_parts_length: "parse_ip4_parts ps acc = Some r \<Longrightarrow> length r = 4"
  by (induction ps acc rule: parse_ip4_parts.induct) (auto split: option.splits if_splits)

lemma parseIPv4_length: "parseIPv4 s = Some r \<Longrightarrow> length r = 4"
  by (auto simp: parseIPv4_def dest: parse_ip4_parts_length)

lemma startsWith_tl: "startsWith p [a, b] \<Longrightarrow> startsWith (tl p) [b]"
  by (cases p) (auto simp: startsWith_def)

lemma buildPolicyRule_ok:
  assumes "ip_sixteen ip_six" and "buildPolicyRule ip_six act pat prt = Inr r"
  shows "rule_ok r"
  using assms
  by (auto simp: buildPolicyRule_def mk_rule_def rule_ok_def Let_def ip_sixteen_def dest: parseIPv4_length
      intro: startsWith_tl split: if_splits option.splits)

lemma buildPolicyRule_err: "buildPolicyRule ip_six act pat prt = Inl e \<Longrightarrow> e = -2"
  by (auto simp: buildPolicyRule_def Let_def split: if_splits option.splits)

section \<open>Claims\<close>

text \<open>
  The masked comparisons of the two CIDR tests are the textbook prefix test: an address is in the
  network exactly when the first \<open>n\<close> bits, most significant first, agree. This covers the byte loop of
  the IPv6 test with its partial last byte and the zero-length prefix.
\<close>

theorem cidr_is_prefix:
  assumes "length a = 4" and "length b = 4" and "n \<le> 32" and "length c = 16" and "length d = 16"
  shows "(ipv4InCidr a b n \<longleftrightarrow> same_prefix n a b) \<and> (ipv6InCidr c d m \<longleftrightarrow> same_prefix m c d)"
  using assms ipv6_loop_prefix [of c d m]
  by (simp add: ipv4_prefix ipv6InCidr_def) (auto simp: same_prefix_def)

theorem cidr_is_prefix_witness:
  "ipv4InCidr [10, 1, 2, 3] [10, 0, 0, 0] 8 \<longleftrightarrow> same_prefix 8 [10, 1, 2, 3] [10, 0, 0, 0]"
  using cidr_is_prefix [of "[10, 1, 2, 3]" "[10, 0, 0, 0]" 8 "replicate 16 0" "replicate 16 0" 0] by simp

text \<open>
  C6. A dial or a listen is decided by the most recently added rule that applies to the address; without
  one, and for an address that does not split into host and port, the answer is deny. Dial and listen
  have the same default.
\<close>

theorem policy_decision:
  "(checkDialPolicy ip_six rules address \<longleftrightarrow>
     (case find (\<lambda>r. rule_applies ip_six r address) (rev rules) of Some r \<Rightarrow> r_action r = Allow | None \<Rightarrow> False))
   \<and> checkListenPolicy ip_six rules address = checkDialPolicy ip_six rules address"
  using net.check_stack [of ip_six rules address] by (simp add: checkDialPolicy_def checkListenPolicy_def)

text \<open>
  If dialing an address is allowed, some installed rule allows it: an engine whose rules never allow
  anything cannot dial, and a deny rule added last cannot be overridden by an older allow.
\<close>

theorem dial_needs_allow_rule:
  assumes "checkDialPolicy ip_six rules address"
  shows "\<exists>r\<in>set rules. rule_applies ip_six r address \<and> r_action r = Allow"
  using net.needs_allow [of ip_six rules address] assms by (simp add: checkDialPolicy_def)

theorem dial_needs_allow_rule_witness:
  "\<exists>r\<in>set [mk_rule Allow 0 match_all [] 0]. rule_applies (\<lambda>_. None) r [97, 58, 56] \<and> r_action r = Allow"
proof (rule dial_needs_allow_rule)
  show "checkDialPolicy (\<lambda>_. None) [mk_rule Allow 0 match_all [] 0] [97, 58, 56]"
    by (simp add: checkDialPolicy_def matchPolicy_unfold split_address_def parseUnsigned_def underscore_edge_def
        is_digit_def digit_val_def rule_matches_def mk_rule_def)
qed

text \<open>
  Changing the case of letters in the address never changes a decision, given an IPv6 parser that reads
  hexadecimal digits without regard to case: a rule cannot be bypassed by writing the host differently.
\<close>

theorem policy_case_insensitive:
  assumes "ip_case_blind ip_six"
    and "map toLower a = map toLower b"
  shows "checkDialPolicy ip_six rules a = checkDialPolicy ip_six rules b"
  using matchPolicy_toLower [OF assms(1), of rules a] matchPolicy_toLower [OF assms(1), of rules b] assms(2)
  by (simp add: checkDialPolicy_def)

theorem policy_case_insensitive_witness:
  "checkDialPolicy (\<lambda>_. None) [mk_rule Allow 0 hostname_exact (bytes_of ''a.b'') 0] (bytes_of ''A.b:443'') =
   checkDialPolicy (\<lambda>_. None) [mk_rule Allow 0 hostname_exact (bytes_of ''a.b'') 0] (bytes_of ''a.B:443'')"
  by (rule policy_case_insensitive) (simp_all add: ip_case_blind_def toLower_def)

text \<open>
  Adding a rule keeps the policy well formed (at most 32 rules, four or sixteen address bytes, prefix
  lengths within the address, host patterns that fit the rule's buffer); a full list answers -1, a pattern
  that does not parse -2, and in both cases the policy is unchanged.
\<close>

theorem add_rule_keeps_policy_ok:
  assumes "ip_sixteen ip_six"
    and "policy_ok p" and "addRuleTo ip_six p act pat prt = (rc, p')"
  shows "policy_ok p' \<and> rc \<in> {0, -1, -2} \<and> (rc \<noteq> 0 \<longrightarrow> p' = p) \<and> (rc = -1 \<longleftrightarrow> length p = MaxPolicyRules)"
  using assms(2,3)
  by (auto simp: addRuleTo_def policy_ok_def MaxPolicyRules_def dest: buildPolicyRule_ok [OF assms(1)]
      buildPolicyRule_err split: if_splits sum.splits)

theorem add_rule_keeps_policy_ok_witness:
  "policy_ok (snd (addRuleTo (\<lambda>_. None) [] Deny (bytes_of ''10.0.0.0/8'') 0))"
  by (rule add_rule_keeps_policy_ok [of "\<lambda>_. None" "[]" Deny "bytes_of ''10.0.0.0/8''" 0
      "fst (addRuleTo (\<lambda>_. None) [] Deny (bytes_of ''10.0.0.0/8'') 0)", THEN conjunct1])
    (simp_all add: policy_ok_def ip_sixteen_def)

text \<open>
  A deny rule for the any-interface address, written \<open>0.0.0.0\<close> or as any IPv4 CIDR around it, also
  stops a listen on \<open>:port\<close> (an empty host), whatever older rules allow.
\<close>

theorem deny_any_covers_empty_host:
  assumes "r_kind r = ipv4_exact \<or> r_kind r = ipv4_cidr" and "r_data r = [0, 0, 0, 0]" and "r_port r = 0"
    and "r_action r = Deny" and "58 \<notin> set port_str"
  shows "\<not> checkListenPolicy ip_six (rules @ [r]) (58 # port_str)"
proof -
  have "lastIndexOfScalar (58 # port_str) 58 = Some 0"
    using lastIndexOfScalar_append [OF assms(5), of "[]"] by simp
  then have sp: "split_address (58 # port_str) =
      (case parseUnsigned 65535 port_str of None \<Rightarrow> None | Some port \<Rightarrow> Some ([], port))"
    unfolding split_address_def by (auto simp: strip_brackets_def split: option.split)
  have m: "rule_matches [] port (Some (replicate 4 0)) i r" for port i
    using assms(1-3) by (auto simp: rule_matches_def ipv4InCidr_def numeral_eq_Suc Let_def)
  show ?thesis
  proof (cases "parseUnsigned 65535 port_str")
    case None
    with sp show ?thesis by (simp add: checkListenPolicy_def matchPolicy_unfold)
  next
    case (Some port)
    with sp m have "rule_applies ip_six r (58 # port_str)"
      by (simp add: rule_applies_def host_ips_def)
    with assms(4) show ?thesis by (simp add: checkListenPolicy_def matchPolicy_append)
  qed
qed

theorem deny_any_covers_empty_host_witness:
  "\<not> checkListenPolicy (\<lambda>_. None) ([mk_rule Allow 0 match_all [] 0] @ [mk_rule Deny 0 ipv4_exact [0, 0, 0, 0] 0])
     (58 # bytes_of ''8080'')"
  by (rule deny_any_covers_empty_host) (simp_all add: mk_rule_def)

end
