(* ===== verification/FsMounts.thy ===== *)
theory FsMounts
  imports ZigStd
begin

text \<open>
  The mount table of \<open>cap:fs\<close> (\<open>src/lang/native/fs_state.zig\<close>): registering a host directory or a virtual
  driver under a name, and turning a script path into a mount and the path inside it. As in the source a
  record holds offsets into the table's string buffer; the buffer is the list of its \<open>str_used\<close> bytes and
  the record array the list of the \<open>count\<close> records in use. The callbacks and the user pointer of a driver
  are an opaque value of type \<open>'d\<close>.
\<close>

section \<open>State\<close>

datatype MountKind = real_path | driver

record 'd MountRec =
  name_off :: nat
  name_len :: nat
  m_kind :: MountKind
  real_off :: nat
  real_len :: nat
  m_driver :: "'d option"

record 'd FsState =
  mounts :: "'d MountRec list"
  str_buf :: "byte list"

definition MaxMounts :: nat where "MaxMounts = 16"
definition StrBufSize :: nat where "StrBufSize = 4096"

datatype MountError = TooManyMounts | InvalidMountName | InvalidMountPath | OutOfMountSpace

record 'd Mount =
  mt_name :: "byte list"
  mt_kind :: MountKind
  mt_real :: "byte list"
  mt_driver :: "'d option"

definition fs_empty :: "'d FsState" where
  "fs_empty = \<lparr>mounts = [], str_buf = []\<rparr>"

definition fs_clear :: "'d FsState \<Rightarrow> 'd FsState" where
  "fs_clear s = s\<lparr>mounts := [], str_buf := []\<rparr>"

definition slice :: "byte list \<Rightarrow> nat \<Rightarrow> nat \<Rightarrow> byte list" where
  "slice b off n = take n (drop off b)"

definition nameOf :: "'d FsState \<Rightarrow> 'd MountRec \<Rightarrow> byte list" where
  "nameOf s r = slice (str_buf s) (name_off r) (name_len r)"

definition mount_of :: "'d FsState \<Rightarrow> 'd MountRec \<Rightarrow> 'd Mount" where
  "mount_of s r = \<lparr>mt_name = nameOf s r, mt_kind = m_kind r,
     mt_real = slice (str_buf s) (real_off r) (real_len r), mt_driver = m_driver r\<rparr>"

section \<open>Registering mounts\<close>

fun strip_slashes :: "byte list \<Rightarrow> byte list" where
  "strip_slashes r = (if 1 < length r \<and> last r = 47 then strip_slashes (butlast r) else r)"

declare strip_slashes.simps [simp del]

text \<open>The loop over the records in use: rewrite the first one with the name, or report that there is none.\<close>

fun update_first :: "('a \<Rightarrow> bool) \<Rightarrow> ('a \<Rightarrow> 'a) \<Rightarrow> 'a list \<Rightarrow> 'a list option" where
  "update_first p f [] = None"
| "update_first p f (x # xs) = (if p x then Some (f x # xs) else map_option ((#) x) (update_first p f xs))"

definition addMountToState ::
  "'d FsState \<Rightarrow> byte list \<Rightarrow> byte list \<Rightarrow> (MountError + unit) \<times> 'd FsState" where
  "addMountToState state name real =
     (if length name = 0 \<or> indexOfScalar name 47 \<noteq> None then (Inl InvalidMountName, state)
      else if length real = 0 then (Inl InvalidMountPath, state)
      else let r = strip_slashes real in
        if StrBufSize < length (str_buf state) + length name + length r then (Inl OutOfMountSpace, state)
        else let noff = length (str_buf state); roff = length (str_buf state) + length name;
                 state = state\<lparr>str_buf := str_buf state @ name @ r\<rparr>
             in case update_first (\<lambda>m. nameOf state m = name)
                       (\<lambda>m. m\<lparr>m_kind := real_path, real_off := roff, real_len := length r, m_driver := None\<rparr>)
                       (mounts state) of
                  Some ms \<Rightarrow> (Inr (), state\<lparr>mounts := ms\<rparr>)
                | None \<Rightarrow>
                    if MaxMounts \<le> length (mounts state) then (Inl TooManyMounts, state)
                    else (Inr (), state\<lparr>mounts := mounts state @
                      [\<lparr>name_off = noff, name_len = length name, m_kind = real_path,
                        real_off = roff, real_len = length r, m_driver = None\<rparr>]\<rparr>))"

definition addDriverMountToState ::
  "'d FsState \<Rightarrow> byte list \<Rightarrow> 'd \<Rightarrow> (MountError + unit) \<times> 'd FsState" where
  "addDriverMountToState state name drv =
     (if length name = 0 \<or> indexOfScalar name 47 \<noteq> None then (Inl InvalidMountName, state)
      else if StrBufSize < length (str_buf state) + length name then (Inl OutOfMountSpace, state)
      else let noff = length (str_buf state); state = state\<lparr>str_buf := str_buf state @ name\<rparr>
           in case update_first (\<lambda>m. nameOf state m = name)
                     (\<lambda>m. m\<lparr>m_kind := driver, real_off := 0, real_len := 0, m_driver := Some drv\<rparr>)
                     (mounts state) of
                Some ms \<Rightarrow> (Inr (), state\<lparr>mounts := ms\<rparr>)
              | None \<Rightarrow>
                  if MaxMounts \<le> length (mounts state) then (Inl TooManyMounts, state)
                  else (Inr (), state\<lparr>mounts := mounts state @
                    [\<lparr>name_off = noff, name_len = length name, m_kind = driver,
                      real_off = 0, real_len = 0, m_driver = Some drv\<rparr>]\<rparr>))"

fun setMounts_loop :: "'d FsState \<Rightarrow> (byte list \<times> byte list) list \<Rightarrow> (MountError + unit) \<times> 'd FsState" where
  "setMounts_loop s [] = (Inr (), s)"
| "setMounts_loop s ((n, r) # ms) =
     (case addMountToState s n r of (Inl e, s') \<Rightarrow> (Inl e, s') | (Inr _, s') \<Rightarrow> setMounts_loop s' ms)"

definition setMounts :: "'d FsState \<Rightarrow> (byte list \<times> byte list) list \<Rightarrow> (MountError + unit) \<times> 'd FsState" where
  "setMounts s ms = setMounts_loop (fs_clear s) ms"

section \<open>Looking paths up\<close>

datatype LookupError = PathNotMounted | InvalidPath | PathTooLong

definition bad_component :: "byte list \<Rightarrow> bool" where
  "bad_component c \<longleftrightarrow> length c = 0 \<or> c = [46] \<or> c = [46, 46]"

definition split_head :: "byte list \<Rightarrow> byte list \<times> byte list" where
  "split_head path =
     (case indexOfScalar path 47 of Some i \<Rightarrow> (take i path, drop (i + 1) path) | None \<Rightarrow> (path, []))"

definition lookup :: "'d FsState \<Rightarrow> byte list \<Rightarrow> LookupError + ('d Mount \<times> byte list)" where
  "lookup es path =
     (if length path = 0 \<or> hd path = 47 then Inl InvalidPath
      else if indexOfScalar path 0 \<noteq> None then Inl InvalidPath
      else if list_ex bad_component (splitScalar path 47) then Inl InvalidPath
      else let (head, rest) = split_head path in
        (case find (\<lambda>m. nameOf es m = head) (mounts es) of
           Some m \<Rightarrow> Inr (mount_of es m, rest)
         | None \<Rightarrow> Inl PathNotMounted))"

text \<open>The result is the prefix of \<open>buf\<close> that holds the path; \<open>buf_len\<close> is the size of the caller's buffer.\<close>

definition resolve :: "'d FsState \<Rightarrow> byte list \<Rightarrow> nat \<Rightarrow> LookupError + byte list" where
  "resolve es path buf_len =
     (case lookup es path of Inl e \<Rightarrow> Inl e
      | Inr (mount, rest) \<Rightarrow>
          if mt_kind mount \<noteq> real_path then Inl PathNotMounted
          else let need = length (mt_real mount) + (if length rest > 0 then length rest + 1 else 0)
               in if buf_len < need then Inl PathTooLong
                  else if length rest = 0 then Inr (mt_real mount)
                  else Inr (mt_real mount @ 47 # rest))"

section \<open>The table as a map from names\<close>

definition rec_ok :: "'d FsState \<Rightarrow> 'd MountRec \<Rightarrow> bool" where
  "rec_ok s r \<longleftrightarrow> name_off r + name_len r \<le> length (str_buf s) \<and> real_off r + real_len r \<le> length (str_buf s)
     \<and> 0 < name_len r \<and> 47 \<notin> set (nameOf s r)
     \<and> (m_kind r = real_path \<longrightarrow> 0 < real_len r \<and> m_driver r = None)
     \<and> (m_kind r = driver \<longrightarrow> real_len r = 0 \<and> m_driver r \<noteq> None)"

definition fs_ok :: "'d FsState \<Rightarrow> bool" where
  "fs_ok s \<longleftrightarrow> length (mounts s) \<le> MaxMounts \<and> length (str_buf s) \<le> StrBufSize
     \<and> list_all (rec_ok s) (mounts s) \<and> distinct (map (nameOf s) (mounts s))"

definition view :: "'d FsState \<Rightarrow> byte list \<Rightarrow> 'd Mount option" where
  "view s name = map_option (mount_of s) (find (\<lambda>m. nameOf s m = name) (mounts s))"

subsection \<open>Growing the string buffer\<close>

abbreviation grow :: "'d FsState \<Rightarrow> byte list \<Rightarrow> 'd FsState" where
  "grow s x \<equiv> s\<lparr>str_buf := str_buf s @ x\<rparr>"

lemma slice_grow: "off + n \<le> length b \<Longrightarrow> slice (b @ x) off n = slice b off n"
  by (simp add: slice_def)

lemma nameOf_grow: "rec_ok s r \<Longrightarrow> nameOf (grow s x) r = nameOf s r"
  by (simp add: nameOf_def rec_ok_def slice_grow)

lemma mount_of_grow: "rec_ok s r \<Longrightarrow> mount_of (grow s x) r = mount_of s r"
  by (simp add: mount_of_def nameOf_def rec_ok_def slice_grow)

lemma rec_ok_grow: "rec_ok s r \<Longrightarrow> rec_ok (grow s x) r"
  using nameOf_grow [of s r x] by (simp add: rec_ok_def)

lemma nameOf_mounts_upd [simp]: "nameOf (s\<lparr>mounts := ms\<rparr>) = nameOf s"
  by (simp add: nameOf_def fun_eq_iff)

lemma mount_of_mounts_upd [simp]: "mount_of (s\<lparr>mounts := ms\<rparr>) = mount_of s"
  by (simp add: mount_of_def fun_eq_iff)

lemma rec_ok_mounts_upd [simp]: "rec_ok (s\<lparr>mounts := ms\<rparr>) = rec_ok s"
  by (simp add: rec_ok_def fun_eq_iff)

lemma fs_ok_grow:
  assumes "fs_ok s" and "length (str_buf s) + length x \<le> StrBufSize"
  shows "fs_ok (grow s x)" and "view (grow s x) = view s"
proof -
  have ok: "\<forall>r\<in>set (mounts s). rec_ok s r" using assms(1) by (simp add: fs_ok_def list_all_iff)
  have nm: "map (nameOf (grow s x)) (mounts s) = map (nameOf s) (mounts s)"
    using ok by (simp add: nameOf_grow)
  show "fs_ok (grow s x)"
    using assms ok by (auto simp: fs_ok_def list_all_iff rec_ok_grow nm)
  show "view (grow s x) = view s"
  proof
    fix n
    have "find (\<lambda>m. nameOf (grow s x) m = n) (mounts s) = find (\<lambda>m. nameOf s m = n) (mounts s)"
      using ok by (intro find_cong refl) (simp add: nameOf_grow)
    moreover have "mount_of (grow s x) m = mount_of s m" if "find (\<lambda>m. nameOf s m = n) (mounts s) = Some m" for m
      using that ok by (auto simp: find_Some_iff intro: mount_of_grow)
    ultimately show "view (grow s x) n = view s n"
      by (cases "find (\<lambda>m. nameOf s m = n) (mounts s)") (auto simp: view_def)
  qed
qed

subsection \<open>Replacing and appending records\<close>

lemma update_first_Some:
  "update_first p f xs = Some ys \<Longrightarrow>
    \<exists>pre x post. xs = pre @ x # post \<and> p x \<and> (\<forall>y\<in>set pre. \<not> p y) \<and> ys = pre @ f x # post"
proof (induction xs arbitrary: ys)
  case (Cons a xs)
  show ?case
  proof (cases "p a")
    case True
    with Cons.prems show ?thesis by (intro exI [of _ "[]"]) auto
  next
    case False
    with Cons obtain pre x post where "xs = pre @ x # post" "p x" "\<forall>y\<in>set pre. \<not> p y" "ys = a # pre @ f x # post"
      by auto
    with False show ?thesis by (intro exI [of _ "a # pre"]) auto
  qed
qed simp

lemma update_first_None: "update_first p f xs = None \<longleftrightarrow> (\<forall>x\<in>set xs. \<not> p x)"
  by (induction xs) auto

lemma find_middle:
  "distinct (map g (pre @ x # post)) \<Longrightarrow> find (\<lambda>m. g m = n) (pre @ x # post) =
    (if g x = n then Some x else find (\<lambda>m. g m = n) (pre @ post))"
  by (induction pre) (auto simp: find_None_iff image_iff)

lemma find_snoc: "find p (xs @ [x]) = (case find p xs of Some y \<Rightarrow> Some y | None \<Rightarrow> if p x then Some x else None)"
  by (induction xs) auto

lemma view_replace:
  assumes "fs_ok s" and "update_first (\<lambda>m. nameOf s m = name) f (mounts s) = Some ms"
    and keep: "\<And>m. nameOf s (f m) = nameOf s m"
    and new: "\<And>m. rec_ok s m \<Longrightarrow> nameOf s m = name \<Longrightarrow> mount_of s (f m) = k \<and> rec_ok s (f m)"
  shows "fs_ok (s\<lparr>mounts := ms\<rparr>)" and "view (s\<lparr>mounts := ms\<rparr>) = (view s)(name \<mapsto> k)"
proof -
  obtain pre x post where d: "mounts s = pre @ x # post" "nameOf s x = name" "ms = pre @ f x # post"
    using update_first_Some [OF assms(2)] by blast
  have ok: "rec_ok s x" "\<forall>r\<in>set (pre @ post). rec_ok s r" "distinct (map (nameOf s) (pre @ x # post))"
    using assms(1) d(1) by (auto simp: fs_ok_def list_all_iff)
  have dist: "distinct (map (nameOf s) (pre @ f x # post))" using ok(3) keep by simp
  show "fs_ok (s\<lparr>mounts := ms\<rparr>)"
    using assms(1) new [OF ok(1) d(2)] ok(2) dist d by (simp add: fs_ok_def list_all_iff)
  show "view (s\<lparr>mounts := ms\<rparr>) = (view s)(name \<mapsto> k)"
    using find_middle [OF ok(3)] find_middle [OF dist] new [OF ok(1) d(2)] d keep
    by (auto simp: view_def fun_eq_iff)
qed

lemma view_append:
  assumes "fs_ok s" and "\<forall>m\<in>set (mounts s). nameOf s m \<noteq> name" and "length (mounts s) < MaxMounts"
    and "nameOf s r = name" and "rec_ok s r"
  shows "fs_ok (s\<lparr>mounts := mounts s @ [r]\<rparr>)"
    and "view (s\<lparr>mounts := mounts s @ [r]\<rparr>) = (view s)(name \<mapsto> mount_of s r)"
proof -
  show "fs_ok (s\<lparr>mounts := mounts s @ [r]\<rparr>)"
    using assms by (auto simp: fs_ok_def list_all_iff)
  have "find (\<lambda>m. nameOf s m = name) (mounts s) = None"
    using assms(2) by (simp add: find_None_iff)
  then show "view (s\<lparr>mounts := mounts s @ [r]\<rparr>) = (view s)(name \<mapsto> mount_of s r)"
    using assms(4) by (auto simp: view_def fun_eq_iff find_snoc split: option.splits)
qed

subsection \<open>The contract of a table of names\<close>

text \<open>
  What the two registration routines promise: the invariant is kept; a successful add binds exactly the
  given name, replacing what was bound to it; a failed add changes no binding.
\<close>

locale named_table =
  fixes add :: "'s \<Rightarrow> 'n \<Rightarrow> 'v \<Rightarrow> ('e + unit) \<times> 's"
    and look :: "'s \<Rightarrow> 'n \<Rightarrow> 'm option"
    and ok :: "'s \<Rightarrow> bool"
    and entry :: "'n \<Rightarrow> 'v \<Rightarrow> 'm"
  assumes add_ok: "ok s \<Longrightarrow> ok (snd (add s n v))"
    and add_look: "ok s \<Longrightarrow> look (snd (add s n v)) =
      (case fst (add s n v) of Inr _ \<Rightarrow> (look s)(n \<mapsto> entry n v) | Inl _ \<Rightarrow> look s)"
begin

lemma add_other: "ok s \<Longrightarrow> m \<noteq> n \<Longrightarrow> look (snd (add s n v)) m = look s m"
  by (simp add: add_look split: sum.split)

lemma adds_ok: "ok s \<Longrightarrow> ok (foldl (\<lambda>s (n, v). snd (add s n v)) s nvs)"
  by (induction nvs arbitrary: s) (auto simp: add_ok)

lemma adds_other:
  "ok s \<Longrightarrow> m \<notin> fst ` set nvs \<Longrightarrow> look (foldl (\<lambda>s (n, v). snd (add s n v)) s nvs) m = look s m"
  by (induction nvs arbitrary: s) (auto simp: add_ok add_other)

end

lemma strip_slashes_nonempty: "r \<noteq> [] \<Longrightarrow> strip_slashes r \<noteq> []"
proof (induction r rule: strip_slashes.induct)
  case (1 r)
  then show ?case
    by (subst strip_slashes.simps) (cases r rule: rev_cases; auto)
qed

lemma strip_slashes_last: "strip_slashes r \<noteq> [] \<Longrightarrow> last (strip_slashes r) = 47 \<Longrightarrow> length (strip_slashes r) = 1"
proof (induction r rule: strip_slashes.induct)
  case (1 r)
  show ?case
  proof (cases "1 < length r \<and> last r = 47")
    case True
    with "1" show ?thesis by (simp add: strip_slashes.simps [of r])
  next
    case False
    then have "strip_slashes r = r" by (subst strip_slashes.simps) auto
    with False "1.prems" show ?thesis by (cases r) auto
  qed
qed

lemma slice_fresh: "slice (b @ x @ y) (length b) (length x) = x" "slice (b @ x @ y) (length b + length x) (length y) = y"
    "slice (b @ x) (length b) (length x) = x"
  by (simp_all add: slice_def)

definition dir_mount :: "byte list \<Rightarrow> byte list \<Rightarrow> 'd Mount" where
  "dir_mount n r = \<lparr>mt_name = n, mt_kind = real_path, mt_real = strip_slashes r, mt_driver = None\<rparr>"

definition driver_mount :: "byte list \<Rightarrow> 'd \<Rightarrow> 'd Mount" where
  "driver_mount n d = \<lparr>mt_name = n, mt_kind = driver, mt_real = [], mt_driver = Some d\<rparr>"

lemma addMount_spec:
  assumes "fs_ok s"
  shows "fs_ok (snd (addMountToState s n r)) \<and> view (snd (addMountToState s n r)) =
    (case fst (addMountToState s n r) of Inr _ \<Rightarrow> (view s)(n \<mapsto> dir_mount n r) | Inl _ \<Rightarrow> view s)"
proof -
  define x where "x = strip_slashes r"
  define g where "g = grow s (n @ x)"
  define f :: "'a MountRec \<Rightarrow> 'a MountRec" where
    "f = (\<lambda>m. m\<lparr>m_kind := real_path, real_off := length (str_buf s) + length n, real_len := length x, m_driver := None\<rparr>)"
  define r0 :: "'a MountRec" where "r0 = \<lparr>name_off = length (str_buf s), name_len = length n, m_kind = real_path,
    real_off = length (str_buf s) + length n, real_len = length x, m_driver = None\<rparr>"
  show ?thesis
  proof (cases "n = [] \<or> indexOfScalar n 47 \<noteq> None \<or> r = [] \<or> StrBufSize < length (str_buf s) + length n + length x")
    case True
    with assms show ?thesis by (auto simp: addMountToState_def x_def Let_def)
  next
    case False
    then have x: "x \<noteq> []" and n: "n \<noteq> []" "47 \<notin> set n"
      using strip_slashes_nonempty by (auto simp: x_def indexOfScalar_None)
    have g: "fs_ok g" "view g = view s" using False fs_ok_grow [OF assms, of "n @ x"] by (auto simp: g_def)
    have add: "addMountToState s n r = (case update_first (\<lambda>m. nameOf g m = n) f (mounts s) of
        Some ms \<Rightarrow> (Inr (), g\<lparr>mounts := ms\<rparr>)
      | None \<Rightarrow> if MaxMounts \<le> length (mounts s) then (Inl TooManyMounts, g)
                else (Inr (), g\<lparr>mounts := mounts s @ [r0]\<rparr>))"
      using False unfolding addMountToState_def x_def [symmetric] Let_def f_def r0_def g_def
      by (auto split: option.split)
    have f: "mount_of g (f m) = dir_mount n r" "rec_ok g (f m)" if "rec_ok g m" "nameOf g m = n" for m
      using that x by (auto simp: f_def g_def mount_of_def dir_mount_def nameOf_def rec_ok_def slice_fresh x_def)
    have f': "nameOf g (f m) = nameOf g m" for m by (simp add: f_def nameOf_def)
    have r0: "nameOf g r0 = n" "rec_ok g r0" "mount_of g r0 = dir_mount n r"
      using n x by (auto simp: r0_def g_def mount_of_def dir_mount_def nameOf_def rec_ok_def slice_fresh x_def)
    have gm: "mounts g = mounts s" by (simp add: g_def)
    show ?thesis
    proof (cases "update_first (\<lambda>m. nameOf g m = n) f (mounts s)")
      case (Some ms)
      then show ?thesis
        using view_replace [OF g(1) _ f', of n ms "dir_mount n r"] f add gm g(2) by simp
    next
      case None
      then have "\<forall>m\<in>set (mounts g). nameOf g m \<noteq> n" by (simp add: update_first_None gm)
      then show ?thesis
        using view_append [OF g(1) _ _ r0(1,2)] r0(3) add None gm g by simp
    qed
  qed
qed

lemma addDriver_spec:
  assumes "fs_ok s"
  shows "fs_ok (snd (addDriverMountToState s n d)) \<and> view (snd (addDriverMountToState s n d)) =
    (case fst (addDriverMountToState s n d) of Inr _ \<Rightarrow> (view s)(n \<mapsto> driver_mount n d) | Inl _ \<Rightarrow> view s)"
proof -
  define g where "g = grow s n"
  define f :: "'a MountRec \<Rightarrow> 'a MountRec" where
    "f = (\<lambda>m. m\<lparr>m_kind := driver, real_off := 0, real_len := 0, m_driver := Some d\<rparr>)"
  define r0 :: "'a MountRec" where "r0 = \<lparr>name_off = length (str_buf s), name_len = length n, m_kind = driver,
    real_off = 0, real_len = 0, m_driver = Some d\<rparr>"
  show ?thesis
  proof (cases "n = [] \<or> indexOfScalar n 47 \<noteq> None \<or> StrBufSize < length (str_buf s) + length n")
    case True
    with assms show ?thesis by (auto simp: addDriverMountToState_def Let_def)
  next
    case False
    then have n: "n \<noteq> []" "47 \<notin> set n" by (auto simp: indexOfScalar_None)
    have g: "fs_ok g" "view g = view s" using False fs_ok_grow [OF assms, of n] by (auto simp: g_def)
    have add: "addDriverMountToState s n d = (case update_first (\<lambda>m. nameOf g m = n) f (mounts s) of
        Some ms \<Rightarrow> (Inr (), g\<lparr>mounts := ms\<rparr>)
      | None \<Rightarrow> if MaxMounts \<le> length (mounts s) then (Inl TooManyMounts, g)
                else (Inr (), g\<lparr>mounts := mounts s @ [r0]\<rparr>))"
      using False unfolding addDriverMountToState_def Let_def f_def r0_def g_def by (auto split: option.split)
    have f: "mount_of g (f m) = driver_mount n d" "rec_ok g (f m)" if "rec_ok g m" "nameOf g m = n" for m
      using that by (auto simp: f_def mount_of_def driver_mount_def nameOf_def rec_ok_def slice_def)
    have f': "nameOf g (f m) = nameOf g m" for m by (simp add: f_def nameOf_def)
    have r0: "nameOf g r0 = n" "rec_ok g r0" "mount_of g r0 = driver_mount n d"
      using n by (auto simp: r0_def g_def mount_of_def driver_mount_def nameOf_def rec_ok_def slice_def)
    have gm: "mounts g = mounts s" by (simp add: g_def)
    show ?thesis
    proof (cases "update_first (\<lambda>m. nameOf g m = n) f (mounts s)")
      case (Some ms)
      then show ?thesis
        using view_replace [OF g(1) _ f', of n ms "driver_mount n d"] f add gm g(2) by simp
    next
      case None
      then have "\<forall>m\<in>set (mounts g). nameOf g m \<noteq> n" by (simp add: update_first_None gm)
      then show ?thesis
        using view_append [OF g(1) _ _ r0(1,2)] r0(3) add None gm g by simp
    qed
  qed
qed

interpretation dirs: named_table addMountToState view fs_ok dir_mount
  by unfold_locales (simp_all only: addMount_spec)

interpretation drivers: named_table addDriverMountToState view fs_ok driver_mount
  by unfold_locales (simp_all only: addDriver_spec)

lemma fs_ok_empty [simp]: "fs_ok fs_empty" "fs_ok (fs_clear s)"
  by (simp_all add: fs_ok_def fs_empty_def fs_clear_def)

lemma lookup_view:
  assumes "lookup s path = Inr (m, rest)"
  shows "view s (fst (split_head path)) = Some m" and "rest = snd (split_head path)"
  using assms by (auto simp: lookup_def view_def case_prod_beta Let_def split: if_splits option.splits)

section \<open>Paths stay inside the mount\<close>

lemma split_head_components:
  assumes "split_head path = (h, rest)"
  shows "splitScalar path 47 = (if indexOfScalar path 47 = None then [path] else h # splitScalar rest 47)"
proof (cases "indexOfScalar path 47")
  case None
  then show ?thesis by (simp add: indexOfScalar_None splitScalar_nosep_id)
next
  case (Some i)
  have "path = take i path @ 47 # drop (Suc i) path" "47 \<notin> set (take i path)"
    using indexOfScalar_SomeD [OF Some] id_take_nth_drop [of i path] by auto
  then show ?thesis using Some assms splitScalar_append by (fastforce simp: split_head_def)
qed

text \<open>
  Where a path leads, one component at a time, from a directory at depth \<open>d\<close> below the mount point:
  \<open>None\<close> once it climbs above the mount point.
\<close>

fun walk :: "nat \<Rightarrow> byte list list \<Rightarrow> nat option" where
  "walk d [] = Some d"
| "walk d (c # cs) =
     (if c = [] \<or> c = [46] then walk d cs
      else if c = [46, 46] then (if d = 0 then None else walk (d - 1) cs)
      else walk (Suc d) cs)"

lemma walk_clean: "list_all (\<lambda>c. \<not> bad_component c) cs \<Longrightarrow> walk d cs = Some (d + length cs)"
  by (induction cs arbitrary: d) (auto simp: bad_component_def)

lemma lookup_clean:
  assumes "lookup s path = Inr (m, rest)" and "rest \<noteq> []"
  shows "list_all (\<lambda>c. \<not> bad_component c) (splitScalar rest 47)" and "0 \<notin> set rest"
proof -
  have c: "list_all (\<lambda>c. \<not> bad_component c) (splitScalar path 47)" "0 \<notin> set path"
    using assms(1) by (auto simp: lookup_def indexOfScalar_None list_all_iff list_ex_iff split: if_splits)
  obtain h where sh: "split_head path = (h, rest)"
    using lookup_view(2) [OF assms(1)] by (metis prod.collapse)
  then have "indexOfScalar path 47 \<noteq> None" using assms(2) by (auto simp: split_head_def split: option.splits)
  then show "list_all (\<lambda>c. \<not> bad_component c) (splitScalar rest 47)"
    using c(1) split_head_components [OF sh] by (auto split: if_splits)
  show "0 \<notin> set rest"
    using c(2) sh by (auto simp: split_head_def split: option.splits dest: in_set_dropD)
qed

section \<open>Claims\<close>

text \<open>
  C7. A script path never leaves its mount: whenever \<open>resolve\<close> yields an OS path, it is the target
  directory of the mount the path's first component names, followed by nothing or by a slash and the rest
  of the path; walking that rest from the target directory never climbs above it (each component goes
  one level down), and it holds no NUL byte at which the OS could cut it short.
\<close>

theorem resolve_stays_inside:
  assumes "resolve s path buf_len = Inr p"
  shows "\<exists>m rest. view s (fst (split_head path)) = Some m \<and> mt_kind m = real_path \<and>
    p = mt_real m @ (if rest = [] then [] else 47 # rest) \<and> length p \<le> buf_len \<and>
    rest = snd (split_head path) \<and> 0 \<notin> set rest \<and>
    (rest \<noteq> [] \<longrightarrow> walk 0 (splitScalar rest 47) = Some (length (splitScalar rest 47)))"
proof -
  obtain m rest where l: "lookup s path = Inr (m, rest)" "mt_kind m = real_path"
      "p = mt_real m @ (if rest = [] then [] else 47 # rest)" "length p \<le> buf_len"
    using assms by (auto simp: resolve_def Let_def split: sum.splits if_splits)
  then show ?thesis
    using lookup_view [OF l(1)] lookup_clean [OF l(1)] walk_clean [of "splitScalar rest 47" 0] by auto
qed

definition demo_fs :: "unit FsState" where
  "demo_fs = snd (addMountToState fs_empty [100] [47, 118, 47])"

lemma demo_fs_value: "demo_fs = \<lparr>mounts = [\<lparr>name_off = 0, name_len = 1, m_kind = real_path, real_off = 1, real_len = 2,
    m_driver = None\<rparr>], str_buf = [100, 47, 118]\<rparr>"
  by (simp add: demo_fs_def addMountToState_def fs_empty_def Let_def strip_slashes.simps [of "[47, 118, 47]"]
      strip_slashes.simps [of "[47, 118]"] StrBufSize_def MaxMounts_def)

theorem resolve_stays_inside_witness:
  "\<exists>m. view demo_fs [100] = Some m \<and> mt_kind m = real_path \<and> [47, 118, 47, 120] = mt_real m @ [47, 120] \<and>
    walk 0 (splitScalar [120] 47) = Some 1"
proof -
  have r: "resolve demo_fs [100, 47, 120] 64 = Inr [47, 118, 47, 120]"
    by (simp add: resolve_def lookup_def demo_fs_value list_ex_iff bad_component_def split_head_def nameOf_def
        mount_of_def slice_def)
  have "split_head [100, 47, 120] = ([100], [120])" by (simp add: split_head_def)
  then show ?thesis using resolve_stays_inside [OF r] by auto
qed

text \<open>
  C35. The mount table refines a map from names to mounts: registering a directory or a driver that
  succeeds binds exactly its name (re-adding a name replaces its target), every other name keeps its mount, and
  a registration that fails changes no binding. The table's invariant (at most 16 records, all offsets
  inside the 4096-byte buffer, distinct non-empty names without a slash) is kept in every case.
\<close>

theorem mount_table_refines_map:
  assumes "fs_ok s"
  shows "fs_ok (snd (addMountToState s n r)) \<and> view (snd (addMountToState s n r)) =
      (case fst (addMountToState s n r) of Inr _ \<Rightarrow> (view s)(n \<mapsto> dir_mount n r) | Inl _ \<Rightarrow> view s)
    \<and> fs_ok (snd (addDriverMountToState s n d)) \<and> view (snd (addDriverMountToState s n d)) =
      (case fst (addDriverMountToState s n d) of Inr _ \<Rightarrow> (view s)(n \<mapsto> driver_mount n d) | Inl _ \<Rightarrow> view s)"
  using dirs.add_ok [OF assms] dirs.add_look [OF assms] drivers.add_ok [OF assms] drivers.add_look [OF assms]
  by simp

theorem mount_table_refines_map_witness:
  "fs_ok (snd (addMountToState (fs_empty :: unit FsState) [100] [47]))"
  using mount_table_refines_map [of "fs_empty :: unit FsState" "[100]" "[47]"] by simp

text \<open>
  A registration that fails because the table is full has already copied its strings: each such call
  uses up string space for good, so that after enough of them even re-mounting an existing name fails
  with \<open>OutOfMountSpace\<close>.
\<close>

theorem full_table_leaks_space:
  assumes "fst (addMountToState s n r) = Inl TooManyMounts"
  shows "length (str_buf (snd (addMountToState s n r))) = length (str_buf s) + length n + length (strip_slashes r)
    \<and> length (str_buf s) < length (str_buf (snd (addMountToState s n r)))"
  using assms by (auto simp: addMountToState_def Let_def split: if_splits option.splits)

definition full_fs :: "unit FsState" where
  "full_fs = \<lparr>mounts = map (\<lambda>i. \<lparr>name_off = i, name_len = 1, m_kind = driver, real_off = 0, real_len = 0,
     m_driver = Some ()\<rparr>) [0..<16], str_buf = map (\<lambda>i. of_nat (65 + i)) [0..<16]\<rparr>"

theorem full_table_leaks_space_witness:
  "length (str_buf full_fs) < length (str_buf (snd (addMountToState full_fs [120] [47])))"
proof (rule full_table_leaks_space [THEN conjunct2])
  show "fst (addMountToState full_fs [120] [47]) = Inl TooManyMounts"
    by (simp add: full_fs_def addMountToState_def Let_def upt_rec StrBufSize_def MaxMounts_def strip_slashes.simps
        nameOf_def slice_def)
qed

end
