(* ===== verification/PackageState.thy ===== *)
theory PackageState
  imports ZigStd
begin

text \<open>
  The module bundles of an engine (\<open>src/lang/native/package_state.zig\<close>): the registry of packages, the import
  lookup, and the two loaders, from a zip archive in memory and from a directory walk.
  Reads of the archive go through \<open>rd\<close>, which is \<open>Fault\<close> outside the data: a fault stands for an
  out-of-bounds access of the Zig code, and the claims show that no input reaches one.
  Parameters: \<open>mx\<close> is the largest \<open>usize\<close> of the target (\<open>checkedAdd\<close> depends on it; the code runs on
  64-bit hosts and on wasm32), \<open>max_file\<close> the preset's \<open>max_input_bytes\<close>, \<open>alloc_ok\<close> the page allocator
  and \<open>inflate\<close> the deflate decompressor (compressed bytes and wanted size to the exact output).
  Arrays with a count are the lists of the entries in use.
\<close>

section \<open>State\<close>

record PackageFile =
  pf_path :: "byte list"
  pf_src :: "byte list"

record Package =
  pk_name :: "byte list"
  pk_files :: "PackageFile list"

type_synonym PackageRegistry = "Package list"

definition MaxPackages :: nat where "MaxPackages = 32"
definition MaxFilesPerPackage :: nat where "MaxFilesPerPackage = 64"

datatype LoadError = PackageTableFull | FileTableFull | FileTooLarge | InvalidZip | InvalidPath | OutOfMemory

datatype 'a load = Fault | Err LoadError | Ok 'a

fun lbind :: "'a load \<Rightarrow> ('a \<Rightarrow> 'b load) \<Rightarrow> 'b load" where
  "lbind Fault f = Fault"
| "lbind (Err e) f = Err e"
| "lbind (Ok x) f = f x"

lemma lbind_eq_Ok: "lbind m f = Ok y \<longleftrightarrow> (\<exists>x. m = Ok x \<and> f x = Ok y)"
  by (cases m) auto

lemma lbind_eq_Fault: "lbind m f = Fault \<longleftrightarrow> m = Fault \<or> (\<exists>x. m = Ok x \<and> f x = Fault)"
  by (cases m) auto

definition rd :: "byte list \<Rightarrow> nat \<Rightarrow> nat \<Rightarrow> byte list load" where
  "rd data off n = (if off + n \<le> length data then Ok (take n (drop off data)) else Fault)"

definition checkedAdd :: "nat \<Rightarrow> nat \<Rightarrow> nat \<Rightarrow> nat load" where
  "checkedAdd mx a b = (if mx < a + b then Err InvalidZip else Ok (a + b))"

definition clearRegistry :: "PackageRegistry \<Rightarrow> PackageRegistry" where
  "clearRegistry reg = []"

section \<open>Import lookup\<close>

definition gengo_ext :: "byte list" where
  "gengo_ext = bytes_of ''.gengo''"

definition mem_contains :: "byte list \<Rightarrow> byte list \<Rightarrow> bool" where
  "mem_contains hay needle \<longleftrightarrow> c_strstr hay needle \<noteq> None"

definition resolve_import :: "PackageRegistry \<Rightarrow> byte list \<Rightarrow> byte list option" where
  "resolve_import reg import_path =
     (let path = (if endsWith import_path gengo_ext then take (length import_path - 6) import_path else import_path)
      in case indexOfScalar path 47 of None \<Rightarrow> None
         | Some slash \<Rightarrow>
             (let pkg_name = take slash path; file_path = drop (slash + 1) path in
              if length file_path = 0 then None
              else case find (\<lambda>p. pk_name p = pkg_name) reg of None \<Rightarrow> None
                   | Some pkg \<Rightarrow> map_option pf_src (find (\<lambda>f. pf_path f = file_path) (pk_files pkg))))"

section \<open>Zip archives\<close>

definition le16 :: "byte list \<Rightarrow> nat \<Rightarrow> nat" where
  "le16 b i = unat (b ! i) + 256 * unat (b ! (i + 1))"

definition le32 :: "byte list \<Rightarrow> nat \<Rightarrow> nat" where
  "le32 b i = le16 b i + 65536 * le16 b (i + 2)"

definition end_record_sig :: "byte list" where "end_record_sig = [80, 75, 5, 6]"
definition central_file_header_sig :: "byte list" where "central_file_header_sig = [80, 75, 1, 2]"
definition local_file_header_sig :: "byte list" where "local_file_header_sig = [80, 75, 3, 4]"

text \<open>The backward scan for the end-of-central-directory record: \<open>(cd_offset, cd_size)\<close>.\<close>

fun scan_end_record :: "byte list \<Rightarrow> nat \<Rightarrow> (nat \<times> nat) option load" where
  "scan_end_record data i =
     lbind (rd data i 4) (\<lambda>sig.
       if sig = end_record_sig then
         lbind (rd data (i + 12) 4) (\<lambda>s. lbind (rd data (i + 16) 4) (\<lambda>off. Ok (Some (le32 off 0, le32 s 0))))
       else case i of 0 \<Rightarrow> Ok None | Suc j \<Rightarrow> scan_end_record data j)"

declare scan_end_record.simps [simp del]

definition findEndRecord :: "byte list \<Rightarrow> (nat \<times> nat) option load" where
  "findEndRecord data = (if length data < 22 then Ok None else scan_end_record data (length data - 22))"

text \<open>The part of the loop body that reads one file's bytes, from its central-directory header.\<close>

definition zip_file_bytes ::
  "(byte list \<Rightarrow> nat \<Rightarrow> byte list option) \<Rightarrow> (nat \<Rightarrow> bool) \<Rightarrow> nat \<Rightarrow> byte list \<Rightarrow> byte list \<Rightarrow> byte list load" where
  "zip_file_bytes inflate alloc_ok mx data hdr =
     (let local_off = le32 hdr 42 in
      lbind (checkedAdd mx local_off 30) (\<lambda>local_hdr_end.
      if length data < local_hdr_end then Err InvalidZip
      else lbind (rd data local_off 30) (\<lambda>lhdr.
        if take 4 lhdr \<noteq> local_file_header_sig then Err InvalidZip
        else lbind (checkedAdd mx local_hdr_end (le16 lhdr 26)) (\<lambda>a.
          lbind (checkedAdd mx a (le16 lhdr 28)) (\<lambda>data_start.
          lbind (checkedAdd mx data_start (le32 hdr 20)) (\<lambda>data_end.
          if length data < data_end then Err InvalidZip
          else lbind (rd data data_start (data_end - data_start)) (\<lambda>compressed.
            let usize_unc = le32 hdr 24 in
            if \<not> alloc_ok usize_unc then Err OutOfMemory
            else if le16 hdr 10 = 0 then
              (if length compressed \<noteq> usize_unc then Err InvalidZip else Ok compressed)
            else (case inflate compressed usize_unc of None \<Rightarrow> Err InvalidZip | Some out \<Rightarrow> Ok out))))))))"

text \<open>
  One turn of the loop over the central directory: \<open>Ok None\<close> is the \<open>break\<close>, otherwise the new position
  and the files loaded so far.
\<close>

definition zip_entry ::
  "(byte list \<Rightarrow> nat \<Rightarrow> byte list option) \<Rightarrow> (nat \<Rightarrow> bool) \<Rightarrow> nat \<Rightarrow> nat \<Rightarrow> byte list \<Rightarrow> nat \<Rightarrow> PackageFile list
    \<Rightarrow> (nat \<times> PackageFile list) option load" where
  "zip_entry inflate alloc_ok mx max_file data cd_pos files =
     lbind (rd data cd_pos 46) (\<lambda>hdr.
       if take 4 hdr \<noteq> central_file_header_sig then Ok None
       else let fn_start = cd_pos + 46 in
         lbind (checkedAdd mx fn_start (le16 hdr 28)) (\<lambda>fn_end.
         if length data < fn_end then Err InvalidZip
         else lbind (rd data fn_start (fn_end - fn_start)) (\<lambda>filename.
           let cd_pos' = cd_pos + 46 + le16 hdr 28 + le16 hdr 30 + le16 hdr 32;
               skip = Ok (Some (cd_pos', files));
               module_path = take (length filename - 6) filename
           in if length filename = 0 \<or> last filename = 47 then skip
              else if \<not> endsWith filename gengo_ext then skip
              else if mem_contains filename [46, 46] then skip
              else if length module_path = 0 \<or> 127 < length module_path then skip
              else if MaxFilesPerPackage \<le> length files then Err FileTableFull
              else if max_file < le32 hdr 24 then Err FileTooLarge
              else if le16 hdr 10 \<noteq> 0 \<and> le16 hdr 10 \<noteq> 8 then skip
              else lbind (zip_file_bytes inflate alloc_ok mx data hdr) (\<lambda>src.
                Ok (Some (cd_pos', files @ [\<lparr>pf_path = module_path, pf_src = src\<rparr>]))))))"

lemma zip_entry_advances:
  "zip_entry inflate alloc_ok mx max_file data cd_pos files = Ok (Some (p, fs)) \<Longrightarrow> cd_pos + 46 \<le> p"
  by (auto simp: zip_entry_def lbind_eq_Ok Let_def split: if_splits)

function zip_loop ::
  "(byte list \<Rightarrow> nat \<Rightarrow> byte list option) \<Rightarrow> (nat \<Rightarrow> bool) \<Rightarrow> nat \<Rightarrow> nat \<Rightarrow> byte list \<Rightarrow> nat \<Rightarrow> nat \<Rightarrow> PackageFile list
    \<Rightarrow> PackageFile list load" where
  "zip_loop inflate alloc_ok mx max_file data cd_end cd_pos files =
     (if cd_pos + 46 \<le> cd_end then
        (case zip_entry inflate alloc_ok mx max_file data cd_pos files of
           Fault \<Rightarrow> Fault
         | Err e \<Rightarrow> Err e
         | Ok None \<Rightarrow> Ok files
         | Ok (Some (p, fs)) \<Rightarrow> zip_loop inflate alloc_ok mx max_file data cd_end p fs)
      else Ok files)"
  by pat_completeness auto
termination
  by (relation "measure (\<lambda>(inflate, alloc_ok, mx, max_file, data, cd_end, cd_pos, files). cd_end - cd_pos)")
    (auto dest: zip_entry_advances)

declare zip_loop.simps [simp del]

definition loadFromZip ::
  "(byte list \<Rightarrow> nat \<Rightarrow> byte list option) \<Rightarrow> (nat \<Rightarrow> bool) \<Rightarrow> nat \<Rightarrow> nat \<Rightarrow> PackageRegistry \<Rightarrow> byte list \<Rightarrow> byte list
    \<Rightarrow> PackageRegistry load" where
  "loadFromZip inflate alloc_ok mx max_file reg name data =
     (if MaxPackages \<le> length reg then Err PackageTableFull
      else if length name = 0 \<or> 64 < length name then Err InvalidPath
      else lbind (findEndRecord data) (\<lambda>r.
        case r of None \<Rightarrow> Err InvalidZip
        | Some (cd_offset, cd_size) \<Rightarrow>
            lbind (checkedAdd mx cd_offset cd_size) (\<lambda>cd_end.
              if length data < cd_end then Err InvalidZip
              else lbind (zip_loop inflate alloc_ok mx max_file data cd_end cd_offset []) (\<lambda>files.
                Ok (reg @ [\<lparr>pk_name = name, pk_files = files\<rparr>])))))"

section \<open>Directories\<close>

text \<open>
  The directory walk is the operating system's: a list of steps, each an entry with what reading the file
  gives, or a failure of the walk itself.
\<close>

datatype read_result = Contents "byte list" | StreamTooLong | ReadFailed

record walk_entry =
  we_is_file :: bool
  we_basename :: "byte list"
  we_path :: "byte list"
  we_read :: "nat \<Rightarrow> read_result"

datatype walk_step = WalkEntry walk_entry | WalkFailed

fun dir_loop :: "nat \<Rightarrow> walk_step list \<Rightarrow> PackageFile list \<Rightarrow> PackageFile list load" where
  "dir_loop max_file [] files = Ok files"
| "dir_loop max_file (WalkFailed # ws) files = Err InvalidPath"
| "dir_loop max_file (WalkEntry e # ws) files =
     (let raw_path = we_path e; mod_path = take (length raw_path - 6) raw_path in
      if \<not> we_is_file e then dir_loop max_file ws files
      else if \<not> endsWith (we_basename e) gengo_ext then dir_loop max_file ws files
      else if mem_contains raw_path [46, 46] then dir_loop max_file ws files
      else if length raw_path < 6 then dir_loop max_file ws files
      else if length mod_path = 0 \<or> 127 < length mod_path then dir_loop max_file ws files
      else if MaxFilesPerPackage \<le> length files then Err FileTableFull
      else case we_read e max_file of
             StreamTooLong \<Rightarrow> Err FileTooLarge
           | ReadFailed \<Rightarrow> dir_loop max_file ws files
           | Contents c \<Rightarrow> dir_loop max_file ws (files @ [\<lparr>pf_path = mod_path, pf_src = c\<rparr>]))"

definition loadFromDir :: "nat \<Rightarrow> PackageRegistry \<Rightarrow> byte list \<Rightarrow> (LoadError + walk_step list) \<Rightarrow> PackageRegistry load" where
  "loadFromDir max_file reg name walked =
     (if MaxPackages \<le> length reg then Err PackageTableFull
      else if length name = 0 \<or> 64 < length name then Err InvalidPath
      else case walked of Inl e \<Rightarrow> Err e
           | Inr steps \<Rightarrow> lbind (dir_loop max_file steps []) (\<lambda>files.
               Ok (reg @ [\<lparr>pk_name = name, pk_files = files\<rparr>])))"

section \<open>No read outside the archive\<close>

lemma rd_ok [simp]: "off + n \<le> length data \<Longrightarrow> rd data off n = Ok (take n (drop off data))"
  by (simp add: rd_def)

lemma checkedAdd_cases: "checkedAdd mx a b = Ok c \<Longrightarrow> c = a + b" "checkedAdd mx a b \<noteq> Fault"
  by (auto simp: checkedAdd_def split: if_splits)

lemma scan_end_record_safe: "i + 22 \<le> length data \<Longrightarrow> scan_end_record data i \<noteq> Fault"
proof (induction i)
  case 0
  then show ?case by (subst scan_end_record.simps) simp
next
  case (Suc i)
  then show ?case by (subst scan_end_record.simps) simp
qed

lemma findEndRecord_safe: "findEndRecord data \<noteq> Fault"
  by (simp add: findEndRecord_def scan_end_record_safe)

lemma zip_file_bytes_safe: "zip_file_bytes inflate alloc_ok mx data hdr \<noteq> Fault"
  by (auto simp: zip_file_bytes_def lbind_eq_Fault Let_def checkedAdd_cases(2) not_less
      dest!: checkedAdd_cases(1) split: if_splits option.splits)

lemma zip_entry_safe: "cd_pos + 46 \<le> length data \<Longrightarrow> zip_entry inflate alloc_ok mx max_file data cd_pos files \<noteq> Fault"
  by (auto simp: zip_entry_def lbind_eq_Fault Let_def checkedAdd_cases(2) zip_file_bytes_safe not_less
      dest!: checkedAdd_cases(1) split: if_splits)

lemma zip_loop_safe:
  "cd_end \<le> length data \<Longrightarrow> zip_loop inflate alloc_ok mx max_file data cd_end cd_pos files \<noteq> Fault"
proof (induction inflate alloc_ok mx max_file data cd_end cd_pos files rule: zip_loop.induct)
  case (1 inflate alloc_ok mx max_file data cd_end cd_pos files)
  then show ?case
    using zip_entry_safe [of cd_pos data inflate alloc_ok mx max_file files]
    by (subst zip_loop.simps) (auto split: load.splits option.splits)
qed


section \<open>The registry invariant\<close>

definition file_ok :: "nat \<Rightarrow> PackageFile \<Rightarrow> bool" where
  "file_ok max_file f \<longleftrightarrow>
     0 < length (pf_path f) \<and> length (pf_path f) \<le> 127 \<and> \<not> mem_contains (pf_path f) [46, 46]
     \<and> length (pf_src f) \<le> max_file"

definition package_ok :: "nat \<Rightarrow> Package \<Rightarrow> bool" where
  "package_ok max_file p \<longleftrightarrow>
     0 < length (pk_name p) \<and> length (pk_name p) \<le> 64 \<and> length (pk_files p) \<le> MaxFilesPerPackage
     \<and> (\<forall>f \<in> set (pk_files p). file_ok max_file f)"

definition registry_ok :: "nat \<Rightarrow> PackageRegistry \<Rightarrow> bool" where
  "registry_ok max_file reg \<longleftrightarrow> length reg \<le> MaxPackages \<and> (\<forall>p \<in> set reg. package_ok max_file p)"

text \<open>A path without \<open>..\<close> keeps none when its extension is cut off.\<close>

lemma c_strstr_found: "c_strstr (p @ needle @ s) needle \<noteq> None"
proof (induction p)
  case Nil
  then show ?case by (cases "needle @ s") (auto dest: arg_cong [where f = "take (length needle)"])
qed auto

lemma mem_contains_iff: "mem_contains hay needle \<longleftrightarrow> (\<exists>p s. hay = p @ needle @ s)"
proof
  assume "mem_contains hay needle"
  then obtain t where "c_strstr hay needle = Some t"
    by (auto simp: mem_contains_def)
  then obtain p where p: "hay = p @ t" "take (length needle) t = needle"
    by (metis c_strstr_suffix)
  then have "hay = p @ needle @ drop (length needle) t"
    by (metis append_take_drop_id)
  then show "\<exists>p s. hay = p @ needle @ s" by blast
qed (use c_strstr_found in \<open>auto simp: mem_contains_def\<close>)

lemma mem_contains_take: "mem_contains (take n xs) ys \<Longrightarrow> mem_contains xs ys"
  unfolding mem_contains_iff by (metis append.assoc append_take_drop_id)

definition files_ok :: "nat \<Rightarrow> PackageFile list \<Rightarrow> bool" where
  "files_ok max_file fs \<longleftrightarrow> length fs \<le> MaxFilesPerPackage \<and> (\<forall>f \<in> set fs. file_ok max_file f)"

lemma files_ok_Nil [simp]: "files_ok max_file []"
  by (simp add: files_ok_def)

lemma files_ok_snoc:
  "files_ok max_file fs \<Longrightarrow> length fs < MaxFilesPerPackage \<Longrightarrow> file_ok max_file f \<Longrightarrow> files_ok max_file (fs @ [f])"
  by (auto simp: files_ok_def)

lemma zip_file_bytes_size:
  assumes inflate: "\<And>c n out. inflate c n = Some out \<Longrightarrow> length out = n"
    and "zip_file_bytes inflate alloc_ok mx data hdr = Ok src"
  shows "length src = le32 hdr 24"
  using assms(2) by (auto simp: zip_file_bytes_def lbind_eq_Ok Let_def dest!: inflate split: if_splits option.splits)

lemma zip_entry_files_ok:
  assumes inflate: "\<And>c n out. inflate c n = Some out \<Longrightarrow> length out = n"
    and step: "zip_entry inflate alloc_ok mx max_file data cd_pos files = Ok (Some (p, fs))"
    and ok: "files_ok max_file files"
  shows "files_ok max_file fs"
proof (cases "fs = files")
  case False
  then obtain hdr filename src where
    "fs = files @ [\<lparr>pf_path = take (length filename - 6) filename, pf_src = src\<rparr>]"
    "\<not> mem_contains filename [46, 46]" "length filename - 6 \<noteq> 0" "length (take (length filename - 6) filename) \<le> 127"
    "length files < MaxFilesPerPackage" "le32 hdr 24 \<le> max_file"
    "zip_file_bytes inflate alloc_ok mx data hdr = Ok src"
    using step by (auto simp: zip_entry_def lbind_eq_Ok Let_def not_le not_less split: if_splits)
  then show ?thesis
    using ok zip_file_bytes_size [OF inflate]
    by (auto intro!: files_ok_snoc simp: file_ok_def dest: mem_contains_take)
qed (use ok in simp)

lemma zip_loop_files_ok:
  assumes inflate: "\<And>c n out. inflate c n = Some out \<Longrightarrow> length out = n"
  shows "zip_loop inflate alloc_ok mx max_file data cd_end cd_pos files = Ok fs \<Longrightarrow> files_ok max_file files
    \<Longrightarrow> files_ok max_file fs"
  using inflate
proof (induction inflate alloc_ok mx max_file data cd_end cd_pos files rule: zip_loop.induct)
  case (1 inflate alloc_ok mx max_file data cd_end cd_pos files)
  from "1.prems"(1) show ?case
    using "1.prems"(2,3) "1.IH" zip_entry_files_ok [OF "1.prems"(3)]
    by (subst (asm) zip_loop.simps) (auto split: if_splits load.splits option.splits)
qed

text \<open>\<open>readFileAlloc(.limited(n))\<close> returns at most \<open>n\<close> bytes, the documented behaviour of the standard library.\<close>

definition reads_limited :: "walk_step \<Rightarrow> bool" where
  "reads_limited w \<longleftrightarrow> (case w of WalkFailed \<Rightarrow> True | WalkEntry e \<Rightarrow> \<forall>n c. we_read e n = Contents c \<longrightarrow> length c \<le> n)"

lemma dir_loop_files_ok:
  assumes "list_all reads_limited ws" "dir_loop max_file ws files = Ok fs" "files_ok max_file files"
  shows "files_ok max_file fs"
  using assms
proof (induction ws arbitrary: files)
  case (Cons w ws)
  show ?case
  proof (cases w)
    case (WalkEntry e)
    then show ?thesis
      using Cons.prems
      by (auto simp: Let_def not_le not_less file_ok_def reads_limited_def
          dest: mem_contains_take dest!: Cons.IH [rotated 1] intro!: files_ok_snoc
          split: if_splits read_result.splits)
  qed (use Cons.prems in simp)
qed simp

section \<open>The contract of a bundle loader\<close>

text \<open>
  What the engine relies on of a loader, whatever the bundle comes from: a successful load appends exactly
  one package whose files are within bounds. The two consequences are proved once and hold for the zip and
  the directory loader.
\<close>

locale bundle_loader =
  fixes load :: "nat \<Rightarrow> 'src \<Rightarrow> PackageRegistry \<Rightarrow> byte list \<Rightarrow> PackageRegistry load"
    and trusted :: "'src \<Rightarrow> bool"
  assumes appends: "load max_file src reg name = Ok reg' \<Longrightarrow>
      length reg < MaxPackages \<and> 0 < length name \<and> length name \<le> 64
      \<and> (\<exists>fs. reg' = reg @ [\<lparr>pk_name = name, pk_files = fs\<rparr>] \<and> (trusted src \<longrightarrow> files_ok max_file fs))"
begin

lemma keeps_registry_ok:
  assumes "trusted src" "registry_ok max_file reg" "load max_file src reg name = Ok reg'"
  shows "registry_ok max_file reg'"
  using assms appends [OF assms(3)] by (auto simp: registry_ok_def package_ok_def files_ok_def)

lemma keeps_imports:
  assumes "load max_file src reg name = Ok reg'" "resolve_import reg path = Some text"
  shows "resolve_import reg' path = Some text"
proof -
  have mono: "find P xs = Some x \<Longrightarrow> find P (xs @ ys) = Some x" for P and xs ys :: "Package list" and x
    by (induction xs) auto
  show ?thesis
    using assms appends [OF assms(1)]
    by (auto simp: resolve_import_def Let_def mono split: if_splits option.splits)
qed

end

lemma loadFromZip_cases:
  assumes "loadFromZip inflate alloc_ok mx max_file reg name data = Ok reg'"
  obtains cd_end cd_pos fs where
    "zip_loop inflate alloc_ok mx max_file data cd_end cd_pos [] = Ok fs"
    "reg' = reg @ [\<lparr>pk_name = name, pk_files = fs\<rparr>]"
    "length reg < MaxPackages" "0 < length name" "length name \<le> 64"
  using assms by (auto simp: loadFromZip_def lbind_eq_Ok not_le split: if_splits option.splits)

interpretation zip_bundles: bundle_loader
  "\<lambda>max_file (inflate, alloc_ok, mx, data) reg name. loadFromZip inflate alloc_ok mx max_file reg name data"
  "\<lambda>(inflate, alloc_ok, mx, data). \<forall>c n out. inflate c n = Some out \<longrightarrow> length out = n"
proof (unfold_locales, clarify)
  fix max_file name reg' inflate alloc_ok mx data and reg :: PackageRegistry
  assume "loadFromZip inflate alloc_ok mx max_file reg name data = Ok reg'"
  then show "length reg < MaxPackages \<and> 0 < length name \<and> length name \<le> 64 \<and>
      (\<exists>fs. reg' = reg @ [\<lparr>pk_name = name, pk_files = fs\<rparr>] \<and>
        ((\<forall>c n out. inflate c n = Some out \<longrightarrow> length out = n) \<longrightarrow> files_ok max_file fs))"
    by (elim loadFromZip_cases) (use zip_loop_files_ok [of inflate] in auto)
qed

interpretation dir_bundles: bundle_loader
  "\<lambda>max_file walked reg name. loadFromDir max_file reg name walked"
  "\<lambda>walked. \<forall>steps. walked = Inr steps \<longrightarrow> list_all reads_limited steps"
  by unfold_locales
    (auto simp: loadFromDir_def lbind_eq_Ok not_le split: if_splits sum.splits
      elim!: dir_loop_files_ok [where files = "[]", rotated 1])

section \<open>Writing an archive and loading it\<close>

text \<open>
  The writer of uncompressed archives that the module's own tests use (\<open>buildZipStore\<close>), and the loader run on
  its output.
\<close>

definition le16b :: "nat \<Rightarrow> byte list" where
  "le16b n = [word_of_nat n, word_of_nat (n div 256)]"

definition le32b :: "nat \<Rightarrow> byte list" where
  "le32b n = le16b n @ le16b (n div 65536)"

record TestZipEntry =
  tz_name :: "byte list"
  tz_data :: "byte list"

definition zip_local_header :: "TestZipEntry \<Rightarrow> byte list" where
  "zip_local_header e = local_file_header_sig @ le16b 20 @ le16b 0 @ le16b 0 @ le16b 0 @ le16b 0 @ le32b 0
     @ le32b (length (tz_data e)) @ le32b (length (tz_data e)) @ le16b (length (tz_name e)) @ le16b 0"

definition zip_central_header :: "TestZipEntry \<Rightarrow> nat \<Rightarrow> byte list" where
  "zip_central_header e off = central_file_header_sig @ le16b 20 @ le16b 20 @ le16b 0 @ le16b 0 @ le16b 0 @ le16b 0
     @ le32b 0 @ le32b (length (tz_data e)) @ le32b (length (tz_data e)) @ le16b (length (tz_name e)) @ le16b 0 @ le16b 0
     @ le16b 0 @ le16b 0 @ le32b 0 @ le32b off"

fun zip_locals :: "TestZipEntry list \<Rightarrow> byte list" where
  "zip_locals [] = []"
| "zip_locals (e # es) = zip_local_header e @ tz_name e @ tz_data e @ zip_locals es"

fun zip_central :: "nat \<Rightarrow> TestZipEntry list \<Rightarrow> byte list" where
  "zip_central off [] = []"
| "zip_central off (e # es) = zip_central_header e off @ tz_name e
     @ zip_central (off + length (zip_local_header e @ tz_name e @ tz_data e)) es"

definition buildZipStore :: "TestZipEntry list \<Rightarrow> byte list" where
  "buildZipStore entries =
     (let cd_start = length (zip_locals entries); cd = zip_central 0 entries in
      zip_locals entries @ cd @ end_record_sig @ le16b 0 @ le16b 0 @ le16b (length entries) @ le16b (length entries)
        @ le32b (length cd) @ le32b cd_start @ le16b 0)"

lemmas zip_hdr_defs = le16b_def le32b_def local_file_header_sig_def central_file_header_sig_def

lemma zip_header_lengths [simp]:
  "length (zip_local_header e) = 30" "length (zip_central_header e off) = 46"
  by (simp_all add: zip_local_header_def zip_central_header_def zip_hdr_defs)

lemma le16_pair: "n < 65536 \<Longrightarrow> unat (word_of_nat n :: byte) + 256 * unat (word_of_nat (n div 256) :: byte) = n"
  by (simp add: unat_of_nat)

lemma le32_quad:
  assumes "n < 2 ^ 32"
  shows "unat (word_of_nat n :: byte) + 256 * unat (word_of_nat (n div 256) :: byte)
    + 65536 * (unat (word_of_nat (n div 65536) :: byte) + 256 * unat (word_of_nat (n div 65536 div 256) :: byte)) = n"
proof -
  have "unat (word_of_nat n :: byte) + 256 * unat (word_of_nat (n div 256) :: byte) = n mod 65536"
    using mod_mult2_eq [of n 256 256] by (simp add: unat_of_nat)
  moreover have "unat (word_of_nat (n div 65536) :: byte) + 256 * unat (word_of_nat (n div 65536 div 256) :: byte) = n div 65536"
    using assms by (intro le16_pair) (simp add: less_mult_imp_div_less)
  ultimately show ?thesis by (simp add: mod_mult_div_eq [symmetric])
qed

lemma central_fields:
  "length (tz_name e) < 65536 \<Longrightarrow> le16 (zip_central_header e off) 28 = length (tz_name e)"
  "le16 (zip_central_header e off) 30 = 0" "le16 (zip_central_header e off) 32 = 0"
  "le16 (zip_central_header e off) 10 = 0"
  "length (tz_data e) < 2 ^ 32 \<Longrightarrow> le32 (zip_central_header e off) 20 = length (tz_data e)"
  "length (tz_data e) < 2 ^ 32 \<Longrightarrow> le32 (zip_central_header e off) 24 = length (tz_data e)"
  "off < 2 ^ 32 \<Longrightarrow> le32 (zip_central_header e off) 42 = off"
  "take 4 (zip_central_header e off) = central_file_header_sig"
  using le16_pair [of "length (tz_name e)"] le32_quad [of "length (tz_data e)"] le32_quad [of off]
  by (simp_all add: zip_central_header_def zip_hdr_defs le16_def le32_def)

lemma local_fields:
  "length (tz_name e) < 65536 \<Longrightarrow> le16 (zip_local_header e) 26 = length (tz_name e)"
  "le16 (zip_local_header e) 28 = 0"
  "take 4 (zip_local_header e) = local_file_header_sig"
  using le16_pair [of "length (tz_name e)"]
  by (simp_all add: zip_local_header_def zip_hdr_defs le16_def)


definition zip_entry_ok :: "nat \<Rightarrow> TestZipEntry \<Rightarrow> bool" where
  "zip_entry_ok max_file e \<longleftrightarrow>
     endsWith (tz_name e) gengo_ext \<and> 6 < length (tz_name e) \<and> length (tz_name e) \<le> 133
     \<and> \<not> mem_contains (tz_name e) [46, 46] \<and> length (tz_data e) \<le> max_file"

definition entry_file :: "TestZipEntry \<Rightarrow> PackageFile" where
  "entry_file e = \<lparr>pf_path = take (length (tz_name e) - 6) (tz_name e), pf_src = tz_data e\<rparr>"

lemma rd_drop: "drop off data = a @ r \<Longrightarrow> off \<le> length data \<Longrightarrow> length a = n \<Longrightarrow> rd data off n = Ok a"
  by (simp add: rd_def) (metis diff_le_mono2 le_add1 length_append length_drop nat_le_linear Nat.le_diff_conv2 add.commute)

lemma length_gengo_ext [simp]: "length gengo_ext = 6"
  by (simp add: gengo_ext_def)

lemma gengo_ext_last:
  assumes "endsWith xs gengo_ext" shows "last xs \<noteq> 47"
proof -
  have "last xs = last (drop (length xs - 6) xs)"
    using assms by (intro last_drop [symmetric]) (auto simp: endsWith_def)
  also have "drop (length xs - 6) xs = gengo_ext"
    using assms by (simp add: endsWith_def)
  finally show ?thesis by (simp add: gengo_ext_def bytes_of_def)
qed

lemma zip_file_bytes_built:
  assumes fit: "length data \<le> mx" "length data < 2 ^ 32" and alloc: "alloc_ok (length (tz_data e))"
    and name: "length (tz_name e) < 65536"
    and loc: "drop off data = zip_local_header e @ tz_name e @ tz_data e @ r"
  shows "zip_file_bytes inflate alloc_ok mx data (zip_central_header e off) = Ok (tz_data e)"
proof -
  have len: "length data = off + 30 + length (tz_name e) + length (tz_data e) + length r"
    using arg_cong [OF loc, of length] by simp
  have "drop (30 + off + length (tz_name e)) data = tz_data e @ r"
    using arg_cong [OF loc, of "drop (30 + length (tz_name e))"] by (simp add: add.commute add.left_commute)
  then show ?thesis
    using fit len alloc loc name
    by (simp add: zip_file_bytes_def central_fields local_fields checkedAdd_def Let_def rd_def add.commute)
qed

lemma zip_entry_built:
  assumes fit: "length data \<le> mx" "length data < 2 ^ 32" and alloc: "alloc_ok (length (tz_data e))"
    and ok: "zip_entry_ok max_file e" and room: "length files < MaxFilesPerPackage"
    and loc: "drop off data = zip_local_header e @ tz_name e @ tz_data e @ r"
    and cen: "drop p data = zip_central_header e off @ tz_name e @ q"
  shows "zip_entry inflate alloc_ok mx max_file data p files
           = Ok (Some (p + 46 + length (tz_name e), files @ [entry_file e]))"
proof -
  have len: "length data = p + 46 + length (tz_name e) + length q"
    using arg_cong [OF cen, of length] by simp
  have off: "off < 2 ^ 32" and data: "length (tz_data e) < 2 ^ 32" and name: "length (tz_name e) < 65536"
    using arg_cong [OF loc, of length] fit ok by (auto simp: zip_entry_ok_def)
  have "drop (46 + p) data = tz_name e @ q"
    using arg_cong [OF cen, of "drop 46"] by simp
  moreover have "tz_name e \<noteq> []" "last (tz_name e) \<noteq> 47" "length (tz_name e) - 6 \<le> 127"
    using ok gengo_ext_last [of "tz_name e"] by (auto simp: zip_entry_ok_def)
  ultimately show ?thesis
    using fit len cen ok room name data
      zip_file_bytes_built [of data mx alloc_ok e off r inflate, OF fit alloc name loc]
    by (simp add: zip_entry_def central_fields checkedAdd_def Let_def rd_def add.commute zip_entry_ok_def entry_file_def not_less)
qed

lemma zip_loop_built:
  assumes fit: "length data \<le> mx" "length data < 2 ^ 32" and alloc: "\<forall>e \<in> set es. alloc_ok (length (tz_data e))"
    and ok: "\<forall>e \<in> set es. zip_entry_ok max_file e" and room: "length files + length es \<le> MaxFilesPerPackage"
    and loc: "drop off data = zip_locals es @ r"
    and cen: "drop p data = zip_central off es @ q" and tail: "length q < 46" "p + length (zip_central off es) = cd_end"
  shows "zip_loop inflate alloc_ok mx max_file data cd_end p files = Ok (files @ map entry_file es)"
  using alloc ok room loc cen tail(2)
proof (induction es arbitrary: off p files)
  case Nil
  then show ?case by (simp add: zip_loop.simps)
next
  case (Cons e es)
  let ?off = "off + (30 + (length (tz_name e) + length (tz_data e)))" and ?p = "p + 46 + length (tz_name e)"
  have step: "zip_entry inflate alloc_ok mx max_file data p files = Ok (Some (?p, files @ [entry_file e]))"
    using Cons.prems by (intro zip_entry_built [OF fit]) auto
  have "drop ?off data = zip_locals es @ r"
    using arg_cong [OF Cons.prems(4), of "drop (30 + (length (tz_name e) + length (tz_data e)))"]
    by (simp add: add.commute add.left_commute)
  moreover have "drop ?p data = zip_central ?off es @ q"
    using arg_cong [OF Cons.prems(5), of "drop (46 + length (tz_name e))"]
    by (simp add: add.commute add.left_commute)
  ultimately have "zip_loop inflate alloc_ok mx max_file data cd_end ?p (files @ [entry_file e])
      = Ok ((files @ [entry_file e]) @ map entry_file es)"
    using Cons.prems by (intro Cons.IH [where off = ?off]) auto
  then show ?case
    using step Cons.prems(6) by (subst zip_loop.simps) simp
qed


lemma load_zip_built:
  assumes "length reg < MaxPackages" "0 < length name" "length name \<le> 64"
    and "length (buildZipStore entries) \<le> mx" "length (buildZipStore entries) < 2 ^ 32"
    and "\<forall>e \<in> set entries. zip_entry_ok max_file e \<and> alloc_ok (length (tz_data e))"
    and "length entries \<le> MaxFilesPerPackage"
  shows "loadFromZip inflate alloc_ok mx max_file reg name (buildZipStore entries)
           = Ok (reg @ [\<lparr>pk_name = name, pk_files = map entry_file entries\<rparr>])"
proof -
  define L where "L = zip_locals entries"
  define C where "C = zip_central 0 entries"
  define E where "E = end_record_sig @ le16b 0 @ le16b 0 @ le16b (length entries) @ le16b (length entries)
        @ le32b (length C) @ le32b (length L) @ le16b 0"
  have d: "buildZipStore entries = L @ C @ E"
    by (simp add: buildZipStore_def L_def C_def E_def Let_def)
  have E: "length E = 22" "take 4 E = end_record_sig" "take 4 (drop 12 E) = le32b (length C)"
    "take 4 (drop 16 E) = le32b (length L)"
    by (simp_all add: E_def end_record_sig_def zip_hdr_defs)
  have small: "length C < 2 ^ 32" "length L < 2 ^ 32"
    using assms(5) by (auto simp: d)
  have "findEndRecord (L @ C @ E) = Ok (Some (length L, length C))"
    using E le32_quad [OF small(1)] le32_quad [OF small(2)]
    by (simp add: findEndRecord_def scan_end_record.simps [of "L @ C @ E" "length L + length C"])
       (simp add: le32_def le16_def le32b_def le16b_def)
  moreover have "zip_loop inflate alloc_ok mx max_file (L @ C @ E) (length L + length C) (length L) []
      = Ok ([] @ map entry_file entries)"
    using assms E by (intro zip_loop_built [where off = 0 and q = E and r = "C @ E"]) (auto simp: d L_def C_def)
  ultimately show ?thesis
    using assms E by (simp add: d loadFromZip_def checkedAdd_def)
qed

section \<open>Claims\<close>

text \<open>
  C8. Loading an archive that the writer built from well-formed entries succeeds and registers exactly those
  files under the package name, with the extension cut off and the contents unchanged.
\<close>

theorem load_zip_roundtrip:
  assumes "length reg < MaxPackages" "0 < length name" "length name \<le> 64"
    and "length (buildZipStore entries) \<le> mx" "length (buildZipStore entries) < 2 ^ 32"
    and "\<forall>e \<in> set entries. zip_entry_ok max_file e \<and> alloc_ok (length (tz_data e))"
    and "length entries \<le> MaxFilesPerPackage"
  shows "loadFromZip inflate alloc_ok mx max_file reg name (buildZipStore entries)
           = Ok (reg @ [\<lparr>pk_name = name, pk_files = map entry_file entries\<rparr>])"
  using assms by (rule load_zip_built)

theorem load_zip_roundtrip_witness:
  "loadFromZip (\<lambda>c n. None) (\<lambda>n. True) 4294967295 100 [] [109] (buildZipStore [\<lparr>tz_name = [97, 46, 103, 101, 110, 103, 111], tz_data = [7, 8]\<rparr>])
     = Ok [\<lparr>pk_name = [109], pk_files = [\<lparr>pf_path = [97], pf_src = [7, 8]\<rparr>]\<rparr>]"
  using load_zip_roundtrip [of "[]" "[109]" "[\<lparr>tz_name = [97, 46, 103, 101, 110, 103, 111], tz_data = [7, 8]\<rparr>]" 4294967295 100
      "\<lambda>n. True" "\<lambda>c n. None"]
  by (simp add: MaxPackages_def MaxFilesPerPackage_def zip_entry_ok_def entry_file_def buildZipStore_def zip_hdr_defs
      end_record_sig_def endsWith_def gengo_ext_def bytes_of_def mem_contains_def)

text \<open>
  No archive, however malformed, makes the zip loader read outside its data, on a 32-bit or a 64-bit
  target: every input is an error or a loaded package.
\<close>

theorem load_zip_memory_safe: "loadFromZip inflate alloc_ok mx max_file reg name data \<noteq> Fault"
  using zip_loop_safe checkedAdd_cases(2) findEndRecord_safe
  by (auto simp: loadFromZip_def lbind_eq_Fault split: option.splits if_splits)

text \<open>
  A successful load, from an archive or from a directory, keeps the registry within its tables: at most 32
  packages of at most 64 files, names of 1 to 64 bytes, module paths of 1 to 127 bytes without \<open>..\<close>, and no
  file larger than the compiler accepts. The decompressor is assumed to fill the buffer it is given and the file
  reader to respect its limit.
\<close>

theorem bundles_keep_registry_ok:
  assumes "registry_ok max_file reg"
    and "\<forall>c n out. inflate c n = Some out \<longrightarrow> length out = n" "list_all reads_limited steps"
    and "loadFromZip inflate alloc_ok mx max_file reg name data = Ok reg'
      \<or> loadFromDir max_file reg name (Inr steps) = Ok reg'"
  shows "registry_ok max_file reg'"
  using assms(4)
proof
  assume "loadFromZip inflate alloc_ok mx max_file reg name data = Ok reg'"
  then show ?thesis
    by (rule zip_bundles.keeps_registry_ok [of "(inflate, alloc_ok, mx, data)", unfolded prod.case, OF assms(2,1)])
next
  assume "loadFromDir max_file reg name (Inr steps) = Ok reg'"
  then show ?thesis
    by (rule dir_bundles.keeps_registry_ok [of "Inr steps", OF _ assms(1), rotated]) (simp add: assms(3))
qed

theorem bundles_keep_registry_ok_witness:
  "registry_ok 100 [\<lparr>pk_name = [109], pk_files = [\<lparr>pf_path = [97], pf_src = [7, 8]\<rparr>]\<rparr>]"
  by (rule bundles_keep_registry_ok [of 100 "[]" "\<lambda>c n. None"
        "[WalkEntry \<lparr>we_is_file = True, we_basename = [97, 46, 103, 101, 110, 103, 111],
           we_path = [97, 46, 103, 101, 110, 103, 111], we_read = \<lambda>n. if 2 \<le> n then Contents [7, 8] else StreamTooLong\<rparr>]"
        _ _ "[109]"])
     (simp_all add: registry_ok_def loadFromDir_def MaxPackages_def MaxFilesPerPackage_def reads_limited_def
      endsWith_def gengo_ext_def bytes_of_def mem_contains_def split: if_splits)

text \<open>
  Loading another bundle never changes what an import that already resolves gives: the package registered
  first keeps its name.
\<close>

theorem bundles_keep_imports:
  assumes "resolve_import reg path = Some text"
    and "loadFromZip inflate alloc_ok mx max_file reg name data = Ok reg'
      \<or> loadFromDir max_file reg name walked = Ok reg'"
  shows "resolve_import reg' path = Some text"
  using assms zip_bundles.keeps_imports [where src = "(inflate, alloc_ok, mx, data)"]
    dir_bundles.keeps_imports [where src = walked] by auto

theorem bundles_keep_imports_witness:
  "resolve_import ([\<lparr>pk_name = [109], pk_files = [\<lparr>pf_path = [97], pf_src = [7]\<rparr>]\<rparr>] @ [\<lparr>pk_name = [109], pk_files = []\<rparr>])
     [109, 47, 97] = Some [7]"
  by (rule bundles_keep_imports [of "[\<lparr>pk_name = [109], pk_files = [\<lparr>pf_path = [97], pf_src = [7]\<rparr>]\<rparr>]"
        _ _ "\<lambda>c n. None" "\<lambda>n. True" 0 9 "[109]" "[]" _ "Inr []"])
     (simp_all add: resolve_import_def endsWith_def gengo_ext_def loadFromDir_def MaxPackages_def)

end
