(* ===== verification/EngineAbi.thy ===== *)
theory EngineAbi
  imports ValueCodec HostApi NetPolicy FsMounts PackageState
begin

text \<open>
  The embedding interface of the engine library (\<open>src/engine.zig\<close>): the table of 64 engine slots, the per-engine state
  and every exported function, in the order of the source. The compiler and the virtual machine are the parameter
  \<open>'r interp\<close>, a record of the operations the interface calls on a runtime of type \<open>'r\<close>; the build configuration, the
  operating system and the addresses of the engine's buffers are the record \<open>'r engine_env\<close>. An inactive slot is \<open>None\<close>;
  what its memory held before is not read again, since \<open>initScalars\<close> sets every field that is.
  Calls come one after the other: the spin lock around the slot table is the subject of \<open>SlotLock\<close>, the re-entry of the library from a host
  callback that of \<open>EngineViews\<close>, and the answers of host callbacks during a run are part of the parameter. A length that is passed with a pointer
  does not exceed the object behind it, and line and column numbers are below \<open>2 ^ 31\<close>. Where the code can panic, or works
  on uninitialised memory, the result is \<open>None\<close>.
\<close>

section \<open>Constants and types\<close>

definition MaxEngines :: nat where "MaxEngines = 64"
definition MaxSources :: nat where "MaxSources = 64"
definition MaxHostModules :: nat where "MaxHostModules = 16"
definition MaxHostModuleFuncs :: nat where "MaxHostModuleFuncs = 64"
definition MaxErrorLen :: nat where "MaxErrorLen = 512"
definition MaxStringScratch :: nat where "MaxStringScratch = 4096"
definition HostModuleCallIdBase :: nat where "HostModuleCallIdBase = 0x1000"
definition MaxModulePathBytes :: nat where "MaxModulePathBytes = 256"

lemmas abi_consts = MaxEngines_def MaxSources_def MaxHostModules_def MaxHostModuleFuncs_def MaxErrorLen_def
  MaxStringScratch_def HostModuleCallIdBase_def MaxModulePathBytes_def

record gengo_host_module_func_def_t =
  fd_name :: "byte list option"
  fd_name_len :: nat
  fd_arity :: nat

record HostModuleFuncDesc =
  hf_name :: "byte list"
  hf_arity :: nat
  hf_call_id :: nat

record HostModuleEntry =
  hm_name :: "byte list"
  hm_funcs :: "HostModuleFuncDesc list"

text \<open>
  The part of \<open>Config\<close> that the interface sets; the budget is \<open>None\<close> for unlimited. A provider given by a callback is the
  function from a module path to an error, a source text or nothing.
\<close>

datatype import_error = ImportLoaderFailed | InputTooLong

type_synonym import_provider = "byte list \<Rightarrow> import_error + byte list option"

datatype SourceProvider = Filesystem | Table "(byte list \<times> byte list) list" | Callback import_provider

record rt_config =
  rc_allow_io :: bool
  rc_host_backend :: bool
  rc_max_ops :: "nat option"
  rc_sources :: "(byte list \<times> byte list) list"
  rc_provider :: "import_provider option"
  rc_modules :: "HostModuleEntry list"

definition defaultSourceProvider :: "rt_config \<Rightarrow> SourceProvider" where
  "defaultSourceProvider c =
     (case rc_provider c of Some f \<Rightarrow> Callback f | None \<Rightarrow> if rc_sources c \<noteq> [] then Table (rc_sources c) else Filesystem)"

text \<open>What a running script can reach: the configuration, the network policies and handlers, and the mounts.\<close>

record rt_caps =
  rp_config :: rt_config
  rp_dial :: PolicyState
  rp_listen :: PolicyState
  rp_net_handlers :: bool
  rp_http_handler :: bool
  rp_mounts :: "nat FsState"

record vm_error =
  ve_kind :: "byte list"
  ve_msg :: "byte list"
  ve_line :: nat
  ve_col :: nat
  ve_path :: "byte list"

datatype run_result = RunOk | CompileError vm_error | RuntimeError vm_error
datatype exec_result = Completed | Suspended | ExecCompileError vm_error | ExecRuntimeError vm_error

type_synonym script_output = "(byte list \<times> bool) list"

record 'r interp =
  vm_init :: "rt_config \<Rightarrow> gengo_instance_config_t \<Rightarrow> 'r option"
  vm_run :: "rt_caps \<Rightarrow> SourceProvider \<Rightarrow> byte list \<Rightarrow> byte list \<Rightarrow> 'r \<Rightarrow> run_result \<times> script_output \<times> 'r"
  vm_begin :: "rt_caps \<Rightarrow> SourceProvider \<Rightarrow> byte list \<Rightarrow> 'r \<Rightarrow> exec_result \<times> script_output \<times> 'r"
  vm_continue :: "rt_caps \<Rightarrow> 'r \<Rightarrow> exec_result \<times> script_output \<times> 'r"
  vm_sleep_ms :: "'r \<Rightarrow> int"
  vm_call :: "rt_caps \<Rightarrow> byte list \<Rightarrow> byte list Value list \<Rightarrow> cmem \<Rightarrow> 'r \<Rightarrow> (vm_error + hval) \<times> script_output \<times> cmem \<times> 'r"
  vm_reset :: "'r \<Rightarrow> 'r"
  vm_compile_path :: "'r \<Rightarrow> byte list"
  vm_heap :: "'r \<Rightarrow> nat \<times> nat \<times> nat"
  vm_set_bump :: "nat \<Rightarrow> 'r \<Rightarrow> 'r"
  vm_leak :: "hval \<Rightarrow> 'r \<Rightarrow> 'r"
  vm_room :: "'r \<Rightarrow> nat \<Rightarrow> bool"
  vm_globals :: "'r \<Rightarrow> (byte list \<times> hval \<times> nat option) list"

text \<open>
  \<open>vm_heap\<close> gives the address of the heap array, \<open>permanent_bump\<close> and \<open>overflow_bump\<close>; \<open>vm_leak\<close> is what a conversion that
  fails half way leaves of the bump heap; the third component of a global is the arity of a function or closure.
\<close>

record 'r engine_env =
  en_vm :: "'r interp"
  en_ceiling :: gengo_instance_config_t
  en_version :: "byte list"
  en_max_input :: nat
  en_ip6 :: ip6_parser
  en_inflate :: "byte list \<Rightarrow> nat \<Rightarrow> byte list option"
  en_alloc_ok :: "nat \<Rightarrow> bool"
  en_usize_max :: nat
  en_walk :: "byte list \<Rightarrow> LoadError + walk_step list"
  en_scratch :: "int \<Rightarrow> u64"
  en_elems :: "int \<Rightarrow> u64"
  en_dupe :: "byte list \<Rightarrow> u64 option"

text \<open>
  \<open>Engine\<close>. A callback is present or absent, except for the import loader, whose answers the interface interprets: the
  result code and the content of the scratch buffer afterwards.
\<close>

type_synonym import_loader = "byte list \<Rightarrow> int \<times> byte list"

record 'r engine =
  e_rt :: 'r
  e_config :: rt_config
  e_write_cb :: bool
  e_read_cb :: bool
  e_host_call_cb :: bool
  e_trace_cb :: bool
  e_sources :: "(byte list \<times> byte list) list"
  e_modules :: "HostModuleEntry list"
  e_next_call_id :: nat
  e_last_error :: "byte list"
  e_error_line :: nat
  e_error_col :: nat
  e_error_path :: "byte list"
  e_loader :: "import_loader option"
  e_packages :: PackageRegistry
  e_dial :: PolicyState
  e_listen :: PolicyState
  e_net_handlers :: bool
  e_http_handler :: bool
  e_mounts :: "nat FsState"

text \<open>The thread-local view that \<open>pushEngineState\<close> installs.\<close>

record active_view =
  av_engine :: "int option"
  av_write :: bool
  av_read :: bool
  av_host_call :: bool
  av_trace :: bool

text \<open>
  \<open>ew_overrides\<close> tells whether the I/O layer routes through the interface, \<open>ew_output\<close> is what write callbacks received and
  \<open>ew_fd\<close> what went to the file descriptors.
\<close>

record 'r world =
  ew_env :: "'r engine_env"
  ew_slots :: "'r engine option list"
  ew_init_error :: "byte list"
  ew_view :: active_view
  ew_overrides :: bool
  ew_output :: script_output
  ew_fd :: script_output

definition setInitError :: "byte list \<Rightarrow> 'r world \<Rightarrow> 'r world" where
  "setInitError msg w = w\<lparr>ew_init_error := take MaxErrorLen msg\<rparr>"

section \<open>Engine\<close>

definition base_config :: "bool \<Rightarrow> nat option \<Rightarrow> rt_config" where
  "base_config allow ops = \<lparr>rc_allow_io = allow, rc_host_backend = False, rc_max_ops = ops, rc_sources = [], rc_provider = None,
     rc_modules = []\<rparr>"

text \<open>\<open>initScalars\<close> with the runtime and its policy in place.\<close>

definition initScalars :: "rt_config \<Rightarrow> 'r \<Rightarrow> 'r engine" where
  "initScalars c r = \<lparr>e_rt = r, e_config = c, e_write_cb = False, e_read_cb = False, e_host_call_cb = False, e_trace_cb = False,
     e_sources = [], e_modules = [], e_next_call_id = HostModuleCallIdBase, e_last_error = [], e_error_line = 0, e_error_col = 0,
     e_error_path = [], e_loader = None, e_packages = [], e_dial = [], e_listen = [], e_net_handlers = False,
     e_http_handler = False, e_mounts = fs_empty\<rparr>"

definition initInPlaceDefault :: "'r engine_env \<Rightarrow> 'r engine option" where
  "initInPlaceDefault env =
     map_option (initScalars (base_config False None)) (vm_init (en_vm env) (base_config False None) (en_ceiling env))"

definition initInPlaceWithConfig :: "'r engine_env \<Rightarrow> gengo_instance_config_t \<Rightarrow> 'r engine option" where
  "initInPlaceWithConfig env ic =
     (let c = base_config (allow_io ic) (if max_ops ic < 0 then None else Some (nat (max_ops ic)))
      in map_option (initScalars c) (vm_init (en_vm env) c ic))"

definition setError :: "string \<Rightarrow> 'r engine \<Rightarrow> 'r engine" where
  "setError msg e = e\<lparr>e_last_error := take MaxErrorLen (bytes_of msg)\<rparr>"

definition clearError :: "'r engine \<Rightarrow> 'r engine" where
  "clearError e = e\<lparr>e_last_error := [], e_error_line := 0, e_error_col := 0, e_error_path := []\<rparr>"

text \<open>\<open>std.fmt.bufPrint\<close> into the 512 bytes, where a text that does not fit is replaced by the empty one.\<close>

definition bufPrint :: "byte list \<Rightarrow> byte list" where
  "bufPrint b = (if length b \<le> MaxErrorLen then b else [])"

definition compile_text :: "vm_error \<Rightarrow> byte list" where
  "compile_text er =
     (if ve_kind er = bytes_of ''OutOfMemory'' then bytes_of ''compilation failed: '' @ ve_msg er
      else bytes_of ''compile error: '' @ ve_kind er @ bytes_of '': '' @ ve_msg er)"

definition panic_text :: "vm_error \<Rightarrow> byte list" where
  "panic_text er =
     (if ve_kind er = bytes_of ''OutOfMemory'' then bytes_of ''panic: '' @ ve_msg er
      else bytes_of ''panic: '' @ ve_kind er @ bytes_of '': '' @ ve_msg er)"

definition setCompileError :: "'r engine_env \<Rightarrow> vm_error \<Rightarrow> 'r engine \<Rightarrow> 'r engine" where
  "setCompileError env er e = e\<lparr>e_error_line := ve_line er, e_error_col := ve_col er,
     e_error_path := take MaxModulePathBytes (vm_compile_path (en_vm env) (e_rt e)), e_last_error := bufPrint (compile_text er)\<rparr>"

definition setRuntimeError :: "vm_error \<Rightarrow> 'r engine \<Rightarrow> 'r engine" where
  "setRuntimeError er e = e\<lparr>e_error_line := ve_line er, e_error_col := ve_col er,
     e_error_path := take MaxModulePathBytes (ve_path er), e_last_error := bufPrint (panic_text er)\<rparr>"

text \<open>
  \<open>setStringScratch\<close>: the address of the copy and the bytes in it, which are stored there. When the large copy cannot be
  allocated the text is cut to the scratch buffer.
\<close>

definition setStringScratch :: "'r engine_env \<Rightarrow> int \<Rightarrow> byte list \<Rightarrow> u64 \<times> byte list" where
  "setStringScratch env h b =
     (if length b \<le> MaxStringScratch then (en_scratch env h, b)
      else case en_dupe env b of Some p \<Rightarrow> (p, b) | None \<Rightarrow> (en_scratch env h, take MaxStringScratch b))"

definition importLoaderWrapper :: "'r engine_env \<Rightarrow> 'r engine \<Rightarrow> import_provider" where
  "importLoaderWrapper env e path =
     (let tables = (case resolve_import (e_packages e) path of
           Some src \<Rightarrow> Inr (Some src)
         | None \<Rightarrow> Inr (map_option snd (find (\<lambda>s. fst s = path) (e_sources e))))
      in case e_loader e of
           None \<Rightarrow> tables
         | Some cb \<Rightarrow>
             (let (result, buf) = cb path in
              if 0 < result then
                (if en_max_input env < nat result then Inl ImportLoaderFailed
                 else if nat result = en_max_input env then Inl InputTooLong
                 else Inr (Some (take (nat result) buf)))
              else if result < 0 then Inl ImportLoaderFailed
              else tables))"

definition sourceProviderFromLoader :: "'r engine_env \<Rightarrow> 'r engine \<Rightarrow> import_provider option" where
  "sourceProviderFromLoader env e =
     (if e_loader e = None \<and> e_packages e = [] then None else Some (importLoaderWrapper env e))"

section \<open>Slots and the active view\<close>

definition getEngine :: "int \<Rightarrow> 'r world \<Rightarrow> 'r engine option" where
  "getEngine h w = (if h \<le> 0 \<or> int MaxEngines < h then None else ew_slots w ! nat (h - 1))"

definition put_engine :: "int \<Rightarrow> 'r engine \<Rightarrow> 'r world \<Rightarrow> 'r world" where
  "put_engine h e w = w\<lparr>ew_slots := (ew_slots w)[nat (h - 1) := Some e]\<rparr>"

definition view_of :: "int \<Rightarrow> 'r engine \<Rightarrow> active_view" where
  "view_of h e = \<lparr>av_engine = Some h, av_write = e_write_cb e, av_read = e_read_cb e, av_host_call = e_host_call_cb e,
     av_trace = e_trace_cb e\<rparr>"

definition no_view :: active_view where
  "no_view = \<lparr>av_engine = None, av_write = False, av_read = False, av_host_call = False, av_trace = False\<rparr>"

definition pushEngineState :: "int \<Rightarrow> 'r engine \<Rightarrow> 'r world \<Rightarrow> int option \<times> 'r world" where
  "pushEngineState h e w = (av_engine (ew_view w), w\<lparr>ew_view := view_of h e\<rparr>)"

definition popEngineState :: "int option \<Rightarrow> 'r world \<Rightarrow> 'r world" where
  "popEngineState prev w = w\<lparr>ew_view :=
     (case prev of None \<Rightarrow> no_view | Some p \<Rightarrow> (case getEngine p w of None \<Rightarrow> no_view | Some e \<Rightarrow> view_of p e))\<rparr>"

definition caps_of :: "'r engine \<Rightarrow> rt_caps" where
  "caps_of e = \<lparr>rp_config = e_config e, rp_dial = e_dial e, rp_listen = e_listen e, rp_net_handlers = e_net_handlers e,
     rp_http_handler = e_http_handler e, rp_mounts = e_mounts e\<rparr>"

text \<open>What the script writes goes to the callback of the active view, or to the file descriptor.\<close>

definition engine_write :: "script_output \<Rightarrow> 'r world \<Rightarrow> 'r world" where
  "engine_write out w = (if av_write (ew_view w) then w\<lparr>ew_output := ew_output w @ out\<rparr> else w\<lparr>ew_fd := ew_fd w @ out\<rparr>)"

definition wasmSlice :: "cslice \<Rightarrow> byte list" where
  "wasmSlice s = (case fst s of None \<Rightarrow> [] | Some b \<Rightarrow> if snd s \<le> 0 then [] else take (nat (snd s)) b)"

section \<open>Results to wires\<close>

definition heap_of :: "'r interp \<Rightarrow> cmem \<Rightarrow> 'r \<Rightarrow> wire_heap" where
  "heap_of vm m r = (case vm_heap vm r of (b, t, f) \<Rightarrow> \<lparr>bh_base = b, bh_top = t, bh_floor = f, bh_mem = m\<rparr>)"

definition store_bytes :: "u64 \<Rightarrow> byte list \<Rightarrow> wire_heap \<Rightarrow> wire_heap" where
  "store_bytes p b s = s\<lparr>bh_mem := (bh_mem s)\<lparr>mem_bytes := (mem_bytes (bh_mem s))(p \<mapsto> b)\<rparr>\<rparr>"

definition elems_wire :: "'r engine_env \<Rightarrow> int \<Rightarrow> gengo_wire_tag_t \<Rightarrow> nat \<Rightarrow> wire_error + (gengo_value_wire_t list \<times> wire_heap) \<Rightarrow> enc_result" where
  "elems_wire env h t n r =
     (case r of Inl er \<Rightarrow> Inl er
      | Inr (ws, s) \<Rightarrow> Inr (makeWire t (en_elems env h) (of_nat n), store_wires (unat (en_elems env h)) ws s))"

text \<open>\<open>None\<close> is the panic of the conversion of the length to 32 bits.\<close>

definition valueToWireWithScratch :: "'r engine_env \<Rightarrow> int \<Rightarrow> hval \<Rightarrow> wire_heap \<Rightarrow> enc_result option" where
  "valueToWireWithScratch env h v s =
     (case v of
        VString b \<Rightarrow>
          (let (p, stable) = setStringScratch env h (snd b)
           in if 2 ^ 32 \<le> length stable then None
              else Some (Inr (makeWire GENGO_WIRE_STRING p (of_nat (length stable)), store_bytes p stable s)))
      | VArray items \<Rightarrow>
          Some (if 256 < length items then Inl WireBufferOverflow
                else elems_wire env h GENGO_WIRE_ARRAY (length items) (fillArrayWires (\<lambda>v s. valueToWireDepth v 1 s) items s))
      | VMap entries \<Rightarrow>
          Some (if 128 < length entries then Inl WireBufferOverflow
                else elems_wire env h GENGO_WIRE_MAP (length entries) (fillMapWires (\<lambda>v s. valueToWireDepth v 1 s) entries s))
      | VStruct entries \<Rightarrow>
          Some (if 128 < length entries then Inl WireBufferOverflow
                else elems_wire env h GENGO_WIRE_MAP (length entries) (fillMapWires (\<lambda>v s. valueToWireDepth v 1 s) entries s))
      | _ \<Rightarrow> Some (valueToWire v s))"

fun wire_error_name :: "wire_error \<Rightarrow> byte list" where
  "wire_error_name HostValueTooDeep = bytes_of ''HostValueTooDeep''"
| "wire_error_name HostValueTooLarge = bytes_of ''HostValueTooLarge''"
| "wire_error_name UnsupportedWireType = bytes_of ''UnsupportedWireType''"
| "wire_error_name UnsupportedHostValueType = bytes_of ''UnsupportedHostValueType''"
| "wire_error_name WireBufferOverflow = bytes_of ''WireBufferOverflow''"
| "wire_error_name ValueCodec.OutOfMemory = bytes_of ''OutOfMemory''"

section \<open>Exported functions\<close>

subsection \<open>Creation\<close>

definition exceeds :: "string \<Rightarrow> nat \<Rightarrow> nat \<Rightarrow> byte list" where
  "exceeds name requested ceiling = bufPrint (bytes_of ''config exceeds preset ceiling: '' @ bytes_of name @ bytes_of '' (''
     @ dec_nat requested @ bytes_of '' > '' @ dec_nat ceiling @ bytes_of '')'')"

definition validateCeiling :: "string \<Rightarrow> nat \<Rightarrow> nat \<Rightarrow> 'r world \<Rightarrow> bool \<times> 'r world" where
  "validateCeiling name requested ceiling w =
     (if ceiling < requested then (False, w\<lparr>ew_init_error := exceeds name requested ceiling\<rparr>) else (True, w))"

fun free_slot :: "'r engine option list \<Rightarrow> nat option" where
  "free_slot [] = None"
| "free_slot (s # ss) = (case s of None \<Rightarrow> Some 0 | Some e \<Rightarrow> map_option Suc (free_slot ss))"

definition claim_slot :: "string \<Rightarrow> 'r engine option \<Rightarrow> 'r world \<Rightarrow> int \<times> 'r world" where
  "claim_slot failed e w =
     (case free_slot (ew_slots w) of
        None \<Rightarrow> (0, w)
      | Some i \<Rightarrow> (case e of
            None \<Rightarrow> (-4, setInitError (bytes_of failed) w)
          | Some e \<Rightarrow> (int i + 1, w\<lparr>ew_slots := (ew_slots w)[i := Some e], ew_overrides := True\<rparr>)))"

definition gengo_engine_version :: "'r engine_env \<Rightarrow> byte list" where
  "gengo_engine_version env = en_version env @ [0]"

definition engine_init :: "'r world \<Rightarrow> int \<times> 'r world" where
  "engine_init w = claim_slot ''engine_init: allocation failed'' (initInPlaceDefault (ew_env w)) (w\<lparr>ew_init_error := []\<rparr>)"

definition engine_init_with_config :: "gengo_instance_config_t option \<Rightarrow> 'r world \<Rightarrow> int \<times> 'r world" where
  "engine_init_with_config config w =
     (let w = w\<lparr>ew_init_error := []\<rparr>; top = en_ceiling (ew_env w) in
      case config of
        None \<Rightarrow> (-3, setInitError (bytes_of ''engine_init_with_config: config pointer is null'') w)
      | Some c \<Rightarrow>
          let (ok, w) = validateCeiling ''heap_size_bytes'' (heap_size_bytes c) (heap_size_bytes top) w in if \<not> ok then (-3, w)
          else let (ok, w) = validateCeiling ''max_objects'' (max_objects c) (max_objects top) w in if \<not> ok then (-3, w)
          else let (ok, w) = validateCeiling ''max_stack'' (max_stack c) (max_stack top) w in if \<not> ok then (-3, w)
          else let (ok, w) = validateCeiling ''max_frames'' (max_frames c) (max_frames top) w in if \<not> ok then (-3, w)
          else let (ok, w) = validateCeiling ''max_defers'' (max_defers c) (max_defers top) w in if \<not> ok then (-3, w)
          else claim_slot ''engine_init_with_config: allocation failed'' (initInPlaceWithConfig (ew_env w) c) w)"

definition engine_destroy :: "int \<Rightarrow> 'r world \<Rightarrow> 'r world" where
  "engine_destroy h w =
     (case getEngine h w of None \<Rightarrow> w
      | Some e \<Rightarrow>
          let w = w\<lparr>ew_slots := (ew_slots w)[nat (h - 1) := None]\<rparr>
          in if list_ex (\<lambda>s. s \<noteq> None) (ew_slots w) then w else w\<lparr>ew_overrides := False\<rparr>)"

subsection \<open>Host modules\<close>

definition setConfig_sources :: "'r engine_env \<Rightarrow> 'r engine \<Rightarrow> 'r engine" where
  "setConfig_sources env e = e\<lparr>e_config := (e_config e)\<lparr>rc_sources := e_sources e, rc_provider := sourceProviderFromLoader env e, rc_modules := []\<rparr>\<rparr>"

definition setupHostModules :: "'r engine_env \<Rightarrow> 'r engine \<Rightarrow> 'r engine" where
  "setupHostModules env e = e\<lparr>e_config := (e_config e)\<lparr>rc_host_backend := (e_modules e \<noteq> []), rc_sources := e_sources e,
     rc_provider := sourceProviderFromLoader env e, rc_modules := e_modules e\<rparr>\<rparr>"

definition validateModuleName :: "byte list \<Rightarrow> bool" where
  "validateModuleName name \<longleftrightarrow> \<not> (name = [] \<or> 64 < length name) \<and> name ! 0 \<noteq> 64 \<and> (\<forall>c \<in> set name. c \<noteq> 46 \<and> \<not> (c < 32 \<or> 126 < c))"

text \<open>
  The loop over the functions: a failing one stops it, but the call ids taken before stay taken. The call id is an unsigned
  16-bit integer, and \<open>None\<close> is the panic of its overflow.
\<close>

fun register_funcs ::
  "gengo_host_module_func_def_t list \<Rightarrow> nat \<Rightarrow> HostModuleFuncDesc list \<Rightarrow> (int \<times> nat \<times> HostModuleFuncDesc list) option" where
  "register_funcs [] call_id acc = Some (0, call_id, acc)"
| "register_funcs (fd # fds) call_id acc =
     (if 2 ^ 31 \<le> fd_name_len fd then None
      else let fname = wasmSlice (fd_name fd, int (fd_name_len fd)) in
        if 64 < length fname then Some (-5, call_id, acc)
        else if 255 < fd_arity fd then Some (-4, call_id, acc)
        else if 65535 \<le> call_id then None
        else register_funcs fds (call_id + 1) (acc @ [\<lparr>hf_name = fname, hf_arity = fd_arity fd, hf_call_id = call_id\<rparr>]))"

text \<open>\<open>funcs\<close> is the array behind the pointer, \<open>None\<close> for a null pointer, and \<open>n\<close> the count that is passed.\<close>

definition engine_register_module ::
  "int \<Rightarrow> cslice \<Rightarrow> gengo_host_module_func_def_t list option \<Rightarrow> int \<Rightarrow> 'r world \<Rightarrow> (int \<times> 'r world) option" where
  "engine_register_module h nm funcs n w =
     (case getEngine h w of None \<Rightarrow> Some (-1, w)
      | Some e \<Rightarrow>
          if MaxHostModules \<le> length (e_modules e) then Some (-3, w)
          else if n < 0 \<or> int MaxHostModuleFuncs < n then Some (-4, w)
          else if \<not> validateModuleName (wasmSlice nm) then Some (-5, w)
          else if 0 < n \<and> funcs = None then Some (-4, w)
          else if 0 < n \<and> int (length (the funcs)) < n then None
          else (case register_funcs (if n = 0 then [] else take (nat n) (the funcs)) (e_next_call_id e) [] of
                  None \<Rightarrow> None
                | Some (rc, next_id, fs) \<Rightarrow>
                    let e = e\<lparr>e_next_call_id := next_id\<rparr> in
                    if rc \<noteq> 0 then Some (rc, put_engine h e w)
                    else Some (0, put_engine h (e\<lparr>e_modules := e_modules e @ [\<lparr>hm_name = wasmSlice nm, hm_funcs = fs\<rparr>]\<rparr>) w)))"

subsection \<open>Running\<close>

definition run_code :: "'r engine_env \<Rightarrow> run_result \<Rightarrow> 'r engine \<Rightarrow> int \<times> 'r engine" where
  "run_code env res e =
     (case res of RunOk \<Rightarrow> (0, clearError e)
      | CompileError er \<Rightarrow> (-1, setCompileError env er e)
      | RuntimeError er \<Rightarrow> (-2, setRuntimeError er e))"

definition execResultCode :: "'r engine_env \<Rightarrow> exec_result \<Rightarrow> 'r engine \<Rightarrow> int \<times> 'r engine" where
  "execResultCode env res e =
     (case res of Completed \<Rightarrow> (0, clearError e)
      | Suspended \<Rightarrow> (1, clearError e)
      | ExecCompileError er \<Rightarrow> (-1, setCompileError env er e)
      | ExecRuntimeError er \<Rightarrow> (-2, setRuntimeError er e))"

text \<open>The frame of a run: activate the engine, execute, write the output, record the result, restore the view.\<close>

definition in_engine :: "int \<Rightarrow> 'r engine \<Rightarrow> (rt_caps \<Rightarrow> 'r \<Rightarrow> 'res \<times> script_output \<times> 'r) \<Rightarrow> ('res \<Rightarrow> 'r engine \<Rightarrow> int \<times> 'r engine) \<Rightarrow> 'r world
    \<Rightarrow> int \<times> 'r world" where
  "in_engine h e exec code w =
     (let (prev, w) = pushEngineState h e w;
          (res, out, r) = exec (caps_of e) (e_rt e);
          (rc, e) = code res (e\<lparr>e_rt := r\<rparr>)
      in (rc, popEngineState prev (engine_write out (put_engine h e w))))"

definition engine_run :: "int \<Rightarrow> cslice \<Rightarrow> 'r world \<Rightarrow> int \<times> 'r world" where
  "engine_run h src w =
     (case getEngine h w of None \<Rightarrow> (-1, w)
      | Some e \<Rightarrow>
          if snd src < 0 then (-1, put_engine h (setError ''engine_run: src_len must not be negative'' e) w)
          else in_engine h (setupHostModules (ew_env w) e) (\<lambda>c. vm_run (en_vm (ew_env w)) c (defaultSourceProvider (rp_config c)) (wasmSlice src) []) (run_code (ew_env w)) w)"

definition engine_run_path :: "int \<Rightarrow> cslice \<Rightarrow> cslice \<Rightarrow> 'r world \<Rightarrow> int \<times> 'r world" where
  "engine_run_path h src path w =
     (case getEngine h w of None \<Rightarrow> (-1, w)
      | Some e \<Rightarrow>
          if snd src < 0 \<or> snd path < 0 then (-1, put_engine h (setError ''engine_run_path: lengths must not be negative'' e) w)
          else in_engine h (setupHostModules (ew_env w) e) (\<lambda>c. vm_run (en_vm (ew_env w)) c (defaultSourceProvider (rp_config c)) (wasmSlice src) (wasmSlice path)) (run_code (ew_env w)) w)"

text \<open>Unlike \<open>engine_run\<close>, this entry ignores the configured sources: \<open>begin\<close> of the runtime takes the filesystem provider.\<close>

definition engine_begin :: "int \<Rightarrow> cslice \<Rightarrow> 'r world \<Rightarrow> int \<times> 'r world" where
  "engine_begin h src w =
     (case getEngine h w of None \<Rightarrow> (-1, w)
      | Some e \<Rightarrow>
          if snd src < 0 then (-1, put_engine h (setError ''engine_begin: src_len must not be negative'' e) w)
          else in_engine h (setupHostModules (ew_env w) e) (\<lambda>c. vm_begin (en_vm (ew_env w)) c Filesystem (wasmSlice src)) (execResultCode (ew_env w)) w)"

definition engine_continue :: "int \<Rightarrow> 'r world \<Rightarrow> int \<times> 'r world" where
  "engine_continue h w =
     (case getEngine h w of None \<Rightarrow> (-1, w)
      | Some e \<Rightarrow> in_engine h e (vm_continue (en_vm (ew_env w))) (execResultCode (ew_env w)) w)"

definition engine_sleep_remaining_ms :: "int \<Rightarrow> 'r world \<Rightarrow> int" where
  "engine_sleep_remaining_ms h w = (case getEngine h w of None \<Rightarrow> -1 | Some e \<Rightarrow> vm_sleep_ms (en_vm (ew_env w)) (e_rt e))"

text \<open>
  The result of a script function as a wire: the code, the wire to store behind a non-null \<open>out_ptr\<close>, the memory and the
  engine. A failed conversion is reported as a runtime error.
\<close>

definition return_value :: "'r engine_env \<Rightarrow> int \<Rightarrow> hval \<Rightarrow> cmem \<Rightarrow> 'r engine \<Rightarrow> (int \<times> gengo_value_wire_t option \<times> cmem \<times> 'r engine) option" where
  "return_value env h v m e =
     (case valueToWireWithScratch env h v (heap_of (en_vm env) m (e_rt e)) of
        None \<Rightarrow> None
      | Some (Inl er) \<Rightarrow> Some (-2, None, m, setRuntimeError \<lparr>ve_kind = wire_error_name er,
            ve_msg = bytes_of ''value cannot be serialized to wire'', ve_line = 0, ve_col = 0, ve_path = []\<rparr>
            (e\<lparr>e_rt := vm_leak (en_vm env) v (e_rt e)\<rparr>))
      | Some (Inr (wr, s)) \<Rightarrow> Some (0, Some wr, bh_mem s, clearError (e\<lparr>e_rt := vm_set_bump (en_vm env) (bh_top s) (e_rt e)\<rparr>)))"

text \<open>
  \<open>args\<close> is the array behind the pointer, \<open>None\<close> for a null pointer. With a null pointer and a positive count the code calls
  the function with uninitialised values.
\<close>

definition engine_call ::
  "int \<Rightarrow> cslice \<Rightarrow> gengo_value_wire_t list option \<Rightarrow> int \<Rightarrow> cmem \<Rightarrow> 'r world \<Rightarrow> (int \<times> gengo_value_wire_t option \<times> cmem \<times> 'r world) option" where
  "engine_call h nm args argc m w =
     (case getEngine h w of None \<Rightarrow> Some (-1, None, m, w)
      | Some e \<Rightarrow>
          let env = ew_env w; vm = en_vm env; e = setupHostModules env e; (prev, w) = pushEngineState h e w;
              leave = (\<lambda>rc e. Some (rc, None, m, popEngineState prev (put_engine h e w)))
          in if argc < 0 then leave (-3) (setError ''engine_call: argc must not be negative'' e)
             else if 64 < argc then leave (-3) (setError ''too many arguments: engine_call supports at most 64'' e)
             else if 0 < argc \<and> (args = None \<or> int (length (the args)) < argc) then None
             else case dec_all (wireToValue (vm_room vm (e_rt e)) m) (take (nat argc) (case args of None \<Rightarrow> [] | Some a \<Rightarrow> a)) of
                    None \<Rightarrow> None
                  | Some (Inl er) \<Rightarrow> leave (-2) (setError ''argument wire conversion failed: out of memory'' e)
                  | Some (Inr vs) \<Rightarrow>
                      let (res, out, m, r) = vm_call vm (caps_of e) (wasmSlice nm) vs m (e_rt e);
                          e = e\<lparr>e_rt := r\<rparr>; w = engine_write out w
                      in case res of
                           Inl er \<Rightarrow> Some (-2, None, m, popEngineState prev (put_engine h (setRuntimeError er e) w))
                         | Inr v \<Rightarrow>
                             (case return_value env h v m e of
                                None \<Rightarrow> None
                              | Some (rc, wr, m, e) \<Rightarrow> Some (rc, wr, m, popEngineState prev (put_engine h e w))))"

definition engine_reset :: "int \<Rightarrow> 'r world \<Rightarrow> 'r world" where
  "engine_reset h w =
     (case getEngine h w of None \<Rightarrow> w
      | Some e \<Rightarrow>
          let (prev, w) = pushEngineState h e w; e = clearError e
          in popEngineState prev (put_engine h (e\<lparr>e_rt := vm_reset (en_vm (ew_env w)) (e_rt e)\<rparr>) w))"

subsection \<open>Sources and callbacks\<close>

definition engine_add_source :: "int \<Rightarrow> cslice \<Rightarrow> cslice \<Rightarrow> 'r world \<Rightarrow> int \<times> 'r world" where
  "engine_add_source h path src w =
     (case getEngine h w of None \<Rightarrow> (-1, w)
      | Some e \<Rightarrow>
          if snd path < 0 \<or> snd src < 0 then (-5, w)
          else if MaxSources \<le> length (e_sources e) then (-3, w)
          else if 256 < length (wasmSlice path) then (-5, w)
          else if 4096 < length (wasmSlice src) then (-5, w)
          else (0, put_engine h (setConfig_sources (ew_env w) (e\<lparr>e_sources := e_sources e @ [(wasmSlice path, wasmSlice src)]\<rparr>)) w))"

definition engine_set_import_loader :: "int \<Rightarrow> import_loader option \<Rightarrow> 'r world \<Rightarrow> int \<times> 'r world" where
  "engine_set_import_loader h cb w =
     (case getEngine h w of None \<Rightarrow> (-1, w) | Some e \<Rightarrow> (0, put_engine h (setConfig_sources (ew_env w) (e\<lparr>e_loader := cb\<rparr>)) w))"

definition engine_set_host_call_fn :: "int \<Rightarrow> bool \<Rightarrow> 'r world \<Rightarrow> int \<times> 'r world" where
  "engine_set_host_call_fn h cb w =
     (case getEngine h w of None \<Rightarrow> (-1, w) | Some e \<Rightarrow> (0, put_engine h (e\<lparr>e_host_call_cb := cb\<rparr>) w))"

definition upd_engine :: "int \<Rightarrow> ('r engine \<Rightarrow> 'r engine) \<Rightarrow> 'r world \<Rightarrow> 'r world" where
  "upd_engine h f w = (case getEngine h w of None \<Rightarrow> w | Some e \<Rightarrow> put_engine h (f e) w)"

definition engine_set_write_fn :: "int \<Rightarrow> bool \<Rightarrow> 'r world \<Rightarrow> 'r world" where
  "engine_set_write_fn h cb w = upd_engine h (\<lambda>e. e\<lparr>e_write_cb := cb\<rparr>) w"

definition engine_set_read_fn :: "int \<Rightarrow> bool \<Rightarrow> 'r world \<Rightarrow> 'r world" where
  "engine_set_read_fn h cb w = upd_engine h (\<lambda>e. e\<lparr>e_read_cb := cb\<rparr>) w"

definition engine_set_trace_fn :: "int \<Rightarrow> bool \<Rightarrow> 'r world \<Rightarrow> 'r world" where
  "engine_set_trace_fn h cb w = upd_engine h (\<lambda>e. e\<lparr>e_trace_cb := cb\<rparr>) w"

definition engine_set_net_handlers :: "int \<Rightarrow> bool \<Rightarrow> 'r world \<Rightarrow> 'r world" where
  "engine_set_net_handlers h cb w = upd_engine h (\<lambda>e. e\<lparr>e_net_handlers := cb\<rparr>) w"

definition engine_set_http_handler :: "int \<Rightarrow> bool \<Rightarrow> 'r world \<Rightarrow> 'r world" where
  "engine_set_http_handler h cb w = upd_engine h (\<lambda>e. e\<lparr>e_http_handler := cb\<rparr>) w"

subsection \<open>Errors\<close>

definition engine_last_error :: "int \<Rightarrow> int \<Rightarrow> 'r world \<Rightarrow> int \<times> byte list" where
  "engine_last_error h n w =
     (case getEngine h w of
        Some e \<Rightarrow> (int (length (e_last_error e)), take (min (length (e_last_error e)) (nat (max n 0))) (e_last_error e))
      | None \<Rightarrow>
          if h \<noteq> 0 then (0, [])
          else (int (length (ew_init_error w)), take (min (length (ew_init_error w)) (nat (max n 0))) (ew_init_error w)))"

definition engine_last_error_line :: "int \<Rightarrow> 'r world \<Rightarrow> int" where
  "engine_last_error_line h w = (case getEngine h w of None \<Rightarrow> 0 | Some e \<Rightarrow> int (e_error_line e))"

definition engine_last_error_col :: "int \<Rightarrow> 'r world \<Rightarrow> int" where
  "engine_last_error_col h w = (case getEngine h w of None \<Rightarrow> 0 | Some e \<Rightarrow> int (e_error_col e))"

definition engine_last_error_path :: "int \<Rightarrow> int \<Rightarrow> 'r world \<Rightarrow> int \<times> byte list" where
  "engine_last_error_path h n w =
     (case getEngine h w of None \<Rightarrow> (0, [])
      | Some e \<Rightarrow> (int (length (e_error_path e)), take (min (length (e_error_path e)) (nat (max n 0))) (e_error_path e)))"

subsection \<open>Mounts, globals, policies, bundles\<close>

definition engine_mount_dir :: "int \<Rightarrow> cslice \<Rightarrow> cslice \<Rightarrow> 'r world \<Rightarrow> int \<times> 'r world" where
  "engine_mount_dir h nm path w =
     (case getEngine h w of None \<Rightarrow> (-1, w)
      | Some e \<Rightarrow>
          if snd nm < 0 \<or> snd path < 0 then (-2, w)
          else let (r, fs) = addMountToState (e_mounts e) (wasmSlice nm) (wasmSlice path); w = put_engine h (e\<lparr>e_mounts := fs\<rparr>) w
               in case r of Inl er \<Rightarrow> (-2, w) | Inr u \<Rightarrow> (0, w))"

definition engine_mount_driver :: "int \<Rightarrow> cslice \<Rightarrow> nat option \<Rightarrow> 'r world \<Rightarrow> int \<times> 'r world" where
  "engine_mount_driver h nm drv w =
     (case getEngine h w of None \<Rightarrow> (-1, w)
      | Some e \<Rightarrow> (case drv of
            None \<Rightarrow> (-2, w)
          | Some d \<Rightarrow>
              if snd nm < 0 then (-2, w)
              else let (r, fs) = addDriverMountToState (e_mounts e) (wasmSlice nm) d; w = put_engine h (e\<lparr>e_mounts := fs\<rparr>) w
                   in case r of Inl er \<Rightarrow> (-2, w) | Inr u \<Rightarrow> (0, w)))"

text \<open>\<open>out\<close> tells whether the pointer for the result is non-null; without it nothing is converted.\<close>

definition engine_get_global ::
  "int \<Rightarrow> cslice \<Rightarrow> bool \<Rightarrow> cmem \<Rightarrow> 'r world \<Rightarrow> (int \<times> gengo_value_wire_t option \<times> cmem \<times> 'r world) option" where
  "engine_get_global h nm out m w =
     (case getEngine h w of None \<Rightarrow> Some (-1, None, m, w)
      | Some e \<Rightarrow>
          let env = ew_env w; vm = en_vm env; (prev, w) = pushEngineState h e w
          in case map_of (vm_globals vm (e_rt e)) (wasmSlice nm) of
               None \<Rightarrow> Some (-2, None, m, popEngineState prev w)
             | Some (v, arity) \<Rightarrow>
                 if \<not> out then Some (0, None, m, popEngineState prev w)
                 else (case valueToWireWithScratch env h v (heap_of vm m (e_rt e)) of
                    None \<Rightarrow> None
                  | Some (Inl er) \<Rightarrow> Some (-3, None, m, popEngineState prev (put_engine h (e\<lparr>e_rt := vm_leak vm v (e_rt e)\<rparr>) w))
                  | Some (Inr (wr, s)) \<Rightarrow>
                      Some (0, Some wr, bh_mem s, popEngineState prev (put_engine h (e\<lparr>e_rt := vm_set_bump vm (bh_top s) (e_rt e)\<rparr>) w))))"

text \<open>The calls of the callback: the name, the wire and the memory it points into. A global that cannot be sent is skipped.\<close>

fun report_globals ::
  "'r engine_env \<Rightarrow> int \<Rightarrow> (byte list \<times> hval \<times> nat option) list \<Rightarrow> cmem \<Rightarrow> 'r
    \<Rightarrow> ((byte list \<times> gengo_value_wire_t \<times> cmem) list \<times> cmem \<times> 'r) option" where
  "report_globals env h [] m r = Some ([], m, r)"
| "report_globals env h ((name, v, arity) # gs) m r =
     (case valueToWireWithScratch env h v (heap_of (en_vm env) m r) of
        None \<Rightarrow> None
      | Some (Inl er) \<Rightarrow> report_globals env h gs m (vm_leak (en_vm env) v r)
      | Some (Inr (wr, s)) \<Rightarrow>
          map_option (\<lambda>(calls, m, r). ((name, wr, bh_mem s) # calls, m, r))
            (report_globals env h gs (bh_mem s) (vm_set_bump (en_vm env) (bh_top s) r)))"

definition engine_list_globals ::
  "int \<Rightarrow> bool \<Rightarrow> cmem \<Rightarrow> 'r world \<Rightarrow> (int \<times> (byte list \<times> gengo_value_wire_t \<times> cmem) list \<times> cmem \<times> 'r world) option" where
  "engine_list_globals h cb m w =
     (case getEngine h w of None \<Rightarrow> Some (-1, [], m, w)
      | Some e \<Rightarrow>
          let env = ew_env w; (prev, w) = pushEngineState h e w
          in if \<not> cb then Some (0, [], m, popEngineState prev w)
             else map_option (\<lambda>(calls, m, r). (0, calls, m, popEngineState prev (put_engine h (e\<lparr>e_rt := r\<rparr>) w)))
                    (report_globals env h (vm_globals (en_vm env) (e_rt e)) m (e_rt e)))"

definition engine_list_functions :: "int \<Rightarrow> bool \<Rightarrow> 'r world \<Rightarrow> int \<times> (byte list \<times> nat) list" where
  "engine_list_functions h cb w =
     (case getEngine h w of None \<Rightarrow> (-1, [])
      | Some e \<Rightarrow>
          if \<not> cb then (0, [])
          else (0, List.map_filter (\<lambda>(name, v, arity). map_option (\<lambda>a. (name, a)) arity) (vm_globals (en_vm (ew_env w)) (e_rt e))))"

definition policy_port :: "int \<Rightarrow> nat" where
  "policy_port port = (if port \<le> 0 \<or> 65535 < port then 0 else nat port)"

definition policy_code :: "int \<Rightarrow> int" where
  "policy_code rc = (if rc = 0 then 0 else if rc = -1 then -2 else -3)"

definition engine_net_policy_add :: "int \<Rightarrow> int \<Rightarrow> cslice \<Rightarrow> int \<Rightarrow> 'r world \<Rightarrow> int \<times> 'r world" where
  "engine_net_policy_add h action pattern port w =
     (case getEngine h w of None \<Rightarrow> (-1, w)
      | Some e \<Rightarrow>
          let (rc, p) = addRuleTo (en_ip6 (ew_env w)) (e_dial e) (if action = 0 then Deny else Allow) (wasmSlice pattern) (policy_port port)
          in (policy_code rc, put_engine h (e\<lparr>e_dial := p\<rparr>) w))"

definition engine_net_policy_clear :: "int \<Rightarrow> 'r world \<Rightarrow> 'r world" where
  "engine_net_policy_clear h w = upd_engine h (\<lambda>e. e\<lparr>e_dial := []\<rparr>) w"

definition engine_net_listen_policy_add :: "int \<Rightarrow> int \<Rightarrow> cslice \<Rightarrow> int \<Rightarrow> 'r world \<Rightarrow> int \<times> 'r world" where
  "engine_net_listen_policy_add h action pattern port w =
     (case getEngine h w of None \<Rightarrow> (-1, w)
      | Some e \<Rightarrow>
          let (rc, p) = addRuleTo (en_ip6 (ew_env w)) (e_listen e) (if action = 0 then Deny else Allow) (wasmSlice pattern) (policy_port port)
          in (policy_code rc, put_engine h (e\<lparr>e_listen := p\<rparr>) w))"

definition engine_net_listen_policy_clear :: "int \<Rightarrow> 'r world \<Rightarrow> 'r world" where
  "engine_net_listen_policy_clear h w = upd_engine h (\<lambda>e. e\<lparr>e_listen := []\<rparr>) w"

fun load_code :: "LoadError \<Rightarrow> int" where
  "load_code PackageTableFull = -2"
| "load_code FileTableFull = -3"
| "load_code FileTooLarge = -4"
| "load_code InvalidZip = -5"
| "load_code PackageState.InvalidPath = -5"
| "load_code PackageState.OutOfMemory = -5"

text \<open>\<open>Fault\<close>, a read outside the archive, would be a panic; the loader of zip archives never gives it.\<close>

definition finish_load :: "int \<Rightarrow> 'r engine \<Rightarrow> PackageRegistry load \<Rightarrow> 'r world \<Rightarrow> int \<times> 'r world" where
  "finish_load h e r w =
     (case r of Fault \<Rightarrow> (-5, w)
      | Err er \<Rightarrow> (load_code er, w)
      | Ok reg \<Rightarrow> (0, put_engine h (setConfig_sources (ew_env w) (e\<lparr>e_packages := reg\<rparr>)) w))"

definition engine_load_bundle :: "int \<Rightarrow> cslice \<Rightarrow> cslice \<Rightarrow> 'r world \<Rightarrow> int \<times> 'r world" where
  "engine_load_bundle h nm z w =
     (case getEngine h w of None \<Rightarrow> (-1, w)
      | Some e \<Rightarrow>
          if snd nm \<le> 0 \<or> snd z \<le> 0 then (-5, w)
          else let env = ew_env w
               in finish_load h e (loadFromZip (en_inflate env) (en_alloc_ok env) (en_usize_max env) (en_max_input env)
                    (e_packages e) (wasmSlice nm) (wasmSlice z)) w)"

definition engine_load_bundle_dir :: "int \<Rightarrow> cslice \<Rightarrow> cslice \<Rightarrow> 'r world \<Rightarrow> int \<times> 'r world" where
  "engine_load_bundle_dir h nm dir w =
     (case getEngine h w of None \<Rightarrow> (-1, w)
      | Some e \<Rightarrow>
          if snd nm \<le> 0 \<or> snd dir \<le> 0 then (-5, w)
          else let env = ew_env w
               in finish_load h e (loadFromDir (en_max_input env) (e_packages e) (wasmSlice nm) (en_walk env (wasmSlice dir))) w)"

definition engine_clear_bundles :: "int \<Rightarrow> 'r world \<Rightarrow> 'r world" where
  "engine_clear_bundles h w = upd_engine h (\<lambda>e. setConfig_sources (ew_env w) (e\<lparr>e_packages := clearRegistry (e_packages e)\<rparr>)) w"

end
