(* ===== verification/EngineAbiProps.thy ===== *)
theory EngineAbiProps
  imports EngineAbi
begin

text \<open>
  The embedding interface keeps its tables in order. \<open>engine_inv\<close> is the invariant of one engine, \<open>world_ok\<close> that of the
  whole library between two calls; \<open>abi_op\<close> is the datatype of all exported functions that change state and \<open>exec_op\<close>
  runs one. The work is in one lemma per function, \<open>updates\<close>: a call replaces at most the engine it names, by one that
  keeps the invariant, the instruction budget and the I/O permission. Everything else follows from that.
\<close>

section \<open>The environment\<close>

text \<open>
  What the interface relies on of the virtual machine: strings are shorter than 4 GiB, and the bytes of a string, an enum
  name or a named string value that is returned are in memory.
\<close>

definition text_ok :: "cmem \<Rightarrow> u64 \<times> byte list \<Rightarrow> bool" where
  "text_ok m b \<longleftrightarrow> length (snd b) < 2 ^ 32 \<and> (fst b \<noteq> 0 \<longrightarrow> (\<exists>c. mem_bytes m (fst b) = Some c \<and> length (snd b) \<le> length c))"

fun text_in :: "cmem \<Rightarrow> hval \<Rightarrow> bool" where
  "text_in m (VString b) = text_ok m b"
| "text_in m (VEnum b) = text_ok m b"
| "text_in m (VNamed v) = text_in m v"
| "text_in m _ = True"

definition interp_ok :: "'r interp \<Rightarrow> bool" where
  "interp_ok vm \<longleftrightarrow> (\<forall>c nm vs m r v out m' r'. vm_call vm c nm vs m r = (Inr v, out, m', r') \<longrightarrow> text_in m' v)"

text \<open>And of the libraries: IPv6 addresses have 16 bytes, the decompressor fills its buffer, file reads respect their limit.\<close>

definition env_ok :: "'r engine_env \<Rightarrow> bool" where
  "env_ok env \<longleftrightarrow> interp_ok (en_vm env) \<and> ip_sixteen (en_ip6 env)
     \<and> (\<forall>c n out. en_inflate env c n = Some out \<longrightarrow> length out = n)
     \<and> (\<forall>d steps. en_walk env d = Inr steps \<longrightarrow> list_all reads_limited steps)"

section \<open>Invariants\<close>

definition call_ids :: "'r engine \<Rightarrow> nat list" where
  "call_ids e = concat (map (\<lambda>d. map hf_call_id (hm_funcs d)) (e_modules e))"

definition module_ok :: "HostModuleEntry \<Rightarrow> bool" where
  "module_ok d \<longleftrightarrow> validateModuleName (hm_name d) \<and> length (hm_funcs d) \<le> MaxHostModuleFuncs
     \<and> (\<forall>f \<in> set (hm_funcs d). length (hf_name f) \<le> 64 \<and> hf_arity f \<le> 255)"

definition modules_ok :: "'r engine \<Rightarrow> bool" where
  "modules_ok e \<longleftrightarrow> length (e_modules e) \<le> MaxHostModules \<and> (\<forall>d \<in> set (e_modules e). module_ok d)
     \<and> distinct (call_ids e) \<and> (\<forall>i \<in> set (call_ids e). HostModuleCallIdBase \<le> i \<and> i < e_next_call_id e)
     \<and> HostModuleCallIdBase \<le> e_next_call_id e \<and> e_next_call_id e \<le> 65535"

definition sources_ok :: "'r engine \<Rightarrow> bool" where
  "sources_ok e \<longleftrightarrow> length (e_sources e) \<le> MaxSources \<and> (\<forall>(p, s) \<in> set (e_sources e). length p \<le> 256 \<and> length s \<le> 4096)"

text \<open>What a script imports from is always what the host has registered.\<close>

definition config_synced :: "'r engine_env \<Rightarrow> 'r engine \<Rightarrow> bool" where
  "config_synced env e \<longleftrightarrow> rc_sources (e_config e) = e_sources e \<and> rc_provider (e_config e) = sourceProviderFromLoader env e"

definition engine_inv :: "'r engine_env \<Rightarrow> 'r engine \<Rightarrow> bool" where
  "engine_inv env e \<longleftrightarrow> length (e_last_error e) \<le> MaxErrorLen \<and> length (e_error_path e) \<le> MaxModulePathBytes
     \<and> sources_ok e \<and> modules_ok e \<and> registry_ok (en_max_input env) (e_packages e) \<and> policy_ok (e_dial e) \<and> policy_ok (e_listen e)
     \<and> fs_ok (e_mounts e) \<and> config_synced env e"

definition idle :: "'r world \<Rightarrow> bool" where
  "idle w \<longleftrightarrow> length (ew_slots w) = MaxEngines \<and> ew_view w = no_view"

definition world_ok :: "'r world \<Rightarrow> bool" where
  "world_ok w \<longleftrightarrow> env_ok (ew_env w) \<and> idle w \<and> length (ew_init_error w) \<le> MaxErrorLen
     \<and> ew_overrides w = list_ex (\<lambda>s. s \<noteq> None) (ew_slots w) \<and> (\<forall>e. Some e \<in> set (ew_slots w) \<longrightarrow> engine_inv (ew_env w) e)"

text \<open>The library before the first call.\<close>

definition boot :: "'r engine_env \<Rightarrow> 'r world" where
  "boot env = \<lparr>ew_env = env, ew_slots = replicate MaxEngines None, ew_init_error = [], ew_view = no_view, ew_overrides = False,
     ew_output = [], ew_fd = []\<rparr>"

section \<open>Slots\<close>

definition valid :: "int \<Rightarrow> bool" where
  "valid h \<longleftrightarrow> 0 < h \<and> h \<le> int MaxEngines"

lemma getEngine_valid: "getEngine h w = Some e \<Longrightarrow> valid h"
  by (auto simp: getEngine_def valid_def split: if_splits)

lemma getEngine_put [simp]:
  assumes "getEngine h w = Some e" and "length (ew_slots w) = MaxEngines"
  shows "getEngine h (put_engine h e' w) = Some e'"
  using getEngine_valid [OF assms(1)] assms(2)
  by (auto simp: getEngine_def put_engine_def valid_def MaxEngines_def)

lemma getEngine_put_other: "h' \<noteq> h \<Longrightarrow> valid h \<Longrightarrow> getEngine h' (put_engine h e w) = getEngine h' w"
  by (auto simp: getEngine_def put_engine_def valid_def nth_list_update)

lemma getEngine_cong [simp]:
  "getEngine h (w\<lparr>ew_output := x\<rparr>) = getEngine h w" "getEngine h (w\<lparr>ew_fd := y\<rparr>) = getEngine h w"
  "getEngine h (w\<lparr>ew_view := v\<rparr>) = getEngine h w" "getEngine h (w\<lparr>ew_init_error := b\<rparr>) = getEngine h w"
  "getEngine h (w\<lparr>ew_overrides := c\<rparr>) = getEngine h w"
  by (simp_all add: getEngine_def)

lemma put_engine_frame [simp]:
  "ew_env (put_engine h e w) = ew_env w" "ew_view (put_engine h e w) = ew_view w"
  "ew_init_error (put_engine h e w) = ew_init_error w" "ew_overrides (put_engine h e w) = ew_overrides w"
  "ew_output (put_engine h e w) = ew_output w" "ew_fd (put_engine h e w) = ew_fd w"
  "length (ew_slots (put_engine h e w)) = length (ew_slots w)"
  by (simp_all add: put_engine_def)

lemma getEngine_in: "getEngine h w = Some e \<Longrightarrow> length (ew_slots w) = MaxEngines \<Longrightarrow> Some e \<in> set (ew_slots w)"
  unfolding in_set_conv_nth getEngine_def MaxEngines_def by (rule exI [of _ "nat (h - 1)"]) (auto split: if_splits)

section \<open>Calls that update one engine\<close>

definition keeps :: "'r engine_env \<Rightarrow> 'r engine \<Rightarrow> 'r engine \<Rightarrow> bool" where
  "keeps env e e' \<longleftrightarrow> (engine_inv env e \<longrightarrow> engine_inv env e') \<and> rc_max_ops (e_config e') = rc_max_ops (e_config e)
     \<and> rc_allow_io (e_config e') = rc_allow_io (e_config e)"

definition updates :: "int \<Rightarrow> 'r world \<Rightarrow> 'r world \<Rightarrow> bool" where
  "updates h w w' \<longleftrightarrow> w' = w \<or>
     (\<exists>e e' x y. getEngine h w = Some e \<and> keeps (ew_env w) e e' \<and> w' = (put_engine h e' w)\<lparr>ew_output := x, ew_fd := y\<rparr>)"

lemma updates_refl [simp]: "updates h w w"
  by (simp add: updates_def)

lemma updates_put: "getEngine h w = Some e \<Longrightarrow> keeps (ew_env w) e e' \<Longrightarrow> updates h w (put_engine h e' w)"
  unfolding updates_def
  by (intro disjI2 exI [of _ e] exI [of _ e'] exI [of _ "ew_output w"] exI [of _ "ew_fd w"]) simp

lemma keeps_refl [simp]: "keeps env e e"
  by (simp add: keeps_def)

lemma keeps_trans: "keeps env e f \<Longrightarrow> keeps env f g \<Longrightarrow> keeps env e g"
  by (simp add: keeps_def)

text \<open>The frame of a call that activates the engine: the view is restored.\<close>

lemma view_reset: "ew_view w = no_view \<Longrightarrow> w\<lparr>ew_view := no_view\<rparr> = w"
  by (cases w) simp

lemma engine_write_cases: "\<exists>x y. engine_write out w = w\<lparr>ew_output := x, ew_fd := y\<rparr>"
proof (cases "av_write (ew_view w)")
  case True
  then have "engine_write out w = w\<lparr>ew_output := ew_output w @ out, ew_fd := ew_fd w\<rparr>" by (simp add: engine_write_def)
  then show ?thesis by blast
next
  case False
  then have "engine_write out w = w\<lparr>ew_output := ew_output w, ew_fd := ew_fd w @ out\<rparr>" by (simp add: engine_write_def)
  then show ?thesis by blast
qed


lemma in_engine_updates:
  assumes "idle w" and e0: "getEngine h w = Some e0" and k: "keeps (ew_env w) e0 e"
    and code: "\<And>res r. keeps (ew_env w) e (snd (code res (e\<lparr>e_rt := r\<rparr>)))"
  shows "updates h w (snd (in_engine h e exec code w))"
proof -
  obtain res out r where ex: "exec (caps_of e) (e_rt e) = (res, out, r)" by (cases "exec (caps_of e) (e_rt e)")
  obtain rc e' where co: "code res (e\<lparr>e_rt := r\<rparr>) = (rc, e')" by (cases "code res (e\<lparr>e_rt := r\<rparr>)")
  define w1 where "w1 = put_engine h e' (w\<lparr>ew_view := view_of h e\<rparr>)"
  obtain x y where wr: "engine_write out w1 = w1\<lparr>ew_output := x, ew_fd := y\<rparr>" using engine_write_cases by blast
  have "av_engine (ew_view w) = None" and v: "ew_view w = no_view" using assms(1) by (simp_all add: idle_def no_view_def)
  then have "snd (in_engine h e exec code w) = (engine_write out w1)\<lparr>ew_view := no_view\<rparr>"
    by (simp add: in_engine_def ex co pushEngineState_def popEngineState_def w1_def)
  also have "\<dots> = (put_engine h e' w)\<lparr>ew_output := x, ew_fd := y\<rparr>"
    unfolding wr unfolding w1_def using v by (cases w) (simp add: put_engine_def)
  finally show ?thesis
    using e0 keeps_trans [OF k code [of res r]] co unfolding updates_def by (auto intro!: exI [of _ e0] exI [of _ e'])
qed

section \<open>Changes of an engine that keep its invariant\<close>

lemma provider_dep:
  assumes "e_loader e' = e_loader e" "e_packages e' = e_packages e" "e_sources e' = e_sources e"
  shows "sourceProviderFromLoader env e' = sourceProviderFromLoader env e"
  unfolding sourceProviderFromLoader_def importLoaderWrapper_def assms ..

lemma provider_cong [simp]:
  "sourceProviderFromLoader env (e\<lparr>e_rt := r\<rparr>) = sourceProviderFromLoader env e"
  "sourceProviderFromLoader env (e\<lparr>e_config := c\<rparr>) = sourceProviderFromLoader env e"
  "sourceProviderFromLoader env (e\<lparr>e_last_error := b\<rparr>) = sourceProviderFromLoader env e"
  "sourceProviderFromLoader env (e\<lparr>e_error_line := n\<rparr>) = sourceProviderFromLoader env e"
  "sourceProviderFromLoader env (e\<lparr>e_error_col := n\<rparr>) = sourceProviderFromLoader env e"
  "sourceProviderFromLoader env (e\<lparr>e_error_path := b\<rparr>) = sourceProviderFromLoader env e"
  "sourceProviderFromLoader env (e\<lparr>e_modules := ms\<rparr>) = sourceProviderFromLoader env e"
  "sourceProviderFromLoader env (e\<lparr>e_next_call_id := n\<rparr>) = sourceProviderFromLoader env e"
  "sourceProviderFromLoader env (e\<lparr>e_dial := p\<rparr>) = sourceProviderFromLoader env e"
  "sourceProviderFromLoader env (e\<lparr>e_listen := p\<rparr>) = sourceProviderFromLoader env e"
  "sourceProviderFromLoader env (e\<lparr>e_mounts := f\<rparr>) = sourceProviderFromLoader env e"
  "sourceProviderFromLoader env (e\<lparr>e_write_cb := c1\<rparr>) = sourceProviderFromLoader env e"
  "sourceProviderFromLoader env (e\<lparr>e_read_cb := c1\<rparr>) = sourceProviderFromLoader env e"
  "sourceProviderFromLoader env (e\<lparr>e_trace_cb := c1\<rparr>) = sourceProviderFromLoader env e"
  "sourceProviderFromLoader env (e\<lparr>e_host_call_cb := c1\<rparr>) = sourceProviderFromLoader env e"
  "sourceProviderFromLoader env (e\<lparr>e_net_handlers := c1\<rparr>) = sourceProviderFromLoader env e"
  "sourceProviderFromLoader env (e\<lparr>e_http_handler := c1\<rparr>) = sourceProviderFromLoader env e"
  by (rule provider_dep; simp)+

lemmas inv_defs = keeps_def engine_inv_def sources_ok_def modules_ok_def call_ids_def config_synced_def

lemma keeps_simple [simp]:
  "keeps env e (e\<lparr>e_rt := r\<rparr>)" "keeps env e (e\<lparr>e_write_cb := c\<rparr>)" "keeps env e (e\<lparr>e_read_cb := c\<rparr>)"
  "keeps env e (e\<lparr>e_trace_cb := c\<rparr>)" "keeps env e (e\<lparr>e_host_call_cb := c\<rparr>)" "keeps env e (e\<lparr>e_net_handlers := c\<rparr>)"
  "keeps env e (e\<lparr>e_http_handler := c\<rparr>)"
  by (simp_all add: inv_defs)

lemma length_bufPrint: "length (bufPrint b) \<le> MaxErrorLen"
  by (simp add: bufPrint_def)

lemma keeps_errors [simp]:
  "keeps env e (setError msg e)" "keeps env e (clearError e)" "keeps env e (setCompileError env' er e)" "keeps env e (setRuntimeError er e)"
  by (simp_all add: inv_defs setError_def clearError_def setCompileError_def setRuntimeError_def length_bufPrint)

lemma keeps_setup [simp]: "keeps env e (setupHostModules env e)"
  by (simp add: inv_defs setupHostModules_def)

text \<open>After a change of the sources, the loader or the packages, \<open>setConfig\<close> brings the configuration up to date.\<close>

lemma keeps_setConfig:
  "(sources_ok e \<Longrightarrow> sources_ok (e\<lparr>e_sources := s\<rparr>)) \<Longrightarrow> keeps env e (setConfig_sources env (e\<lparr>e_sources := s\<rparr>))"
  "keeps env e (setConfig_sources env (e\<lparr>e_loader := l\<rparr>))"
  "(registry_ok (en_max_input env) (e_packages e) \<Longrightarrow> registry_ok (en_max_input env) p) \<Longrightarrow> keeps env e (setConfig_sources env (e\<lparr>e_packages := p\<rparr>))"
  by (auto simp: inv_defs setConfig_sources_def)

lemmas keeps_rt_errors = keeps_errors [THEN keeps_trans [OF keeps_simple(1)]]

lemma code_keeps:
  "keeps env e (snd (run_code env res (e\<lparr>e_rt := r\<rparr>)))" "keeps env e (snd (execResultCode env x (e\<lparr>e_rt := r\<rparr>)))"
  by (auto simp: run_code_def execResultCode_def split: run_result.split exec_result.split intro: keeps_rt_errors)

lemma addRuleTo_ok: "ip_sixteen ip_six \<Longrightarrow> policy_ok p \<Longrightarrow> policy_ok (snd (addRuleTo ip_six p act pat prt))"
  by (auto simp: addRuleTo_def policy_ok_def MaxPolicyRules_def dest: buildPolicyRule_ok split: if_splits sum.splits)

lemma policy_ok_Nil [simp]: "policy_ok []"
  by (simp add: policy_ok_def)

lemma registry_ok_Nil [simp]: "registry_ok n []"
  by (simp add: registry_ok_def)

lemma keeps_policies:
  "policy_ok p \<or> (policy_ok (e_dial e) \<longrightarrow> policy_ok p) \<Longrightarrow> keeps env e (e\<lparr>e_dial := p\<rparr>)"
  "policy_ok p \<or> (policy_ok (e_listen e) \<longrightarrow> policy_ok p) \<Longrightarrow> keeps env e (e\<lparr>e_listen := p\<rparr>)"
  "(fs_ok (e_mounts e) \<longrightarrow> fs_ok f) \<Longrightarrow> keeps env e (e\<lparr>e_mounts := f\<rparr>)"
  by (auto simp: inv_defs)

section \<open>Host modules\<close>

lemma register_funcs_spec:
  assumes "register_funcs fds n acc = Some (rc, n', fs)"
  obtains new where "fs = acc @ new" "map hf_call_id new = [n..<n']" "n \<le> n'" "n \<le> 65535 \<Longrightarrow> n' \<le> 65535" "length new \<le> length fds"
    "rc = 0 \<Longrightarrow> length new = length fds" "\<forall>f \<in> set new. length (hf_name f) \<le> 64 \<and> hf_arity f \<le> 255"
proof -
  have "\<exists>new. fs = acc @ new \<and> map hf_call_id new = [n..<n'] \<and> n \<le> n' \<and> (n \<le> 65535 \<longrightarrow> n' \<le> 65535) \<and> length new \<le> length fds
      \<and> (rc = 0 \<longrightarrow> length new = length fds) \<and> (\<forall>f \<in> set new. length (hf_name f) \<le> 64 \<and> hf_arity f \<le> 255)"
    using assms
  proof (induction fds n acc rule: register_funcs.induct)
    case (2 fd fds n acc)
    define f where "f = \<lparr>hf_name = wasmSlice (fd_name fd, int (fd_name_len fd)), hf_arity = fd_arity fd, hf_call_id = n\<rparr>"
    show ?case
    proof (cases "register_funcs (fd # fds) n acc = register_funcs fds (n + 1) (acc @ [f]) \<and> n < 65535
        \<and> length (hf_name f) \<le> 64 \<and> hf_arity f \<le> 255 \<and> fd_name_len fd < 2 ^ 31")
      case True
      then have "\<exists>new. fs = (acc @ [f]) @ new \<and> map hf_call_id new = [n + 1..<n'] \<and> n + 1 \<le> n' \<and> (n + 1 \<le> 65535 \<longrightarrow> n' \<le> 65535)
          \<and> length new \<le> length fds \<and> (rc = 0 \<longrightarrow> length new = length fds)
          \<and> (\<forall>f \<in> set new. length (hf_name f) \<le> 64 \<and> hf_arity f \<le> 255)"
        using 2 by (simp add: f_def not_le not_less)
      then obtain new where new: "fs = (acc @ [f]) @ new" "map hf_call_id new = [n + 1..<n']" "n + 1 \<le> n'"
          "n + 1 \<le> 65535 \<longrightarrow> n' \<le> 65535" "length new \<le> length fds" "rc = 0 \<longrightarrow> length new = length fds"
          "\<forall>f \<in> set new. length (hf_name f) \<le> 64 \<and> hf_arity f \<le> 255" by blast
      then show ?thesis using True by (intro exI [of _ "f # new"]) (auto simp: f_def upt_conv_Cons)
    next
      case False
      then have "rc \<noteq> 0 \<and> n' = n \<and> fs = acc"
        using 2(2) by (auto simp: f_def Let_def split: if_splits)
      then show ?thesis by simp
    qed
  qed simp
  then show thesis using that by blast
qed


lemma call_ids_snoc: "e_modules e' = e_modules e @ [d] \<Longrightarrow> call_ids e' = call_ids e @ map hf_call_id (hm_funcs d)"
  by (simp add: call_ids_def)

lemma register_keeps:
  assumes "register_funcs fds (e_next_call_id e) [] = Some (rc, n, fs)" and "length (e_modules e) < MaxHostModules"
    and "length fds \<le> MaxHostModuleFuncs" and "validateModuleName nm"
  shows "keeps env e (e\<lparr>e_next_call_id := n\<rparr>)"
    and "keeps env e (e\<lparr>e_next_call_id := n, e_modules := e_modules e @ [\<lparr>hm_name = nm, hm_funcs = fs\<rparr>]\<rparr>)"
proof -
  obtain new where fs: "fs = [] @ new" "map hf_call_id new = [e_next_call_id e..<n]" "e_next_call_id e \<le> n"
      "e_next_call_id e \<le> 65535 \<Longrightarrow> n \<le> 65535" "length new \<le> length fds" "\<forall>f \<in> set new. length (hf_name f) \<le> 64 \<and> hf_arity f \<le> 255"
    by (rule register_funcs_spec [OF assms(1)]) blast
  have ids: "call_ids (e\<lparr>e_next_call_id := n, e_modules := e_modules e @ [\<lparr>hm_name = nm, hm_funcs = new\<rparr>]\<rparr>) = call_ids e @ [e_next_call_id e..<n]"
    by (subst call_ids_snoc [of _ e "\<lparr>hm_name = nm, hm_funcs = new\<rparr>"]) (simp_all add: fs)
  have same: "call_ids (e\<lparr>e_next_call_id := n\<rparr>) = call_ids e" by (simp add: call_ids_def)
  show "keeps env e (e\<lparr>e_next_call_id := n\<rparr>)"
    using fs(3,4) by (auto simp: keeps_def engine_inv_def modules_ok_def same sources_ok_def config_synced_def)
  show "keeps env e (e\<lparr>e_next_call_id := n, e_modules := e_modules e @ [\<lparr>hm_name = nm, hm_funcs = fs\<rparr>]\<rparr>)"
    using fs assms(2-4) by (auto simp: keeps_def engine_inv_def modules_ok_def ids sources_ok_def config_synced_def module_ok_def)
qed

section \<open>Every call updates at most one engine\<close>

lemma upd_engine_updates: "(\<And>e. keeps (ew_env w) e (f e)) \<Longrightarrow> updates h w (upd_engine h f w)"
  by (auto simp: upd_engine_def intro: updates_put split: option.split)

lemma setters_update:
  "updates h w (engine_set_write_fn h c w)" "updates h w (engine_set_read_fn h c w)" "updates h w (engine_set_trace_fn h c w)"
  "updates h w (engine_set_net_handlers h c w)" "updates h w (engine_set_http_handler h c w)"
  "updates h w (snd (engine_set_host_call_fn h c w))" "updates h w (engine_net_policy_clear h w)" "updates h w (engine_net_listen_policy_clear h w)"
  unfolding engine_set_write_fn_def engine_set_read_fn_def engine_set_trace_fn_def engine_set_net_handlers_def
    engine_set_http_handler_def engine_net_policy_clear_def engine_net_listen_policy_clear_def engine_set_host_call_fn_def
  by (auto intro!: upd_engine_updates updates_put keeps_policies split: option.split)

lemma source_calls_update:
  "updates h w (snd (engine_add_source h p s w))" "updates h w (snd (engine_set_import_loader h cb w))" "updates h w (engine_clear_bundles h w)"
proof -
  show "updates h w (snd (engine_add_source h p s w))"
    by (auto simp: engine_add_source_def sources_ok_def not_le not_less intro!: updates_put keeps_setConfig split: option.split)
  show "updates h w (snd (engine_set_import_loader h cb w))"
    by (auto simp: engine_set_import_loader_def intro!: updates_put keeps_setConfig split: option.split)
  show "updates h w (engine_clear_bundles h w)"
    by (auto simp: engine_clear_bundles_def clearRegistry_def intro!: upd_engine_updates keeps_setConfig)
qed


lemma mount_calls_update:
  "updates h w (snd (engine_mount_dir h nm p w))" "updates h w (snd (engine_mount_driver h nm d w))"
proof -
  show "updates h w (snd (engine_mount_dir h nm p w))"
    by (auto simp: engine_mount_dir_def split_beta Let_def intro!: updates_put keeps_policies addMount_spec [THEN conjunct1]
        split: option.split sum.split)
  show "updates h w (snd (engine_mount_driver h nm d w))"
    by (auto simp: engine_mount_driver_def split_beta Let_def intro!: updates_put keeps_policies addDriver_spec [THEN conjunct1]
        split: option.split sum.split)
qed

lemma policy_calls_update:
  assumes "ip_sixteen (en_ip6 (ew_env w))"
  shows "updates h w (snd (engine_net_policy_add h a p q w))" "updates h w (snd (engine_net_listen_policy_add h a p q w))"
  using addRuleTo_ok [OF assms]
  by (auto simp: engine_net_policy_add_def engine_net_listen_policy_add_def split_beta Let_def intro!: updates_put keeps_policies split: option.split)

lemma load_calls_update:
  assumes "env_ok (ew_env w)"
  shows "updates h w (snd (engine_load_bundle h nm z w))" "updates h w (snd (engine_load_bundle_dir h nm d w))"
proof -
  have z: "registry_ok k reg \<Longrightarrow> loadFromZip (en_inflate (ew_env w)) al mx k reg n data = Ok reg' \<Longrightarrow> registry_ok k reg'" for k reg al mx n data reg'
    using zip_bundles.keeps_registry_ok [of "(en_inflate (ew_env w), al, mx, data)" k reg n reg'] assms by (simp add: env_ok_def)
  have d: "registry_ok k reg \<Longrightarrow> loadFromDir k reg n (en_walk (ew_env w) dir) = Ok reg' \<Longrightarrow> registry_ok k reg'" for k reg n dir reg'
    using dir_bundles.keeps_registry_ok [of "en_walk (ew_env w) dir" k reg n reg'] assms by (simp add: env_ok_def)
  show "updates h w (snd (engine_load_bundle h nm z w))"
    by (auto simp: engine_load_bundle_def finish_load_def Let_def intro!: updates_put keeps_setConfig intro: z split: option.split load.split)
  show "updates h w (snd (engine_load_bundle_dir h nm d w))"
    by (auto simp: engine_load_bundle_dir_def finish_load_def Let_def intro!: updates_put keeps_setConfig intro: d split: option.split load.split)
qed

lemma run_calls_update:
  assumes "idle w"
  shows "updates h w (snd (engine_run h s w))" "updates h w (snd (engine_run_path h s p w))" "updates h w (snd (engine_begin h s w))"
    "updates h w (snd (engine_continue h w))"
  unfolding engine_run_def engine_run_path_def engine_begin_def engine_continue_def
  by (auto intro!: updates_put in_engine_updates [OF assms] code_keeps split: option.split)

lemma register_updates: "engine_register_module h nm fs n w = Some (rc, w') \<Longrightarrow> updates h w w'"
proof -
  assume *: "engine_register_module h nm fs n w = Some (rc, w')"
  have eq: "(if n = 0 then [] else take (nat n) l) = take (nat n) l" for l :: "gengo_host_module_func_def_t list" by simp
  show ?thesis
    using * unfolding engine_register_module_def eq
    by (auto simp: Let_def not_le not_less simp del: register_funcs.simps intro!: updates_put intro: register_keeps
        split: option.splits if_splits prod.splits)
qed


lemma idle_active [simp]: "idle w \<Longrightarrow> av_engine (ew_view w) = None"
  by (simp add: idle_def no_view_def)

lemma pop_put:
  assumes "idle w" "getEngine h w = Some e0" "keeps (ew_env w) e0 e"
  shows "updates h w (popEngineState None (put_engine h e (engine_write out (w\<lparr>ew_view := v\<rparr>))))"
    and "updates h w (popEngineState None (put_engine h e (w\<lparr>ew_view := v\<rparr>)))"
proof -
  obtain x y where wr: "engine_write out (w\<lparr>ew_view := v\<rparr>) = w\<lparr>ew_view := v, ew_output := x, ew_fd := y\<rparr>"
    using engine_write_cases [of out "w\<lparr>ew_view := v\<rparr>"] by auto
  have v: "ew_view w = no_view" using assms(1) by (simp add: idle_def)
  have "popEngineState None (put_engine h e (engine_write out (w\<lparr>ew_view := v\<rparr>))) = (put_engine h e w)\<lparr>ew_output := x, ew_fd := y\<rparr>"
    unfolding wr using v by (cases w) (simp add: put_engine_def popEngineState_def)
  then show "updates h w (popEngineState None (put_engine h e (engine_write out (w\<lparr>ew_view := v\<rparr>))))"
    using assms(2,3) unfolding updates_def by blast
  have "popEngineState None (put_engine h e (w\<lparr>ew_view := v\<rparr>)) = put_engine h e w"
    using v by (cases w) (simp add: put_engine_def popEngineState_def)
  then show "updates h w (popEngineState None (put_engine h e (w\<lparr>ew_view := v\<rparr>)))"
    using updates_put [OF assms(2,3)] by simp
qed

lemma pop_only: "idle w \<Longrightarrow> popEngineState None (w\<lparr>ew_view := v\<rparr>) = w"
  by (cases w) (simp add: popEngineState_def idle_def)

lemma reset_updates: "idle w \<Longrightarrow> updates h w (engine_reset h w)"
  by (auto simp: engine_reset_def pushEngineState_def Let_def intro!: pop_put(2) keeps_trans [OF keeps_errors(2) keeps_simple(1)] split: option.split)

lemma return_value_keeps: "return_value env h v m e = Some (rc, wr, m', e') \<Longrightarrow> keeps env e e'"
  by (auto simp: return_value_def intro: keeps_rt_errors split: option.splits sum.splits)

lemma call_updates:
  assumes "idle w" "engine_call h nm args argc m w = Some (rc, out, m', w')"
  shows "updates h w w'"
proof (cases "getEngine h w")
  case None
  then show ?thesis using assms(2) by (simp add: engine_call_def)
next
  case (Some e0)
  note k = keeps_setup [of "ew_env w" e0]
  show ?thesis
    using assms(2) Some
    by (auto simp: engine_call_def Let_def pushEngineState_def assms(1) split_beta
        intro!: pop_put [OF assms(1)] intro: keeps_trans [OF k] keeps_trans [OF k keeps_rt_errors(4)]
          keeps_trans [OF k keeps_trans [OF keeps_simple(1) return_value_keeps]]
        split: if_splits option.splits sum.splits)
qed

lemma get_global_updates: "idle w \<Longrightarrow> engine_get_global h nm b m w = Some (rc, out, m', w') \<Longrightarrow> updates h w w'"
  by (auto simp: engine_get_global_def Let_def pushEngineState_def pop_only intro!: pop_put(2)
      split: if_splits option.splits sum.splits)

lemma list_globals_updates: "idle w \<Longrightarrow> engine_list_globals h b m w = Some (rc, calls, m', w') \<Longrightarrow> updates h w w'"
  by (auto simp: engine_list_globals_def Let_def pushEngineState_def pop_only intro!: pop_put(2)
      split: if_splits option.splits sum.splits)


section \<open>Creating and destroying\<close>

lemma free_slot_Some: "free_slot ss = Some i \<Longrightarrow> i < length ss \<and> ss ! i = None"
  by (induction ss arbitrary: i) (auto split: option.splits)

lemma free_slot_None: "free_slot ss = None \<longleftrightarrow> None \<notin> set ss"
  by (induction ss) (auto split: option.splits)

lemma initScalars_inv: "c = base_config a b \<Longrightarrow> engine_inv env (initScalars c r)"
  by (simp add: engine_inv_def initScalars_def base_config_def sources_ok_def modules_ok_def call_ids_def config_synced_def
      sourceProviderFromLoader_def abi_consts)

lemma initInPlace_inv:
  "initInPlaceDefault env = Some e \<Longrightarrow> engine_inv env e" "initInPlaceWithConfig env ic = Some e \<Longrightarrow> engine_inv env e"
  by (auto simp: initInPlaceDefault_def initInPlaceWithConfig_def Let_def initScalars_inv)

lemma getEngine_slot: "i < MaxEngines \<Longrightarrow> getEngine (int i + 1) w = ew_slots w ! i"
  by (simp add: getEngine_def MaxEngines_def)

lemma list_ex_update: "i < length ss \<Longrightarrow> list_ex (\<lambda>s. s \<noteq> None) (ss[i := Some e])"
  by (auto simp: list_ex_iff intro: set_update_memI)

lemma claim_slot_ok:
  assumes "world_ok w" and "\<And>e'. e = Some e' \<Longrightarrow> engine_inv (ew_env w) e'" and "length (bytes_of msg) \<le> MaxErrorLen"
  shows "world_ok (snd (claim_slot msg e w))"
proof (cases "free_slot (ew_slots w)")
  case None
  then show ?thesis using assms(1) by (simp add: claim_slot_def)
next
  case (Some i)
  note i = free_slot_Some [OF Some]
  show ?thesis
  proof (cases e)
    case None
    then show ?thesis using assms(1) Some by (simp add: claim_slot_def world_ok_def idle_def setInitError_def)
  next
    case (Some e')
    have inv: "engine_inv (ew_env w) f" if "Some f \<in> set ((ew_slots w)[i := Some e'])" for f
    proof -
      from that consider "f = e'" | "Some f \<in> set (ew_slots w)"
        using set_update_subset_insert [of "ew_slots w" i "Some e'"] by auto
      then show ?thesis using assms(1) assms(2) [OF Some] by cases (auto simp: world_ok_def)
    qed
    have "snd (claim_slot msg e w) = w\<lparr>ew_slots := (ew_slots w)[i := Some e'], ew_overrides := True\<rparr>"
      using \<open>free_slot (ew_slots w) = Some i\<close> Some by (simp add: claim_slot_def)
    then show ?thesis using assms(1) i inv list_ex_update [of i "ew_slots w" e'] by (simp add: world_ok_def idle_def)
  qed
qed

lemma init_error_ok: "world_ok w \<Longrightarrow> length b \<le> MaxErrorLen \<Longrightarrow> world_ok (w\<lparr>ew_init_error := b\<rparr>)"
  by (simp add: world_ok_def idle_def)

lemma engine_init_ok: "world_ok w \<Longrightarrow> world_ok (snd (engine_init w))"
  unfolding engine_init_def
  by (rule claim_slot_ok) (auto simp: init_error_ok abi_consts dest: initInPlace_inv)

lemma length_exceeds: "length (exceeds nm r c) \<le> MaxErrorLen"
  unfolding exceeds_def by (rule length_bufPrint)

lemma engine_init_with_config_cases:
  obtains b where "engine_init_with_config c w = (-3, w\<lparr>ew_init_error := b\<rparr>)" "length b \<le> MaxErrorLen"
  | ic where "c = Some ic" "engine_init_with_config c w = claim_slot ''engine_init_with_config: allocation failed''
      (initInPlaceWithConfig (ew_env w) ic) (w\<lparr>ew_init_error := []\<rparr>)"
proof (cases c)
  case None
  then show thesis by (intro that(1)) (simp add: engine_init_with_config_def setInitError_def, simp)
next
  case (Some ic)
  have "(\<exists>nm r t. engine_init_with_config c w = (-3, w\<lparr>ew_init_error := exceeds nm r t\<rparr>))
      \<or> engine_init_with_config c w = claim_slot ''engine_init_with_config: allocation failed'' (initInPlaceWithConfig (ew_env w) ic)
          (w\<lparr>ew_init_error := []\<rparr>)"
    unfolding Some engine_init_with_config_def validateCeiling_def Let_def by simp blast
  then show thesis using that Some length_exceeds by metis
qed


lemma engine_init_with_config_ok: "world_ok w \<Longrightarrow> world_ok (snd (engine_init_with_config c w))"
proof (rule engine_init_with_config_cases [of c w])
  fix ic
  assume "world_ok w" and eq: "engine_init_with_config c w = claim_slot ''engine_init_with_config: allocation failed''
      (initInPlaceWithConfig (ew_env w) ic) (w\<lparr>ew_init_error := []\<rparr>)"
  then show ?thesis unfolding eq
    by (intro claim_slot_ok) (auto simp: init_error_ok abi_consts dest: initInPlace_inv)
qed (simp add: init_error_ok)

lemma engine_destroy_ok:
  assumes "world_ok w" shows "world_ok (engine_destroy h w)"
proof (cases "getEngine h w")
  case None
  then show ?thesis using assms by (simp add: engine_destroy_def)
next
  case (Some e)
  have "engine_inv (ew_env w) f" if "Some f \<in> set ((ew_slots w)[nat (h - 1) := None])" for f
    using that assms set_update_subset_insert [of "ew_slots w" "nat (h - 1)" None] by (auto simp: world_ok_def)
  moreover have "ew_overrides w"
    using getEngine_in [OF Some] assms by (auto simp: world_ok_def idle_def list_ex_iff)
  ultimately show ?thesis using assms Some by (auto simp: engine_destroy_def Let_def world_ok_def idle_def)
qed

lemma updates_ok:
  assumes "world_ok w" "updates h w w'" shows "world_ok w'"
  using assms(2) unfolding updates_def
proof (elim disjE exE conjE)
  fix e e' x y
  assume e: "getEngine h w = Some e" and k: "keeps (ew_env w) e e'" and w': "w' = (put_engine h e' w)\<lparr>ew_output := x, ew_fd := y\<rparr>"
  have len: "length (ew_slots w) = MaxEngines" using assms(1) by (simp add: world_ok_def idle_def)
  have "Some e \<in> set (ew_slots w)" by (rule getEngine_in [OF e len])
  then have "engine_inv (ew_env w) e'" and act: "ew_overrides w" using assms(1) k by (auto simp: world_ok_def keeps_def list_ex_iff)
  moreover have "nat (h - 1) < length (ew_slots w)" using getEngine_valid [OF e] len by (auto simp: valid_def MaxEngines_def)
  moreover have "engine_inv (ew_env w) f" if "Some f \<in> set ((ew_slots w)[nat (h - 1) := Some e'])" for f
    using that assms(1) calculation(1) set_update_subset_insert [of "ew_slots w" "nat (h - 1)" "Some e'"] by (auto simp: world_ok_def)
  ultimately show ?thesis
    using assms(1) list_ex_update [of "nat (h - 1)" "ew_slots w" e'] by (simp add: w' put_engine_def world_ok_def idle_def)
qed (use assms in simp)

section \<open>All exported functions\<close>

datatype abi_op =
    OInit | OInitWithConfig "gengo_instance_config_t option" | ODestroy int
  | ORegisterModule int cslice "gengo_host_module_func_def_t list option" int
  | ORun int cslice | ORunPath int cslice cslice | OBegin int cslice | OContinue int | OReset int
  | OCall int cslice "gengo_value_wire_t list option" int cmem
  | OAddSource int cslice cslice | OSetImportLoader int "import_loader option" | OSetHostCallFn int bool
  | OSetWriteFn int bool | OSetReadFn int bool | OSetTraceFn int bool | OSetNetHandlers int bool | OSetHttpHandler int bool
  | OMountDir int cslice cslice | OMountDriver int cslice "nat option"
  | OGetGlobal int cslice bool cmem | OListGlobals int bool cmem
  | OPolicyAdd int int cslice int | OPolicyClear int | OListenAdd int int cslice int | OListenClear int
  | OLoadBundle int cslice cslice | OLoadBundleDir int cslice cslice | OClearBundles int

text \<open>\<open>exec_op\<close> gives the state after the call, \<open>None\<close> where the call panics.\<close>

fun exec_op :: "abi_op \<Rightarrow> 'r world \<Rightarrow> 'r world option" where
  "exec_op OInit w = Some (snd (engine_init w))"
| "exec_op (OInitWithConfig c) w = Some (snd (engine_init_with_config c w))"
| "exec_op (ODestroy h) w = Some (engine_destroy h w)"
| "exec_op (ORegisterModule h nm fs n) w = map_option snd (engine_register_module h nm fs n w)"
| "exec_op (ORun h s) w = Some (snd (engine_run h s w))"
| "exec_op (ORunPath h s p) w = Some (snd (engine_run_path h s p w))"
| "exec_op (OBegin h s) w = Some (snd (engine_begin h s w))"
| "exec_op (OContinue h) w = Some (snd (engine_continue h w))"
| "exec_op (OReset h) w = Some (engine_reset h w)"
| "exec_op (OCall h nm args argc m) w = map_option (\<lambda>(rc, out, m', w'). w') (engine_call h nm args argc m w)"
| "exec_op (OAddSource h p s) w = Some (snd (engine_add_source h p s w))"
| "exec_op (OSetImportLoader h cb) w = Some (snd (engine_set_import_loader h cb w))"
| "exec_op (OSetHostCallFn h c) w = Some (snd (engine_set_host_call_fn h c w))"
| "exec_op (OSetWriteFn h c) w = Some (engine_set_write_fn h c w)"
| "exec_op (OSetReadFn h c) w = Some (engine_set_read_fn h c w)"
| "exec_op (OSetTraceFn h c) w = Some (engine_set_trace_fn h c w)"
| "exec_op (OSetNetHandlers h c) w = Some (engine_set_net_handlers h c w)"
| "exec_op (OSetHttpHandler h c) w = Some (engine_set_http_handler h c w)"
| "exec_op (OMountDir h nm p) w = Some (snd (engine_mount_dir h nm p w))"
| "exec_op (OMountDriver h nm d) w = Some (snd (engine_mount_driver h nm d w))"
| "exec_op (OGetGlobal h nm b m) w = map_option (\<lambda>(rc, out, m', w'). w') (engine_get_global h nm b m w)"
| "exec_op (OListGlobals h b m) w = map_option (\<lambda>(rc, calls, m', w'). w') (engine_list_globals h b m w)"
| "exec_op (OPolicyAdd h a p q) w = Some (snd (engine_net_policy_add h a p q w))"
| "exec_op (OPolicyClear h) w = Some (engine_net_policy_clear h w)"
| "exec_op (OListenAdd h a p q) w = Some (snd (engine_net_listen_policy_add h a p q w))"
| "exec_op (OListenClear h) w = Some (engine_net_listen_policy_clear h w)"
| "exec_op (OLoadBundle h nm z) w = Some (snd (engine_load_bundle h nm z w))"
| "exec_op (OLoadBundleDir h nm d) w = Some (snd (engine_load_bundle_dir h nm d w))"
| "exec_op (OClearBundles h) w = Some (engine_clear_bundles h w)"

text \<open>The handle a call works on; creating an engine works on none.\<close>

fun op_handle :: "abi_op \<Rightarrow> int option" where
  "op_handle OInit = None" | "op_handle (OInitWithConfig c) = None" | "op_handle (ODestroy h) = Some h"
| "op_handle (ORegisterModule h nm fs n) = Some h" | "op_handle (ORun h s) = Some h" | "op_handle (ORunPath h s p) = Some h"
| "op_handle (OBegin h s) = Some h" | "op_handle (OContinue h) = Some h" | "op_handle (OReset h) = Some h"
| "op_handle (OCall h nm args argc m) = Some h" | "op_handle (OAddSource h p s) = Some h"
| "op_handle (OSetImportLoader h cb) = Some h" | "op_handle (OSetHostCallFn h c) = Some h" | "op_handle (OSetWriteFn h c) = Some h"
| "op_handle (OSetReadFn h c) = Some h" | "op_handle (OSetTraceFn h c) = Some h" | "op_handle (OSetNetHandlers h c) = Some h"
| "op_handle (OSetHttpHandler h c) = Some h" | "op_handle (OMountDir h nm p) = Some h" | "op_handle (OMountDriver h nm d) = Some h"
| "op_handle (OGetGlobal h nm b m) = Some h" | "op_handle (OListGlobals h b m) = Some h" | "op_handle (OPolicyAdd h a p q) = Some h"
| "op_handle (OPolicyClear h) = Some h" | "op_handle (OListenAdd h a p q) = Some h" | "op_handle (OListenClear h) = Some h"
| "op_handle (OLoadBundle h nm z) = Some h" | "op_handle (OLoadBundleDir h nm d) = Some h" | "op_handle (OClearBundles h) = Some h"

lemma exec_op_updates:
  assumes "world_ok w" "exec_op op w = Some w'" "op_handle op = Some h" "\<And>h. op \<noteq> ODestroy h"
  shows "updates h w w'"
proof -
  have i: "idle w" and env: "env_ok (ew_env w)" and ip: "ip_sixteen (en_ip6 (ew_env w))" using assms(1) by (auto simp: world_ok_def env_ok_def)
  note calls = register_updates run_calls_update [OF i] reset_updates [OF i] call_updates [OF i] source_calls_update setters_update
    mount_calls_update get_global_updates [OF i] list_globals_updates [OF i] policy_calls_update [OF ip] load_calls_update [OF env]
  show ?thesis using assms(2-4) by (cases op) (auto intro: calls)
qed


lemma exec_op_ok:
  assumes "world_ok w" "exec_op op w = Some w'"
  shows "world_ok w'"
proof (cases "(\<exists>h. op = ODestroy h) \<or> op_handle op = None")
  case True
  then show ?thesis
    using assms by (cases op) (auto simp: engine_init_ok engine_init_with_config_ok engine_destroy_ok)
next
  case False
  then show ?thesis using updates_ok [OF assms(1)] exec_op_updates [OF assms] by auto
qed

subsection \<open>What a call leaves alone\<close>

lemma updates_other: "updates h w w' \<Longrightarrow> h' \<noteq> h \<Longrightarrow> getEngine h' w' = getEngine h' w"
  by (auto simp: updates_def getEngine_put_other dest: getEngine_valid)

lemma updates_none: "updates h w w' \<Longrightarrow> getEngine h w = None \<Longrightarrow> w' = w"
  by (auto simp: updates_def)

lemma updates_same:
  assumes "updates h w w'" "getEngine h w = Some e" "length (ew_slots w) = MaxEngines"
  obtains e' where "getEngine h w' = Some e'" "keeps (ew_env w) e e'"
  using assms by (auto simp: updates_def)

lemma destroy_other: "h' \<noteq> h \<Longrightarrow> getEngine h' (engine_destroy h w) = getEngine h' w"
  by (auto simp: engine_destroy_def Let_def getEngine_def nth_list_update split: option.splits if_splits)

lemma destroy_same: "length (ew_slots w) = MaxEngines \<Longrightarrow> getEngine h (engine_destroy h w) = None"
  by (auto simp: engine_destroy_def Let_def getEngine_def MaxEngines_def split: option.splits)

lemma destroy_none: "getEngine h w = None \<Longrightarrow> engine_destroy h w = w"
  by (simp add: engine_destroy_def)

lemma claim_slot_keeps:
  assumes "getEngine h w = Some e" "length (ew_slots w) = MaxEngines"
  shows "getEngine h (snd (claim_slot msg e0 w)) = Some e"
  using assms free_slot_Some [of "ew_slots w"]
  by (auto simp: claim_slot_def setInitError_def getEngine_def nth_list_update split: option.splits if_splits)

lemma init_keeps:
  assumes "getEngine h w = Some e" "length (ew_slots w) = MaxEngines"
  shows "getEngine h (snd (engine_init w)) = Some e" "getEngine h (snd (engine_init_with_config c w)) = Some e"
proof -
  show "getEngine h (snd (engine_init w)) = Some e"
    unfolding engine_init_def by (rule claim_slot_keeps) (simp_all add: assms)
  show "getEngine h (snd (engine_init_with_config c w)) = Some e"
    by (rule engine_init_with_config_cases [of c w]) (simp_all add: assms claim_slot_keeps)
qed

fun exec_ops :: "abi_op list \<Rightarrow> 'r world \<Rightarrow> 'r world option" where
  "exec_ops [] w = Some w"
| "exec_ops (op # ops) w = Option.bind (exec_op op w) (exec_ops ops)"

lemma exec_op_alive:
  assumes "world_ok w" "exec_op op w = Some w'" "getEngine h w = Some e" "op \<noteq> ODestroy h"
  shows "\<exists>e'. getEngine h w' = Some e' \<and> rc_max_ops (e_config e') = rc_max_ops (e_config e)
    \<and> rc_allow_io (e_config e') = rc_allow_io (e_config e)"
proof -
  have len: "length (ew_slots w) = MaxEngines" using assms(1) by (simp add: world_ok_def idle_def)
  consider (other) "op_handle op = None" | (gone) k where "op = ODestroy k" "k \<noteq> h"
    | (call) k where "op_handle op = Some k" "\<And>k. op \<noteq> ODestroy k"
    using assms(4) by (cases "op_handle op") auto
  then show ?thesis
  proof cases
    case other
    then show ?thesis using assms(2,3) init_keeps [OF assms(3) len] by (cases op) auto
  next
    case gone
    then show ?thesis using assms(2,3) destroy_other [of h k w] by auto
  next
    case call
    note u = exec_op_updates [OF assms(1,2) call]
    show ?thesis
    proof (cases "k = h")
      case True
      then show ?thesis using updates_same [OF _ assms(3) len] u by (auto simp: keeps_def)
    next
      case False
      then show ?thesis using updates_other [OF u] assms(3) by auto
    qed
  qed
qed

section \<open>Loading a bundle\<close>

lemma wasmSlice_slice_of [simp]: "length b < 2 ^ 31 \<Longrightarrow> wasmSlice (slice_of b) = b"
  by (simp add: wasmSlice_def slice_of_def i32_of_nat_small)

lemma snd_slice_of: "length b < 2 ^ 31 \<Longrightarrow> snd (slice_of b) = int (length b)"
  by (simp add: slice_of_def i32_of_nat_small)

lemma endsWith_split: "endsWith xs gengo_ext \<Longrightarrow> xs = take (length xs - 6) xs @ gengo_ext"
  by (metis append_take_drop_id endsWith_def length_gengo_ext)

lemma find_entry:
  assumes "distinct (map tz_name es)" "x \<in> set es" "\<forall>y \<in> set es. endsWith (tz_name y) gengo_ext"
  shows "find (\<lambda>f. pf_path f = take (length (tz_name x) - 6) (tz_name x)) (map entry_file es) = Some (entry_file x)"
  using assms
proof (induction es)
  case (Cons y es)
  have "take (length (tz_name y) - 6) (tz_name y) = take (length (tz_name x) - 6) (tz_name x) \<longleftrightarrow> tz_name y = tz_name x"
    using Cons.prems endsWith_split by (metis list.set_intros(1))
  then show ?case using Cons by (auto simp: entry_file_def)
qed simp

lemma resolve_new_package:
  assumes "47 \<notin> set name" "\<forall>p \<in> set reg. pk_name p \<noteq> name" "distinct (map tz_name es)" "x \<in> set es"
    and "\<forall>y \<in> set es. endsWith (tz_name y) gengo_ext \<and> 6 < length (tz_name y)"
  shows "resolve_import (reg @ [\<lparr>pk_name = name, pk_files = map entry_file es\<rparr>]) (name @ 47 # tz_name x) = Some (tz_data x)"
proof -
  define p where "p = take (length (tz_name x) - 6) (tz_name x)"
  have x: "tz_name x = p @ gengo_ext" "p \<noteq> []" using assms(4,5) endsWith_split [of "tz_name x"] by (auto simp: p_def)
  have e: "endsWith ((name @ 47 # p) @ gengo_ext) gengo_ext" by (simp add: endsWith_def)
  have "find (\<lambda>p. pk_name p = name) reg = None"
    using assms(2) by (auto simp: find_None_iff)
  then have f: "find (\<lambda>p. pk_name p = name) (reg @ [q]) = (if pk_name q = name then Some q else None)" for q
    by (induction reg) (auto split: if_splits)
  have "find (\<lambda>f. pf_path f = p) (map entry_file es) = Some (entry_file x)"
    using find_entry [OF assms(3,4)] assms(5) by (simp add: p_def)
  then show ?thesis
    using e x by (simp add: resolve_import_def Let_def indexOfScalar_append [OF assms(1)] f entry_file_def)
qed

section \<open>A small environment\<close>

text \<open>A runtime without state: a script that is not empty fails, and a function returns the number of its arguments.\<close>

definition demo_error :: vm_error where
  "demo_error = \<lparr>ve_kind = bytes_of ''Boom'', ve_msg = bytes_of ''no'', ve_line = 3, ve_col = 7, ve_path = []\<rparr>"

definition demo_vm :: "unit interp" where
  "demo_vm = \<lparr>vm_init = \<lambda>c ic. Some (), vm_run = \<lambda>c p src path r. (if src = [] then RunOk else RuntimeError demo_error, [], r),
     vm_begin = \<lambda>c p src r. (Completed, [], r), vm_continue = \<lambda>c r. (ExecRuntimeError demo_error, [], r), vm_sleep_ms = \<lambda>r. 0,
     vm_call = \<lambda>c nm vs m r. (Inr (VInt (of_nat (length vs))), [], m, r), vm_reset = \<lambda>r. r, vm_compile_path = \<lambda>r. [],
     vm_heap = \<lambda>r. (4096, 800, 0), vm_set_bump = \<lambda>n r. r, vm_leak = \<lambda>v r. r, vm_room = \<lambda>r n. True, vm_globals = \<lambda>r. []\<rparr>"

definition demo_ceiling :: gengo_instance_config_t where
  "demo_ceiling = \<lparr>heap_size_bytes = 1024, max_objects = 64, max_stack = 64, max_frames = 16, max_defers = 8, max_ops = -1, allow_io = False\<rparr>"

definition demo_env :: "unit engine_env" where
  "demo_env = \<lparr>en_vm = demo_vm, en_ceiling = demo_ceiling, en_version = [49], en_max_input = 65536, en_ip6 = \<lambda>s. None, en_inflate = \<lambda>c n. None,
     en_alloc_ok = \<lambda>n. True, en_usize_max = 2 ^ 64 - 1, en_walk = \<lambda>d. Inr [], en_scratch = \<lambda>h. 512, en_elems = \<lambda>h. 8192, en_dupe = \<lambda>b. None\<rparr>"

definition demo_engine :: "unit engine" where
  "demo_engine = initScalars (base_config False None) ()"

definition demo_world :: "unit world" where
  "demo_world = snd (engine_init (boot demo_env))"

lemma demo_env_ok: "env_ok demo_env"
  by (simp add: env_ok_def interp_ok_def demo_env_def demo_vm_def ip_sixteen_def)

lemma free_slot_replicate: "0 < n \<Longrightarrow> free_slot (replicate n None) = Some 0"
  by (cases n) simp_all

lemma demo_init: "engine_init (boot demo_env) = (1, demo_world)"
  "demo_world = (boot demo_env)\<lparr>ew_slots := (replicate MaxEngines None)[0 := Some demo_engine], ew_overrides := True\<rparr>"
proof -
  have "engine_init (boot demo_env) = (1, (boot demo_env)\<lparr>ew_slots := (replicate MaxEngines None)[0 := Some demo_engine], ew_overrides := True\<rparr>)"
    by (simp add: engine_init_def claim_slot_def boot_def free_slot_replicate MaxEngines_def initInPlaceDefault_def demo_env_def demo_vm_def
        demo_engine_def)
  then show "engine_init (boot demo_env) = (1, demo_world)"
    "demo_world = (boot demo_env)\<lparr>ew_slots := (replicate MaxEngines None)[0 := Some demo_engine], ew_overrides := True\<rparr>"
    by (simp_all add: demo_world_def)
qed

lemma boot_ok: "env_ok env \<Longrightarrow> world_ok (boot env)"
  by (simp add: boot_def world_ok_def idle_def list_ex_iff)

lemma demo_world_ok: "world_ok demo_world"
  unfolding demo_world_def by (intro engine_init_ok boot_ok demo_env_ok)

lemma demo_engines: "getEngine 1 demo_world = Some demo_engine" "getEngine 2 demo_world = None" "ew_env demo_world = demo_env"
  by (simp_all add: demo_init(2) boot_def getEngine_def MaxEngines_def nth_list_update)

section \<open>Claims\<close>

subsection \<open>The invariant\<close>

inductive reachable :: "'r engine_env \<Rightarrow> 'r world \<Rightarrow> bool" for env where
  start: "reachable env (boot env)"
| step: "reachable env w \<Longrightarrow> exec_op op w = Some w' \<Longrightarrow> reachable env w'"




subsection \<open>Handles\<close>

lemma claim_slot_fresh:
  assumes "claim_slot msg e0 w = (h, w')" "0 < h" "length (ew_slots w) = MaxEngines"
  obtains i e where "free_slot (ew_slots w) = Some i" "i < MaxEngines" "h = int i + 1" "e0 = Some e" "ew_slots w ! i = None"
    "w' = w\<lparr>ew_slots := (ew_slots w)[i := Some e], ew_overrides := True\<rparr>"
  using assms free_slot_Some [of "ew_slots w"] by (auto simp: claim_slot_def split: option.splits)

text \<open>
  C24. A positive result of either creation function is a handle that was not in use; it now names a new engine with no
  sources, modules, mounts, bundles or network rules and with the budget of the given configuration, and no other handle
  changes. Destroying it makes the handle invalid again, restores every other handle, and destroying it twice is the same
  as once.
\<close>

theorem handle_lifecycle:
  assumes "world_ok w"
    and "engine_init w = (h, w') \<and> ops = None
      \<or> engine_init_with_config (Some c) w = (h, w') \<and> ops = (if max_ops c < 0 then None else Some (nat (max_ops c)))"
    and "0 < h"
  shows "getEngine h w = None \<and> (\<exists>e. getEngine h w' = Some e \<and> rc_max_ops (e_config e) = ops \<and> e_sources e = [] \<and> e_modules e = [] \<and> e_packages e = []
      \<and> e_dial e = [] \<and> e_listen e = [] \<and> e_mounts e = fs_empty \<and> e_loader e = None)
    \<and> (\<forall>k. k \<noteq> h \<longrightarrow> getEngine k w' = getEngine k w \<and> getEngine k (engine_destroy h w') = getEngine k w)
    \<and> getEngine h (engine_destroy h w') = None \<and> engine_destroy h (engine_destroy h w') = engine_destroy h w'" (is "?A \<and> ?B \<and> ?C \<and> ?D")
proof -
  have len: "length (ew_slots w) = MaxEngines" using assms(1) by (simp add: world_ok_def idle_def)
  have cs: "\<exists>msg e0. claim_slot msg e0 (w\<lparr>ew_init_error := []\<rparr>) = (h, w')
      \<and> (\<forall>e. e0 = Some e \<longrightarrow> (\<exists>a r. e = initScalars (base_config a ops) r))"
    using assms(2)
  proof (elim disjE conjE)
    assume "engine_init w = (h, w')" "ops = None"
    then show ?thesis unfolding engine_init_def
      by (intro exI [of _ "''engine_init: allocation failed''"] exI [of _ "initInPlaceDefault (ew_env w)"])
        (auto simp: initInPlaceDefault_def)
  next
    assume *: "engine_init_with_config (Some c) w = (h, w')" and ops: "ops = (if max_ops c < 0 then None else Some (nat (max_ops c)))"
    show ?thesis
    proof (rule engine_init_with_config_cases [of "Some c" w])
      fix ic
      assume "Some c = Some ic" "engine_init_with_config (Some c) w = claim_slot ''engine_init_with_config: allocation failed''
        (initInPlaceWithConfig (ew_env w) ic) (w\<lparr>ew_init_error := []\<rparr>)"
      then show ?thesis using * ops
        by (intro exI [of _ "''engine_init_with_config: allocation failed''"] exI [of _ "initInPlaceWithConfig (ew_env w) ic"])
          (auto simp: initInPlaceWithConfig_def Let_def)
    qed (use * assms(3) in simp)
  qed
  then obtain msg e0 where cl: "claim_slot msg e0 (w\<lparr>ew_init_error := []\<rparr>) = (h, w')"
    and e0: "\<forall>e. e0 = Some e \<longrightarrow> (\<exists>a r. e = initScalars (base_config a ops) r)" by blast
  obtain i e where i: "i < MaxEngines" "h = int i + 1" "e0 = Some e" "ew_slots w ! i = None"
    and w': "w' = w\<lparr>ew_init_error := [], ew_slots := (ew_slots w)[i := Some e], ew_overrides := True\<rparr>"
    by (rule claim_slot_fresh [OF cl assms(3)]) (use len in auto)
  have len': "length (ew_slots w') = MaxEngines" by (simp add: w' len)
  have ge: "getEngine h w' = Some e" unfolding i(2) getEngine_slot [OF i(1)] by (simp add: w' len i)
  have ?A unfolding i(2) getEngine_slot [OF i(1)] by (rule i(4))
  moreover have ?B using ge e0 i(3) by (auto simp: initScalars_def base_config_def)
  moreover have "getEngine k w' = getEngine k w" if "k \<noteq> h" for k
    using that i by (auto simp: getEngine_def w' nth_list_update)
  then have ?C by (simp add: destroy_other)
  moreover have ?D using destroy_same [OF len', of h] destroy_none by blast
  ultimately show ?thesis by blast
qed

theorem handle_lifecycle_witness: "getEngine 1 (boot demo_env) = None \<and> getEngine 1 (engine_destroy 1 demo_world) = None"
  using handle_lifecycle [of "boot demo_env" 1 demo_world None demo_ceiling] by (simp add: boot_ok demo_env_ok demo_init(1))

subsection \<open>Isolation and budgets\<close>

text \<open>
  C2. A call on one handle never changes another engine: neither its configuration, its error text, its mounts, policies,
  bundles nor its runtime. A call on a handle that names no engine changes nothing at all.
\<close>

theorem calls_are_isolated:
  assumes "world_ok w" "exec_op op w = Some w'" "op_handle op = Some h"
  shows "(\<forall>k. k \<noteq> h \<longrightarrow> getEngine k w' = getEngine k w) \<and> (getEngine h w = None \<longrightarrow> w' = w)"
proof (cases "\<exists>k. op = ODestroy k")
  case True
  then have "w' = engine_destroy h w" using assms(2,3) by auto
  then show ?thesis using destroy_other destroy_none by metis
next
  case False
  then have "updates h w w'" using exec_op_updates [OF assms] by blast
  then show ?thesis using updates_other updates_none by blast
qed

theorem calls_are_isolated_witness: "getEngine 1 (snd (engine_run 2 (slice_of []) demo_world)) = getEngine 1 demo_world \<and> snd (engine_run 2 (slice_of []) demo_world) = demo_world"
  using calls_are_isolated [of demo_world "ORun 2 (slice_of [])" "snd (engine_run 2 (slice_of []) demo_world)" 2]
  by (simp add: demo_world_ok demo_engines)

text \<open>
  C3. The instruction budget and the I/O permission an engine was created with hold for its whole life: no sequence of calls
  that does not destroy the engine changes them, and the handle stays valid throughout. In particular the configuration
  that every run, source, loader and bundle call writes keeps the budget.
\<close>

theorem budget_for_life:
  assumes "world_ok w" "getEngine h w = Some e" "ODestroy h \<notin> set ops" "exec_ops ops w = Some w'"
  shows "\<exists>e'. getEngine h w' = Some e' \<and> rc_max_ops (e_config e') = rc_max_ops (e_config e)
    \<and> rc_allow_io (e_config e') = rc_allow_io (e_config e)"
  using assms
proof (induction ops arbitrary: w e)
  case (Cons op ops)
  from Cons.prems(4) obtain w1 where w1: "exec_op op w = Some w1" "exec_ops ops w1 = Some w'" by (auto simp: bind_eq_Some_conv)
  obtain e1 where e1: "getEngine h w1 = Some e1" "rc_max_ops (e_config e1) = rc_max_ops (e_config e)"
    "rc_allow_io (e_config e1) = rc_allow_io (e_config e)"
    using exec_op_alive [OF Cons.prems(1) w1(1) Cons.prems(2)] Cons.prems(3) by auto
  show ?case using Cons.IH [OF exec_op_ok [OF Cons.prems(1) w1(1)] e1(1) _ w1(2)] Cons.prems(3) e1(2,3) by auto
qed simp

theorem budget_for_life_witness:
  "\<exists>e'. getEngine 1 (snd (engine_run 1 (slice_of []) demo_world)) = Some e' \<and> rc_max_ops (e_config e') = None \<and> \<not> rc_allow_io (e_config e')"
  using budget_for_life [of demo_world 1 demo_engine "[ORun 1 (slice_of [])]" "snd (engine_run 1 (slice_of []) demo_world)"]
  by (simp add: demo_world_ok demo_engines demo_engine_def initScalars_def base_config_def)

subsection \<open>Error texts\<close>

lemma in_engine_result:
  assumes "idle w" "getEngine h w = Some e0" "exec (caps_of e) (e_rt e) = (res, out, r)" "code res (e\<lparr>e_rt := r\<rparr>) = (rc, e')"
  shows "fst (in_engine h e exec code w) = rc" "getEngine h (snd (in_engine h e exec code w)) = Some e'"
proof -
  show "fst (in_engine h e exec code w) = rc" by (simp add: in_engine_def assms pushEngineState_def)
  have "length (ew_slots w) = MaxEngines" using assms(1) by (simp add: idle_def)
  then show "getEngine h (snd (in_engine h e exec code w)) = Some e'"
    using assms by (simp add: in_engine_def pushEngineState_def popEngineState_def engine_write_def getEngine_put [of h "w\<lparr>ew_view := _\<rparr>" e0])
qed

text \<open>
  C25. When a script panics, \<open>engine_run\<close> answers -2 and \<open>engine_last_error\<close> then gives exactly the text
  \<open>panic: kind: message\<close> (without the kind when memory ran out), cut to the caller's buffer, with its full length as the
  result and the position of the panic beside it; but a text of more than 512 bytes is lost and the caller gets the empty
  one.
\<close>

theorem panic_text_reported:
  assumes "world_ok w" "getEngine h w = Some e" "0 \<le> snd src"
    and "e1 = setupHostModules (ew_env w) e"
    and "vm_run (en_vm (ew_env w)) (caps_of e1) (defaultSourceProvider (e_config e1)) (wasmSlice src) [] (e_rt e) = (RuntimeError er, out, r)"
    and "t = (if length (panic_text er) \<le> 512 then panic_text er else [])"
  shows "fst (engine_run h src w) = -2 \<and> engine_last_error h n (snd (engine_run h src w)) = (int (length t), take (nat n) t)
    \<and> engine_last_error_line h (snd (engine_run h src w)) = int (ve_line er) \<and> engine_last_error_col h (snd (engine_run h src w)) = int (ve_col er)"
proof -
  let ?ex = "\<lambda>c. vm_run (en_vm (ew_env w)) c (defaultSourceProvider (rp_config c)) (wasmSlice src) []"
  have run: "engine_run h src w = in_engine h e1 ?ex (run_code (ew_env w)) w" using assms by (simp add: engine_run_def)
  have i: "idle w" using assms(1) by (simp add: world_ok_def)
  have ex: "?ex (caps_of e1) (e_rt e1) = (RuntimeError er, out, r)"
    using assms(4,5) by (simp add: caps_of_def setupHostModules_def)
  have code: "run_code (ew_env w) (RuntimeError er) (e1\<lparr>e_rt := r\<rparr>) = (-2, setRuntimeError er (e1\<lparr>e_rt := r\<rparr>))" by (simp add: run_code_def)
  note res = in_engine_result [where exec = ?ex and code = "run_code (ew_env w)", OF i assms(2) ex code]
  have t: "e_last_error (setRuntimeError er (e1\<lparr>e_rt := r\<rparr>)) = t" by (simp add: setRuntimeError_def bufPrint_def assms(6) MaxErrorLen_def)
  have n: "nat (max n 0) = nat n" by (simp add: max_def)
  have "engine_last_error h n (snd (engine_run h src w)) = (int (length t), take (nat n) t)"
    using res(2) t by (auto simp: run engine_last_error_def n min_def)
  then show ?thesis
    using res by (simp add: run engine_last_error_line_def engine_last_error_col_def setRuntimeError_def)
qed

lemma demo_panic: "panic_text demo_error = bytes_of ''panic: Boom: no''"
  by (simp add: panic_text_def demo_error_def)

theorem panic_text_reported_witness: "engine_last_error 1 99 (snd (engine_run 1 (slice_of [120]) demo_world)) = (15, bytes_of ''panic: Boom: no'')"
  using panic_text_reported [of demo_world 1 demo_engine "slice_of [120]" "setupHostModules demo_env demo_engine" demo_error "[]" "()"
      "bytes_of ''panic: Boom: no''" 99]
  by (simp add: demo_world_ok demo_engines snd_slice_of demo_env_def demo_vm_def demo_panic del: bytes_of_Cons)

subsection \<open>Bundles\<close>

text \<open>
  C9. A bundle that the host loads is what a script imports: after \<open>engine_load_bundle\<close> of an archive with well-formed
  entries the call answers 0, and the source provider that the next \<open>engine_run\<close> hands to the compiler resolves the import
  of every file under the package name to exactly the bytes in the archive (no import loader being set and the package
  name being new).
\<close>

theorem bundle_reaches_script:
  assumes "world_ok w" "getEngine h w = Some e" "e_loader e = None" "length (e_packages e) < MaxPackages"
    and "\<forall>p \<in> set (e_packages e). pk_name p \<noteq> name" "name \<noteq> []" "length name \<le> 64" "47 \<notin> set name"
    and "length (buildZipStore entries) < 2 ^ 31" "length (buildZipStore entries) \<le> en_usize_max (ew_env w)"
    and "\<forall>x \<in> set entries. zip_entry_ok (en_max_input (ew_env w)) x \<and> en_alloc_ok (ew_env w) (length (tz_data x))"
    and "length entries \<le> MaxFilesPerPackage" "distinct (map tz_name entries)" "x \<in> set entries"
  shows "\<exists>w' e' f. engine_load_bundle h (slice_of name) (slice_of (buildZipStore entries)) w = (0, w') \<and> getEngine h w' = Some e'
    \<and> defaultSourceProvider (e_config (setupHostModules (ew_env w') e')) = Callback f \<and> f (name @ 47 # tz_name x) = Inr (Some (tz_data x))"
proof -
  define reg where "reg = e_packages e @ [\<lparr>pk_name = name, pk_files = map entry_file entries\<rparr>]"
  define e' where "e' = setConfig_sources (ew_env w) (e\<lparr>e_packages := reg\<rparr>)"
  have len: "length (ew_slots w) = MaxEngines" using assms(1) by (simp add: world_ok_def idle_def)
  have nz: "buildZipStore entries \<noteq> []" by (simp add: buildZipStore_def Let_def end_record_sig_def)
  have load: "loadFromZip (en_inflate (ew_env w)) (en_alloc_ok (ew_env w)) (en_usize_max (ew_env w)) (en_max_input (ew_env w)) (e_packages e)
      name (buildZipStore entries) = Ok reg"
    unfolding reg_def using assms by (intro load_zip_built) auto
  have "engine_load_bundle h (slice_of name) (slice_of (buildZipStore entries)) w = (0, put_engine h e' w)"
    using assms(2,6,7,9) nz load by (simp add: engine_load_bundle_def snd_slice_of Let_def finish_load_def e'_def)
  moreover have "getEngine h (put_engine h e' w) = Some e'" by (rule getEngine_put [OF assms(2) len])
  moreover have "defaultSourceProvider (e_config (setupHostModules (ew_env w) e')) = Callback (importLoaderWrapper (ew_env w) e')"
    by (simp add: defaultSourceProvider_def setupHostModules_def sourceProviderFromLoader_def e'_def setConfig_sources_def reg_def)
  moreover have "importLoaderWrapper (ew_env w) e' (name @ 47 # tz_name x) = Inr (Some (tz_data x))"
    using resolve_new_package [OF assms(8,5,13,14)] assms(3,11)
    by (simp add: importLoaderWrapper_def e'_def setConfig_sources_def reg_def zip_entry_ok_def)
  ultimately show ?thesis by auto
qed

definition demo_entry :: TestZipEntry where
  "demo_entry = \<lparr>tz_name = [97, 46, 103, 101, 110, 103, 111], tz_data = [7, 8]\<rparr>"

theorem bundle_reaches_script_witness:
  "\<exists>w' e' f. engine_load_bundle 1 (slice_of [109]) (slice_of (buildZipStore [demo_entry])) demo_world = (0, w') \<and> getEngine 1 w' = Some e'
    \<and> defaultSourceProvider (e_config (setupHostModules (ew_env w') e')) = Callback f \<and> f ([109] @ 47 # tz_name demo_entry) = Inr (Some (tz_data demo_entry))"
  by (rule bundle_reaches_script [OF demo_world_ok demo_engines(1)])
    (simp_all add: demo_engine_def initScalars_def MaxPackages_def MaxFilesPerPackage_def demo_engines(3) demo_env_def zip_entry_ok_def demo_entry_def
      buildZipStore_def zip_hdr_defs end_record_sig_def endsWith_def gengo_ext_def bytes_of_def mem_contains_def)

end
