(* ===== verification/FastCgi.thy ===== *)
theory FastCgi
  imports HostApi "HOL-Library.Monad_Syntax"
begin

text \<open>
  The FastCGI responder \<open>examples/fastcgi-host/main.c\<close>, function by function: the record reader and writer on
  stdin and stdout, the name-value decoder, the request state and the main loop that hands each request to the
  script's \<open>handle\<close>.
  The process state is \<open>'w fcgi\<close>: the bytes still to come on stdin, the bytes written to stdout, how much more
  stdout accepts (\<open>None\<close> for no limit), the error flags of the two streams, the lines logged to stderr, the C
  memory and the engine. stdout is unbuffered, so \<open>fflush\<close> has nothing left to do.
  \<open>params\<close> and \<open>body\<close> are the bytes in use of their arrays, with the capacity checked at each copy; the three
  string arrays are modelled with all their bytes. A result \<open>None\<close> is undefined behaviour.
\<close>

section \<open>State\<close>

definition fcgi_version_1 :: byte where "fcgi_version_1 = 1"
definition fcgi_begin_request :: byte where "fcgi_begin_request = 1"
definition fcgi_end_request :: byte where "fcgi_end_request = 3"
definition fcgi_params :: byte where "fcgi_params = 4"
definition fcgi_stdin :: byte where "fcgi_stdin = 5"
definition fcgi_stdout :: byte where "fcgi_stdout = 6"
definition fcgi_stderr :: byte where "fcgi_stderr = 7"
definition fcgi_responder :: nat where "fcgi_responder = 1"
definition max_params :: nat where "max_params = 16384"
definition max_body :: nat where "max_body = 65536"
definition max_method :: nat where "max_method = 32"
definition max_path :: nat where "max_path = 4096"
definition max_query :: nat where "max_query = 4096"

lemmas fcgi_consts = fcgi_version_1_def fcgi_begin_request_def fcgi_end_request_def fcgi_params_def
  fcgi_stdin_def fcgi_stdout_def fcgi_stderr_def fcgi_responder_def

lemmas fcgi_limits = max_params_def max_body_def max_method_def max_path_def max_query_def

record record_header_t =
  h_type :: byte
  h_request_id :: nat
  h_content_len :: nat
  h_padding_len :: nat

record request_t =
  rq_request_id :: nat
  rq_active :: bool
  rq_params_complete :: bool
  rq_params :: "byte list"
  rq_body :: "byte list"
  rq_method :: "byte list"
  rq_path :: "byte list"
  rq_query :: "byte list"

definition request_zero :: request_t where
  "request_zero = \<lparr>rq_request_id = 0, rq_active = False, rq_params_complete = False, rq_params = [], rq_body = [],
     rq_method = replicate max_method 0, rq_path = replicate max_path 0, rq_query = replicate max_query 0\<rparr>"

record 'w fcgi =
  io_in :: "byte list"
  io_in_fails :: bool
  io_in_err :: bool
  io_out :: "byte list"
  io_room :: "nat option"
  io_out_err :: bool
  io_log :: "byte list list"
  io_junk :: "byte list"
  io_mem :: cmem
  io_eng :: 'w

section \<open>stdin\<close>

definition c_fread :: "nat \<Rightarrow> 'w fcgi \<Rightarrow> byte list \<times> 'w fcgi" where
  "c_fread n s = (take n (io_in s),
     s\<lparr>io_in := drop n (io_in s), io_in_err := io_in_err s \<or> (length (io_in s) < n \<and> io_in_fails s)\<rparr>)"

definition read_exact :: "nat \<Rightarrow> 'w fcgi \<Rightarrow> bool \<times> byte list \<times> 'w fcgi" where
  "read_exact n s = (if n = 0 then (True, [], s) else let (b, s') = c_fread n s in (length b = n, b, s'))"

datatype header_result = HdrEnd | HdrBad | Hdr record_header_t

definition read_record_header :: "'w fcgi \<Rightarrow> header_result \<times> 'w fcgi" where
  "read_record_header s =
     (let (b, s) = c_fread 1 s in
      if b = [] then (HdrEnd, s)
      else let (ok, c, s) = read_exact 7 s; raw = b @ c in
        if \<not> ok then (HdrBad, s)
        else if raw ! 0 \<noteq> fcgi_version_1 \<or> raw ! 7 \<noteq> 0 then (HdrBad, s)
        else (Hdr \<lparr>h_type = raw ! 1, h_request_id = 256 * unat (raw ! 2) + unat (raw ! 3),
                   h_content_len = 256 * unat (raw ! 4) + unat (raw ! 5), h_padding_len = unat (raw ! 6)\<rparr>, s))"

function discard_exact :: "nat \<Rightarrow> 'w fcgi \<Rightarrow> bool \<times> 'w fcgi" where
  "discard_exact n s =
     (if n = 0 then (True, s)
      else let chunk = (if n < 256 then n else 256); (ok, b, s) = read_exact chunk s in
        if \<not> ok then (False, s) else discard_exact (n - chunk) s)"
  by pat_completeness auto
termination by (relation "measure fst") auto

declare discard_exact.simps [simp del]

section \<open>stdout\<close>

definition c_fwrite :: "byte list \<Rightarrow> 'w fcgi \<Rightarrow> nat \<times> 'w fcgi" where
  "c_fwrite b s =
     (case io_room s of
        None \<Rightarrow> (length b, s\<lparr>io_out := io_out s @ b\<rparr>)
      | Some r \<Rightarrow> (min r (length b), s\<lparr>io_out := io_out s @ take r b, io_room := Some (r - length b),
                     io_out_err := io_out_err s \<or> r < length b\<rparr>))"

definition fwrite_all :: "byte list \<Rightarrow> 'w fcgi \<Rightarrow> bool \<times> 'w fcgi" where
  "fwrite_all b s = (let (n, s) = c_fwrite b s in (n = length b, s))"

definition record_header :: "byte \<Rightarrow> nat \<Rightarrow> nat \<Rightarrow> nat \<Rightarrow> byte list" where
  "record_header type request_id chunk pad =
     [fcgi_version_1, type, of_nat (request_id div 256), of_nat request_id, of_nat (chunk div 256), of_nat chunk,
      of_nat pad, 0]"

text \<open>One turn of the loop of \<open>write_record\<close>.\<close>

definition write_chunk :: "byte \<Rightarrow> nat \<Rightarrow> byte list \<Rightarrow> 'w fcgi \<Rightarrow> bool \<times> 'w fcgi" where
  "write_chunk type request_id b s =
     (let pad = (8 - length b mod 8) mod 8;
          (ok, s) = fwrite_all (record_header type request_id (length b) pad) s in
      if \<not> ok then (False, s)
      else let (ok, s) = (if b \<noteq> [] then fwrite_all b s else (True, s)) in
        if \<not> ok then (False, s)
        else if pad \<noteq> 0 then fwrite_all (replicate pad 0) s else (True, s))"

function write_chunks :: "byte \<Rightarrow> nat \<Rightarrow> byte list \<Rightarrow> 'w fcgi \<Rightarrow> bool \<times> 'w fcgi" where
  "write_chunks type request_id b s =
     (if b = [] then (True, s)
      else let chunk = (if 65535 < length b then 65535 else length b);
               (ok, s) = write_chunk type request_id (take chunk b) s in
        if \<not> ok then (False, s) else write_chunks type request_id (drop chunk b) s)"
  by pat_completeness auto
termination by (relation "measure (\<lambda>(t, i, b, s). length b)") (auto split: if_splits)

declare write_chunks.simps [simp del]

text \<open>\<open>data\<close> is \<open>None\<close> for a null pointer, which the program only passes with length 0.\<close>

definition write_record :: "byte \<Rightarrow> nat \<Rightarrow> byte list option \<Rightarrow> 'w fcgi \<Rightarrow> bool \<times> 'w fcgi" where
  "write_record type request_id data s =
     (case data of None \<Rightarrow> write_chunk type request_id [] s | Some b \<Rightarrow> write_chunks type request_id b s)"

definition send_end :: "nat \<Rightarrow> nat \<Rightarrow> 'w fcgi \<Rightarrow> 'w fcgi" where
  "send_end request_id app_status s =
     (let body = [of_nat (app_status div 2 ^ 24), of_nat (app_status div 2 ^ 16), of_nat (app_status div 2 ^ 8),
                  of_nat app_status, 0, 0, 0, 0];
          s = snd (write_record fcgi_stdout request_id None s)
      in snd (write_record fcgi_end_request request_id (Some body) s))"

definition error_prefix :: "byte list" where
  "error_prefix = bytes_of ''Status: 500 Internal Server Error'' @ [13, 10]
     @ bytes_of ''Content-Type: text/plain; charset=utf-8'' @ [13, 10, 13, 10]"

definition send_error :: "nat \<Rightarrow> byte list \<Rightarrow> 'w fcgi \<Rightarrow> 'w fcgi" where
  "send_error request_id message s =
     (let s = snd (write_record fcgi_stderr request_id (Some message) s);
          s = snd (write_record fcgi_stdout request_id (Some error_prefix) s);
          s = snd (write_record fcgi_stdout request_id (Some message) s);
          s = snd (write_record fcgi_stdout request_id (Some [10]) s)
      in send_end request_id 1 s)"

section \<open>PARAMS\<close>

definition rd_byte :: "byte list \<Rightarrow> nat \<Rightarrow> byte option" where
  "rd_byte data i = (if i < length data then Some (data ! i) else None)"

text \<open>
  \<open>Some None\<close> is the return value 0, \<open>Some (Some (offset, out))\<close> a decoded length with the new offset; \<open>data\<close> is
  the array up to \<open>params_len\<close>, and a read behind it is \<open>None\<close>.
\<close>

definition decode_length :: "byte list \<Rightarrow> nat \<Rightarrow> (nat \<times> nat) option option" where
  "decode_length data offset =
     (if length data \<le> offset then Some None
      else do {
        first \<leftarrow> rd_byte data offset;
        if first AND 0x80 = 0 then Some (Some (offset + 1, unat first))
        else if length data - (offset + 1) < 3 then Some None
        else do {
          b \<leftarrow> rd_byte data (offset + 1);
          c \<leftarrow> rd_byte data (offset + 2);
          d \<leftarrow> rd_byte data (offset + 3);
          Some (Some (offset + 4, 2 ^ 24 * unat (first AND 0x7f) + 2 ^ 16 * unat b + 2 ^ 8 * unat c + unat d))
        }
      })"

definition copy_param :: "byte list \<Rightarrow> byte list \<Rightarrow> byte list" where
  "copy_param dest value =
     (let n = (if length value < length dest - 1 then length value else length dest - 1)
      in put_cstr dest (take n value))"

text \<open>The four names that are recognised.\<close>

definition store_param :: "byte list \<Rightarrow> byte list \<Rightarrow> request_t \<Rightarrow> request_t" where
  "store_param name value rq =
     (if name = bytes_of ''REQUEST_METHOD'' then rq\<lparr>rq_method := copy_param (rq_method rq) value\<rparr>
      else if name = bytes_of ''SCRIPT_NAME'' then rq\<lparr>rq_path := copy_param (rq_path rq) value\<rparr>
      else if name = bytes_of ''PATH_INFO'' \<and> rq_path rq ! 0 = 0 then rq\<lparr>rq_path := copy_param (rq_path rq) value\<rparr>
      else if name = bytes_of ''QUERY_STRING'' then rq\<lparr>rq_query := copy_param (rq_query rq) value\<rparr>
      else rq)"

text \<open>One turn of the loop of \<open>parse_params\<close>: \<open>Some None\<close> is the early \<open>return 0\<close>.\<close>

definition param_turn :: "byte list \<Rightarrow> nat \<Rightarrow> request_t \<Rightarrow> (nat \<times> request_t) option option" where
  "param_turn data offset rq = do {
     n \<leftarrow> decode_length data offset;
     (case n of None \<Rightarrow> Some None | Some (offset, name_len) \<Rightarrow> do {
        v \<leftarrow> decode_length data offset;
        (case v of None \<Rightarrow> Some None | Some (offset, value_len) \<Rightarrow>
           if length data - offset < name_len \<or> length data - offset - name_len < value_len then Some None
           else Some (Some (offset + (name_len + value_len),
             store_param (take name_len (drop offset data)) (take value_len (drop (offset + name_len) data)) rq)))
      })
   }"

lemma decode_length_advances: "decode_length data offset = Some (Some (o', n)) \<Longrightarrow> offset < o' \<and> o' \<le> length data"
  by (auto simp: decode_length_def rd_byte_def split: if_splits bind_splits)

lemma param_turn_advances: "param_turn data offset rq = Some (Some (o', rq')) \<Longrightarrow> offset < o' \<and> o' \<le> length data"
  by (auto simp: param_turn_def dest!: decode_length_advances split: if_splits bind_splits option.splits) arith

function params_loop :: "byte list \<Rightarrow> nat \<Rightarrow> request_t \<Rightarrow> (bool \<times> request_t) option" where
  "params_loop data offset rq =
     (if offset < length data then
        (case param_turn data offset rq of
           None \<Rightarrow> None
         | Some None \<Rightarrow> Some (False, rq)
         | Some (Some (o', rq')) \<Rightarrow> params_loop data o' rq')
      else Some (rq_method rq ! 0 \<noteq> 0, rq))"
  by pat_completeness auto
termination
  by (relation "measure (\<lambda>(data, offset, rq). length data - offset)") (auto dest: param_turn_advances)

declare params_loop.simps [simp del]

definition parse_params :: "request_t \<Rightarrow> (bool \<times> request_t) option" where
  "parse_params rq =
     params_loop (rq_params rq) 0
       (rq\<lparr>rq_method := (rq_method rq)[0 := 0], rq_path := (rq_path rq)[0 := 0], rq_query := (rq_query rq)[0 := 0]\<rparr>)"

section \<open>The program\<close>

definition read_file :: "file_system \<Rightarrow> (nat \<Rightarrow> bool) \<Rightarrow> byte list \<Rightarrow> byte list option" where
  "read_file files malloc_ok path =
     (case files path of None \<Rightarrow> None
      | Some f \<Rightarrow>
          if \<not> f_seek_end f \<or> f_tell f < 0 \<or> \<not> f_seek_set f then None
          else let size = nat (f_tell f) in
            if \<not> malloc_ok (size + 1) \<or> length (take size (f_bytes f)) \<noteq> size then None
            else Some (take size (f_bytes f)))"

definition log_engine_error :: "'w engine_api \<Rightarrow> int \<Rightarrow> byte list \<Rightarrow> 'w fcgi \<Rightarrow> 'w fcgi option" where
  "log_engine_error api engine prefix s =
     (let (len, written) = api_last_error api engine 511 (io_eng s);
          len = (if len < 0 then 0 else len);
          len = (if 512 \<le> len then 511 else len)
      in do {
        message \<leftarrow> stack_buf (io_junk s) 512 written;
        Some (s\<lparr>io_log := io_log s @ [prefix @ bytes_of '': '' @ cstr (message[nat len := 0]) @ [10]]\<rparr>)
      })"

text \<open>The addresses of the request's arrays.\<close>

record req_addrs =
  ad_method :: u64
  ad_path :: u64
  ad_query :: u64
  ad_body :: u64

definition request_mem :: "req_addrs \<Rightarrow> request_t \<Rightarrow> cmem \<Rightarrow> cmem" where
  "request_mem ad rq m = m\<lparr>mem_bytes := (mem_bytes m)(ad_method ad \<mapsto> rq_method rq, ad_path ad \<mapsto> rq_path rq,
     ad_query ad \<mapsto> rq_query rq, ad_body ad \<mapsto> rq_body rq @ [0])\<rparr>"

definition msg_params :: "byte list" where "msg_params = bytes_of ''invalid or incomplete FastCGI PARAMS''"
definition msg_handler :: "byte list" where "msg_handler = bytes_of ''Gengoscript handler failed''"
definition msg_string :: "byte list" where "msg_string = bytes_of ''Gengoscript handle() must return a string''"

definition run_request :: "'w engine_api \<Rightarrow> req_addrs \<Rightarrow> int \<Rightarrow> request_t \<Rightarrow> 'w fcgi \<Rightarrow> (request_t \<times> 'w fcgi) option" where
  "run_request api ad engine rq s = do {
     (ok, rq) \<leftarrow> parse_params rq;
     if \<not> ok then Some (rq, send_error (rq_request_id rq) msg_params s)
     else if max_body < length (rq_body rq) then None
     else do {
       let m = request_mem ad rq (io_mem s);
       a \<leftarrow> gengo_wire_str m (ad_method ad);
       b \<leftarrow> gengo_wire_str m (ad_path ad);
       c \<leftarrow> gengo_wire_str m (ad_query ad);
       let d = gengo_wire_str_n (ad_body ad) (of_nat (length (rq_body rq)));
       let (rc, out, m, e) = api_call api engine (slice_of (bytes_of ''handle'')) [a, b, c, d] m (io_eng s);
       let s = s\<lparr>io_mem := m, io_eng := e\<rparr>;
       let result = (case out of None \<Rightarrow> gengo_wire_null | Some v \<Rightarrow> v);
       if rc \<noteq> 0 then do {
         s \<leftarrow> log_engine_error api engine msg_handler s;
         Some (rq, send_error (rq_request_id rq) msg_handler s)
       }
       else if w_tag result \<noteq> tag_code GENGO_WIRE_STRING \<or> w_payload result = 0
       then Some (rq, send_error (rq_request_id rq) msg_string s)
       else do {
         response \<leftarrow> load_bytes m (w_payload result) (unat (w_len result));
         let s = snd (write_record fcgi_stdout (rq_request_id rq) (Some response) s);
         Some (rq, send_end (rq_request_id rq) 0 s)
       }
     }
   }"

definition append_within :: "nat \<Rightarrow> byte list \<Rightarrow> byte list \<Rightarrow> byte list option" where
  "append_within cap buf b = (if length buf + length b \<le> cap then Some (buf @ b) else None)"

definition msg_single :: "byte list" where
  "msg_single = bytes_of ''only one sequential FastCGI responder request is supported''"
definition msg_params_limit :: "byte list" where "msg_params_limit = bytes_of ''FastCGI PARAMS exceed host limit''"
definition msg_stdin_early :: "byte list" where
  "msg_stdin_early = bytes_of ''FastCGI STDIN arrived before PARAMS completed''"
definition msg_body_limit :: "byte list" where "msg_body_limit = bytes_of ''FastCGI request body exceeds host limit''"

text \<open>The body of the main loop once a record has been read; \<open>content\<close> has the length of the header.\<close>

definition handle_record ::
  "'w engine_api \<Rightarrow> req_addrs \<Rightarrow> int \<Rightarrow> record_header_t \<Rightarrow> byte list \<Rightarrow> request_t \<Rightarrow> 'w fcgi \<Rightarrow> (request_t \<times> 'w fcgi) option" where
  "handle_record api ad engine header content rq s =
     (if h_type header = fcgi_begin_request then
        (if h_content_len header < 3 \<or> rq_active rq \<or> 256 * unat (content ! 0) + unat (content ! 1) \<noteq> fcgi_responder
         then Some (rq, send_error (h_request_id header) msg_single s)
         else Some (request_zero\<lparr>rq_request_id := h_request_id header, rq_active := True\<rparr>, s))
      else if \<not> rq_active rq \<or> h_request_id header \<noteq> rq_request_id rq then Some (rq, s)
      else if h_type header = fcgi_params then
        (if h_content_len header = 0 then Some (rq\<lparr>rq_params_complete := True\<rparr>, s)
         else if max_params < length (rq_params rq) + h_content_len header
         then Some (rq\<lparr>rq_active := False\<rparr>, send_error (rq_request_id rq) msg_params_limit s)
         else do { p \<leftarrow> append_within max_params (rq_params rq) content; Some (rq\<lparr>rq_params := p\<rparr>, s) })
      else if h_type header = fcgi_stdin then
        (if h_content_len header = 0 then
           (if \<not> rq_params_complete rq
            then Some (rq\<lparr>rq_active := False\<rparr>, send_error (rq_request_id rq) msg_stdin_early s)
            else do { (rq, s) \<leftarrow> run_request api ad engine rq s; Some (rq\<lparr>rq_active := False\<rparr>, s) })
         else if max_body < length (rq_body rq) + h_content_len header
         then Some (rq\<lparr>rq_active := False\<rparr>, send_error (rq_request_id rq) msg_body_limit s)
         else do { b \<leftarrow> append_within (max_body + 1) (rq_body rq) content; Some (rq\<lparr>rq_body := b\<rparr>, s) })
      else Some (rq, s))"

text \<open>Reading one record, as the loop does it: header, content, padding.\<close>

datatype record_result = RecEnd | RecBad | Rec record_header_t "byte list"

definition read_record :: "'w fcgi \<Rightarrow> record_result \<times> 'w fcgi" where
  "read_record s =
     (case read_record_header s of
        (HdrEnd, s) \<Rightarrow> (RecEnd, s)
      | (HdrBad, s) \<Rightarrow> (RecBad, s)
      | (Hdr h, s) \<Rightarrow>
          (let (ok, content, s) = read_exact (h_content_len h) s in
           if \<not> ok then (RecBad, s)
           else let (ok, s) = discard_exact (h_padding_len h) s in
             if \<not> ok then (RecBad, s) else (Rec h content, s)))"

subsection \<open>Reading and writing touch only their streams\<close>

lemma c_fread_ok: "n \<le> length (io_in s) \<Longrightarrow> c_fread n s = (take n (io_in s), s\<lparr>io_in := drop n (io_in s)\<rparr>)"
  by (simp add: c_fread_def)

lemma read_exact_ok [simp]:
  "n \<le> length (io_in s) \<Longrightarrow> read_exact n s = (True, take n (io_in s), s\<lparr>io_in := drop n (io_in s)\<rparr>)"
  by (simp add: read_exact_def c_fread_ok)

lemma read_exact_short:
  "\<not> n \<le> length (io_in s) \<Longrightarrow>
     read_exact n s = (False, io_in s, s\<lparr>io_in := [], io_in_err := io_in_err s \<or> io_in_fails s\<rparr>)"
  by (auto simp: read_exact_def c_fread_def)

lemma discard_exact_ok [simp]:
  "n \<le> length (io_in s) \<Longrightarrow> discard_exact n s = (True, s\<lparr>io_in := drop n (io_in s)\<rparr>)"
proof (induction n s rule: discard_exact.induct)
  case (1 n s)
  then show ?case by (subst discard_exact.simps) (auto simp: Let_def)
qed

lemma discard_exact_short:
  "\<not> n \<le> length (io_in s) \<Longrightarrow>
     discard_exact n s = (False, s\<lparr>io_in := [], io_in_err := io_in_err s \<or> io_in_fails s\<rparr>)"
proof (induction n s rule: discard_exact.induct)
  case (1 n s)
  then show ?case
    by (subst discard_exact.simps)
       (cases "(if n < 256 then n else 256) \<le> length (io_in s)"; auto simp: Let_def read_exact_short)
qed

lemma eight_bytes:
  assumes "8 \<le> length (xs :: byte list)"
  obtains v t i j k l p z r where "xs = v # t # i # j # k # l # p # z # r"
  using assms by (auto simp: numeral_eq_Suc Suc_le_length_iff)

lemma read_header_bytes:
  assumes "io_in s = v # t # i # j # k # l # p # z # r"
  shows "read_record_header s =
    ((if v \<noteq> fcgi_version_1 \<or> z \<noteq> 0 then HdrBad
      else Hdr \<lparr>h_type = t, h_request_id = 256 * unat i + unat j, h_content_len = 256 * unat k + unat l,
                h_padding_len = unat p\<rparr>), s\<lparr>io_in := r\<rparr>)"
  using assms by (simp add: read_record_header_def c_fread_def)

lemma read_header_short:
  assumes "\<not> 8 \<le> length (io_in s)" shows "fst (read_record_header s) \<in> {HdrEnd, HdrBad}"
  using assms by (cases "io_in s") (simp_all add: read_record_header_def c_fread_def read_exact_short)

lemma read_record_Rec:
  assumes "read_record s = (Rec h c, s')"
  obtains v t i j k l p z r where "io_in s = v # t # i # j # k # l # p # z # r"
    and "h = \<lparr>h_type = t, h_request_id = 256 * unat i + unat j, h_content_len = 256 * unat k + unat l, h_padding_len = unat p\<rparr>"
    and "length c = h_content_len h" and "h_content_len h + h_padding_len h \<le> length r"
    and "s' = s\<lparr>io_in := drop (h_content_len h + h_padding_len h) r\<rparr>"
proof (cases "8 \<le> length (io_in s)")
  case False
  then show ?thesis
    using assms read_header_short [of s] by (auto simp: read_record_def split: header_result.splits prod.splits)
next
  case True
  then obtain v t i j k l p z r where io: "io_in s = v # t # i # j # k # l # p # z # r" by (rule eight_bytes)
  let ?n = "256 * unat k + unat l"
  have n: "?n \<le> length r"
    using assms by (cases "?n \<le> length r")
      (auto simp: read_record_def read_header_bytes [OF io] read_exact_short split: if_splits)
  have p: "unat p \<le> length r - ?n"
    using assms n by (cases "unat p \<le> length r - ?n")
      (auto simp: read_record_def read_header_bytes [OF io] discard_exact_short split: if_splits)
  show ?thesis
    using assms n p that [OF io]
    by (auto simp: read_record_def read_header_bytes [OF io] add.commute split: if_splits)
qed

lemma read_record_shrinks: "read_record s = (Rec h c, s') \<Longrightarrow> length (io_in s') < length (io_in s)"
  by (erule read_record_Rec) auto

definition only_out :: "'w fcgi \<Rightarrow> 'w fcgi \<Rightarrow> bool" where
  "only_out s s' \<longleftrightarrow> s' = s\<lparr>io_out := io_out s', io_room := io_room s', io_out_err := io_out_err s'\<rparr>"

lemma only_out_refl [simp]: "only_out s s"
  by (simp add: only_out_def)

lemma only_out_trans: "only_out s t \<Longrightarrow> only_out t u \<Longrightarrow> only_out s u"
  unfolding only_out_def by (cases s; cases t; cases u) simp

lemma only_out_fwrite_all: "fwrite_all b s = (ok, s') \<Longrightarrow> only_out s s'"
  by (auto simp: only_out_def fwrite_all_def c_fwrite_def split: option.splits)

lemma only_out_write_chunk: "write_chunk t i b s = (ok, s') \<Longrightarrow> only_out s s'"
  by (auto simp: write_chunk_def Let_def split: prod.splits if_splits
      dest!: only_out_fwrite_all intro: only_out_trans)

lemma only_out_write_chunks: "write_chunks t i b s = (ok, s') \<Longrightarrow> only_out s s'"
proof (induction t i b s rule: write_chunks.induct)
  case (1 t i b s)
  show ?case
  proof (cases "b = []")
    case True
    then show ?thesis using "1.prems" by (simp add: write_chunks.simps)
  next
    case False
    let ?n = "if 65535 < length b then 65535 else length b"
    obtain ok1 s1 where w: "write_chunk t i (take ?n b) s = (ok1, s1)" by fastforce
    then have "only_out s s1" by (rule only_out_write_chunk)
    moreover have "only_out s1 s'"
      using "1.prems" False w "1.IH" [OF False refl w [symmetric] refl]
      by (subst (asm) write_chunks.simps) (auto simp: Let_def split: if_splits)
    ultimately show ?thesis by (rule only_out_trans)
  qed
qed

lemma only_out_write_record: "only_out s (snd (write_record t i d s))"
  by (cases "write_record t i d s")
     (auto simp: write_record_def dest: only_out_write_chunk only_out_write_chunks split: option.splits)

lemma only_out_send_end: "only_out s (send_end i a s)"
  unfolding send_end_def Let_def by (blast intro: only_out_trans only_out_write_record)

lemma only_out_send_error: "only_out s (send_error i msg s)"
  unfolding send_error_def Let_def 
  by (rule only_out_trans [OF _ only_out_send_end], (rule only_out_trans [OF _ only_out_write_record])+) simp

lemma only_out_fields:
  assumes "only_out s s'"
  shows "io_in s' = io_in s" "io_mem s' = io_mem s" "io_eng s' = io_eng s" "io_junk s' = io_junk s" "io_log s' = io_log s"
  using assms [unfolded only_out_def, THEN arg_cong, of io_in] assms [unfolded only_out_def, THEN arg_cong, of io_mem]
    assms [unfolded only_out_def, THEN arg_cong, of io_eng] assms [unfolded only_out_def, THEN arg_cong, of io_junk]
    assms [unfolded only_out_def, THEN arg_cong, of io_log]
  by simp_all

lemmas out_frame [simp] = only_out_fields [OF only_out_write_record] only_out_fields [OF only_out_send_end]
  only_out_fields [OF only_out_send_error]

lemma log_engine_error_frame: "log_engine_error api e p s = Some s' \<Longrightarrow> \<exists>l. s' = s\<lparr>io_log := l\<rparr>"
  by (auto simp: log_engine_error_def Let_def split: prod.splits bind_splits)

lemma run_request_in: "run_request api ad e rq s = Some (rq', s') \<Longrightarrow> io_in s' = io_in s"
  by (auto simp: run_request_def Let_def split: if_splits bind_splits prod.splits dest!: log_engine_error_frame)

lemma handle_record_in: "handle_record api ad e h c rq s = Some (rq', s') \<Longrightarrow> io_in s' = io_in s"
  by (auto simp: handle_record_def split: if_splits bind_splits dest!: run_request_in)

function fcgi_loop :: "'w engine_api \<Rightarrow> req_addrs \<Rightarrow> int \<Rightarrow> request_t \<Rightarrow> 'w fcgi \<Rightarrow> 'w fcgi option" where
  "fcgi_loop api ad engine rq s =
     (case read_record s of
        (RecEnd, s) \<Rightarrow> Some s
      | (RecBad, s) \<Rightarrow> Some (s\<lparr>io_log := io_log s @ [bytes_of ''invalid or truncated FastCGI record'' @ [10]]\<rparr>)
      | (Rec h c, s) \<Rightarrow>
          (case handle_record api ad engine h c rq s of
             None \<Rightarrow> None
           | Some (rq, s) \<Rightarrow> fcgi_loop api ad engine rq s))"
  by pat_completeness auto
termination
  by (relation "measure (\<lambda>(api, ad, engine, rq, s). length (io_in s))")
    (auto dest!: handle_record_in read_record_shrinks [OF sym])

declare fcgi_loop.simps [simp del]

definition fcgi_config :: gengo_instance_config_t where
  "fcgi_config = \<lparr>heap_size_bytes = 512 * 1024, max_objects = 2048, max_stack = 512, max_frames = 64,
     max_defers = 128, max_ops = 200000, allow_io = False\<rparr>"

text \<open>
  \<open>main\<close> after the choice of the script path: the exit status, or \<open>None\<close> for undefined behaviour.
\<close>

definition fcgi_main ::
  "'w engine_api \<Rightarrow> file_system \<Rightarrow> (nat \<Rightarrow> bool) \<Rightarrow> req_addrs \<Rightarrow> byte list option \<Rightarrow> 'w fcgi \<Rightarrow> (int \<times> 'w fcgi) option" where
  "fcgi_main api files malloc_ok ad arg s =
     (let script_path = (case arg of Some p \<Rightarrow> p | None \<Rightarrow> bytes_of ''app.gengo'');
          logged = (\<lambda>line s. s\<lparr>io_log := io_log s @ [line @ [10]]\<rparr>)
      in case read_file files malloc_ok script_path of
           None \<Rightarrow> Some (1, logged (bytes_of ''cannot read Gengoscript application: '' @ script_path) s)
         | Some script \<Rightarrow>
             (let (engine, e) = api_init_with_config api (Some fcgi_config) (io_eng s); s = s\<lparr>io_eng := e\<rparr> in
              if engine \<le> 0
              then Some (1, logged (bytes_of ''engine_init_with_config failed ('' @ dec_int engine @ bytes_of '')'') s)
              else let (rc, e) = api_run_path api engine (slice_of script) (slice_of script_path) (io_eng s);
                       s = s\<lparr>io_eng := e\<rparr> in
                if rc \<noteq> 0 then do {
                  s \<leftarrow> log_engine_error api engine (bytes_of ''Gengoscript application failed to load'') s;
                  Some (1, s\<lparr>io_eng := api_destroy api engine (io_eng s)\<rparr>)
                }
                else do {
                  s \<leftarrow> fcgi_loop api ad engine request_zero s;
                  let s = s\<lparr>io_eng := api_destroy api engine (io_eng s)\<rparr>;
                  Some (if io_in_err s \<or> io_out_err s then 1 else 0, s)
                }))"

end
