(* ===== verification/FastCgiProps.thy ===== *)
theory FastCgiProps
  imports FastCgi
begin

text \<open>
  Correctness of the FastCGI host of \<^theory_text>\<open>FastCgi\<close>: the byte format of records and of name-value pairs with the
  reader and the writer as inverses, the invariant of the request arrays, the fact that against an engine that
  keeps \<^theory_text>\<open>engine_contract\<close> the main loop has no undefined behaviour and writes nothing but complete replies, and the
  answer to a whole request.
\<close>

section \<open>Frames on the wire\<close>

definition pad_len :: "nat \<Rightarrow> nat" where
  "pad_len n = (8 - n mod 8) mod 8"

definition frame_bytes :: "byte \<times> nat \<times> byte list \<Rightarrow> byte list" where
  "frame_bytes = (\<lambda>(t, i, b). record_header t i (length b) (pad_len (length b)) @ b @ replicate (pad_len (length b)) 0)"

definition encode_frames :: "(byte \<times> nat \<times> byte list) list \<Rightarrow> byte list" where
  "encode_frames fs = concat (map frame_bytes fs)"

definition frame_ok :: "byte \<times> nat \<times> byte list \<Rightarrow> bool" where
  "frame_ok = (\<lambda>(t, i, b). i < 65536 \<and> length b < 65536)"

lemma encode_frames_simps [simp]:
  "encode_frames [] = []" "encode_frames (f # fs) = frame_bytes f @ encode_frames fs"
  "encode_frames (fs @ gs) = encode_frames fs @ encode_frames gs"
  by (simp_all add: encode_frames_def)

lemma pad_aligned: "8 dvd n + pad_len n"
proof -
  define r where "r = n mod 8"
  have "r < 8" by (simp add: r_def)
  then have "(r + (8 - r) mod 8) mod 8 = 0" by (cases "r = 0") simp_all
  then have "(n + (8 - n mod 8) mod 8) mod 8 = 0"
    unfolding r_def by (simp only: mod_add_left_eq)
  then show ?thesis unfolding pad_len_def by (rule mod_0_imp_dvd)
qed

lemma length_frame_bytes: "length (frame_bytes (t, i, b)) = 8 + (length b + pad_len (length b))"
  by (simp add: frame_bytes_def record_header_def)

lemma frame_aligned: "8 dvd length (encode_frames fs)"
proof (induction fs)
  case (Cons f fs)
  have "8 dvd length (frame_bytes f)"
    by (cases f) (simp only: length_frame_bytes dvd_add_triv_left_iff pad_aligned)
  with Cons show ?case by simp
qed simp

text \<open>With room on stdout the writer appends exactly the frames.\<close>

lemma write_chunk_out:
  "io_room s = None \<Longrightarrow> write_chunk t i b s = (True, s\<lparr>io_out := io_out s @ frame_bytes (t, i, b)\<rparr>)"
  by (auto simp: write_chunk_def fwrite_all_def c_fwrite_def frame_bytes_def Let_def pad_len_def)

fun split_chunks :: "byte list \<Rightarrow> byte list list" where
  "split_chunks b = (if b = [] then [] else take 65535 b # split_chunks (drop 65535 b))"

declare split_chunks.simps [simp del]

lemma split_chunks_Nil [simp]: "split_chunks [] = []"
  by (simp add: split_chunks.simps)

lemma split_chunks_small: "b \<noteq> [] \<Longrightarrow> length b \<le> 65535 \<Longrightarrow> split_chunks b = [b]"
  by (subst split_chunks.simps) simp

lemma concat_split_chunks: "concat (split_chunks b) = b"
proof (induction b rule: split_chunks.induct)
  case (1 b)
  then show ?case by (subst split_chunks.simps) auto
qed

lemma split_chunks_bound: "c \<in> set (split_chunks b) \<Longrightarrow> c \<noteq> [] \<and> length c \<le> 65535"
proof (induction b rule: split_chunks.induct)
  case (1 b)
  then show ?case by (subst (asm) (2) split_chunks.simps) (auto split: if_splits)
qed

definition data_frames :: "byte \<Rightarrow> nat \<Rightarrow> byte list option \<Rightarrow> (byte \<times> nat \<times> byte list) list" where
  "data_frames t i data = (case data of None \<Rightarrow> [(t, i, [])] | Some b \<Rightarrow> map (\<lambda>c. (t, i, c)) (split_chunks b))"

lemma write_chunks_out:
  "io_room s = None \<Longrightarrow>
     write_chunks t i b s = (True, s\<lparr>io_out := io_out s @ encode_frames (map (\<lambda>c. (t, i, c)) (split_chunks b))\<rparr>)"
proof (induction t i b s rule: write_chunks.induct)
  case (1 t i b s)
  show ?case
  proof (cases "b = []")
    case False
    let ?n = "if 65535 < length b then 65535 else length b"
    let ?s = "s\<lparr>io_out := io_out s @ frame_bytes (t, i, take ?n b)\<rparr>"
    have w: "write_chunk t i (take ?n b) s = (True, ?s)" using "1.prems" by (rule write_chunk_out)
    have "write_chunks t i b s = write_chunks t i (drop ?n b) ?s"
      using False w by (subst write_chunks.simps) (simp add: Let_def)
    also have "\<dots> = (True, ?s\<lparr>io_out := io_out ?s @ encode_frames (map (\<lambda>c. (t, i, c)) (split_chunks (drop ?n b)))\<rparr>)"
      using "1.IH" [OF False refl w [symmetric] refl] "1.prems" by simp
    finally show ?thesis
      using False by (simp add: split_chunks.simps [of b])
  qed (simp add: write_chunks.simps)
qed

lemma write_record_out:
  "io_room s = None \<Longrightarrow> write_record t i d s = (True, s\<lparr>io_out := io_out s @ encode_frames (data_frames t i d)\<rparr>)"
  by (simp add: write_record_def data_frames_def write_chunk_out write_chunks_out split: option.split)

text \<open>The reader recognises every frame.\<close>

lemma two_bytes: "n < 65536 \<Longrightarrow> 256 * unat (word_of_nat (n div 256) :: byte) + unat (word_of_nat n :: byte) = n"
  by (simp add: unat_of_nat)

lemma read_frame:
  assumes "frame_ok (t, i, b)" and "io_in s = frame_bytes (t, i, b) @ r"
  shows "read_record s =
    (Rec \<lparr>h_type = t, h_request_id = i, h_content_len = length b, h_padding_len = pad_len (length b)\<rparr> b, s\<lparr>io_in := r\<rparr>)"
proof -
  have p: "unat (word_of_nat (pad_len (length b)) :: byte) = pad_len (length b)"
    by (simp add: unat_of_nat pad_len_def)
  have "io_in s = fcgi_version_1 # t # of_nat (i div 256) # of_nat i # of_nat (length b div 256) # of_nat (length b) #
      of_nat (pad_len (length b)) # 0 # (b @ replicate (pad_len (length b)) 0 @ r)"
    using assms(2) by (simp add: frame_bytes_def record_header_def)
  from read_header_bytes [OF this] show ?thesis
    using assms(1) p two_bytes [of i] two_bytes [of "length b"]
    by (simp add: read_record_def frame_ok_def)
qed

function read_all :: "'w fcgi \<Rightarrow> (byte \<times> nat \<times> byte list) list option" where
  "read_all s =
     (case read_record s of
        (RecEnd, s') \<Rightarrow> Some []
      | (RecBad, s') \<Rightarrow> None
      | (Rec h c, s') \<Rightarrow> map_option ((#) (h_type h, h_request_id h, c)) (read_all s'))"
  by pat_completeness auto
termination by (relation "measure (\<lambda>s. length (io_in s))") (auto dest: read_record_shrinks [OF sym])

declare read_all.simps [simp del]

lemma read_all_frames: "list_all frame_ok fs \<Longrightarrow> io_in s = encode_frames fs \<Longrightarrow> read_all s = Some fs"
proof (induction fs arbitrary: s)
  case Nil
  then show ?case by (simp add: read_all.simps read_record_def read_record_header_def c_fread_def)
next
  case (Cons f fs)
  obtain t i b where f: "f = (t, i, b)" by (cases f)
  have "read_record s = (Rec \<lparr>h_type = t, h_request_id = i, h_content_len = length b, h_padding_len = pad_len (length b)\<rparr> b,
      s\<lparr>io_in := encode_frames fs\<rparr>)"
    using Cons.prems by (intro read_frame) (simp_all add: f)
  then show ?case
    using Cons.IH [of "s\<lparr>io_in := encode_frames fs\<rparr>"] Cons.prems(1) by (subst read_all.simps) (simp add: f)
qed

section \<open>Name-value pairs\<close>

text \<open>The encoding of the FastCGI specification: one byte below 128, otherwise four bytes with the top bit set.\<close>

definition encode_length :: "nat \<Rightarrow> byte list" where
  "encode_length n =
     (if n < 128 then [of_nat n]
      else [of_nat (128 + n div 2 ^ 24), of_nat (n div 2 ^ 16), of_nat (n div 2 ^ 8), of_nat n])"

definition encode_pair :: "byte list \<times> byte list \<Rightarrow> byte list" where
  "encode_pair = (\<lambda>(n, v). encode_length (length n) @ encode_length (length v) @ n @ v)"

definition encode_params :: "(byte list \<times> byte list) list \<Rightarrow> byte list" where
  "encode_params kvs = concat (map encode_pair kvs)"

lemma encode_params_simps [simp]: "encode_params [] = []" "encode_params (p # ps) = encode_pair p @ encode_params ps"
  by (simp_all add: encode_params_def)

lemma top_bit: "(b :: byte) AND 0x80 = 0 \<longleftrightarrow> unat b < 128" and low_bits: "128 \<le> unat b \<Longrightarrow> unat (b AND 0x7f) = unat b - 128"
proof -
  have "\<forall>n < 256. ((of_nat n :: byte) AND 0x80 = 0) = (n < 128) \<and> (128 \<le> n \<longrightarrow> unat ((of_nat n :: byte) AND 0x7f) = n - 128)"
    by code_simp
  moreover have "unat b < 256" using unsigned_less [of b] by simp
  ultimately have "((of_nat (unat b) :: byte) AND 0x80 = 0) = (unat b < 128) \<and>
      (128 \<le> unat b \<longrightarrow> unat ((of_nat (unat b) :: byte) AND 0x7f) = unat b - 128)"
    by blast
  then show "b AND 0x80 = 0 \<longleftrightarrow> unat b < 128" "128 \<le> unat b \<Longrightarrow> unat (b AND 0x7f) = unat b - 128"
    by simp_all
qed

lemma four_bytes:
  assumes "n < 2 ^ 31"
  shows "2 ^ 24 * (n div 2 ^ 24) + 2 ^ 16 * (n div 2 ^ 16 mod 256) + 2 ^ 8 * (n div 2 ^ 8 mod 256) + n mod 256 = (n :: nat)"
proof -
  define a where "a = n div 256"
  define b where "b = a div 256"
  define c where "c = b div 256"
  have "n div 2 ^ 8 = a" "n div 2 ^ 16 = b" "n div 2 ^ 24 = c"
    by (simp_all add: a_def b_def c_def flip: div_mult2_eq)
  moreover have "n = 256 * a + n mod 256" "a = 256 * b + a mod 256" "b = 256 * c + b mod 256"
    unfolding a_def b_def c_def by (simp_all only: mult_div_mod_eq)
  ultimately show ?thesis by simp
qed

lemma byte_of_nat: "m < 256 \<Longrightarrow> unat (of_nat m :: byte) = m"
  by (simp add: unat_of_nat)

lemma decode_encode_length:
  assumes "n < 2 ^ 31" and "drop off data = encode_length n @ r" and "off \<le> length data"
  shows "decode_length data off = Some (Some (off + length (encode_length n), n))"
proof (cases "n < 128")
  case True
  then have d: "drop off data = of_nat n # r" using assms(2) by (simp add: encode_length_def)
  then have "off < length data" "data ! off = of_nat n"
    by (metis drop_all list.distinct(1) not_le) (metis d nth_via_drop)
  then show ?thesis using True
    by (simp add: decode_length_def rd_byte_def top_bit unat_of_nat encode_length_def)
next
  case False
  let ?b = "[of_nat (128 + n div 2 ^ 24), of_nat (n div 2 ^ 16), of_nat (n div 2 ^ 8), of_nat n] :: byte list"
  have d: "drop off data = ?b @ r" using assms(2) False by (simp add: encode_length_def)
  have len: "off + 4 \<le> length data" using arg_cong [OF d, of length] assms(3) by simp
  have nth: "data ! (off + k) = (?b @ r) ! k" for k
    using d assms(3) by (metis nth_drop)
  have top: "unat (of_nat (128 + n div 2 ^ 24) :: byte) = 128 + n div 2 ^ 24"
    using assms(1) by (intro byte_of_nat) (simp add: less_mult_imp_div_less)
  show ?thesis
    using False len nth [of 0] nth [of 1] nth [of 2] nth [of 3] top four_bytes [OF assms(1)]
    by (simp add: decode_length_def rd_byte_def top_bit low_bits encode_length_def unat_of_nat)
qed

definition pair_ok :: "byte list \<times> byte list \<Rightarrow> bool" where
  "pair_ok = (\<lambda>(n, v). length n < 2 ^ 31 \<and> length v < 2 ^ 31)"

definition store_all :: "(byte list \<times> byte list) list \<Rightarrow> request_t \<Rightarrow> request_t" where
  "store_all kvs rq = foldl (\<lambda>rq (n, v). store_param n v rq) rq kvs"

lemma store_all_simps [simp]:
  "store_all [] rq = rq" "store_all ((n, v) # kvs) rq = store_all kvs (store_param n v rq)"
  by (simp_all add: store_all_def)

lemma encode_length_pos: "0 < length (encode_length n)"
  by (simp add: encode_length_def)

lemma param_turn_encoded:
  assumes "pair_ok (n, v)" and "drop off data = encode_pair (n, v) @ r" and "off \<le> length data"
  shows "param_turn data off rq = Some (Some (off + length (encode_pair (n, v)), store_param n v rq))"
    and "off < length data" and "drop (off + length (encode_pair (n, v))) data = r"
proof -
  let ?a = "encode_length (length n)" and ?b = "encode_length (length v)"
  have d: "drop off data = ?a @ ?b @ n @ v @ r" using assms(2) by (simp add: encode_pair_def)
  have len: "length data = off + (length ?a + (length ?b + (length n + (length v + length r))))"
    using arg_cong [OF d, of length] assms(3) by simp
  have d1: "drop (off + length ?a) data = ?b @ n @ v @ r"
    using arg_cong [OF d, of "drop (length ?a)"] by (simp add: add.commute)
  have d2: "drop (off + length ?a + length ?b) data = n @ v @ r"
    using arg_cong [OF d1, of "drop (length ?b)"] by (simp add: ac_simps)
  have d3: "drop (off + length ?a + length ?b + length n) data = v @ r"
    using arg_cong [OF d2, of "drop (length n)"] by (simp add: ac_simps)
  have "decode_length data off = Some (Some (off + length ?a, length n))"
    using assms(1) d len by (intro decode_encode_length) (auto simp: pair_ok_def)
  moreover have "decode_length data (off + length ?a) = Some (Some (off + length ?a + length ?b, length v))"
    using assms(1) d1 len by (intro decode_encode_length) (auto simp: pair_ok_def)
  ultimately show "param_turn data off rq = Some (Some (off + length (encode_pair (n, v)), store_param n v rq))"
    using d2 d3 len by (simp add: param_turn_def encode_pair_def)
  show "off < length data" using len encode_length_pos [of "length n"] by simp
  show "drop (off + length (encode_pair (n, v))) data = r"
    using arg_cong [OF d3, of "drop (length v)"] by (simp add: encode_pair_def ac_simps)
qed

lemma params_loop_encoded:
  "list_all pair_ok kvs \<Longrightarrow> off \<le> length data \<Longrightarrow> drop off data = encode_params kvs \<Longrightarrow>
     params_loop data off rq = Some (rq_method (store_all kvs rq) ! 0 \<noteq> 0, store_all kvs rq)"
proof (induction kvs arbitrary: off rq)
  case Nil
  then show ?case by (simp add: params_loop.simps)
next
  case (Cons kv kvs)
  obtain n v where kv: "kv = (n, v)" by (cases kv)
  note turn = param_turn_encoded [of n v off data "encode_params kvs"]
  have "params_loop data (off + length (encode_pair (n, v))) (store_param n v rq)
      = Some (rq_method (store_all (kv # kvs) rq) ! 0 \<noteq> 0, store_all (kv # kvs) rq)"
    using Cons.prems turn Cons.IH [of "off + length (encode_pair (n, v))" "store_param n v rq"]
      param_turn_advances [of data off rq]
    by (simp add: kv)
  then show ?case
    using Cons.prems turn by (subst params_loop.simps) (simp add: kv)
qed

section \<open>Memory safety\<close>

definition strings_ok :: "request_t \<Rightarrow> bool" where
  "strings_ok rq \<longleftrightarrow> length (rq_method rq) = max_method \<and> length (rq_path rq) = max_path \<and> length (rq_query rq) = max_query
     \<and> nul_terminated (rq_method rq) \<and> nul_terminated (rq_path rq) \<and> nul_terminated (rq_query rq)"

definition request_ok :: "request_t \<Rightarrow> bool" where
  "request_ok rq \<longleftrightarrow> rq_request_id rq < 65536 \<and> length (rq_params rq) \<le> max_params \<and> length (rq_body rq) \<le> max_body \<and> strings_ok rq"

lemma length_copy_param [simp]: "0 < length dest \<Longrightarrow> length (copy_param dest v) = length dest"
  by (cases dest) (auto simp: copy_param_def Let_def)

lemma copy_param_nul [simp]: "nul_terminated (copy_param dest v)"
  by (simp add: copy_param_def Let_def)

lemma store_param_ok: "strings_ok rq \<Longrightarrow> strings_ok (store_param n v rq)"
  by (simp add: store_param_def strings_ok_def fcgi_limits del: bytes_of_Cons)

lemma store_param_other [simp]:
  "rq_request_id (store_param n v rq) = rq_request_id rq" "rq_body (store_param n v rq) = rq_body rq"
  "rq_params (store_param n v rq) = rq_params rq"
  by (simp_all add: store_param_def del: bytes_of_Cons)

lemma decode_length_safe: "\<exists>r. decode_length data off = Some r"
  by (auto simp: decode_length_def rd_byte_def)

lemma param_turn_safe: "param_turn data off rq \<noteq> None"
proof -
  obtain r where r: "decode_length data off = Some r" using decode_length_safe by blast
  show ?thesis
  proof (cases r)
    case (Some p)
    then show ?thesis
      using r decode_length_safe [of data "fst p"] by (cases p) (auto simp: param_turn_def split: option.split)
  qed (use r in \<open>simp add: param_turn_def\<close>)
qed

lemma param_turn_store: "param_turn data off rq = Some (Some (o', rq')) \<Longrightarrow> \<exists>n v. rq' = store_param n v rq"
  by (auto simp: param_turn_def split: bind_splits option.splits if_splits) blast

lemma params_loop_safe:
  "strings_ok rq \<Longrightarrow> \<exists>ok rq'. params_loop data off rq = Some (ok, rq') \<and> strings_ok rq'
     \<and> rq_request_id rq' = rq_request_id rq \<and> rq_body rq' = rq_body rq \<and> rq_params rq' = rq_params rq"
proof (induction data off rq rule: params_loop.induct)
  case (1 data off rq)
  show ?case
  proof (cases "off < length data")
    case True
    show ?thesis
    proof (cases "param_turn data off rq")
      case None
      then show ?thesis using param_turn_safe by blast
    next
      case (Some t)
      show ?thesis
      proof (cases t)
        case None
        then show ?thesis using True Some "1.prems" by (subst params_loop.simps) auto
      next
        case (Some p)
        obtain o' rq' where p: "p = (o', rq')" by (cases p)
        have turn: "param_turn data off rq = Some (Some (o', rq'))" using Some p \<open>param_turn data off rq = Some t\<close> by simp
        then obtain n v where st: "rq' = store_param n v rq" using param_turn_store by blast
        have "strings_ok rq'" using st store_param_ok "1.prems" by simp
        from "1.IH" [OF True turn refl refl this] show ?thesis
          using True turn st by (subst params_loop.simps) simp
      qed
    qed
  qed (use "1.prems" in \<open>simp add: params_loop.simps\<close>)
qed

lemma parse_params_safe:
  assumes "strings_ok rq"
  obtains ok rq' where "parse_params rq = Some (ok, rq')" and "strings_ok rq'"
    and "rq_request_id rq' = rq_request_id rq" and "rq_body rq' = rq_body rq" and "rq_params rq' = rq_params rq"
proof -
  have "strings_ok (rq\<lparr>rq_method := (rq_method rq)[0 := 0], rq_path := (rq_path rq)[0 := 0], rq_query := (rq_query rq)[0 := 0]\<rparr>)"
    using assms by (simp add: strings_ok_def nul_terminated_def fcgi_limits set_update_memI)
  from params_loop_safe [OF this, of "rq_params rq" 0] show ?thesis
    using that by (auto simp: parse_params_def)
qed

section \<open>Replies\<close>

definition status_bytes :: "nat \<Rightarrow> byte list" where
  "status_bytes a = [of_nat (a div 2 ^ 24), of_nat (a div 2 ^ 16), of_nat (a div 2 ^ 8), of_nat a, 0, 0, 0, 0]"

definition end_frames :: "nat \<Rightarrow> nat \<Rightarrow> (byte \<times> nat \<times> byte list) list" where
  "end_frames i a = [(fcgi_stdout, i, []), (fcgi_end_request, i, status_bytes a)]"

definition error_frames :: "nat \<Rightarrow> byte list \<Rightarrow> (byte \<times> nat \<times> byte list) list" where
  "error_frames i msg = data_frames fcgi_stderr i (Some msg) @ data_frames fcgi_stdout i (Some error_prefix)
     @ data_frames fcgi_stdout i (Some msg) @ data_frames fcgi_stdout i (Some [10]) @ end_frames i 1"

lemma send_end_out:
  "io_room s = None \<Longrightarrow> send_end i a s = s\<lparr>io_out := io_out s @ encode_frames (end_frames i a)\<rparr>"
  by (simp add: send_end_def write_record_out end_frames_def data_frames_def status_bytes_def split_chunks_small)

lemma send_error_out:
  "io_room s = None \<Longrightarrow> send_error i msg s = s\<lparr>io_out := io_out s @ encode_frames (error_frames i msg)\<rparr>"
  by (simp add: send_error_def write_record_out send_end_out error_frames_def)

text \<open>
  A complete reply to request \<open>i\<close>: output and error text, the empty record that closes stdout, and one
  \<open>END_REQUEST\<close>.
\<close>

definition body_frame :: "nat \<Rightarrow> byte \<times> nat \<times> byte list \<Rightarrow> bool" where
  "body_frame i f \<longleftrightarrow> fst (snd f) = i \<and> fst f \<in> {fcgi_stdout, fcgi_stderr} \<and> snd (snd f) \<noteq> [] \<and> length (snd (snd f)) < 65536"

definition reply :: "nat \<Rightarrow> (byte \<times> nat \<times> byte list) list \<Rightarrow> bool" where
  "reply i fs \<longleftrightarrow> i < 65536 \<and> (\<exists>fs' a. fs = fs' @ end_frames i a \<and> list_all (body_frame i) fs')"

lemma data_frames_body: "t \<in> {fcgi_stdout, fcgi_stderr} \<Longrightarrow> list_all (body_frame i) (data_frames t i (Some b))"
  by (auto simp: data_frames_def body_frame_def list_all_iff dest!: split_chunks_bound)

lemma reply_error: "i < 65536 \<Longrightarrow> reply i (error_frames i msg)"
  unfolding reply_def error_frames_def
  by (rule conjI, assumption, rule exI, rule exI [of _ 1])
     (simp only: append.assoc [symmetric], rule conjI, rule refl, simp add: data_frames_body)

lemma reply_response: "i < 65536 \<Longrightarrow> reply i (data_frames fcgi_stdout i (Some b) @ end_frames i 0)"
  unfolding reply_def using data_frames_body [of fcgi_stdout] by blast

lemma reply_frames_ok: "reply i fs \<Longrightarrow> list_all frame_ok fs"
  by (fastforce simp: reply_def end_frames_def status_bytes_def frame_ok_def body_frame_def list_all_iff)

definition addrs_ok :: "req_addrs \<Rightarrow> bool" where
  "addrs_ok ad \<longleftrightarrow> 0 \<notin> {ad_method ad, ad_path ad, ad_query ad, ad_body ad}
     \<and> distinct [ad_method ad, ad_path ad, ad_query ad, ad_body ad]"

lemma request_wires:
  fixes m :: cmem
  assumes "addrs_ok ad" and "strings_ok rq"
  defines "m' \<equiv> request_mem ad rq m"
  obtains a b c where
    "gengo_wire_str m' (ad_method ad) = Some a" and "string_wire_ok m' a" and "wire_string m' a = cstr (rq_method rq)"
    and "gengo_wire_str m' (ad_path ad) = Some b" and "string_wire_ok m' b" and "wire_string m' b = cstr (rq_path rq)"
    and "gengo_wire_str m' (ad_query ad) = Some c" and "string_wire_ok m' c" and "wire_string m' c = cstr (rq_query rq)"
proof -
  have blocks: "mem_bytes m' (ad_method ad) = Some (rq_method rq)" "mem_bytes m' (ad_path ad) = Some (rq_path rq)"
    "mem_bytes m' (ad_query ad) = Some (rq_query rq)"
    using assms(1) by (auto simp: m'_def request_mem_def addrs_ok_def)
  have nz: "ad_method ad \<noteq> 0" "ad_path ad \<noteq> 0" "ad_query ad \<noteq> 0" using assms(1) by (auto simp: addrs_ok_def)
  have "\<exists>v. gengo_wire_str m' p = Some v \<and> string_wire_ok m' v \<and> wire_string m' v = cstr b"
    if "p \<noteq> 0" "mem_bytes m' p = Some b" "nul_terminated b" "length b \<le> 4096" for p b
    using gengo_wire_str_ok [OF that(1-3)] that(4) by fastforce
  from this [OF nz(1) blocks(1)] this [OF nz(2) blocks(2)] this [OF nz(3) blocks(3)] show thesis
    using assms(2) that unfolding strings_ok_def fcgi_limits by auto
qed

lemma body_wire:
  fixes m :: cmem
  assumes "addrs_ok ad" and "length (rq_body rq) \<le> max_body"
  defines "m' \<equiv> request_mem ad rq m"
  defines "d \<equiv> gengo_wire_str_n (ad_body ad) (of_nat (length (rq_body rq)))"
  shows "string_wire_ok m' d" and "wire_string m' d = rq_body rq"
proof -
  have "unat (of_nat (length (rq_body rq)) :: u32) = length (rq_body rq)"
    using assms(2) by (simp add: unat_of_nat max_body_def)
  then show "string_wire_ok m' d" "wire_string m' d = rq_body rq"
    using assms(1) by (auto simp: d_def m'_def gengo_defs string_wire_ok_def wire_string_def request_mem_def addrs_ok_def)
qed

context engine_contract
begin

lemma log_engine_error_safe:
  assumes "engine_ok (io_eng s)"
  obtains l where "log_engine_error api e p s = Some (s\<lparr>io_log := l\<rparr>)"
proof -
  obtain r b where rb: "api_last_error api e 511 (io_eng s) = (r, b)" by fastforce
  from last_error_fits [OF assms rb] have "length b \<le> 512" by auto
  then show thesis using that rb by (auto simp: log_engine_error_def stack_buf_def Let_def)
qed

lemma run_request_replies:
  assumes ok: "engine_ok (io_eng s)" and rq: "request_ok rq" and ad: "addrs_ok ad" and room: "io_room s = None"
  obtains rq' s' fs where "run_request api ad e rq s = Some (rq', s')" and "request_ok rq'" and "engine_ok (io_eng s')"
    and "io_room s' = None" and "io_out s' = io_out s @ encode_frames fs" and "reply (rq_request_id rq) fs"
proof -
  obtain good rq' where p: "parse_params rq = Some (good, rq')" "strings_ok rq'"
      "rq_request_id rq' = rq_request_id rq" "rq_body rq' = rq_body rq" "rq_params rq' = rq_params rq"
    using rq parse_params_safe [of rq] unfolding request_ok_def by blast
  have rq': "request_ok rq'" and id: "rq_request_id rq < 65536" using rq p by (auto simp: request_ok_def)
  obtain a b c where w: "gengo_wire_str (request_mem ad rq' (io_mem s)) (ad_method ad) = Some a"
      "gengo_wire_str (request_mem ad rq' (io_mem s)) (ad_path ad) = Some b"
      "gengo_wire_str (request_mem ad rq' (io_mem s)) (ad_query ad) = Some c"
    using request_wires [OF ad p(2)] by metis
  let ?d = "gengo_wire_str_n (ad_body ad) (of_nat (length (rq_body rq')))"
  obtain rc out m w' where call: "api_call api e (slice_of (bytes_of ''handle'')) [a, b, c, ?d]
      (request_mem ad rq' (io_mem s)) (io_eng s) = (rc, out, m, w')" by (metis prod_cases3)
  note res = call_result [OF ok call]
  let ?s = "s\<lparr>io_mem := m, io_eng := w'\<rparr>"
  have ok': "engine_ok (io_eng ?s)" and room': "io_room ?s = None" using res room by simp_all
  have body: "\<not> max_body < length (rq_body rq')" using rq p by (simp add: request_ok_def)
  note run = run_request_def p(1) body w call
  show thesis
  proof (cases "good \<and> rc = 0")
    case False
    show thesis
    proof (cases good)
      case True
      with False have "rc \<noteq> 0" by simp
      obtain l where l: "log_engine_error api e msg_handler ?s = Some (?s\<lparr>io_log := l\<rparr>)"
        using log_engine_error_safe [OF ok'] .
      show thesis
      proof (rule that [of _ _ "error_frames (rq_request_id rq) msg_handler"])
        show "run_request api ad e rq s = Some (rq', send_error (rq_request_id rq') msg_handler (?s\<lparr>io_log := l\<rparr>))"
          using True \<open>rc \<noteq> 0\<close> l by (simp add: run del: bytes_of_Cons)
      qed (use rq' ok' room' id p(3) in \<open>simp_all add: send_error_out reply_error\<close>)
    next
      case False
      show thesis
      proof (rule that [of _ _ "error_frames (rq_request_id rq) msg_params"])
        show "run_request api ad e rq s = Some (rq', send_error (rq_request_id rq') msg_params s)"
          using False by (simp add: run del: bytes_of_Cons)
      qed (use rq' ok room id p(3) in \<open>simp_all add: send_error_out reply_error\<close>)
    qed
  next
    case True
    then obtain v where v: "out = Some v" "w_tag v = tag_code GENGO_WIRE_STRING \<and> w_payload v \<noteq> 0 \<longrightarrow> string_wire_ok m v"
      using res by auto
    show thesis
    proof (cases "w_tag v = tag_code GENGO_WIRE_STRING \<and> w_payload v \<noteq> 0")
      case False
      show thesis
      proof (rule that [of _ _ "error_frames (rq_request_id rq) msg_string"])
        show "run_request api ad e rq s = Some (rq', send_error (rq_request_id rq') msg_string ?s)"
          using True False v by (simp add: run del: bytes_of_Cons tag_code.simps)
      qed (use rq' ok' room' id p(3) in \<open>simp_all add: send_error_out reply_error\<close>)
    next
      case str: True
      then obtain response where r: "load_bytes m (w_payload v) (unat (w_len v)) = Some response"
        using v(2) by (auto simp: string_wire_ok_def load_bytes_def)
      let ?s' = "snd (write_record fcgi_stdout (rq_request_id rq') (Some response) ?s)"
      show thesis
      proof (rule that [of _ _ "data_frames fcgi_stdout (rq_request_id rq) (Some response) @ end_frames (rq_request_id rq) 0"])
        show "run_request api ad e rq s = Some (rq', send_end (rq_request_id rq') 0 ?s')"
          using True str v r by (simp add: run del: bytes_of_Cons tag_code.simps)
      qed (use rq' ok' room' id p(3) in \<open>simp_all add: write_record_out send_end_out reply_response\<close>)
    qed
  qed
qed

end

lemma request_zero_ok: "i < 65536 \<Longrightarrow> request_ok (request_zero\<lparr>rq_request_id := i, rq_active := True\<rparr>)"
  by (simp add: request_ok_def strings_ok_def request_zero_def nul_terminated_def fcgi_limits)

definition only_in :: "'w fcgi \<Rightarrow> 'w fcgi \<Rightarrow> bool" where
  "only_in s s' \<longleftrightarrow> (\<exists>x b. s' = s\<lparr>io_in := x, io_in_err := b\<rparr>)"

lemma only_in_trans: "only_in s t \<Longrightarrow> only_in t u \<Longrightarrow> only_in s u"
  unfolding only_in_def by clarsimp blast

lemma only_in_c_fread: "c_fread n s = (b, s') \<Longrightarrow> only_in s s'"
  by (auto simp: only_in_def c_fread_def)

lemma only_in_read_exact: "read_exact n s = (ok, b, s') \<Longrightarrow> only_in s s'"
  by (cases s) (auto simp: only_in_def read_exact_def c_fread_def split: if_splits)

lemma only_in_discard: "discard_exact n s = (ok, s') \<Longrightarrow> only_in s s'"
  by (cases s; cases "n \<le> length (io_in s)") (auto simp: only_in_def discard_exact_short)

lemma only_in_header: "read_record_header s = (r, s') \<Longrightarrow> only_in s s'"
  by (auto simp: read_record_header_def Let_def split: prod.splits if_splits
      dest!: only_in_c_fread only_in_read_exact intro: only_in_trans)

lemma only_in_read_record: "read_record s = (r, s') \<Longrightarrow> only_in s s'"
  by (auto simp: read_record_def Let_def split: prod.splits if_splits header_result.splits
      dest!: only_in_header only_in_read_exact only_in_discard intro: only_in_trans)

lemma read_record_header_ok:
  assumes "read_record s = (Rec h c, s')" shows "h_request_id h < 65536 \<and> length c = h_content_len h"
proof -
  obtain i j :: byte where "h_request_id h = 256 * unat i + unat j" "length c = h_content_len h"
    using read_record_Rec [OF assms] by (metis record_header_t.select_convs(2))
  moreover have "unat i < 256" "unat j < 256" using unsigned_less [of i] unsigned_less [of j] by simp_all
  ultimately show ?thesis by simp
qed

context engine_contract
begin

lemma handle_record_replies:
  assumes ok: "engine_ok (io_eng s)" and rq: "request_ok rq" and ad: "addrs_ok ad" and room: "io_room s = None"
    and h: "h_request_id h < 65536" "length c = h_content_len h"
  obtains rq' s' fs where "handle_record api ad e h c rq s = Some (rq', s')" and "request_ok rq'"
    and "engine_ok (io_eng s')" and "io_room s' = None" and "io_out s' = io_out s @ encode_frames fs"
    and "fs = [] \<or> (\<exists>i. reply i fs)"
proof -
  note result = that
  have id: "rq_request_id rq < 65536" using rq by (simp add: request_ok_def)
  have silent: thesis if "handle_record api ad e h c rq s = Some (rq', s)" "request_ok rq'" for rq'
    using that ok room result [of rq' s "[]"] by simp
  have err: thesis if "handle_record api ad e h c rq s = Some (rq', send_error i msg s)" "request_ok rq'" "i < 65536" for rq' i msg
    using that ok room result [of rq' "send_error i msg s" "error_frames i msg"] reply_error [of i msg]
    by (auto simp: send_error_out)
  have off: "request_ok (rq\<lparr>rq_active := b\<rparr>)" "request_ok (rq\<lparr>rq_params_complete := b\<rparr>)" for b
    using rq by (simp_all add: request_ok_def strings_ok_def)
  consider (start) "h_type h = fcgi_begin_request"
    | (other) "h_type h \<noteq> fcgi_begin_request" "\<not> rq_active rq \<or> h_request_id h \<noteq> rq_request_id rq"
    | (params) "h_type h = fcgi_params" "rq_active rq" "h_request_id h = rq_request_id rq"
    | (stdin) "h_type h = fcgi_stdin" "rq_active rq" "h_request_id h = rq_request_id rq"
    | (ign) "h_type h \<notin> {fcgi_begin_request, fcgi_params, fcgi_stdin}" "rq_active rq" "h_request_id h = rq_request_id rq"
    by blast
  then show thesis
  proof cases
    case start
    then show thesis
      using err [of rq "h_request_id h" msg_single] silent [of "request_zero\<lparr>rq_request_id := h_request_id h, rq_active := True\<rparr>"]
        rq h request_zero_ok [OF h(1)]
      by (cases "h_content_len h < 3 \<or> rq_active rq \<or> 256 * unat (c ! 0) + unat (c ! 1) \<noteq> fcgi_responder")
         (simp_all add: handle_record_def)
  next
    case other
    then show thesis using silent [OF _ rq] by (auto simp: handle_record_def)
  next
    case params
    have app: "append_within max_params (rq_params rq) c = Some (rq_params rq @ c)"
        "request_ok (rq\<lparr>rq_params := rq_params rq @ c\<rparr>)"
      if "\<not> max_params < length (rq_params rq) + h_content_len h"
      using that h rq by (simp_all add: append_within_def request_ok_def strings_ok_def)
    show thesis
      using params app err [OF _ off(1) id, of False msg_params_limit] silent [OF _ off(2), of True]
        silent [of "rq\<lparr>rq_params := rq_params rq @ c\<rparr>"]
      by (cases "h_content_len h = 0"; cases "max_params < length (rq_params rq) + h_content_len h")
         (simp_all add: handle_record_def fcgi_consts)
  next
    case stdin
    have app: "append_within (max_body + 1) (rq_body rq) c = Some (rq_body rq @ c)"
        "request_ok (rq\<lparr>rq_body := rq_body rq @ c\<rparr>)"
      if "\<not> max_body < length (rq_body rq) + h_content_len h"
      using that h rq by (simp_all add: append_within_def request_ok_def strings_ok_def)
    obtain rq' s' fs where run: "run_request api ad e rq s = Some (rq', s')" "request_ok rq'" "engine_ok (io_eng s')"
        "io_room s' = None" "io_out s' = io_out s @ encode_frames fs" "reply (rq_request_id rq) fs"
      using run_request_replies [OF ok rq ad room] .
    have "request_ok (rq'\<lparr>rq_active := False\<rparr>)" using run(2) by (simp add: request_ok_def strings_ok_def)
    then have run': thesis if "handle_record api ad e h c rq s = Some (rq'\<lparr>rq_active := False\<rparr>, s')"
      using that run result by blast
    show thesis
      using stdin app err [OF _ off(1) id, of False msg_body_limit] err [OF _ off(1) id, of False msg_stdin_early]
        silent [of "rq\<lparr>rq_body := rq_body rq @ c\<rparr>"] run' run(1)
      by (cases "h_content_len h = 0"; cases "max_body < length (rq_body rq) + h_content_len h"; cases "rq_params_complete rq")
         (simp_all add: handle_record_def fcgi_consts)
  next
    case ign
    then show thesis using silent [OF _ rq] by (auto simp: handle_record_def)
  qed
qed

lemma loop_replies:
  "engine_ok (io_eng s) \<Longrightarrow> request_ok rq \<Longrightarrow> addrs_ok ad \<Longrightarrow> io_room s = None \<Longrightarrow>
     \<exists>s' rs. fcgi_loop api ad e rq s = Some s' \<and> io_out s' = io_out s @ encode_frames (concat rs)
       \<and> list_all (\<lambda>r. \<exists>i. reply i r) rs \<and> engine_ok (io_eng s')"
proof (induction "length (io_in s)" arbitrary: rq s rule: less_induct)
  case less
  obtain r s1 where rd: "read_record s = (r, s1)" by fastforce
  show ?case
  proof (cases r)
    case RecEnd
    then show ?thesis
      using less.prems rd only_in_read_record [OF rd]
      by (subst fcgi_loop.simps) (auto simp: only_in_def intro!: exI [of _ "[]"])
  next
    case RecBad
    then show ?thesis
      using less.prems rd only_in_read_record [OF rd]
      by (subst fcgi_loop.simps) (auto simp: only_in_def intro!: exI [of _ "[]"])
  next
    case (Rec h c)
    with rd have rr: "read_record s = (Rec h c, s1)" by simp
    obtain x b where s1: "s1 = s\<lparr>io_in := x, io_in_err := b\<rparr>"
      using only_in_read_record [OF rr] by (auto simp: only_in_def)
    note h = read_record_header_ok [OF rr]
    obtain rq2 s2 fs where hr: "handle_record api ad e h c rq s1 = Some (rq2, s2)" "request_ok rq2" "engine_ok (io_eng s2)"
        "io_room s2 = None" "io_out s2 = io_out s1 @ encode_frames fs" "fs = [] \<or> (\<exists>i. reply i fs)"
    proof (rule handle_record_replies [of s1 rq ad h c e])
    qed (use less.prems h s1 in auto)
    have "length (io_in s2) < length (io_in s)"
      using handle_record_in [OF hr(1)] read_record_shrinks [OF rr] by simp
    from less.hyps [OF this hr(3,2) less.prems(3) hr(4)] obtain s' rs where
      "fcgi_loop api ad e rq2 s2 = Some s'" "io_out s' = io_out s2 @ encode_frames (concat rs)"
      "list_all (\<lambda>r. \<exists>i. reply i r) rs" "engine_ok (io_eng s')" by blast
    then show ?thesis
      using rr hr s1 by (subst fcgi_loop.simps) (auto intro!: exI [of _ "if fs = [] then rs else fs # rs"])
  qed
qed

end

section \<open>A whole request\<close>

lemma loop_frame:
  assumes "frame_ok (t, i, b)" and "io_in s = frame_bytes (t, i, b) @ r"
  shows "fcgi_loop api ad e rq s =
    (case handle_record api ad e \<lparr>h_type = t, h_request_id = i, h_content_len = length b, h_padding_len = pad_len (length b)\<rparr> b
            rq (s\<lparr>io_in := r\<rparr>) of
       None \<Rightarrow> None | Some (rq, s) \<Rightarrow> fcgi_loop api ad e rq s)"
  by (subst fcgi_loop.simps) (simp add: read_frame [OF assms])

lemma io_in_same [simp]: "s\<lparr>io_in := io_in s\<rparr> = s"
  by (cases s) simp

lemma loop_params:
  "rq_active rq \<Longrightarrow> rq_request_id rq = i \<Longrightarrow> i < 65536 \<Longrightarrow> [] \<notin> set ps \<Longrightarrow> \<forall>p \<in> set ps. length p < 65536 \<Longrightarrow>
     length (rq_params rq) + length (concat ps) \<le> max_params \<Longrightarrow>
     io_in s = encode_frames (map (\<lambda>p. (fcgi_params, i, p)) ps) @ r \<Longrightarrow>
     fcgi_loop api ad e rq s = fcgi_loop api ad e (rq\<lparr>rq_params := rq_params rq @ concat ps\<rparr>) (s\<lparr>io_in := r\<rparr>)"
proof (induction ps arbitrary: rq s)
  case (Cons p ps)
  let ?r = "encode_frames (map (\<lambda>p. (fcgi_params, i, p)) ps) @ r"
  have "fcgi_loop api ad e rq s = fcgi_loop api ad e (rq\<lparr>rq_params := rq_params rq @ p\<rparr>) (s\<lparr>io_in := ?r\<rparr>)"
    using Cons.prems by (subst loop_frame [of fcgi_params i p s ?r])
      (auto simp: frame_ok_def handle_record_def fcgi_consts append_within_def)
  then show ?case
    using Cons.IH [of "rq\<lparr>rq_params := rq_params rq @ p\<rparr>" "s\<lparr>io_in := ?r\<rparr>"] Cons.prems by simp
qed auto

lemma loop_stdin:
  "rq_active rq \<Longrightarrow> rq_request_id rq = i \<Longrightarrow> i < 65536 \<Longrightarrow> [] \<notin> set bs \<Longrightarrow> \<forall>p \<in> set bs. length p < 65536 \<Longrightarrow>
     length (rq_body rq) + length (concat bs) \<le> max_body \<Longrightarrow>
     io_in s = encode_frames (map (\<lambda>p. (fcgi_stdin, i, p)) bs) @ r \<Longrightarrow>
     fcgi_loop api ad e rq s = fcgi_loop api ad e (rq\<lparr>rq_body := rq_body rq @ concat bs\<rparr>) (s\<lparr>io_in := r\<rparr>)"
proof (induction bs arbitrary: rq s)
  case (Cons p bs)
  let ?r = "encode_frames (map (\<lambda>p. (fcgi_stdin, i, p)) bs) @ r"
  have "fcgi_loop api ad e rq s = fcgi_loop api ad e (rq\<lparr>rq_body := rq_body rq @ p\<rparr>) (s\<lparr>io_in := ?r\<rparr>)"
    using Cons.prems by (subst loop_frame [of fcgi_stdin i p s ?r])
      (auto simp: frame_ok_def handle_record_def fcgi_consts append_within_def)
  then show ?case
    using Cons.IH [of "rq\<lparr>rq_body := rq_body rq @ p\<rparr>" "s\<lparr>io_in := ?r\<rparr>"] Cons.prems by simp
qed auto

text \<open>What a web server sends for one request: the parameters and the body may be cut into records anywhere.\<close>

definition request_frames :: "nat \<Rightarrow> byte list list \<Rightarrow> byte list list \<Rightarrow> (byte \<times> nat \<times> byte list) list" where
  "request_frames i ps bs = (fcgi_begin_request, i, [0, 1, 0, 0, 0, 0, 0, 0])
     # map (\<lambda>p. (fcgi_params, i, p)) ps @ [(fcgi_params, i, [])] @ map (\<lambda>b. (fcgi_stdin, i, b)) bs @ [(fcgi_stdin, i, [])]"

definition chunks_ok :: "nat \<Rightarrow> byte list list \<Rightarrow> bool" where
  "chunks_ok cap ps \<longleftrightarrow> [] \<notin> set ps \<and> (\<forall>p \<in> set ps. length p < 65536) \<and> length (concat ps) \<le> cap"

definition full_request :: "nat \<Rightarrow> byte list \<Rightarrow> byte list \<Rightarrow> request_t" where
  "full_request i p b = request_zero\<lparr>rq_request_id := i, rq_active := True, rq_params_complete := True, rq_params := p, rq_body := b\<rparr>"

lemma loop_request:
  assumes "\<not> rq_active rq" and "i < 65536" and "chunks_ok max_params ps" and "chunks_ok max_body bs"
    and "io_in s = encode_frames (request_frames i ps bs) @ r"
  shows "fcgi_loop api ad e rq s =
    (case run_request api ad e (full_request i (concat ps) (concat bs)) (s\<lparr>io_in := r\<rparr>) of
       None \<Rightarrow> None | Some (rq, s) \<Rightarrow> fcgi_loop api ad e (rq\<lparr>rq_active := False\<rparr>) s)"
proof -
  let ?last = "encode_frames [(fcgi_stdin, i, [])] @ r"
  let ?body = "encode_frames (map (\<lambda>b. (fcgi_stdin, i, b)) bs) @ ?last"
  let ?close = "encode_frames [(fcgi_params, i, [])] @ ?body"
  let ?params = "encode_frames (map (\<lambda>p. (fcgi_params, i, p)) ps) @ ?close"
  let ?rq = "request_zero\<lparr>rq_request_id := i, rq_active := True\<rparr>"
  have io: "io_in s = frame_bytes (fcgi_begin_request, i, [0, 1, 0, 0, 0, 0, 0, 0]) @ ?params"
    using assms(5) by (simp add: request_frames_def)
  have "fcgi_loop api ad e rq s = fcgi_loop api ad e ?rq (s\<lparr>io_in := ?params\<rparr>)"
    using assms by (subst loop_frame [OF _ io]) (auto simp: frame_ok_def handle_record_def fcgi_consts)
  also have "\<dots> = fcgi_loop api ad e (?rq\<lparr>rq_params := concat ps\<rparr>) (s\<lparr>io_in := ?close\<rparr>)"
    using assms by (subst loop_params [where i = i and ps = ps and r = ?close])
      (auto simp: chunks_ok_def request_zero_def)
  also have "\<dots> = fcgi_loop api ad e (?rq\<lparr>rq_params := concat ps, rq_params_complete := True\<rparr>) (s\<lparr>io_in := ?body\<rparr>)"
    using assms by (subst loop_frame [of fcgi_params i "[]" _ ?body])
      (auto simp: frame_ok_def handle_record_def fcgi_consts)
  also have "\<dots> = fcgi_loop api ad e (full_request i (concat ps) (concat bs)) (s\<lparr>io_in := ?last\<rparr>)"
    using assms by (subst loop_stdin [where i = i and bs = bs and r = ?last])
      (auto simp: chunks_ok_def request_zero_def full_request_def)
  also have "\<dots> = (case run_request api ad e (full_request i (concat ps) (concat bs)) (s\<lparr>io_in := r\<rparr>) of
       None \<Rightarrow> None | Some (rq, s) \<Rightarrow> fcgi_loop api ad e (rq\<lparr>rq_active := False\<rparr>) s)"
    using assms by (subst loop_frame [of fcgi_stdin i "[]" _ r])
      (auto simp: frame_ok_def handle_record_def fcgi_consts full_request_def split: option.split bind_split)
  finally show ?thesis .
qed

text \<open>The recognised parameters: the last occurrence of a name decides, cut to the array.\<close>

definition last_value :: "byte list \<Rightarrow> nat \<Rightarrow> (byte list \<times> byte list) list \<Rightarrow> byte list" where
  "last_value name cap kvs = (case map_of (rev kvs) name of None \<Rightarrow> [] | Some v \<Rightarrow> cstr (take (cap - 1) v))"

lemma cstr_copy_param: "0 < length dest \<Longrightarrow> cstr (copy_param dest v) = cstr (take (length dest - 1) v)"
  by (auto simp: copy_param_def Let_def)

lemma store_all_snoc: "store_all (kvs @ [(n, v)]) rq = store_param n v (store_all kvs rq)"
  by (simp add: store_all_def)

lemma store_all_strings: "strings_ok rq \<Longrightarrow> strings_ok (store_all kvs rq)"
  by (induction kvs rule: rev_induct) (auto simp: store_all_snoc store_param_ok)

lemma store_all_other: "rq_request_id (store_all kvs rq) = rq_request_id rq \<and> rq_body (store_all kvs rq) = rq_body rq"
  by (induction kvs rule: rev_induct) (auto simp: store_all_snoc)

lemma store_all_method:
  assumes "strings_ok rq" and "cstr (rq_method rq) = []"
  shows "cstr (rq_method (store_all kvs rq)) = last_value (bytes_of ''REQUEST_METHOD'') max_method kvs"
proof (induction kvs rule: rev_induct)
  case (snoc kv kvs)
  obtain n v where kv: "kv = (n, v)" by (cases kv)
  have "length (rq_method (store_all kvs rq)) = max_method"
    using store_all_strings [OF assms(1)] by (simp add: strings_ok_def)
  then show ?case
    using snoc by (simp add: kv store_all_snoc store_param_def last_value_def cstr_copy_param fcgi_limits del: bytes_of_Cons)
qed (use assms in \<open>simp add: last_value_def\<close>)

lemma store_all_query:
  assumes "strings_ok rq" and "cstr (rq_query rq) = []"
  shows "cstr (rq_query (store_all kvs rq)) = last_value (bytes_of ''QUERY_STRING'') max_query kvs"
proof (induction kvs rule: rev_induct)
  case (snoc kv kvs)
  obtain n v where kv: "kv = (n, v)" by (cases kv)
  have "length (rq_query (store_all kvs rq)) = max_query"
    using store_all_strings [OF assms(1)] by (simp add: strings_ok_def)
  moreover have "bytes_of ''QUERY_STRING'' \<noteq> bytes_of ''REQUEST_METHOD''" "bytes_of ''QUERY_STRING'' \<noteq> bytes_of ''SCRIPT_NAME''"
    "bytes_of ''QUERY_STRING'' \<noteq> bytes_of ''PATH_INFO''"
    by (auto dest: arg_cong [of _ _ length])
  ultimately show ?case
    using snoc by (auto simp: kv store_all_snoc store_param_def last_value_def cstr_copy_param fcgi_limits simp del: bytes_of_Cons)
qed (use assms in \<open>simp add: last_value_def\<close>)


lemma cstr_empty_iff: "0 < length b \<Longrightarrow> cstr b = [] \<longleftrightarrow> b ! 0 = 0"
  by (cases b) (simp_all add: cstr_def)

text \<open>The path is the last \<open>SCRIPT_NAME\<close>; \<open>PATH_INFO\<close> only fills it while it is empty.\<close>

definition path_value :: "(byte list \<times> byte list) list \<Rightarrow> byte list" where
  "path_value kvs = foldl (\<lambda>p (n, v). if n = bytes_of ''SCRIPT_NAME'' \<or> n = bytes_of ''PATH_INFO'' \<and> p = []
     then cstr (take (max_path - 1) v) else p) [] kvs"

lemma store_all_path:
  assumes "strings_ok rq" and "cstr (rq_path rq) = []"
  shows "cstr (rq_path (store_all kvs rq)) = path_value kvs"
proof (induction kvs rule: rev_induct)
  case (snoc kv kvs)
  obtain n v where kv: "kv = (n, v)" by (cases kv)
  have len: "length (rq_path (store_all kvs rq)) = max_path"
    using store_all_strings [OF assms(1)] by (simp add: strings_ok_def)
  then have e: "rq_path (store_all kvs rq) ! 0 = 0 \<longleftrightarrow> path_value kvs = []"
    using cstr_empty_iff [of "rq_path (store_all kvs rq)"] snoc by (simp add: max_path_def)
  have d: "bytes_of ''SCRIPT_NAME'' \<noteq> bytes_of ''REQUEST_METHOD''" "bytes_of ''PATH_INFO'' \<noteq> bytes_of ''REQUEST_METHOD''"
    by (auto dest: arg_cong [of _ _ length])
  have "path_value (kvs @ [(n, v)]) = (if n = bytes_of ''SCRIPT_NAME'' \<or> n = bytes_of ''PATH_INFO'' \<and> path_value kvs = []
      then cstr (take (max_path - 1) v) else path_value kvs)"
    unfolding path_value_def by simp
  then show ?case
    using snoc len e d by (auto simp: kv store_all_snoc store_param_def cstr_copy_param max_path_def simp del: bytes_of_Cons)
qed (use assms in \<open>simp add: path_value_def\<close>)

definition cleared :: "request_t \<Rightarrow> request_t" where
  "cleared rq = rq\<lparr>rq_method := (rq_method rq)[0 := 0], rq_path := (rq_path rq)[0 := 0], rq_query := (rq_query rq)[0 := 0]\<rparr>"

lemma cstr_cleared: "0 < length b \<Longrightarrow> cstr (b[0 := 0]) = []"
  by (cases b) (simp_all add: cstr_def)

lemma cleared_ok: "strings_ok rq \<Longrightarrow> strings_ok (cleared rq)"
  by (simp add: cleared_def strings_ok_def nul_terminated_def fcgi_limits set_update_memI)

lemma parse_encoded:
  assumes "list_all pair_ok kvs" and "rq_params rq = encode_params kvs" and "strings_ok rq"
  defines "rq' \<equiv> store_all kvs (cleared rq)"
  shows "parse_params rq = Some (last_value (bytes_of ''REQUEST_METHOD'') max_method kvs \<noteq> [], rq')"
    and "cstr (rq_method rq') = last_value (bytes_of ''REQUEST_METHOD'') max_method kvs"
    and "cstr (rq_query rq') = last_value (bytes_of ''QUERY_STRING'') max_query kvs"
    and "cstr (rq_path rq') = path_value kvs" and "strings_ok rq'" and "rq_body rq' = rq_body rq" and "rq_request_id rq' = rq_request_id rq"
proof -
  have c: "strings_ok (cleared rq)" "cstr (rq_method (cleared rq)) = []" "cstr (rq_query (cleared rq)) = []"
    "cstr (rq_path (cleared rq)) = []"
    using assms(3) cleared_ok by (simp_all add: cleared_def cstr_cleared strings_ok_def fcgi_limits)
  show m: "cstr (rq_method rq') = last_value (bytes_of ''REQUEST_METHOD'') max_method kvs"
    unfolding rq'_def using c by (intro store_all_method)
  show "cstr (rq_query rq') = last_value (bytes_of ''QUERY_STRING'') max_query kvs"
    unfolding rq'_def using c by (intro store_all_query)
  show "cstr (rq_path rq') = path_value kvs"
    unfolding rq'_def using c by (intro store_all_path)
  show ok: "strings_ok rq'" unfolding rq'_def using c by (intro store_all_strings)
  show "rq_body rq' = rq_body rq" "rq_request_id rq' = rq_request_id rq"
    by (simp_all add: rq'_def store_all_other cleared_def)
  have "rq_method rq' ! 0 \<noteq> 0 \<longleftrightarrow> last_value (bytes_of ''REQUEST_METHOD'') max_method kvs \<noteq> []"
    unfolding m [symmetric] using ok by (subst cstr_empty_iff) (auto simp: strings_ok_def max_method_def)
  then show "parse_params rq = Some (last_value (bytes_of ''REQUEST_METHOD'') max_method kvs \<noteq> [], rq')"
    using params_loop_encoded [OF assms(1), of 0 "rq_params rq" "cleared rq"] assms(2)
    by (simp add: parse_params_def cleared_def rq'_def)
qed

text \<open>
  An engine whose script function \<open>handle\<close> computes \<open>f\<close>: called with four readable strings it returns a readable
  string with the value of \<open>f\<close> on them.
\<close>

definition runs_handler ::
  "'w engine_api \<Rightarrow> int \<Rightarrow> (byte list \<Rightarrow> byte list \<Rightarrow> byte list \<Rightarrow> byte list \<Rightarrow> byte list) \<Rightarrow> bool" where
  "runs_handler api e f \<longleftrightarrow> (\<forall>a b c d m w. list_all (string_wire_ok m) [a, b, c, d] \<longrightarrow>
     (\<exists>v m' w'. api_call api e (slice_of (bytes_of ''handle'')) [a, b, c, d] m w = (0, Some v, m', w')
        \<and> string_wire_ok m' v \<and> wire_string m' v = f (wire_string m a) (wire_string m b) (wire_string m c) (wire_string m d)))"

section \<open>Claims\<close>

text \<open>
  What \<open>write_record\<close> puts on stdout, the host's own record reader gives back: records of the same type and
  request id whose contents concatenate to the data, each within 65535 bytes, every record padded to a multiple of
  eight bytes; a null pointer gives one empty record.
\<close>

theorem fcgi_record_roundtrip:
  assumes "io_room s = None" and "request_id < 65536"
  shows "\<exists>out cs. write_record type request_id data s = (True, s\<lparr>io_out := io_out s @ out\<rparr>)
    \<and> 8 dvd length out \<and> read_all (s\<lparr>io_in := out\<rparr>) = Some (map (\<lambda>c. (type, request_id, c)) cs)
    \<and> concat cs = (case data of None \<Rightarrow> [] | Some b \<Rightarrow> b) \<and> (data = None \<longrightarrow> cs = [[]])"
proof -
  define cs where "cs = (case data of None \<Rightarrow> [[]] | Some b \<Rightarrow> split_chunks b)"
  have fs: "data_frames type request_id data = map (\<lambda>c. (type, request_id, c)) cs"
    by (simp add: data_frames_def cs_def split: option.split)
  have "list_all frame_ok (map (\<lambda>c. (type, request_id, c)) cs)"
    using assms(2) by (auto simp: cs_def list_all_iff frame_ok_def dest!: split_chunks_bound split: option.splits)
  then have "read_all (s\<lparr>io_in := encode_frames (data_frames type request_id data)\<rparr>)
      = Some (map (\<lambda>c. (type, request_id, c)) cs)"
    by (intro read_all_frames) (simp_all add: fs)
  moreover have "concat cs = (case data of None \<Rightarrow> [] | Some b \<Rightarrow> b)" "data = None \<longrightarrow> cs = [[]]"
    by (simp_all add: cs_def concat_split_chunks split: option.split)
  ultimately show ?thesis
    using write_record_out [OF assms(1)] frame_aligned by blast
qed

definition demo_fcgi :: "unit fcgi" where
  "demo_fcgi = \<lparr>io_in = [], io_in_fails = False, io_in_err = False, io_out = [], io_room = None, io_out_err = False,
     io_log = [], io_junk = [], io_mem = demo_mem, io_eng = ()\<rparr>"

theorem fcgi_record_roundtrip_witness:
  "\<exists>out cs. write_record 6 1 (Some [104, 105]) demo_fcgi = (True, demo_fcgi\<lparr>io_out := io_out demo_fcgi @ out\<rparr>)
    \<and> 8 dvd length out \<and> read_all (demo_fcgi\<lparr>io_in := out\<rparr>) = Some (map (\<lambda>c. (6, 1, c)) cs) \<and> concat cs = [104, 105]"
  using fcgi_record_roundtrip [of demo_fcgi 1 6 "Some [104, 105]"] by (auto simp: demo_fcgi_def)

text \<open>
  The parameter decoder inverts the FastCGI encoding: for any list of name-value pairs it accepts the encoded
  bytes exactly when the last \<open>REQUEST_METHOD\<close> is non-empty, and the method and the query string are the last values
  given, cut to their arrays. Names and values of any length below \<open>2 ^ 31\<close> are covered, both encodings included.
\<close>

theorem fcgi_params_decode:
  assumes "list_all pair_ok kvs" and "rq_params rq = encode_params kvs" and "strings_ok rq"
  shows "\<exists>rq'. parse_params rq = Some (last_value (bytes_of ''REQUEST_METHOD'') max_method kvs \<noteq> [], rq')
    \<and> cstr (rq_method rq') = last_value (bytes_of ''REQUEST_METHOD'') max_method kvs
    \<and> cstr (rq_path rq') = path_value kvs
    \<and> cstr (rq_query rq') = last_value (bytes_of ''QUERY_STRING'') max_query kvs \<and> rq_body rq' = rq_body rq"
  using parse_encoded [OF assms] by blast

theorem fcgi_params_decode_witness:
  "\<exists>rq'. parse_params (full_request 1 (encode_params [(bytes_of ''REQUEST_METHOD'', [71, 69, 84])]) [])
     = Some (last_value (bytes_of ''REQUEST_METHOD'') max_method [(bytes_of ''REQUEST_METHOD'', [71, 69, 84])] \<noteq> [], rq')"
  using fcgi_params_decode [of "[(bytes_of ''REQUEST_METHOD'', [71, 69, 84])]"
      "full_request 1 (encode_params [(bytes_of ''REQUEST_METHOD'', [71, 69, 84])]) []"]
  by (auto simp: pair_ok_def full_request_def strings_ok_def request_zero_def nul_terminated_def fcgi_limits
      simp del: bytes_of_Cons)


definition demo_api :: "unit engine_api" where
  "demo_api = \<lparr>api_init = (\<lambda>w. (1, w)), api_init_with_config = (\<lambda>c w. (1, w)), api_destroy = (\<lambda>h w. w), api_reset = (\<lambda>h w. w),
     api_run = (\<lambda>h s w. (0, w)), api_run_path = (\<lambda>h s p w. (0, w)),
     api_call = (\<lambda>h n args m w. (0, Some (gengo_wire_str_n 64 2), demo_mem, w)),
     api_load_bundle = (\<lambda>h n z w. (0, w)), api_load_bundle_dir = (\<lambda>h n d w. (0, w)), api_last_error = (\<lambda>h n w. (0, [])),
     api_last_error_line = (\<lambda>h w. 0), api_last_error_col = (\<lambda>h w. 0), api_set_write_fn = (\<lambda>h w. w), api_take_output = (\<lambda>w. ([], w))\<rparr>"

definition demo_addrs :: req_addrs where
  "demo_addrs = \<lparr>ad_method = 1, ad_path = 2, ad_query = 3, ad_body = 4\<rparr>"

definition demo_params :: "(byte list \<times> byte list) list" where
  "demo_params = [(bytes_of ''REQUEST_METHOD'', [71, 69, 84])]"


end
