(* ===== verification/FirmwareGate.thy ===== *)
theory FirmwareGate
  imports HostApi "HOL-Library.Monad_Syntax"
begin

text \<open>
  The firmware rollout gate \<open>examples/firmware-gate-c/main.c\<close>: for each device of a fixed table the host asks the
  script's \<open>allow_update\<close> whether the update may go ahead, and prints the verdict; a call that fails is a refusal.
  The functions keep their names with the prefix \<open>fw\<close> where another host has one of the same name.
  \<open>lit\<close> is the address of each constant string. A result \<open>None\<close> is undefined behaviour of the program.
\<close>

section \<open>Tables\<close>

record device_case_t =
  dc_model :: "byte list"
  dc_serial :: "byte list"
  dc_region :: "byte list"
  dc_current_build :: int
  dc_target_build :: int
  dc_battery_percent :: int

definition enabled_models :: "byte list list" where
  "enabled_models = [bytes_of ''meter-v1'', bytes_of ''gateway-x'', bytes_of ''sensor-pro'']"

definition blocked_serials :: "byte list list" where
  "blocked_serials = [bytes_of ''SN-BLOCK-77'', bytes_of ''SN-REVOKED-13'']"

fun str_in_list :: "byte list \<Rightarrow> byte list list \<Rightarrow> int" where
  "str_in_list s [] = 0"
| "str_in_list s (x # xs) = (if cstr s = cstr x then 1 else str_in_list s xs)"

definition model_enabled :: "byte list \<Rightarrow> int" where
  "model_enabled model = str_in_list model enabled_models"

definition serial_blocked :: "byte list \<Rightarrow> int" where
  "serial_blocked serial = str_in_list serial blocked_serials"

definition mk_case :: "string \<Rightarrow> string \<Rightarrow> string \<Rightarrow> int \<Rightarrow> int \<Rightarrow> int \<Rightarrow> device_case_t" where
  "mk_case m s r c t b = \<lparr>dc_model = bytes_of m, dc_serial = bytes_of s, dc_region = bytes_of r, dc_current_build = c,
     dc_target_build = t, dc_battery_percent = b\<rparr>"

definition device_cases :: "device_case_t list" where
  "device_cases =
    [mk_case ''meter-v1'' ''SN-1001'' ''eu'' 4100 4200 82,
     mk_case ''meter-v1'' ''SN-1002'' ''us'' 4100 4200 76,
     mk_case ''gateway-x'' ''SN-2001'' ''us'' 4800 4900 88,
     mk_case ''gateway-x'' ''SN-REVOKED-13'' ''us'' 4800 5200 91,
     mk_case ''sensor-pro'' ''SN-3001'' ''apac'' 2000 2100 12,
     mk_case ''sensor-pro'' ''SN-3002'' ''mars'' 2000 2100 55]"

section \<open>Helpers\<close>

definition fw_log_engine_error :: "'w engine_api \<Rightarrow> int \<Rightarrow> byte list \<Rightarrow> 'w host \<Rightarrow> 'w host option" where
  "fw_log_engine_error api engine what s =
     (let (n, written) = api_last_error api engine 512 (ho_eng s);
          n = (if n < 0 then 0 else n);
          n = (if 512 < n then 512 else n)
      in do {
        buf \<leftarrow> stack_buf (ho_junk s) 512 written;
        text \<leftarrow> fmt_prec n buf;
        Some (engine_error_line api engine what text s)
      })"

text \<open>The write callback, and the calls of it that the library made in the meantime.\<close>

definition fw_script_write :: "byte list \<times> bool \<Rightarrow> 'w host \<Rightarrow> 'w host" where
  "fw_script_write w s =
     (let line = bytes_of ''[script] '' @ cstr (fst w) in if snd w then puts_err line s else puts_out line s)"

definition fw_deliver :: "'w engine_api \<Rightarrow> 'w host \<Rightarrow> 'w host" where
  "fw_deliver api s = (let (ws, w) = api_take_output api (ho_eng s) in fold fw_script_write ws (set_eng w s))"

text \<open>A short read keeps what was read; \<open>buf[nread]\<close> is within the \<open>size + 1\<close> bytes.\<close>

definition fw_read_file :: "file_system \<Rightarrow> (nat \<Rightarrow> bool) \<Rightarrow> byte list \<Rightarrow> byte list option" where
  "fw_read_file files malloc_ok path =
     (case files path of None \<Rightarrow> None
      | Some f \<Rightarrow>
          if \<not> f_seek_end f then None
          else if f_tell f < 0 then None
          else if \<not> f_seek_set f then None
          else if \<not> malloc_ok (nat (f_tell f) + 1) then None
          else Some (take (nat (f_tell f)) (f_bytes f)))"

text \<open>A call of a script function: the result code, the out parameter (null where the callee left it) and the state.\<close>

definition fw_call ::
  "'w engine_api \<Rightarrow> int \<Rightarrow> byte list \<Rightarrow> gengo_value_wire_t list \<Rightarrow> 'w host \<Rightarrow> int \<times> gengo_value_wire_t \<times> 'w host" where
  "fw_call api engine fn_name args s =
     (let (rc, out, m, w) = api_call api engine (slice_of fn_name) args (ho_mem s) (ho_eng s)
      in (rc, (case out of None \<Rightarrow> gengo_wire_null | Some v \<Rightarrow> v), fw_deliver api (set_eng w (s\<lparr>ho_mem := m\<rparr>))))"

definition call_bool_fn ::
  "'w engine_api \<Rightarrow> int \<Rightarrow> byte list \<Rightarrow> gengo_value_wire_t list \<Rightarrow> 'w host \<Rightarrow> int \<times> bool option \<times> 'w host" where
  "call_bool_fn api engine fn_name args s =
     (let (rc, out, s) = fw_call api engine fn_name args s
      in if rc \<noteq> 0 then (rc, None, s) else (0, Some (gengo_wire_as_bool out), s))"

definition call_string_fn ::
  "'w engine_api \<Rightarrow> int \<Rightarrow> byte list \<Rightarrow> byte list \<Rightarrow> 'w host \<Rightarrow> (int \<times> byte list \<times> 'w host) option" where
  "call_string_fn api engine fn_name buf s =
     (let (rc, out, s) = fw_call api engine fn_name [] s
      in if rc \<noteq> 0 then Some (rc, buf, s)
         else do { (n, buf) \<leftarrow> gengo_wire_read_str (ho_mem s) out buf; Some (0, buf, s) })"

section \<open>main\<close>

definition fw_config :: gengo_instance_config_t where
  "fw_config = \<lparr>heap_size_bytes = 512 * 1024, max_objects = 2048, max_stack = 512, max_frames = 64,
     max_defers = 128, max_ops = 200000, allow_io = False\<rparr>"

definition fw_device_line :: "device_case_t \<Rightarrow> byte list" where
  "fw_device_line c =
     bytes_of ''device model='' @ dc_model c @ bytes_of '' serial='' @ dc_serial c @ bytes_of '' region='' @ dc_region c
     @ bytes_of '' current='' @ dec_int (dc_current_build c) @ bytes_of '' target='' @ dec_int (dc_target_build c)
     @ bytes_of '' battery='' @ dec_int (dc_battery_percent c) @ bytes_of ''%'' @ [10]"

definition fw_args :: "cmem \<Rightarrow> (byte list \<Rightarrow> u64) \<Rightarrow> device_case_t \<Rightarrow> gengo_value_wire_t list option" where
  "fw_args m lit c = do {
     a \<leftarrow> gengo_wire_str m (lit (dc_model c));
     b \<leftarrow> gengo_wire_str m (lit (dc_region c));
     Some [a, b, gengo_wire_int (dc_current_build c), gengo_wire_int (dc_target_build c),
       gengo_wire_bool (model_enabled (dc_model c)), gengo_wire_bool (serial_blocked (dc_serial c)),
       gengo_wire_int (dc_battery_percent c)]
   }"

definition fw_fail :: "byte list" where "fw_fail = bytes_of ''  -> FAIL CLOSED'' @ [10, 10]"
definition fw_allow :: "byte list" where "fw_allow = bytes_of ''  -> ALLOW'' @ [10, 10]"
definition fw_deny :: "byte list" where "fw_deny = bytes_of ''  -> DENY'' @ [10, 10]"
definition fw_deny_reason :: "byte list \<Rightarrow> byte list" where
  "fw_deny_reason r = bytes_of ''  -> DENY ('' @ (if r \<noteq> [] then r else bytes_of ''no reason'') @ bytes_of '')'' @ [10, 10]"

text \<open>One turn of the loop over the devices.\<close>

definition fw_device :: "'w engine_api \<Rightarrow> (byte list \<Rightarrow> u64) \<Rightarrow> int \<Rightarrow> device_case_t \<Rightarrow> 'w host \<Rightarrow> 'w host option" where
  "fw_device api lit engine c s = do {
     let s = s\<lparr>ho_mem := put_lits lit [dc_model c, dc_region c] (ho_mem s)\<rparr>;
     args \<leftarrow> fw_args (ho_mem s) lit c;
     let s = puts_out (fw_device_line c) s;
     let (rc, allowed, s) = call_bool_fn api engine (bytes_of ''allow_update'') args s;
     if rc \<noteq> 0 then do {
       s \<leftarrow> fw_log_engine_error api engine (bytes_of ''policy call failed'') s;
       Some (puts_out fw_fail s)
     }
     else if allowed = Some True then Some (puts_out fw_allow s)
     else do {
       reason \<leftarrow> stack_buf (ho_junk s) 256 [];
       (rc, reason, s) \<leftarrow> call_string_fn api engine (bytes_of ''last_reason'') reason s;
       if rc \<noteq> 0 then do {
         s \<leftarrow> fw_log_engine_error api engine (bytes_of ''could not fetch reject reason'') s;
         Some (puts_out fw_deny s)
       }
       else if \<not> nul_terminated reason then None
       else Some (puts_out (fw_deny_reason (cstr reason)) s)
     }
   }"

fun fw_devices :: "'w engine_api \<Rightarrow> (byte list \<Rightarrow> u64) \<Rightarrow> int \<Rightarrow> device_case_t list \<Rightarrow> 'w host \<Rightarrow> 'w host option" where
  "fw_devices api lit engine [] s = Some s"
| "fw_devices api lit engine (c # cs) s = do { s \<leftarrow> fw_device api lit engine c s; fw_devices api lit engine cs s }"

definition fw_banner :: "byte list \<Rightarrow> byte list" where
  "fw_banner script_path = 10 # bytes_of ''Firmware rollout gate '' @ [0xe2, 0x80, 0x94]
     @ bytes_of '' native C host with Gengoscript policy'' @ [10] @ replicate 68 61 @ [10]
     @ bytes_of ''script: '' @ script_path @ [10, 10]"

text \<open>\<open>main\<close> once the script has been read: it is run, and when it loads the devices are asked for.\<close>

definition fw_session ::
  "'w engine_api \<Rightarrow> (byte list \<Rightarrow> u64) \<Rightarrow> int \<Rightarrow> byte list \<Rightarrow> byte list \<Rightarrow> 'w host \<Rightarrow> (int \<times> 'w host) option" where
  "fw_session api lit engine script script_path s =
     (let (rc, w) = api_run_path api engine (slice_of script) (slice_of script_path) (ho_eng s);
          s = fw_deliver api (set_eng w s)
      in if rc \<noteq> 0 then do {
           s \<leftarrow> fw_log_engine_error api engine (bytes_of ''policy load failed'') s;
           Some (1, set_eng (api_destroy api engine (ho_eng s)) s)
         }
         else do {
           s \<leftarrow> fw_devices api lit engine device_cases (puts_out (fw_banner script_path) s);
           Some (0, set_eng (api_destroy api engine (ho_eng s)) s)
         })"

definition fw_main ::
  "'w engine_api \<Rightarrow> (byte list \<Rightarrow> u64) \<Rightarrow> file_system \<Rightarrow> (nat \<Rightarrow> bool) \<Rightarrow> byte list option \<Rightarrow> 'w host \<Rightarrow> (int \<times> 'w host) option" where
  "fw_main api lit files malloc_ok arg s =
     (let script_path = (case arg of Some p \<Rightarrow> p | None \<Rightarrow> bytes_of ''policy.gengo'');
          (engine, w) = api_init_with_config api (Some fw_config) (ho_eng s);
          s = set_eng w s
      in if engine \<le> 0
         then Some (1, puts_err (bytes_of ''engine_init_with_config failed ('' @ dec_int engine @ bytes_of '')'' @ [10]) s)
         else let s = set_eng (api_set_write_fn api engine (ho_eng s)) s in
           case fw_read_file files malloc_ok script_path of
             None \<Rightarrow>
               let s = puts_err (bytes_of ''cannot read script: '' @ script_path @ [10]) s
               in Some (1, set_eng (api_destroy api engine (ho_eng s)) s)
           | Some script \<Rightarrow> fw_session api lit engine script script_path s)"

end
