(* ===== verification/FirmwareGateProps.thy ===== *)
theory FirmwareGateProps
  imports FirmwareGate "HOL-Library.Sublist"
begin

text \<open>
  The rollout gate is fail-closed: the verdict \<open>ALLOW\<close> is printed for a device exactly when the script's
  \<open>allow_update\<close> was called with that device's data and returned the boolean true. In the contract of the engine the
  program is free of undefined behaviour, and gives back the engine on every path.
\<close>

section \<open>Frames\<close>

lemma fw_script_write_frame [simp]:
  "ho_eng (fw_script_write w s) = ho_eng s" "ho_mem (fw_script_write w s) = ho_mem s" "ho_junk (fw_script_write w s) = ho_junk s"
  by (simp_all add: fw_script_write_def Let_def)

lemma fw_script_writes_frame [simp]:
  "ho_eng (fold fw_script_write ws s) = ho_eng s" "ho_mem (fold fw_script_write ws s) = ho_mem s"
  "ho_junk (fold fw_script_write ws s) = ho_junk s"
  by (induction ws arbitrary: s) simp_all

lemma fw_deliver_frame [simp]:
  "ho_mem (fw_deliver api s) = ho_mem s" "ho_junk (fw_deliver api s) = ho_junk s"
  "ho_eng (fw_deliver api s) = snd (api_take_output api (ho_eng s))"
  by (simp_all add: fw_deliver_def Let_def split: prod.splits)

lemma fw_log_frame:
  "fw_log_engine_error api e what s = Some s' \<Longrightarrow>
     ho_eng s' = ho_eng s \<and> ho_mem s' = ho_mem s \<and> ho_junk s' = ho_junk s \<and> ho_out s' = ho_out s"
  by (auto simp: fw_log_engine_error_def Let_def split: prod.splits bind_splits)

section \<open>Undefined behaviour\<close>

lemma fw_args_ok: "\<exists>args. fw_args (put_lits lit [dc_model c, dc_region c] m) lit c = Some args"
  using put_lits_wire [of "dc_model c" "[dc_model c, dc_region c]" lit m]
    put_lits_wire [of "dc_region c" "[dc_model c, dc_region c]" lit m]
  by (auto simp: fw_args_def)

context engine_contract
begin

lemma fw_log_safe:
  assumes "engine_ok (ho_eng s)"
  shows "defined (\<lambda>s'. engine_ok (ho_eng s') \<and> ho_out s' = ho_out s) (fw_log_engine_error api e what s)"
proof -
  obtain n b where nb: "api_last_error api e 512 (ho_eng s) = (n, b)" by fastforce
  with last_error_fits [OF assms nb] have n: "0 \<le> n" "int (length b) = min n 512" by auto
  show ?thesis
    unfolding fw_log_engine_error_def nb Let_def prod.case
    using n assms by (intro defined_bind [OF stack_buf_defined] defined_bind [OF fmt_prec_defined]) auto
qed

lemma fw_call_ok:
  assumes "engine_ok (ho_eng s)" and "fw_call api e fn args s = (rc, v, s')"
  shows "engine_ok (ho_eng s')"
    "rc = 0 \<Longrightarrow> w_tag v = tag_code GENGO_WIRE_STRING \<and> w_payload v \<noteq> 0 \<longrightarrow> string_wire_ok (ho_mem s') v"
proof -
  obtain out m w where c: "api_call api e (slice_of fn) args (ho_mem s) (ho_eng s) = (rc, out, m, w)"
    and v: "v = (case out of None \<Rightarrow> gengo_wire_null | Some v \<Rightarrow> v)" "s' = fw_deliver api (set_eng w (s\<lparr>ho_mem := m\<rparr>))"
    using assms(2) by (auto simp: fw_call_def Let_def split: prod.splits)
  note r = call_result [OF assms(1) c]
  show "engine_ok (ho_eng s')" using r write_ok v(2) by simp
  show "w_tag v = tag_code GENGO_WIRE_STRING \<and> w_payload v \<noteq> 0 \<longrightarrow> string_wire_ok (ho_mem s') v" if "rc = 0"
    using r that v by auto
qed

lemma call_string_fn_safe:
  assumes "engine_ok (ho_eng s)" and "buf \<noteq> []"
  shows "defined (\<lambda>(rc, buf', s'). engine_ok (ho_eng s') \<and> (rc = 0 \<longrightarrow> nul_terminated buf')) (call_string_fn api e fn buf s)"
proof -
  obtain rc v t where call: "fw_call api e fn [] s = (rc, v, t)" using prod_cases3 by blast
  note t = fw_call_ok [OF assms(1) call]
  show ?thesis
    using t read_str_defined [OF assms(2), of v "ho_mem t"] by (auto simp: call_string_fn_def call Let_def)
qed

lemma fw_device_safe:
  assumes ok: "engine_ok (ho_eng s)"
  shows "defined (\<lambda>s'. engine_ok (ho_eng s')) (fw_device api lit e c s)"
proof -
  define s1 where "s1 = s\<lparr>ho_mem := put_lits lit [dc_model c, dc_region c] (ho_mem s)\<rparr>"
  obtain args where args: "fw_args (ho_mem s1) lit c = Some args" using fw_args_ok [of lit c "ho_mem s"] by (auto simp: s1_def)
  obtain rc v s2 where call: "fw_call api e (bytes_of ''allow_update'') args (puts_out (fw_device_line c) s1) = (rc, v, s2)"
    using prod_cases3 by blast
  have ok2: "engine_ok (ho_eng s2)" using fw_call_ok(1) [OF _ call] ok by (simp add: s1_def)
  have fail: "defined (\<lambda>s'. engine_ok (ho_eng s')) (fw_log_engine_error api e what t \<bind> (\<lambda>s. Some (puts_out b s)))"
    if "engine_ok (ho_eng t)" for what t b
    using that by (intro defined_bind [OF fw_log_safe]) auto
  have deny: "defined (\<lambda>s'. engine_ok (ho_eng s')) (stack_buf (ho_junk s2) 256 [] \<bind> (\<lambda>reason.
      call_string_fn api e (bytes_of ''last_reason'') reason s2 \<bind> (\<lambda>(rc, reason, s).
        if rc \<noteq> 0 then fw_log_engine_error api e (bytes_of ''could not fetch reject reason'') s \<bind> (\<lambda>s. Some (puts_out fw_deny s))
        else if \<not> nul_terminated reason then None else Some (puts_out (fw_deny_reason (cstr reason)) s))))"
    using ok2 fail by (intro defined_bind [OF stack_buf_defined] defined_bind [OF call_string_fn_safe]) auto
  show ?thesis
    using fail [OF ok2] deny ok2
    by (auto simp: fw_device_def s1_def [symmetric] args call call_bool_fn_def simp del: bytes_of_Cons)
qed

lemma fw_devices_safe:
  "engine_ok (ho_eng s) \<Longrightarrow> defined (\<lambda>s'. engine_ok (ho_eng s')) (fw_devices api lit e cs s)"
  by (induction cs arbitrary: s) (auto intro: defined_bind [OF fw_device_safe])

lemma fw_session_safe:
  assumes "engine_ok (ho_eng s)"
  shows "defined (\<lambda>(rc, s'). engine_ok (ho_eng s') \<and> rc = (if fst (api_run_path api e (slice_of b) (slice_of p) (ho_eng s)) = 0 then 0 else 1))
    (fw_session api lit e b p s)"
proof -
  obtain rc w where run: "api_run_path api e (slice_of b) (slice_of p) (ho_eng s) = (rc, w)" by fastforce
  let ?t = "fw_deliver api (set_eng w s)"
  have t: "engine_ok (ho_eng ?t)" "engine_ok (ho_eng (puts_out (fw_banner p) ?t))"
    using run_ok [OF assms, of e "slice_of b" "slice_of p"] run write_ok by simp_all
  show ?thesis
    unfolding fw_session_def run Let_def prod.case fst_conv
    using drop_ok by (auto intro!: defined_bind [OF fw_log_safe [OF t(1)]] defined_bind [OF fw_devices_safe [OF t(2)]])
qed

text \<open>The program has no undefined behaviour, and it exits with 0 exactly when the policy was loaded.\<close>

lemma fw_main_safe:
  assumes "engine_ok (ho_eng s)"
  shows "defined (\<lambda>(rc, s'). engine_ok (ho_eng s') \<and> rc \<in> {0, 1}) (fw_main api lit files malloc_ok arg s)"
proof -
  obtain e w where init: "api_init_with_config api (Some fw_config) (ho_eng s) = (e, w)" by fastforce
  then have w: "engine_ok w" using init_ok [OF assms, of "Some fw_config"] by simp
  let ?s = "set_eng (api_set_write_fn api e w) (set_eng w s)"
  have s: "engine_ok (ho_eng ?s)" using write_ok [OF w] by simp
  have "defined (\<lambda>(rc, s'). engine_ok (ho_eng s') \<and> rc \<in> {0, 1}) (fw_session api lit e b p ?s)" for b p
    by (rule defined_mono [OF fw_session_safe [OF s]]) (auto split: if_splits)
  then show ?thesis
    using w drop_ok [OF s] by (auto simp: fw_main_def init Let_def simp del: bytes_of_Cons split: option.split)
qed

end

section \<open>The verdict\<close>

text \<open>The four endings of the output are told apart by the third byte from the end, or the one before.\<close>

lemma verdict_suffix:
  "suffix fw_allow (x @ fw_allow)" "\<not> suffix fw_allow (x @ fw_fail)" "\<not> suffix fw_allow (x @ fw_deny)"
  "\<not> suffix fw_allow (x @ fw_deny_reason r)"
  by (simp_all add: suffix_to_prefix fw_allow_def fw_fail_def fw_deny_def fw_deny_reason_def)

definition fw_expected_args :: "(byte list \<Rightarrow> u64) \<Rightarrow> device_case_t \<Rightarrow> gengo_value_wire_t list" where
  "fw_expected_args lit c =
     [gengo_wire_str_n (lit (dc_model c)) (of_nat (length (dc_model c))),
      gengo_wire_str_n (lit (dc_region c)) (of_nat (length (dc_region c))),
      gengo_wire_int (dc_current_build c), gengo_wire_int (dc_target_build c),
      gengo_wire_bool (if dc_model c \<in> set enabled_models then 1 else 0),
      gengo_wire_bool (if dc_serial c \<in> set blocked_serials then 1 else 0),
      gengo_wire_int (dc_battery_percent c)]"

lemma str_in_list_iff:
  "0 \<notin> set s \<Longrightarrow> \<forall>x \<in> set xs. 0 \<notin> set x \<Longrightarrow> str_in_list s xs = (if s \<in> set xs then 1 else 0)"
  by (induction xs) (auto simp: cstr_id)

lemma tables_nul_free: "\<forall>x \<in> set enabled_models. 0 \<notin> set x" "\<forall>x \<in> set blocked_serials. 0 \<notin> set x"
  by (simp_all add: enabled_models_def blocked_serials_def)

lemma fw_args_expected:
  assumes "inj_on lit {dc_model c, dc_region c}" and "0 \<notin> set (dc_model c)" and "0 \<notin> set (dc_region c)" and "0 \<notin> set (dc_serial c)"
  shows "fw_args (put_lits lit [dc_model c, dc_region c] m) lit c = Some (fw_expected_args lit c)"
  using assms
  by (simp add: fw_args_def put_lits_wire_exact fw_expected_args_def model_enabled_def serial_blocked_def
      str_in_list_iff tables_nul_free)

lemma fw_call_rc: "fw_call api e fn args s = (rc, v, s') \<Longrightarrow>
    api_call api e (slice_of fn) args (ho_mem s) (ho_eng s) = (rc', out, m, w) \<Longrightarrow>
    rc = rc' \<and> v = (case out of None \<Rightarrow> gengo_wire_null | Some v \<Rightarrow> v)"
  by (auto simp: fw_call_def Let_def split: prod.splits)

text \<open>C22. The rollout gate is fail-closed: for a device the program prints ALLOW exactly when the script's allow_update,
  called with the device's model, region, builds and battery level, whether the model is in the table of enabled models and whether
  the serial is in the table of blocked ones, returned code 0 with the boolean true. A failing call, a value that is not a boolean, and
  false all end in a refusal.\<close>

theorem fw_gate_fail_closed:
  assumes "fw_device api lit e c s = Some s'" and "inj_on lit {dc_model c, dc_region c}"
    and "0 \<notin> set (dc_model c)" and "0 \<notin> set (dc_region c)" and "0 \<notin> set (dc_serial c)"
    and "api_call api e (slice_of (bytes_of ''allow_update'')) (fw_expected_args lit c)
           (put_lits lit [dc_model c, dc_region c] (ho_mem s)) (ho_eng s) = (rc, out, m, w)"
  shows "suffix fw_allow (ho_out s') \<longleftrightarrow> rc = 0 \<and> (\<exists>v. out = Some v \<and> gengo_wire_as_bool v)"
proof -
  let ?s = "s\<lparr>ho_mem := put_lits lit [dc_model c, dc_region c] (ho_mem s)\<rparr>"
  obtain rc' v s2 where call: "fw_call api e (bytes_of ''allow_update'') (fw_expected_args lit c) (puts_out (fw_device_line c) ?s) = (rc', v, s2)"
    using prod_cases3 by blast
  then have v: "rc' = rc" "v = (case out of None \<Rightarrow> gengo_wire_null | Some v \<Rightarrow> v)"
    using fw_call_rc [OF call] assms(6) by simp_all
  have null: "\<not> gengo_wire_as_bool gengo_wire_null" by (simp add: gengo_wire_as_bool_def gengo_wire_null_def)
  show ?thesis
    using assms(1) v null
    by (auto simp: fw_device_def fw_args_expected [OF assms(2-5)] call call_bool_fn_def verdict_suffix
        split: bind_splits if_splits option.splits dest!: fw_log_frame simp del: bytes_of_Cons)
qed

definition fw_demo_api :: "unit engine_api" where
  "fw_demo_api = \<lparr>api_init = (\<lambda>w. (1, w)), api_init_with_config = (\<lambda>c w. (1, w)), api_destroy = (\<lambda>h w. w), api_reset = (\<lambda>h w. w),
     api_run = (\<lambda>h s w. (0, w)), api_run_path = (\<lambda>h s p w. (0, w)),
     api_call = (\<lambda>h n args m w. (0, Some (gengo_wire_bool 1), m, w)),
     api_load_bundle = (\<lambda>h n z w. (0, w)), api_load_bundle_dir = (\<lambda>h n d w. (0, w)), api_last_error = (\<lambda>h n w. (0, [])),
     api_last_error_line = (\<lambda>h w. 0), api_last_error_col = (\<lambda>h w. 0), api_set_write_fn = (\<lambda>h w. w), api_take_output = (\<lambda>w. ([], w))\<rparr>"

definition demo_lit :: "byte list \<Rightarrow> u64" where
  "demo_lit b = of_nat (length b + 1)"

definition fw_demo_host :: "unit host" where
  "fw_demo_host = \<lparr>ho_out = [], ho_err = [], ho_junk = [], ho_mem = \<lparr>mem_bytes = Map.empty, mem_wires = Map.empty\<rparr>, ho_eng = ()\<rparr>"

definition fw_demo_case :: device_case_t where
  "fw_demo_case = mk_case ''meter-v1'' ''SN-1001'' ''eu'' 4100 4200 82"

lemma fw_demo_nul_free:
  "0 \<notin> set (dc_model fw_demo_case)" "0 \<notin> set (dc_region fw_demo_case)" "0 \<notin> set (dc_serial fw_demo_case)"
  by (simp_all add: fw_demo_case_def mk_case_def)

theorem fw_gate_fail_closed_witness:
  "\<exists>s'. fw_device fw_demo_api demo_lit 1 fw_demo_case fw_demo_host = Some s' \<and> suffix fw_allow (ho_out s')"
proof -
  have inj: "inj_on demo_lit {dc_model fw_demo_case, dc_region fw_demo_case}"
    by (simp add: demo_lit_def fw_demo_case_def mk_case_def)
  let ?s = "fw_demo_host\<lparr>ho_mem := put_lits demo_lit [dc_model fw_demo_case, dc_region fw_demo_case] (ho_mem fw_demo_host)\<rparr>"
  have "\<exists>s'. fw_device fw_demo_api demo_lit 1 fw_demo_case fw_demo_host = Some s'"
    by (simp add: fw_device_def fw_args_expected [OF inj fw_demo_nul_free] call_bool_fn_def fw_call_def fw_demo_api_def
        gengo_wire_as_bool_def gengo_wire_bool_def del: bytes_of_Cons)
  then obtain s' where s': "fw_device fw_demo_api demo_lit 1 fw_demo_case fw_demo_host = Some s'" by blast
  have "suffix fw_allow (ho_out s') \<longleftrightarrow> (0::int) = 0 \<and> (\<exists>v. Some (gengo_wire_bool 1) = Some v \<and> gengo_wire_as_bool v)"
    by (rule fw_gate_fail_closed [OF s' inj fw_demo_nul_free]) (simp add: fw_demo_api_def)
  then show ?thesis using s' by (simp add: gengo_wire_as_bool_def gengo_wire_bool_def)
qed

end
