(* ===== verification/BundleHost.thy ===== *)
theory BundleHost
  imports HostApi "HOL-Library.Monad_Syntax"
begin

text \<open>
  The bundle example \<open>examples/bundle-c/main.c\<close>: a module bundle is loaded from a zip file or from a directory, then the
  entry script, and its \<open>evaluate\<close> is called for each student of a fixed table. Functions have the prefix \<open>bc\<close>.
  A result \<open>None\<close> is undefined behaviour of the program. In the contract \<open>engine_limits\<close> of the engine there is none,
  although \<open>log_error\<close> does not clamp the length that \<open>engine_last_error\<close> returns: it relies on the 512 bytes that the
  engine keeps.
\<close>

record student_t =
  st_name :: "byte list"
  st_correct :: int
  st_total :: int

definition mk_student :: "string \<Rightarrow> int \<Rightarrow> int \<Rightarrow> student_t" where
  "mk_student n c t = \<lparr>st_name = bytes_of n, st_correct = c, st_total = t\<rparr>"

definition students :: "student_t list" where
  "students = [mk_student ''Alice'' 92 100, mk_student ''Bob'' 76 100, mk_student ''Carol'' 55 80,
     mk_student ''Dave'' 88 90, mk_student ''Eve'' 0 10, mk_student ''Frank'' 10 10]"

definition bc_log_error :: "'w engine_api \<Rightarrow> int \<Rightarrow> byte list \<Rightarrow> 'w host \<Rightarrow> 'w host option" where
  "bc_log_error api engine what s =
     (let (n, written) = api_last_error api engine 512 (ho_eng s);
          n = (if n < 0 then 0 else n)
      in do {
        buf \<leftarrow> stack_buf (ho_junk s) 512 written;
        text \<leftarrow> fmt_prec n buf;
        Some (engine_error_line api engine what text s)
      })"

definition bc_read_file :: "file_system \<Rightarrow> (nat \<Rightarrow> bool) \<Rightarrow> byte list \<Rightarrow> byte list option" where
  "bc_read_file files malloc_ok path =
     (case files path of None \<Rightarrow> None
      | Some f \<Rightarrow>
          if \<not> f_seek_end f then None
          else if f_tell f < 0 then None
          else if \<not> f_seek_set f then None
          else let size = nat (f_tell f) in
            if \<not> malloc_ok (size + 1) then None else Some (take size (f_bytes f)))"

definition bc_config :: gengo_instance_config_t where
  "bc_config = \<lparr>heap_size_bytes = 512 * 1024, max_objects = 2048, max_stack = 512, max_frames = 64,
     max_defers = 128, max_ops = 200000, allow_io = False\<rparr>"

text \<open>The bundle: \<open>None\<close> when the zip file cannot be read, otherwise the code of the library.\<close>

definition bc_load_bundle ::
  "'w engine_api \<Rightarrow> file_system \<Rightarrow> (nat \<Rightarrow> bool) \<Rightarrow> byte list option \<Rightarrow> int \<Rightarrow> 'w host \<Rightarrow> int option \<times> 'w host" where
  "bc_load_bundle api files malloc_ok zip_path engine s =
     (let scoring = slice_of (bytes_of ''scoring'') in
      case zip_path of
        Some p \<Rightarrow>
          (case bc_read_file files malloc_ok p of
             None \<Rightarrow> (None, puts_err (bytes_of ''cannot read bundle: '' @ p @ [10]) s)
           | Some zip_data \<Rightarrow>
               let (rc, w) = api_load_bundle api engine scoring (slice_of zip_data) (ho_eng s)
               in (Some rc, puts_out (bytes_of ''bundle: '' @ p @ bytes_of '' (zip)'' @ [10]) (set_eng w s)))
      | None \<Rightarrow>
          let (rc, w) = api_load_bundle_dir api engine scoring (slice_of (bytes_of ''lib/scoring'')) (ho_eng s)
          in (Some rc, puts_out (bytes_of ''bundle: lib/scoring/ (directory)'' @ [10]) (set_eng w s)))"

definition bc_bundle_failed :: "int \<Rightarrow> byte list" where
  "bc_bundle_failed rc = bytes_of ''engine_load_bundle failed: code '' @ dec_int rc @ [10]
     @ bytes_of ''  -2 bundle table full  -3 file table full'' @ [10]
     @ bytes_of ''  -4 file too large     -5 invalid zip'' @ [10]"

text \<open>One turn of the loop over the students.\<close>

definition bc_student :: "'w engine_api \<Rightarrow> (byte list \<Rightarrow> u64) \<Rightarrow> int \<Rightarrow> student_t \<Rightarrow> 'w host \<Rightarrow> 'w host option" where
  "bc_student api lit engine st s = do {
     let m = put_lits lit [st_name st] (ho_mem s);
     a \<leftarrow> gengo_wire_str m (lit (st_name st));
     let args = [a, gengo_wire_int (st_correct st), gengo_wire_int (st_total st)];
     let (rc, out, m, w) = api_call api engine (slice_of (bytes_of ''evaluate'')) args m (ho_eng s);
     let s = set_eng w (s\<lparr>ho_mem := m\<rparr>);
     let out = (case out of None \<Rightarrow> gengo_wire_null | Some v \<Rightarrow> v);
     if rc \<noteq> 0 then bc_log_error api engine (bytes_of ''evaluate call failed'') s
     else do {
       result \<leftarrow> stack_buf (ho_junk s) 256 [];
       (n, result) \<leftarrow> gengo_wire_read_str m out result;
       if \<not> nul_terminated result then None
       else Some (puts_out (bytes_of ''  '' @ cstr result @ [10]) s)
     }
   }"

fun bc_students :: "'w engine_api \<Rightarrow> (byte list \<Rightarrow> u64) \<Rightarrow> int \<Rightarrow> student_t list \<Rightarrow> 'w host \<Rightarrow> 'w host option" where
  "bc_students api lit engine [] s = Some s"
| "bc_students api lit engine (st # sts) s = do { s \<leftarrow> bc_student api lit engine st s; bc_students api lit engine sts s }"

definition bc_banner :: "byte list" where
  "bc_banner = 10 # bytes_of ''Quiz results'' @ [10] @ replicate 12 61 @ [10]"

text \<open>\<open>main\<close> once the bundle is loaded.\<close>

definition bc_session ::
  "'w engine_api \<Rightarrow> (byte list \<Rightarrow> u64) \<Rightarrow> file_system \<Rightarrow> (nat \<Rightarrow> bool) \<Rightarrow> int \<Rightarrow> 'w host \<Rightarrow> (int \<times> 'w host) option" where
  "bc_session api lit files malloc_ok engine s =
     (let script_path = bytes_of ''quiz.gengo''; finish = (\<lambda>rc s. (rc, set_eng (api_destroy api engine (ho_eng s)) s)) in
      case bc_read_file files malloc_ok script_path of
        None \<Rightarrow> Some (finish 1 (puts_err (bytes_of ''cannot read script: '' @ script_path @ [10]) s))
      | Some script \<Rightarrow>
          let (rc, w) = api_run_path api engine (slice_of script) (slice_of script_path) (ho_eng s); s = set_eng w s in
          if rc \<noteq> 0 then do { s \<leftarrow> bc_log_error api engine (bytes_of ''script load failed'') s; Some (finish 1 s) }
          else do { s \<leftarrow> bc_students api lit engine students (puts_out bc_banner s); Some (finish 0 s) })"

definition bc_main ::
  "'w engine_api \<Rightarrow> (byte list \<Rightarrow> u64) \<Rightarrow> file_system \<Rightarrow> (nat \<Rightarrow> bool) \<Rightarrow> byte list option \<Rightarrow> 'w host \<Rightarrow> (int \<times> 'w host) option" where
  "bc_main api lit files malloc_ok zip_path s =
     (let (engine, w) = api_init_with_config api (Some bc_config) (ho_eng s); s = set_eng w s in
      if engine \<le> 0
      then Some (1, puts_err (bytes_of ''engine_init_with_config failed ('' @ dec_int engine @ bytes_of '')'' @ [10]) s)
      else case bc_load_bundle api files malloc_ok zip_path engine s of
        (None, s) \<Rightarrow> Some (1, set_eng (api_destroy api engine (ho_eng s)) s)
      | (Some rc, s) \<Rightarrow>
          if rc \<noteq> 0
          then let s = puts_err (bc_bundle_failed rc) s in Some (1, set_eng (api_destroy api engine (ho_eng s)) s)
          else bc_session api lit files malloc_ok engine s)"

section \<open>Undefined behaviour\<close>

lemma bc_log_frame: "bc_log_error api e what s = Some s' \<Longrightarrow> ho_out s' = ho_out s"
  by (auto simp: bc_log_error_def Let_def split: prod.splits bind_splits)

context engine_limits
begin

lemma bc_log_safe:
  assumes "engine_ok (ho_eng s)"
  shows "defined (\<lambda>s'. engine_ok (ho_eng s')) (bc_log_error api e what s)"
proof -
  obtain n b where nb: "api_last_error api e 512 (ho_eng s) = (n, b)" by fastforce
  have n: "0 \<le> n" "int (length b) = min n 512" "n \<le> 512"
    using last_error_fits [OF assms nb] last_error_short [OF assms, of e 512] by (auto simp: nb)
  show ?thesis
    unfolding bc_log_error_def nb Let_def prod.case
    using n assms by (intro defined_bind [OF stack_buf_defined] defined_bind [OF fmt_prec_defined]) auto
qed

lemma bc_report_safe:
  assumes "engine_ok (ho_eng t)" and "w_tag v = tag_code GENGO_WIRE_STRING \<and> w_payload v \<noteq> 0 \<longrightarrow> string_wire_ok m v"
  shows "defined (\<lambda>s'. engine_ok (ho_eng s')) (stack_buf junk 256 [] \<bind> (\<lambda>result.
      gengo_wire_read_str m v result \<bind> (\<lambda>(n, result).
        if \<not> nul_terminated result then None else Some (puts_out (f result) t))))"
proof (rule defined_bind [OF stack_buf_defined])
  fix buf :: "byte list" assume "length buf = 256 \<and> take (length []) buf = []"
  then have "buf \<noteq> []" by auto
  then show "defined (\<lambda>s'. engine_ok (ho_eng s')) (gengo_wire_read_str m v buf \<bind> (\<lambda>(n, result).
      if \<not> nul_terminated result then None else Some (puts_out (f result) t)))"
    using read_str_defined [of buf v m] assms by auto
qed simp

lemma bc_student_safe:
  assumes "engine_ok (ho_eng s)"
  shows "defined (\<lambda>s'. engine_ok (ho_eng s')) (bc_student api lit e st s)"
proof -
  let ?m = "put_lits lit [st_name st] (ho_mem s)"
  obtain a where a: "gengo_wire_str ?m (lit (st_name st)) = Some a" using put_lits_wire [of "st_name st"] by fastforce
  let ?args = "[a, gengo_wire_int (st_correct st), gengo_wire_int (st_total st)]"
  obtain rc out m w where c: "api_call api e (slice_of (bytes_of ''evaluate'')) ?args ?m (ho_eng s) = (rc, out, m, w)"
    using prod_cases4 by blast
  let ?t = "set_eng w (s\<lparr>ho_mem := m\<rparr>)"
  note r = call_result [OF assms c]
  have t: "engine_ok (ho_eng ?t)" using r by simp
  show ?thesis
    using r bc_report_safe [OF t, of _ m] bc_log_safe [OF t]
    by (auto simp: bc_student_def Let_def a c simp del: bytes_of_Cons split: option.split)
qed

lemma bc_students_safe:
  "engine_ok (ho_eng s) \<Longrightarrow> defined (\<lambda>s'. engine_ok (ho_eng s')) (bc_students api lit e sts s)"
  by (induction sts arbitrary: s) (auto intro: defined_bind [OF bc_student_safe])

lemma bc_session_safe:
  assumes "engine_ok (ho_eng s)"
  shows "defined (\<lambda>(rc, s'). engine_ok (ho_eng s') \<and> rc \<in> {0, 1}) (bc_session api lit files malloc_ok e s)"
proof (cases "bc_read_file files malloc_ok (bytes_of ''quiz.gengo'')")
  case None
  then show ?thesis using drop_ok [OF assms] by (simp add: bc_session_def Let_def del: bytes_of_Cons)
next
  case (Some script)
  obtain rc w where run: "api_run_path api e (slice_of script) (slice_of (bytes_of ''quiz.gengo'')) (ho_eng s) = (rc, w)" by fastforce
  have t: "engine_ok (ho_eng (set_eng w s))" "engine_ok (ho_eng (puts_out bc_banner (set_eng w s)))"
    using run_ok [OF assms, of e "slice_of script" "slice_of (bytes_of ''quiz.gengo'')"] run by simp_all
  show ?thesis
    unfolding bc_session_def Some Let_def option.case run prod.case
    using drop_ok by (auto intro!: defined_bind [OF bc_log_safe [OF t(1)]] defined_bind [OF bc_students_safe [OF t(2)]])
qed

lemma bc_load_safe:
  assumes "engine_ok (ho_eng s)" shows "engine_ok (ho_eng (snd (bc_load_bundle api files malloc_ok arg e s)))"
proof (cases arg)
  case None
  then show ?thesis using load_ok [OF assms] by (simp add: bc_load_bundle_def Let_def split_beta del: bytes_of_Cons)
next
  case (Some p)
  then show ?thesis
    using load_ok [OF assms] assms
    by (cases "bc_read_file files malloc_ok p") (simp_all add: bc_load_bundle_def Let_def split_beta del: bytes_of_Cons)
qed

lemma bc_main_safe:
  assumes "engine_ok (ho_eng s)"
  shows "defined (\<lambda>(rc, s'). engine_ok (ho_eng s') \<and> rc \<in> {0, 1}) (bc_main api lit files malloc_ok arg s)"
proof -
  obtain e w where init: "api_init_with_config api (Some bc_config) (ho_eng s) = (e, w)" by fastforce
  then have w: "engine_ok (ho_eng (set_eng w s))" using init_ok [OF assms, of "Some bc_config"] by simp
  obtain rc t where load: "bc_load_bundle api files malloc_ok arg e (set_eng w s) = (rc, t)" by fastforce
  have t: "engine_ok (ho_eng t)"
    using bc_load_safe [OF w, of files malloc_ok arg e] by (simp add: load)
  show ?thesis
    using w t drop_ok [OF t] bc_session_safe [OF t]
    by (auto simp: bc_main_def init load Let_def simp del: bytes_of_Cons split: option.split)
qed

end

end
