(* ===== verification/SqlitePolicy.thy ===== *)
theory SqlitePolicy
  imports HostApi "HOL-Library.Monad_Syntax"
begin

text \<open>
  The SQLite example \<open>examples/sqlite-policy/main.c\<close>: two SQL functions backed by a script, \<open>gengo_validate\<close> for the
  triggers of the table and \<open>gengo_reject_reason\<close>, and the demo that inserts six orders. SQLite itself is the record
  \<open>'d sqlite_api\<close>: the database is a value of type \<open>'d\<close>, and \<open>sq_insert\<close> is a prepared INSERT with its three bindings,
  one step and the finalisation, given what \<open>gengo_validate\<close> answered when the trigger's WHEN clause called it.
  A result \<open>None\<close> is undefined behaviour of the program.
\<close>

section \<open>Policy context\<close>

record policy_ctx_t =
  pc_engine :: int
  pc_last_reason :: "byte list"

definition set_reason :: "string \<Rightarrow> policy_ctx_t \<Rightarrow> policy_ctx_t" where
  "set_reason msg pol = pol\<lparr>pc_last_reason := c_strncpy (pc_last_reason pol) (bytes_of msg) 511\<rparr>"

text \<open>The readable part of an engine error: what follows \<open>panic: XxxError: \<close>.\<close>

definition readable_part :: "byte list \<Rightarrow> byte list" where
  "readable_part raw =
     (if c_starts_with raw (bytes_of ''panic: '') then
        (let msg = drop 7 raw in case c_strstr msg (bytes_of '': '') of Some colon \<Rightarrow> drop 2 colon | None \<Rightarrow> msg)
      else raw)"

definition store_engine_error :: "'w engine_api \<Rightarrow> policy_ctx_t \<Rightarrow> 'w host \<Rightarrow> policy_ctx_t option" where
  "store_engine_error api pol s =
     (let (n, written) = api_last_error api (pc_engine pol) 511 (ho_eng s) in
      if n \<le> 0 then Some (set_reason ''policy engine error'' pol)
      else do {
        raw \<leftarrow> stack_buf (ho_junk s) 512 written;
        let n = (if 512 \<le> n then 511 else n);
        let raw = raw[nat n := 0];
        let msg = readable_part (cstr raw);
        Some (pol\<lparr>pc_last_reason := (c_strncpy (pc_last_reason pol) msg 511)[511 := 0]\<rparr>)
      })"

section \<open>SQL functions\<close>

datatype sql_result = SqlInt int | SqlError "byte list" | SqlText "byte list"

text \<open>
  The arguments are the two integers and the text of the second one, \<open>None\<close> when SQLite gives a null pointer, else
  its address and bytes; SQLite ends the text with a NUL.
\<close>

definition sql_gengo_validate ::
  "'w engine_api \<Rightarrow> int \<Rightarrow> (u64 \<times> byte list) option \<Rightarrow> int \<Rightarrow> policy_ctx_t \<Rightarrow> 'w host
    \<Rightarrow> (sql_result \<times> policy_ctx_t \<times> 'w host) option" where
  "sql_gengo_validate api amount currency qty pol s =
     (case currency of
        None \<Rightarrow> Some (SqlInt 0, set_reason ''currency is null'' pol, s)
      | Some (p, text) \<Rightarrow> do {
          let m = (ho_mem s)\<lparr>mem_bytes := (mem_bytes (ho_mem s))(p \<mapsto> text @ [0])\<rparr>;
          c \<leftarrow> gengo_wire_str m p;
          let args = [gengo_wire_int amount, c, gengo_wire_int qty];
          let (rc, out, m, w) = api_call api (pc_engine pol) (slice_of (bytes_of ''validate'')) args m (ho_eng s);
          let out = (case out of None \<Rightarrow> gengo_wire_null | Some v \<Rightarrow> v);
          let s = set_eng w (s\<lparr>ho_mem := m\<rparr>);
          if rc = -2 then do {
            pol \<leftarrow> store_engine_error api pol s;
            Some (SqlInt 0, pol, s)
          }
          else if rc \<noteq> 0 then
            (let pol = set_reason ''policy engine error'' pol in Some (SqlError (cstr (pc_last_reason pol)), pol, s))
          else if gengo_wire_as_bool out then
            Some (SqlInt 1, pol\<lparr>pc_last_reason := (pc_last_reason pol)[0 := 0]\<rparr>, s)
          else do {
            let (rc, out, m, w) = api_call api (pc_engine pol) (slice_of (bytes_of ''last_reject_reason'')) [] (ho_mem s) (ho_eng s);
            let out = (case out of None \<Rightarrow> gengo_wire_null | Some v \<Rightarrow> v);
            let s = set_eng w (s\<lparr>ho_mem := m\<rparr>);
            if rc = 0 then do {
              (n, buf) \<leftarrow> gengo_wire_read_str m out (pc_last_reason pol);
              Some (SqlInt 0, pol\<lparr>pc_last_reason := buf\<rparr>, s)
            }
            else Some (SqlInt 0, set_reason ''validation failed'' pol, s)
          }
        })"

definition sql_gengo_reject_reason :: "policy_ctx_t \<Rightarrow> sql_result option" where
  "sql_gengo_reject_reason pol =
     (if nul_terminated (pc_last_reason pol) then Some (SqlText (cstr (pc_last_reason pol))) else None)"

section \<open>Helpers\<close>

text \<open>
  None of the three positioning calls is checked. After a failing \<open>ftell\<close> the size is \<open>(size_t)-1\<close>: the allocation is
  of 0 bytes and the NUL, if nothing else, is written behind it. After a failing second \<open>fseek\<close> nothing is left to read.
  \<open>Some None\<close> is the null pointer.
\<close>

definition sql_read_file :: "file_system \<Rightarrow> (nat \<Rightarrow> bool) \<Rightarrow> byte list \<Rightarrow> byte list option option" where
  "sql_read_file files malloc_ok path =
     (case files path of None \<Rightarrow> Some None
      | Some f \<Rightarrow>
          if f_tell f < 0 then (if malloc_ok 0 then None else Some None)
          else let sz = nat (f_tell f) in
            if \<not> malloc_ok (sz + 1) then Some None
            else Some (Some (if f_seek_set f then take sz (f_bytes f) else [])))"

definition fetch_reject_reason :: "policy_ctx_t \<Rightarrow> byte list \<Rightarrow> byte list option" where
  "fetch_reject_reason pol buf =
     (if \<not> nul_terminated (pc_last_reason pol) then None
      else let n = length (cstr (pc_last_reason pol)); n = (if length buf \<le> n then length buf - 1 else n)
           in Some (put_cstr buf (take n (pc_last_reason pol))))"

section \<open>The demo\<close>

record 'd sqlite_api =
  sq_open :: "'d \<Rightarrow> bool \<times> 'd"
  sq_create_function :: "byte list \<Rightarrow> 'd \<Rightarrow> bool \<times> 'd"
  sq_exec :: "byte list \<Rightarrow> 'd \<Rightarrow> bool \<times> byte list option \<times> 'd"
  sq_insert :: "int \<Rightarrow> byte list \<Rightarrow> int \<Rightarrow> sql_result \<Rightarrow> 'd \<Rightarrow> bool \<times> 'd"
  sq_last_rowid :: "'d \<Rightarrow> int"
  sq_errmsg :: "'d \<Rightarrow> byte list"
  sq_rows :: "'d \<Rightarrow> (int \<times> int \<times> byte list \<times> int) list"

record order_t =
  or_amount_cents :: int
  or_currency :: "byte list"
  or_qty :: int
  or_label :: "byte list"

definition mk_order :: "int \<Rightarrow> string \<Rightarrow> int \<Rightarrow> string \<Rightarrow> order_t" where
  "mk_order a c q l = \<lparr>or_amount_cents = a, or_currency = bytes_of c, or_qty = q, or_label = bytes_of l\<rparr>"

definition orders :: "order_t list" where
  "orders =
    [mk_order 14999 ''USD'' 3 ''laptop order'',
     mk_order 199 ''EUR'' 1 ''single book'',
     mk_order 49900 ''SEK'' 12 ''bulk stationery'',
     mk_order 0 ''USD'' 5 ''zero amount'',
     mk_order 500 ''BTC'' 1 ''unsupported currency'',
     mk_order 500 ''GBP'' 99999 ''quantity over limit'']"

definition sql_config :: gengo_instance_config_t where
  "sql_config = \<lparr>heap_size_bytes = 256 * 1024, max_objects = 1024, max_stack = 256, max_frames = 32,
     max_defers = 64, max_ops = 100000, allow_io = False\<rparr>"

definition pad_right :: "nat \<Rightarrow> byte list \<Rightarrow> byte list" where
  "pad_right n b = b @ replicate (n - length b) 32"

definition order_line :: "order_t \<Rightarrow> byte list" where
  "order_line x = bytes_of ''INSERT  amount_cents='' @ pad_right 10 (dec_int (or_amount_cents x)) @ bytes_of ''  currency=''
     @ pad_right 4 (or_currency x) @ bytes_of ''  qty='' @ pad_right 6 (dec_int (or_qty x)) @ bytes_of ''  (''
     @ or_label x @ bytes_of '')'' @ [10]"

text \<open>The state of \<open>main\<close> beside the host: the policy context and the database.\<close>

record 'd sql_state =
  ss_pol :: policy_ctx_t
  ss_db :: 'd

definition ok_line :: "int \<Rightarrow> byte list" where
  "ok_line row = bytes_of ''  -> OK  (row '' @ dec_int row @ bytes_of '')'' @ [10, 10]"

definition rejected_line :: "byte list \<Rightarrow> byte list" where
  "rejected_line why = bytes_of ''  -> REJECTED  '' @ why @ [10, 10]"

text \<open>One turn of the loop over the orders; \<open>p\<close> is where SQLite has the text of the currency.\<close>

definition sql_order ::
  "'w engine_api \<Rightarrow> 'd sqlite_api \<Rightarrow> u64 \<Rightarrow> order_t \<Rightarrow> 'd sql_state \<Rightarrow> 'w host \<Rightarrow> ('d sql_state \<times> 'w host) option" where
  "sql_order api sq p x t s = do {
     let s = puts_out (order_line x) s;
     (r, pol, s) \<leftarrow> sql_gengo_validate api (or_amount_cents x) (Some (p, or_currency x)) (or_qty x) (ss_pol t) s;
     let (done, db) = sq_insert sq (or_amount_cents x) (or_currency x) (or_qty x) r (ss_db t);
     let t = \<lparr>ss_pol = pol, ss_db = db\<rparr>;
     if done then Some (t, puts_out (ok_line (sq_last_rowid sq db)) s)
     else do {
       buf \<leftarrow> stack_buf (ho_junk s) 512 [];
       reason \<leftarrow> fetch_reject_reason pol buf;
       if \<not> nul_terminated reason then None
       else Some (t, puts_out (rejected_line (if reason ! 0 \<noteq> 0 then cstr reason else sq_errmsg sq db)) s)
     }
   }"

fun sql_orders ::
  "'w engine_api \<Rightarrow> 'd sqlite_api \<Rightarrow> u64 \<Rightarrow> order_t list \<Rightarrow> 'd sql_state \<Rightarrow> 'w host \<Rightarrow> ('d sql_state \<times> 'w host) option" where
  "sql_orders api sq p [] t s = Some (t, s)"
| "sql_orders api sq p (x # xs) t s = do { (t, s) \<leftarrow> sql_order api sq p x t s; sql_orders api sq p xs t s }"

definition i32_of_int :: "int \<Rightarrow> int" where
  "i32_of_int i = sint (of_int i :: u32)"

definition row_line :: "int \<times> int \<times> byte list \<times> int \<Rightarrow> byte list" where
  "row_line r = (case r of (i, a, c, q) \<Rightarrow>
     bytes_of ''  '' @ pad_right 4 (dec_int (i32_of_int i)) @ bytes_of ''  '' @ pad_right 12 (dec_int (i32_of_int a)) @ bytes_of ''  ''
     @ pad_right 8 (cstr c) @ bytes_of ''  '' @ dec_int (i32_of_int q) @ [10])"

definition rows_text :: "(int \<times> int \<times> byte list \<times> int) list \<Rightarrow> byte list" where
  "rows_text rows = bytes_of ''Accepted rows:'' @ [10]
     @ bytes_of ''  '' @ pad_right 4 (bytes_of ''id'') @ bytes_of ''  '' @ pad_right 12 (bytes_of ''amount_cents'') @ bytes_of ''  ''
     @ pad_right 8 (bytes_of ''currency'') @ bytes_of ''  qty'' @ [10] @ concat (map row_line rows)"

definition sql_banner :: "byte list \<Rightarrow> byte list" where
  "sql_banner script_path = 10 # bytes_of ''Orders '' @ [0xe2, 0x80, 0x94] @ bytes_of '' SQLite with Gengoscript validation'' @ [10]
     @ bytes_of ''policy: '' @ script_path @ [10] @ replicate 44 61 @ [10, 10]"

definition create_table :: "byte list" where
  "create_table = bytes_of ''CREATE TABLE orders (  id           INTEGER PRIMARY KEY AUTOINCREMENT,''
     @ bytes_of ''  amount_cents INTEGER NOT NULL,  currency     TEXT    NOT NULL,  qty          INTEGER NOT NULL);''"

definition create_trigger :: "string \<Rightarrow> string \<Rightarrow> byte list" where
  "create_trigger name event = bytes_of ''CREATE TRIGGER '' @ bytes_of name @ bytes_of '' BEFORE '' @ bytes_of event
     @ bytes_of '' ON orders WHEN gengo_validate(NEW.amount_cents, NEW.currency, NEW.qty) = 0''
     @ bytes_of '' BEGIN SELECT raise(abort, '' @ [39] @ bytes_of ''order validation failed'' @ [39] @ bytes_of ''); END;''"

text \<open>\<open>exec_or_die\<close>: \<open>False\<close> is the call of \<open>exit\<close>, which leaves the engine and the database as they are.\<close>

definition exec_or_die :: "'d sqlite_api \<Rightarrow> byte list \<Rightarrow> 'd \<Rightarrow> 'w host \<Rightarrow> bool \<times> 'd \<times> 'w host" where
  "exec_or_die sq sql db s =
     (let (ok, errmsg, db) = sq_exec sq sql db in
      if ok then (True, db, s)
      else (False, db, puts_err (bytes_of ''SQL error: '' @ (case errmsg of Some e \<Rightarrow> e | None \<Rightarrow> bytes_of ''?'') @ [10]
        @ bytes_of ''  '' @ sql @ [10]) s))"

fun exec_all :: "'d sqlite_api \<Rightarrow> byte list list \<Rightarrow> 'd \<Rightarrow> 'w host \<Rightarrow> bool \<times> 'd \<times> 'w host" where
  "exec_all sq [] db s = (True, db, s)"
| "exec_all sq (sql # sqls) db s =
     (let (ok, db, s) = exec_or_die sq sql db s in if ok then exec_all sq sqls db s else (False, db, s))"

text \<open>\<open>main\<close> from \<open>sqlite3_open\<close> on.\<close>

definition sql_session ::
  "'w engine_api \<Rightarrow> 'd sqlite_api \<Rightarrow> u64 \<Rightarrow> byte list \<Rightarrow> 'd sql_state \<Rightarrow> 'w host \<Rightarrow> (int \<times> 'd sql_state \<times> 'w host) option" where
  "sql_session api sq p script_path t s =
     (let finish = (\<lambda>rc t s. (rc, t, set_eng (api_destroy api (pc_engine (ss_pol t)) (ho_eng s)) s));
          (opened, db) = sq_open sq (ss_db t); t = t\<lparr>ss_db := db\<rparr>
      in if \<not> opened then Some (finish 1 t (puts_err (bytes_of ''sqlite3_open: '' @ sq_errmsg sq db @ [10]) s))
      else let (ok1, db) = sq_create_function sq (bytes_of ''gengo_validate'') db;
               (ok2, db) = (if ok1 then sq_create_function sq (bytes_of ''gengo_reject_reason'') db else (False, db));
               t = t\<lparr>ss_db := db\<rparr>
           in if \<not> ok2
              then Some (finish 1 t (puts_err (bytes_of ''sqlite3_create_function: '' @ sq_errmsg sq db @ [10]) s))
              else let (ok, db, s) = exec_all sq [create_table, create_trigger ''orders_bi'' ''INSERT'', create_trigger ''orders_bu'' ''UPDATE''] db s;
                       t = t\<lparr>ss_db := db\<rparr>
                   in if \<not> ok then Some (1, t, s)
                      else do {
                        (t, s) \<leftarrow> sql_orders api sq p orders t (puts_out (sql_banner script_path) s);
                        Some (finish 0 t (puts_out (rows_text (sq_rows sq (ss_db t)) @ [10]) s))
                      })"

definition sql_load_failed :: "'w engine_api \<Rightarrow> int \<Rightarrow> 'w host \<Rightarrow> 'w host option" where
  "sql_load_failed api engine s =
     (let (errlen, written) = api_last_error api engine 512 (ho_eng s);
          errlen = (if 512 < errlen then 512 else errlen)
      in do {
        errbuf \<leftarrow> stack_buf (ho_junk s) 512 written;
        text \<leftarrow> fmt_prec errlen errbuf;
        Some (puts_err (bytes_of ''policy load failed (line '' @ dec_int (api_last_error_line api engine (ho_eng s)) @ bytes_of ''): ''
          @ text @ [10]) s)
      })"

definition sql_main ::
  "'w engine_api \<Rightarrow> 'd sqlite_api \<Rightarrow> u64 \<Rightarrow> file_system \<Rightarrow> (nat \<Rightarrow> bool) \<Rightarrow> byte list option \<Rightarrow> 'd \<Rightarrow> 'w host
    \<Rightarrow> (int \<times> 'd sql_state \<times> 'w host) option" where
  "sql_main api sq p files malloc_ok arg db s =
     (let script_path = (case arg of Some a \<Rightarrow> a | None \<Rightarrow> bytes_of ''validate.gengo'');
          (engine, w) = api_init_with_config api (Some sql_config) (ho_eng s);
          s = set_eng w s;
          t = \<lparr>ss_pol = \<lparr>pc_engine = engine, pc_last_reason = replicate 512 0\<rparr>, ss_db = db\<rparr>;
          finish = (\<lambda>s. (1, t, set_eng (api_destroy api engine (ho_eng s)) s))
      in if engine \<le> 0
         then Some (1, t, puts_err (bytes_of ''engine_init_with_config failed ('' @ dec_int engine @ bytes_of '')'' @ [10]) s)
         else do {
           script \<leftarrow> sql_read_file files malloc_ok script_path;
           (case script of
              None \<Rightarrow> Some (finish (puts_err (bytes_of ''cannot read script: '' @ script_path @ [10]) s))
            | Some src \<Rightarrow>
                let (rc, w) = api_run_path api engine (slice_of src) (slice_of script_path) (ho_eng s); s = set_eng w s
                in if rc \<noteq> 0 then do { s \<leftarrow> sql_load_failed api engine s; Some (finish s) }
                   else sql_session api sq p script_path t s)
         })"

end
