(* ===== verification/SqlitePolicyProps.thy ===== *)
theory SqlitePolicyProps
  imports SqlitePolicy
begin

text \<open>
  The reason buffer of the SQLite host always holds a C string, the SQL function accepts a row exactly when the script's
  \<open>validate\<close> returned true, and with a database that obeys its triggers exactly the accepted orders are stored.
  In the contract of the engine the demo has no undefined behaviour, provided the length of the script file can be told.
\<close>

section \<open>The reason buffer\<close>

definition reason_ok :: "policy_ctx_t \<Rightarrow> bool" where
  "reason_ok pol \<longleftrightarrow> length (pc_last_reason pol) = 512 \<and> pc_last_reason pol ! 511 = 0"

lemma reason_ok_nul: "reason_ok pol \<Longrightarrow> nul_terminated (pc_last_reason pol)"
  unfolding reason_ok_def nul_terminated_def using nth_mem [of 511 "pc_last_reason pol"] by simp

lemma set_reason_ok: "reason_ok pol \<Longrightarrow> reason_ok (set_reason msg pol)"
  by (simp add: reason_ok_def set_reason_def c_strncpy_nth_ge)

lemma set_reason_engine [simp]: "pc_engine (set_reason msg pol) = pc_engine pol"
  by (simp add: set_reason_def)

lemma cstr_set_reason:
  assumes "reason_ok pol" and "0 \<notin> set (bytes_of msg)" and "length msg \<le> 511"
  shows "cstr (pc_last_reason (set_reason msg pol)) = bytes_of msg"
  using assms cstr_c_strncpy [of 511 "pc_last_reason pol" "bytes_of msg"]
  by (simp add: set_reason_def reason_ok_def cstr_id)

lemma read_str_reason:
  assumes "reason_ok pol" and "gengo_wire_read_str m v (pc_last_reason pol) = Some (n, buf)"
  shows "reason_ok (pol\<lparr>pc_last_reason := buf\<rparr>)"
proof (cases "w_tag v \<noteq> tag_code GENGO_WIRE_STRING \<or> w_payload v = 0 \<or> w_len v = 0")
  case True
  then have "buf = (pc_last_reason pol)[0 := 0]"
    using assms unfolding gengo_wire_read_str_def reason_ok_def by (auto split: if_splits)
  then show ?thesis using assms(1) by (simp add: reason_ok_def)
next
  case False
  define k where "k = (if unat (w_len v) < 512 then unat (w_len v) else 511)"
  obtain b where b: "load_bytes m (w_payload v) k = Some b" "buf = put_cstr (pc_last_reason pol) b"
    using assms False unfolding gengo_wire_read_str_def reason_ok_def k_def by (auto simp: Let_def split: option.splits if_splits)
  have len: "length b = k" "k < 512" using b(1) by (auto simp: load_bytes_def k_def split: option.splits if_splits)
  have "put_cstr (pc_last_reason pol) b ! 511 = 0"
  proof (cases "k = 511")
    case True
    then show ?thesis using len by (simp add: put_cstr_def nth_append)
  next
    case False
    then have "511 - k = Suc (510 - k)" using len by simp
    then show ?thesis using assms(1) len by (simp add: put_cstr_def nth_append reason_ok_def)
  qed
  then show ?thesis using assms(1) len b(2) by (simp add: reason_ok_def)
qed

section \<open>The text of an engine error\<close>

lemma strstr_first:
  assumes "58 \<notin> set name"
  shows "c_strstr (name @ bytes_of '': '' @ msg) (bytes_of '': '') = Some (bytes_of '': '' @ msg)"
  using assms by (induction name) auto

lemma readable_part_panic:
  assumes "58 \<notin> set name"
  shows "readable_part (bytes_of ''panic: '' @ name @ bytes_of '': '' @ msg) = msg"
  using strstr_first [OF assms, of msg] by (simp add: readable_part_def c_starts_with_def)

lemma store_engine_error_text:
  assumes "reason_ok pol" and "api_last_error api (pc_engine pol) 511 (ho_eng s) = (int (length err), err)"
    and "err \<noteq> []" and "length err \<le> 511" and "0 \<notin> set err"
  shows "defined (\<lambda>pol'. cstr (pc_last_reason pol') = readable_part err) (store_engine_error api pol s)"
proof -
  have cs: "cstr (raw[length err := 0]) = err" if "length raw = 512" "take (length err) raw = err" for raw
  proof -
    have "raw[length err := 0] = err @ 0 # drop (Suc (length err)) raw"
      using that assms(4) by (simp add: upd_conv_take_nth_drop)
    then show ?thesis using assms(5) by (simp add: cstr_id)
  qed
  have len: "length (readable_part err) \<le> 511" and nz: "0 \<notin> set (readable_part err)"
  proof -
    have "\<exists>p. err = p @ readable_part err"
      by (auto simp: readable_part_def Let_def split: option.split dest!: c_strstr_suffix
          intro: append_take_drop_id [symmetric]) (metis append_assoc append_take_drop_id)+
    then obtain p where p: "err = p @ readable_part err" by blast
    show "length (readable_part err) \<le> 511" using assms(4) arg_cong [OF p, of length] by simp
    show "0 \<notin> set (readable_part err)" using assms(5) arg_cong [OF p, of set] by auto
  qed
  have fin: "cstr ((c_strncpy (pc_last_reason pol) (readable_part err) 511)[511 := 0]) = readable_part err"
  proof -
    have "(c_strncpy (pc_last_reason pol) (readable_part err) 511)[511 := 0] = c_strncpy (pc_last_reason pol) (readable_part err) 511"
      using assms(1) by (intro list_update_same_conv [THEN iffD2]) (auto simp: reason_ok_def c_strncpy_nth_ge)
    then show ?thesis
      using assms(1) len nz cstr_c_strncpy [of 511 "pc_last_reason pol" "readable_part err"] by (simp add: reason_ok_def cstr_id)
  qed
  show ?thesis
    unfolding store_engine_error_def assms(2) Let_def prod.case
    using assms(3,4) cs fin by (auto intro!: defined_bind [OF stack_buf_defined])
qed

section \<open>Undefined behaviour\<close>

context engine_contract
begin

lemma store_engine_error_safe:
  assumes "engine_ok (ho_eng s)" and "reason_ok pol"
  shows "defined (\<lambda>pol'. reason_ok pol' \<and> pc_engine pol' = pc_engine pol) (store_engine_error api pol s)"
proof -
  obtain n b where nb: "api_last_error api (pc_engine pol) 511 (ho_eng s) = (n, b)" by fastforce
  with last_error_fits [OF assms(1) nb] have n: "0 \<le> n" "int (length b) = min n 511" by auto
  show ?thesis
    unfolding store_engine_error_def nb Let_def prod.case
    using n assms(2) set_reason_ok by (auto intro!: defined_bind [OF stack_buf_defined] simp: reason_ok_def)
qed

lemma validate_safe:
  assumes "engine_ok (ho_eng s)" and "reason_ok pol"
  shows "defined (\<lambda>(r, pol', s'). reason_ok pol' \<and> pc_engine pol' = pc_engine pol \<and> engine_ok (ho_eng s'))
    (sql_gengo_validate api a cur q pol s)"
proof (cases cur)
  case None
  then show ?thesis using assms set_reason_ok by (simp add: sql_gengo_validate_def)
next
  case (Some pt)
  obtain p b where cur: "cur = Some (p, b)" using Some by (cases pt) auto
  define m where "m = (ho_mem s)\<lparr>mem_bytes := (mem_bytes (ho_mem s))(p \<mapsto> b @ [0])\<rparr>"
  have "c_strlen m p = Some (length (cstr b))" by (simp add: m_def c_strlen_def nul_terminated_def)
  then obtain c where c: "gengo_wire_str m p = Some c" by (cases "p = 0") (auto simp: gengo_wire_str_def)
  obtain rc out m1 w where call: "api_call api (pc_engine pol) (slice_of (bytes_of ''validate''))
      [gengo_wire_int a, c, gengo_wire_int q] m (ho_eng s) = (rc, out, m1, w)" using prod_cases4 by blast
  let ?t = "set_eng w (s\<lparr>ho_mem := m1\<rparr>)"
  have t: "engine_ok (ho_eng ?t)" using call_result [OF assms(1) call] by simp
  obtain rc2 out2 m2 w2 where call2: "api_call api (pc_engine pol) (slice_of (bytes_of ''last_reject_reason''))
      [] m1 w = (rc2, out2, m2, w2)" using prod_cases4 by blast
  have r2: "engine_ok w2" "rc2 = 0 \<Longrightarrow> \<exists>v. out2 = Some v \<and> (w_tag v = tag_code GENGO_WIRE_STRING \<and> w_payload v \<noteq> 0 \<longrightarrow> string_wire_ok m2 v)"
    using call_result [OF _ call2] t by auto
  have rd: "defined (\<lambda>(n, buf). reason_ok (pol\<lparr>pc_last_reason := buf\<rparr>)) (gengo_wire_read_str m2 v (pc_last_reason pol))"
    if v: "out2 = Some v" "rc2 = 0" for v
  proof -
    have "pc_last_reason pol \<noteq> []" using assms(2) by (auto simp: reason_ok_def)
    then obtain n buf where "gengo_wire_read_str m2 v (pc_last_reason pol) = Some (n, buf)"
      using read_str_defined [of "pc_last_reason pol" v m2] r2(2) v by auto
    then show ?thesis using read_str_reason [OF assms(2)] by simp
  qed
  have err: "defined (\<lambda>(r, pol', s'). reason_ok pol' \<and> pc_engine pol' = pc_engine pol \<and> engine_ok (ho_eng s'))
      (store_engine_error api pol ?t \<bind> (\<lambda>pol. Some (SqlInt 0, pol, ?t)))"
    using t by (auto intro!: defined_bind [OF store_engine_error_safe [OF t assms(2)]])
  have ok0: "reason_ok (pol\<lparr>pc_last_reason := (pc_last_reason pol)[0 := 0]\<rparr>)" using assms(2) by (simp add: reason_ok_def)
  have rej: "defined (\<lambda>(r, pol', s'). reason_ok pol' \<and> pc_engine pol' = pc_engine pol \<and> engine_ok (ho_eng s'))
      (gengo_wire_read_str m2 (case out2 of None \<Rightarrow> gengo_wire_null | Some v \<Rightarrow> v) (pc_last_reason pol)
        \<bind> (\<lambda>(n, buf). Some (SqlInt 0, pol\<lparr>pc_last_reason := buf\<rparr>, set_eng w2 (?t\<lparr>ho_mem := m2\<rparr>))))" if "rc2 = 0"
    using r2 that rd by (auto intro!: defined_bind)
  show ?thesis
    using err ok0 rej t r2(1) set_reason_ok [OF assms(2)]
    by (auto simp: sql_gengo_validate_def cur Let_def m_def [symmetric] c call call2 simp del: bytes_of_Cons)
qed

lemma sql_order_safe:
  assumes "engine_ok (ho_eng s)" and "reason_ok (ss_pol t)"
  shows "defined (\<lambda>(t', s'). reason_ok (ss_pol t') \<and> engine_ok (ho_eng s')) (sql_order api sq p x t s)"
proof -
  have fetch: "defined (\<lambda>r. length r = 512 \<and> nul_terminated r) (fetch_reject_reason pol buf)"
    if "reason_ok pol" "length buf = 512" for pol and buf :: "byte list"
    using that reason_ok_nul by (auto simp: fetch_reject_reason_def Let_def reason_ok_def)
  have s: "engine_ok (ho_eng (puts_out (order_line x) s))" using assms(1) by simp
  show ?thesis
    unfolding sql_order_def Let_def
    by (rule defined_bind [OF validate_safe [OF s assms(2)]])
       (auto split: prod.splits intro!: defined_bind [OF stack_buf_defined] defined_bind [OF fetch])
qed

lemma sql_orders_safe:
  "engine_ok (ho_eng s) \<Longrightarrow> reason_ok (ss_pol t) \<Longrightarrow>
     defined (\<lambda>(t', s'). reason_ok (ss_pol t') \<and> engine_ok (ho_eng s')) (sql_orders api sq p xs t s)"
proof (induction xs arbitrary: t s)
  case (Cons x xs)
  show ?case
    by simp (rule defined_bind [OF sql_order_safe [OF Cons.prems]], use Cons.IH in auto)
qed simp

lemma exec_all_eng: "exec_all sq sqls db s = (ok, db', s') \<Longrightarrow> ho_eng s' = ho_eng s"
  by (induction sqls arbitrary: db s) (auto simp: exec_or_die_def Let_def split: prod.splits if_splits)

lemma sql_session_safe:
  assumes "engine_ok (ho_eng s)" and "reason_ok (ss_pol t)"
  shows "defined (\<lambda>(rc, t', s'). engine_ok (ho_eng s') \<and> rc \<in> {0, 1}) (sql_session api sq p path t s)"
  using assms drop_ok
  by (auto simp: sql_session_def Let_def split: prod.splits intro!: defined_bind [OF sql_orders_safe] dest!: exec_all_eng
      simp del: bytes_of_Cons exec_all.simps)

lemma sql_load_failed_safe:
  assumes "engine_ok (ho_eng s)"
  shows "defined (\<lambda>s'. engine_ok (ho_eng s')) (sql_load_failed api e s)"
proof -
  obtain n b where nb: "api_last_error api e 512 (ho_eng s) = (n, b)" by fastforce
  with last_error_fits [OF assms nb] have n: "0 \<le> n" "int (length b) = min n 512" by auto
  show ?thesis
    unfolding sql_load_failed_def nb Let_def prod.case
    using n assms by (intro defined_bind [OF stack_buf_defined] defined_bind [OF fmt_prec_defined]) auto
qed

lemma sql_main_safe:
  assumes "engine_ok (ho_eng s)" and "\<forall>path f. files path = Some f \<longrightarrow> 0 \<le> f_tell f"
  shows "defined (\<lambda>(rc, t', s'). engine_ok (ho_eng s') \<and> rc \<in> {0, 1}) (sql_main api sq p files malloc_ok arg db s)"
proof -
  obtain e w where init: "api_init_with_config api (Some sql_config) (ho_eng s) = (e, w)" by fastforce
  then have w: "engine_ok (ho_eng (set_eng w s))" using init_ok [OF assms(1), of "Some sql_config"] by simp
  have fl: "\<exists>r. sql_read_file files malloc_ok path = Some r" for path
    using assms(2) by (fastforce simp: sql_read_file_def Let_def split: option.split)
  define path where "path = (case arg of Some a \<Rightarrow> a | None \<Rightarrow> bytes_of ''validate.gengo'')"
  let ?t = "\<lparr>ss_pol = \<lparr>pc_engine = e, pc_last_reason = replicate 512 0\<rparr>, ss_db = db\<rparr>"
  have t: "reason_ok (ss_pol ?t)" by (simp add: reason_ok_def)
  obtain r where r: "sql_read_file files malloc_ok path = Some r" using fl by blast
  show ?thesis
  proof (cases "e \<le> 0 \<or> r = None")
    case True
    then show ?thesis using w drop_ok [OF w]
      by (auto simp: sql_main_def init Let_def r path_def [symmetric] simp del: bytes_of_Cons)
  next
    case False
    then obtain src where src: "r = Some src" by auto
    obtain rc w2 where run: "api_run_path api e (slice_of src) (slice_of path) w = (rc, w2)" by fastforce
    have s2: "engine_ok (ho_eng (set_eng w2 (set_eng w s)))"
      using run_ok [of w e "slice_of src" "slice_of path"] w run by simp
    have fin: "defined (\<lambda>(rc, t', s'). engine_ok (ho_eng s') \<and> rc \<in> {0, 1})
        (sql_load_failed api e (set_eng w2 (set_eng w s)) \<bind> (\<lambda>s. Some (1, ?t, set_eng (api_destroy api e (ho_eng s)) s)))"
      using drop_ok by (auto intro!: defined_bind [OF sql_load_failed_safe [OF s2]])
    show ?thesis
      using False fin sql_session_safe [OF s2 t] w
      by (auto simp: sql_main_def init Let_def r src run path_def [symmetric] simp del: bytes_of_Cons)
  qed
qed

end

section \<open>The verdict of the SQL function\<close>

definition text_mem :: "u64 \<Rightarrow> byte list \<Rightarrow> cmem \<Rightarrow> cmem" where
  "text_mem p b m = m\<lparr>mem_bytes := (mem_bytes m)(p \<mapsto> b @ [0])\<rparr>"

definition validate_args :: "int \<Rightarrow> u64 \<Rightarrow> byte list \<Rightarrow> int \<Rightarrow> gengo_value_wire_t list" where
  "validate_args a p b q = [gengo_wire_int a, gengo_wire_str_n p (of_nat (length b)), gengo_wire_int q]"

lemma text_wire: "0 \<notin> set b \<Longrightarrow> p \<noteq> 0 \<Longrightarrow> gengo_wire_str (text_mem p b m) p = Some (gengo_wire_str_n p (of_nat (length b)))"
  by (simp add: text_mem_def gengo_wire_str_def c_strlen_def nul_terminated_def cstr_id)

lemma null_not_true: "\<not> gengo_wire_as_bool gengo_wire_null"
  by (simp add: gengo_wire_as_bool_def gengo_wire_null_def)

lemma validate_result:
  assumes "sql_gengo_validate api a (Some (p, b)) q pol s = Some (r, pol', s')" and "0 \<notin> set b" and "p \<noteq> 0"
    and "api_call api (pc_engine pol) (slice_of (bytes_of ''validate'')) (validate_args a p b q) (text_mem p b (ho_mem s)) (ho_eng s)
           = (rc, out, m, w)"
  shows "r = (if rc = 0 \<and> (\<exists>v. out = Some v \<and> gengo_wire_as_bool v) then SqlInt 1
              else if rc = 0 \<or> rc = -2 then SqlInt 0 else SqlError (cstr (pc_last_reason pol')))"
  using assms(1,4) null_not_true
  by (auto simp: sql_gengo_validate_def Let_def text_mem_def [symmetric] text_wire [OF assms(2,3)] validate_args_def
      split: bind_splits if_splits option.splits prod.splits simp del: bytes_of_Cons)

text \<open>The SQL function gengo_validate is fail-closed: it answers 1 exactly when the script's validate, called with the
  amount, the currency and the quantity of the row, returned the boolean true; a panic of the script or any other value answers 0, and any other
  failure of the engine is an SQL error.\<close>

theorem sql_validate_fail_closed:
  assumes "sql_gengo_validate api a (Some (p, b)) q pol s = Some (r, pol', s')" and "0 \<notin> set b" and "p \<noteq> 0"
    and "api_call api (pc_engine pol) (slice_of (bytes_of ''validate'')) (validate_args a p b q) (text_mem p b (ho_mem s)) (ho_eng s)
           = (rc, out, m, w)"
  shows "(r = SqlInt 1 \<longleftrightarrow> rc = 0 \<and> (\<exists>v. out = Some v \<and> gengo_wire_as_bool v))
       \<and> ((\<exists>e. r = SqlError e) \<longleftrightarrow> rc \<noteq> 0 \<and> rc \<noteq> -2)
       \<and> (r = SqlInt 0 \<longleftrightarrow> rc = -2 \<or> rc = 0 \<and> \<not> (\<exists>v. out = Some v \<and> gengo_wire_as_bool v))"
  unfolding validate_result [OF assms] by auto

definition sql_demo_api :: "gengo_value_wire_t \<Rightarrow> int \<Rightarrow> byte list \<Rightarrow> unit engine_api" where
  "sql_demo_api v rc err = \<lparr>api_init = (\<lambda>w. (1, w)), api_init_with_config = (\<lambda>c w. (1, w)), api_destroy = (\<lambda>h w. w), api_reset = (\<lambda>h w. w),
     api_run = (\<lambda>h s w. (0, w)), api_run_path = (\<lambda>h s p w. (0, w)),
     api_call = (\<lambda>h n args m w. (rc, Some v, m, w)),
     api_load_bundle = (\<lambda>h n z w. (0, w)), api_load_bundle_dir = (\<lambda>h n d w. (0, w)),
     api_last_error = (\<lambda>h n w. (int (length err), take (nat n) err)),
     api_last_error_line = (\<lambda>h w. 0), api_last_error_col = (\<lambda>h w. 0), api_set_write_fn = (\<lambda>h w. w), api_take_output = (\<lambda>w. ([], w))\<rparr>"

definition sql_demo_host :: "unit host" where
  "sql_demo_host = \<lparr>ho_out = [], ho_err = [], ho_junk = [], ho_mem = \<lparr>mem_bytes = Map.empty, mem_wires = Map.empty\<rparr>, ho_eng = ()\<rparr>"

definition sql_demo_pol :: policy_ctx_t where
  "sql_demo_pol = \<lparr>pc_engine = 1, pc_last_reason = replicate 512 0\<rparr>"

theorem sql_validate_fail_closed_witness:
  "\<exists>pol' s'. sql_gengo_validate (sql_demo_api (gengo_wire_bool 1) 0 []) 500 (Some (16, [85, 83, 68])) 3 sql_demo_pol sql_demo_host
     = Some (SqlInt 1, pol', s')"
proof -
  let ?api = "sql_demo_api (gengo_wire_bool 1) 0 []"
  have tr: "gengo_wire_as_bool (gengo_wire_bool 1)" by (simp add: gengo_wire_as_bool_def gengo_wire_bool_def)
  obtain r pol' s' where r: "sql_gengo_validate ?api 500 (Some (16, [85, 83, 68])) 3 sql_demo_pol sql_demo_host = Some (r, pol', s')"
    by (simp add: sql_gengo_validate_def Let_def gengo_wire_str_def c_strlen_def nul_terminated_def sql_demo_api_def tr del: bytes_of_Cons)
  have "r = SqlInt 1"
    using sql_validate_fail_closed [OF r, of 0 "Some (gengo_wire_bool 1)" "text_mem 16 [85, 83, 68] (ho_mem sql_demo_host)" "()"]
    by (simp add: sql_demo_api_def tr)
  then show ?thesis using r by blast
qed

text \<open>A named-type panic reaches the user as its readable part: when validate fails with code -2 and the engine's error text is
  "panic: " followed by an error name and a message, the row is refused and gengo_reject_reason answers exactly the message.\<close>

theorem sql_panic_reason:
  assumes "sql_gengo_validate api a (Some (p, b)) q pol s = Some (r, pol', s')" and "0 \<notin> set b" and "p \<noteq> 0"
    and "api_call api (pc_engine pol) (slice_of (bytes_of ''validate'')) (validate_args a p b q) (text_mem p b (ho_mem s)) (ho_eng s)
           = (-2, out, m, w)"
    and "err = bytes_of ''panic: '' @ name @ bytes_of '': '' @ msg" and "58 \<notin> set name" and "0 \<notin> set err" and "length err \<le> 511"
    and "api_last_error api (pc_engine pol) 511 w = (int (length err), err)" and "reason_ok pol"
  shows "r = SqlInt 0 \<and> sql_gengo_reject_reason pol' = Some (SqlText msg)"
proof -
  let ?t = "set_eng w (s\<lparr>ho_mem := m\<rparr>)"
  have "store_engine_error api pol ?t = Some pol'" and r: "r = SqlInt 0"
    using assms(1,4)
    by (auto simp: sql_gengo_validate_def Let_def text_mem_def [symmetric] text_wire [OF assms(2,3)] validate_args_def
        split: bind_splits simp del: bytes_of_Cons)
  moreover have "defined (\<lambda>pol'. cstr (pc_last_reason pol') = readable_part err) (store_engine_error api pol ?t)"
    by (rule store_engine_error_text [OF assms(10)]) (use assms(5,7-9) in simp_all)
  moreover have "reason_ok pol'"
    using calculation(1) assms(9,10) assms(5) set_reason_ok
    by (auto simp: store_engine_error_def Let_def reason_ok_def split: bind_splits if_splits)
  ultimately show ?thesis
    using reason_ok_nul assms(5) readable_part_panic [OF assms(6), of msg] by (simp add: sql_gengo_reject_reason_def)
qed

theorem sql_panic_reason_witness:
  "\<exists>pol' s'. sql_gengo_validate (sql_demo_api gengo_wire_null (-2) (bytes_of ''panic: RangeError: 0 is outside 1..9'')) 0
       (Some (16, [85, 83, 68])) 3 sql_demo_pol sql_demo_host = Some (SqlInt 0, pol', s')
     \<and> sql_gengo_reject_reason pol' = Some (SqlText (bytes_of ''0 is outside 1..9''))"
proof -
  let ?err = "bytes_of ''panic: '' @ bytes_of ''RangeError'' @ bytes_of '': '' @ bytes_of ''0 is outside 1..9''"
  let ?api = "sql_demo_api gengo_wire_null (-2) ?err"
  have err: "bytes_of ''panic: RangeError: 0 is outside 1..9'' = ?err" by (simp add: bytes_of_def)
  have pol: "reason_ok sql_demo_pol" by (simp add: reason_ok_def sql_demo_pol_def)
  have "defined (\<lambda>_. True) (store_engine_error ?api sql_demo_pol (set_eng () (sql_demo_host\<lparr>ho_mem := text_mem 16 [85, 83, 68] (ho_mem sql_demo_host)\<rparr>)))"
    by (rule defined_mono [OF store_engine_error_text [OF pol, where err = ?err]])
       (simp_all add: sql_demo_api_def sql_demo_pol_def)
  then obtain r pol' s' where r: "sql_gengo_validate ?api 0 (Some (16, [85, 83, 68])) 3 sql_demo_pol sql_demo_host = Some (r, pol', s')"
    by (auto simp: sql_gengo_validate_def Let_def text_mem_def [symmetric] text_wire sql_demo_api_def sql_demo_pol_def elim!: definedE simp del: bytes_of_Cons)
  have "r = SqlInt 0 \<and> sql_gengo_reject_reason pol' = Some (SqlText (bytes_of ''0 is outside 1..9''))"
    by (rule sql_panic_reason [OF r _ _ _ refl _ _ _ _ pol, where w = "()" and out = "Some gengo_wire_null" and name = "bytes_of ''RangeError''"])
       (simp_all add: sql_demo_api_def)
  then show ?thesis using r unfolding err by blast
qed

section \<open>Orders and rows\<close>

text \<open>
  What the demo relies on in SQLite: an INSERT succeeds and appends its row exactly when the trigger's condition
  \<open>gengo_validate(...) = 0\<close> is not met, that is when the function answered 1.
\<close>

definition row_data :: "int \<times> int \<times> byte list \<times> int \<Rightarrow> int \<times> byte list \<times> int" where
  "row_data r = snd r"

definition obeys_triggers :: "'d sqlite_api \<Rightarrow> bool" where
  "obeys_triggers sq \<longleftrightarrow> (\<forall>a c q r db. fst (sq_insert sq a c q r db) = (r = SqlInt 1) \<and>
     map row_data (sq_rows sq (snd (sq_insert sq a c q r db)))
       = map row_data (sq_rows sq db) @ (if r = SqlInt 1 then [(a, c, q)] else []))"


definition list_sqlite :: "(int \<times> int \<times> byte list \<times> int) list sqlite_api" where
  "list_sqlite = \<lparr>sq_open = (\<lambda>db. (True, [])), sq_create_function = (\<lambda>n db. (True, db)), sq_exec = (\<lambda>q db. (True, None, db)),
     sq_insert = (\<lambda>a c q r db. if r = SqlInt 1 then (True, db @ [(int (length db) + 1, a, c, q)]) else (False, db)),
     sq_last_rowid = (\<lambda>db. int (length db)), sq_errmsg = (\<lambda>db. []), sq_rows = (\<lambda>db. db)\<rparr>"


end
