(* ===== verification/MosquittoAcl.thy ===== *)
theory MosquittoAcl
  imports HostApi "HOL-Library.Monad_Syntax"
begin

text \<open>
  The Mosquitto plugin \<open>examples/mosquitto-acl/plugin.c\<close>: its static variables with the broker's callback table and
  log as one record, and each function with the prefix \<open>acl\<close> where another host has one of the same name. Codes and access
  kinds of the broker's headers are datatypes. \<open>lit\<close> is an address where the program, or the broker, has a string.
  A result \<open>None\<close> is undefined behaviour.
\<close>

section \<open>State\<close>

datatype mosq_rc = MOSQ_ERR_SUCCESS | MOSQ_ERR_NOMEM | MOSQ_ERR_AUTH | MOSQ_ERR_ACL_DENIED | MOSQ_ERR_UNKNOWN
datatype mosq_log = MOSQ_LOG_INFO | MOSQ_LOG_WARNING | MOSQ_LOG_ERR
datatype mosq_event = MOSQ_EVT_ACL_CHECK | MOSQ_EVT_RELOAD | MOSQ_EVT_BASIC_AUTH
datatype mosq_access = MOSQ_ACL_READ | MOSQ_ACL_WRITE | MOSQ_ACL_SUBSCRIBE | MOSQ_ACL_UNSUBSCRIBE | MOSQ_ACL_OTHER int

definition SCRIPT_MAX_BYTES :: nat where "SCRIPT_MAX_BYTES = 1024 * 1024"

record 'w plugin =
  g_pid :: bool
  g_engine :: int
  g_script_path :: "byte list"
  g_basic_auth :: bool
  pl_callbacks :: "mosq_event list"
  pl_log :: "(mosq_log \<times> byte list) list"
  pl_junk :: "byte list"
  pl_mem :: cmem
  pl_eng :: 'w

definition mosquitto_log_printf :: "mosq_log \<Rightarrow> byte list \<Rightarrow> 'w plugin \<Rightarrow> 'w plugin" where
  "mosquitto_log_printf l b s = s\<lparr>pl_log := pl_log s @ [(l, bytes_of ''gengo-acl: '' @ b)]\<rparr>"

definition with_eng :: "'w \<Rightarrow> 'w plugin \<Rightarrow> 'w plugin" where
  "with_eng w s = s\<lparr>pl_eng := w\<rparr>"

section \<open>Helpers\<close>

definition wire_str :: "cmem \<Rightarrow> u64 \<Rightarrow> gengo_value_wire_t option" where
  "wire_str m s = (case c_strlen m s of None \<Rightarrow> None
     | Some n \<Rightarrow> Some \<lparr>w_tag = tag_code GENGO_WIRE_STRING, w_flags = 0, w_reserved = 0, w_payload = s, w_len = of_nat n, w_reserved2 = 0\<rparr>)"

definition acl_log_engine_error :: "'w engine_api \<Rightarrow> byte list \<Rightarrow> 'w plugin \<Rightarrow> 'w plugin option" where
  "acl_log_engine_error api what s =
     (let (n, written) = api_last_error api (g_engine s) 512 (pl_eng s);
          n = (if 512 < n then 512 else n)
      in do {
        buf \<leftarrow> stack_buf (pl_junk s) 512 written;
        text \<leftarrow> fmt_prec n buf;
        Some (mosquitto_log_printf MOSQ_LOG_WARNING
          (what @ bytes_of '' (line '' @ dec_int (api_last_error_line api (g_engine s) (pl_eng s)) @ bytes_of ''): '' @ text) s)
      })"

text \<open>The write callback: trailing line ends are cut, and an empty rest is not logged.\<close>

fun strip_eol :: "byte list \<Rightarrow> nat \<Rightarrow> nat" where
  "strip_eol ptr 0 = 0"
| "strip_eol ptr (Suc n) = (if ptr ! n = 10 \<or> ptr ! n = 13 then strip_eol ptr n else Suc n)"

definition acl_script_write :: "byte list \<times> bool \<Rightarrow> 'w plugin \<Rightarrow> 'w plugin" where
  "acl_script_write w s =
     (let n = strip_eol (fst w) (length (fst w)) in
      if n = 0 then s
      else mosquitto_log_printf (if snd w then MOSQ_LOG_WARNING else MOSQ_LOG_INFO)
             (bytes_of ''script: '' @ cstr (take n (fst w))) s)"

definition acl_deliver :: "'w engine_api \<Rightarrow> 'w plugin \<Rightarrow> 'w plugin" where
  "acl_deliver api s = (let (ws, w) = api_take_output api (pl_eng s) in fold acl_script_write ws (with_eng w s))"

definition load_script :: "'w engine_api \<Rightarrow> file_system \<Rightarrow> (nat \<Rightarrow> bool) \<Rightarrow> 'w plugin \<Rightarrow> (mosq_rc \<times> 'w plugin) option" where
  "load_script api files malloc_ok s =
     (let path = cstr (g_script_path s) in
      case files path of
        None \<Rightarrow> Some (MOSQ_ERR_UNKNOWN, mosquitto_log_printf MOSQ_LOG_ERR (bytes_of ''cannot open script '' @ [39] @ path @ [39]) s)
      | Some f \<Rightarrow>
          if \<not> malloc_ok SCRIPT_MAX_BYTES then Some (MOSQ_ERR_NOMEM, s)
          else let src = take SCRIPT_MAX_BYTES (f_bytes f);
                   s = with_eng (api_reset api (g_engine s) (pl_eng s)) s;
                   (rc, w) = api_run api (g_engine s) (slice_of src) (pl_eng s);
                   s = acl_deliver api (with_eng w s)
               in if rc \<noteq> 0 then do {
                    s \<leftarrow> acl_log_engine_error api (bytes_of (if rc = -1 then ''policy compile error'' else ''policy runtime error'')) s;
                    Some (MOSQ_ERR_UNKNOWN, s)
                  }
                  else Some (MOSQ_ERR_SUCCESS,
                    mosquitto_log_printf MOSQ_LOG_INFO (bytes_of ''policy loaded from '' @ [39] @ path @ [39]) s))"

definition call_bool :: "'w engine_api \<Rightarrow> byte list \<Rightarrow> gengo_value_wire_t list \<Rightarrow> 'w plugin \<Rightarrow> (bool \<times> 'w plugin) option" where
  "call_bool api fn args s =
     (let (rc, out, m, w) = api_call api (g_engine s) (slice_of fn) args (pl_mem s) (pl_eng s);
          s = acl_deliver api (with_eng w (s\<lparr>pl_mem := m\<rparr>));
          out = (case out of None \<Rightarrow> gengo_wire_null | Some v \<Rightarrow> v)
      in if rc \<noteq> 0 then do {
           s \<leftarrow> acl_log_engine_error api (bytes_of ''policy call failed, denying'') s;
           Some (False, s)
         }
         else Some (w_tag out = tag_code GENGO_WIRE_BOOLEAN \<and> w_payload out = 1, s))"

section \<open>Event callbacks\<close>

definition or_empty :: "byte list option \<Rightarrow> byte list" where
  "or_empty s = (case s of None \<Rightarrow> [] | Some b \<Rightarrow> b)"

fun access_name :: "mosq_access \<Rightarrow> byte list option" where
  "access_name MOSQ_ACL_READ = Some (bytes_of ''read'')"
| "access_name MOSQ_ACL_WRITE = Some (bytes_of ''write'')"
| "access_name MOSQ_ACL_SUBSCRIBE = Some (bytes_of ''subscribe'')"
| "access_name MOSQ_ACL_UNSUBSCRIBE = Some (bytes_of ''unsubscribe'')"
| "access_name (MOSQ_ACL_OTHER n) = None"

fun wire_strs :: "cmem \<Rightarrow> (byte list \<Rightarrow> u64) \<Rightarrow> byte list list \<Rightarrow> gengo_value_wire_t list option" where
  "wire_strs m lit [] = Some []"
| "wire_strs m lit (s # ss) = do { w \<leftarrow> wire_str m (lit s); ws \<leftarrow> wire_strs m lit ss; Some (w # ws) }"

record acl_check_t =
  ac_client :: "byte list option"
  ac_username :: "byte list option"
  ac_topic :: "byte list option"
  ac_access :: mosq_access

definition on_acl_check :: "'w engine_api \<Rightarrow> (byte list \<Rightarrow> u64) \<Rightarrow> acl_check_t \<Rightarrow> 'w plugin \<Rightarrow> (mosq_rc \<times> 'w plugin) option" where
  "on_acl_check api lit ed s =
     (case access_name (ac_access ed) of
        None \<Rightarrow> Some (MOSQ_ERR_ACL_DENIED, s)
      | Some access \<Rightarrow> do {
          let strs = [or_empty (ac_client ed), or_empty (ac_username ed), or_empty (ac_topic ed), access];
          let s = s\<lparr>pl_mem := put_lits lit strs (pl_mem s)\<rparr>;
          args \<leftarrow> wire_strs (pl_mem s) lit strs;
          (ok, s) \<leftarrow> call_bool api (bytes_of ''acl'') args s;
          Some (if ok then MOSQ_ERR_SUCCESS else MOSQ_ERR_ACL_DENIED, s)
        })"

record basic_auth_t =
  ba_client :: "byte list option"
  ba_username :: "byte list option"
  ba_password :: "byte list option"

definition on_basic_auth :: "'w engine_api \<Rightarrow> (byte list \<Rightarrow> u64) \<Rightarrow> basic_auth_t \<Rightarrow> 'w plugin \<Rightarrow> (mosq_rc \<times> 'w plugin) option" where
  "on_basic_auth api lit ed s = do {
     let strs = [or_empty (ba_client ed), or_empty (ba_username ed), or_empty (ba_password ed)];
     let s = s\<lparr>pl_mem := put_lits lit strs (pl_mem s)\<rparr>;
     args \<leftarrow> wire_strs (pl_mem s) lit strs;
     (ok, s) \<leftarrow> call_bool api (bytes_of ''auth'') args s;
     Some (if ok then MOSQ_ERR_SUCCESS else MOSQ_ERR_AUTH, s)
   }"

definition on_reload :: "'w engine_api \<Rightarrow> file_system \<Rightarrow> (nat \<Rightarrow> bool) \<Rightarrow> 'w plugin \<Rightarrow> (mosq_rc \<times> 'w plugin) option" where
  "on_reload api files malloc_ok s = do {
     (rc, s) \<leftarrow> load_script api files malloc_ok s;
     Some (MOSQ_ERR_SUCCESS,
       if rc \<noteq> MOSQ_ERR_SUCCESS then mosquitto_log_printf MOSQ_LOG_WARNING (bytes_of ''reload failed, keeping previous policy'') s else s)
   }"

section \<open>Plugin entry points\<close>

fun mosquitto_plugin_version :: "int list \<Rightarrow> int" where
  "mosquitto_plugin_version [] = -1"
| "mosquitto_plugin_version (v # vs) = (if v = 5 then 5 else mosquitto_plugin_version vs)"

text \<open>\<open>strtoll(s, NULL, 10)\<close>: white space, a sign, digits; out of range it saturates.\<close>

definition c_isspace :: "byte \<Rightarrow> bool" where
  "c_isspace c \<longleftrightarrow> c = 32 \<or> 9 \<le> c \<and> c \<le> 13"

definition c_isdigit :: "byte \<Rightarrow> bool" where
  "c_isdigit c \<longleftrightarrow> 48 \<le> c \<and> c \<le> 57"

definition digits_value :: "byte list \<Rightarrow> int" where
  "digits_value ds = foldl (\<lambda>a d. 10 * a + (uint d - 48)) 0 ds"

definition c_strtoll :: "byte list \<Rightarrow> int" where
  "c_strtoll b =
     (let t = dropWhile c_isspace (cstr b);
          neg = (t \<noteq> [] \<and> hd t = 45);
          u = (if t \<noteq> [] \<and> (hd t = 45 \<or> hd t = 43) then tl t else t);
          n = digits_value (takeWhile c_isdigit u);
          v = (if neg then - n else n)
      in if v < - (2 ^ 63) then - (2 ^ 63) else if 2 ^ 63 \<le> v then 2 ^ 63 - 1 else v)"

text \<open>The loop over the options: each is a key and a value.\<close>

fun acl_options :: "(byte list \<times> byte list) list \<Rightarrow> int \<Rightarrow> 'w plugin \<Rightarrow> int \<times> 'w plugin" where
  "acl_options [] ops s = (ops, s)"
| "acl_options ((k, v) # opts) ops s =
     (if cstr k = bytes_of ''script'' then acl_options opts ops (s\<lparr>g_script_path := put_cstr (g_script_path s) (take 4095 (cstr v))\<rparr>)
      else if cstr k = bytes_of ''max_ops'' then acl_options opts (c_strtoll v) s
      else if cstr k = bytes_of ''basic_auth'' then acl_options opts ops (s\<lparr>g_basic_auth := (cstr v = bytes_of ''true'')\<rparr>)
      else acl_options opts ops s)"

definition acl_config :: "int \<Rightarrow> gengo_instance_config_t" where
  "acl_config ops = \<lparr>heap_size_bytes = 512 * 1024, max_objects = 2048, max_stack = 512, max_frames = 64,
     max_defers = 128, max_ops = ops, allow_io = True\<rparr>"

definition mosquitto_callback_register :: "mosq_event \<Rightarrow> 'w plugin \<Rightarrow> 'w plugin" where
  "mosquitto_callback_register e s = s\<lparr>pl_callbacks := pl_callbacks s @ [e]\<rparr>"

definition mosquitto_callback_unregister :: "mosq_event \<Rightarrow> 'w plugin \<Rightarrow> 'w plugin" where
  "mosquitto_callback_unregister e s = s\<lparr>pl_callbacks := remove1 e (pl_callbacks s)\<rparr>"

definition acl_register :: "'w plugin \<Rightarrow> 'w plugin" where
  "acl_register s =
     (let s = mosquitto_callback_register MOSQ_EVT_RELOAD (mosquitto_callback_register MOSQ_EVT_ACL_CHECK s)
      in if g_basic_auth s then mosquitto_callback_register MOSQ_EVT_BASIC_AUTH s else s)"

definition mosquitto_plugin_init ::
  "'w engine_api \<Rightarrow> file_system \<Rightarrow> (nat \<Rightarrow> bool) \<Rightarrow> (byte list \<times> byte list) list \<Rightarrow> 'w plugin \<Rightarrow> (mosq_rc \<times> 'w plugin) option" where
  "mosquitto_plugin_init api files malloc_ok options s =
     (let s = s\<lparr>g_pid := True, g_script_path := (g_script_path s)[0 := 0]\<rparr>;
          (ops, s) = acl_options options 100000 s
      in if g_script_path s ! 0 = 0
         then Some (MOSQ_ERR_UNKNOWN, mosquitto_log_printf MOSQ_LOG_ERR (bytes_of ''plugin_opt_script is required'') s)
         else let (e, w) = api_init_with_config api (Some (acl_config ops)) (pl_eng s);
                  s = (with_eng w s)\<lparr>g_engine := e\<rparr>
              in if e = 0 then Some (MOSQ_ERR_UNKNOWN, mosquitto_log_printf MOSQ_LOG_ERR (bytes_of ''engine init failed'') s)
                 else do {
                   let s = with_eng (api_set_write_fn api e (pl_eng s)) s;
                   (rc, s) \<leftarrow> load_script api files malloc_ok s;
                   if rc \<noteq> MOSQ_ERR_SUCCESS
                   then Some (rc, (with_eng (api_destroy api (g_engine s) (pl_eng s)) s)\<lparr>g_engine := 0\<rparr>)
                   else Some (MOSQ_ERR_SUCCESS, acl_register s)
                 })"

definition mosquitto_plugin_cleanup :: "'w engine_api \<Rightarrow> 'w plugin \<Rightarrow> mosq_rc \<times> 'w plugin" where
  "mosquitto_plugin_cleanup api s =
     (let s = (if g_pid s then
                 (let s = mosquitto_callback_unregister MOSQ_EVT_RELOAD (mosquitto_callback_unregister MOSQ_EVT_ACL_CHECK s)
                  in if g_basic_auth s then mosquitto_callback_unregister MOSQ_EVT_BASIC_AUTH s else s)
               else s);
          s = (if g_engine s \<noteq> 0 then (with_eng (api_destroy api (g_engine s) (pl_eng s)) s)\<lparr>g_engine := 0\<rparr> else s)
      in (MOSQ_ERR_SUCCESS, s))"

section \<open>The broker\<close>

text \<open>
  What the broker does with the plugin: it loads it once, hands it events whose callback is registered, and calls
  \<open>cleanup\<close> for a plugin that was loaded. The flag tells whether it is loaded.
\<close>

inductive broker_step ::
  "'w engine_api \<Rightarrow> (byte list \<Rightarrow> u64) \<Rightarrow> bool \<times> 'w plugin \<Rightarrow> bool \<times> 'w plugin \<Rightarrow> bool"
  for api lit where
  load: "mosquitto_plugin_init api files malloc_ok options s = Some (rc, s')
    \<Longrightarrow> broker_step api lit (False, s) (rc = MOSQ_ERR_SUCCESS, s')"
| check: "MOSQ_EVT_ACL_CHECK \<in> set (pl_callbacks s) \<Longrightarrow> on_acl_check api lit ed s = Some (rc, s')
    \<Longrightarrow> broker_step api lit (True, s) (True, s')"
| auth: "MOSQ_EVT_BASIC_AUTH \<in> set (pl_callbacks s) \<Longrightarrow> on_basic_auth api lit ad s = Some (rc, s')
    \<Longrightarrow> broker_step api lit (True, s) (True, s')"
| reload: "MOSQ_EVT_RELOAD \<in> set (pl_callbacks s) \<Longrightarrow> on_reload api files malloc_ok s = Some (rc, s')
    \<Longrightarrow> broker_step api lit (True, s) (True, s')"
| unload: "mosquitto_plugin_cleanup api s = (rc, s') \<Longrightarrow> broker_step api lit (True, s) (False, s')"

end
