(* ===== verification/MosquittoAclProps.thy ===== *)
theory MosquittoAclProps
  imports MosquittoAcl
begin

text \<open>
  The plugin is fail-closed, its state is sound in every state the broker can bring it to (the callbacks are registered
  exactly while an engine is there to serve them), no handler has undefined behaviour in the contract of the engine, and
  a reload gives up the old policy before the new one has been accepted.
\<close>

section \<open>Frames\<close>

lemma plugin_frame [simp]:
  "g_engine (mosquitto_log_printf l b s) = g_engine s" "pl_eng (mosquitto_log_printf l b s) = pl_eng s"
  "pl_mem (mosquitto_log_printf l b s) = pl_mem s" "pl_callbacks (mosquitto_log_printf l b s) = pl_callbacks s"
  "g_script_path (mosquitto_log_printf l b s) = g_script_path s" "g_basic_auth (mosquitto_log_printf l b s) = g_basic_auth s"
  "g_pid (mosquitto_log_printf l b s) = g_pid s" "pl_junk (mosquitto_log_printf l b s) = pl_junk s"
  "g_engine (with_eng w s) = g_engine s" "pl_eng (with_eng w s) = w" "pl_mem (with_eng w s) = pl_mem s"
  "pl_callbacks (with_eng w s) = pl_callbacks s" "g_script_path (with_eng w s) = g_script_path s"
  "g_basic_auth (with_eng w s) = g_basic_auth s" "g_pid (with_eng w s) = g_pid s" "pl_junk (with_eng w s) = pl_junk s"
  by (simp_all add: mosquitto_log_printf_def with_eng_def)

text \<open>What the handlers leave alone.\<close>

definition same_statics :: "'w plugin \<Rightarrow> 'w plugin \<Rightarrow> bool" where
  "same_statics s t \<longleftrightarrow> g_engine t = g_engine s \<and> g_script_path t = g_script_path s \<and> g_basic_auth t = g_basic_auth s
     \<and> g_pid t = g_pid s \<and> pl_callbacks t = pl_callbacks s"

lemma same_statics_refl [simp]: "same_statics s s"
  by (simp add: same_statics_def)

lemma same_statics_trans: "same_statics s t \<Longrightarrow> same_statics t u \<Longrightarrow> same_statics s u"
  by (simp add: same_statics_def)

lemma same_statics_log [simp]: "same_statics s (mosquitto_log_printf l b t) \<longleftrightarrow> same_statics s t"
  "same_statics s (with_eng w t) \<longleftrightarrow> same_statics s t" "same_statics s (t\<lparr>pl_mem := m\<rparr>) \<longleftrightarrow> same_statics s t"
  "same_statics (with_eng w s) t \<longleftrightarrow> same_statics s t" "same_statics (s\<lparr>pl_mem := m\<rparr>) t \<longleftrightarrow> same_statics s t"
  by (simp_all add: same_statics_def)

lemma script_writes_frame:
  "same_statics s (fold acl_script_write ws s) \<and> pl_eng (fold acl_script_write ws s) = pl_eng s
     \<and> pl_mem (fold acl_script_write ws s) = pl_mem s"
proof (induction ws arbitrary: s)
  case (Cons w ws)
  have "same_statics s (acl_script_write w s) \<and> pl_eng (acl_script_write w s) = pl_eng s \<and> pl_mem (acl_script_write w s) = pl_mem s"
    by (simp add: acl_script_write_def Let_def)
  then show ?case using Cons.IH [of "acl_script_write w s"] same_statics_trans by fastforce
qed simp

lemma deliver_frame [simp]:
  "same_statics s (acl_deliver api t) \<longleftrightarrow> same_statics s t" "same_statics (acl_deliver api t) s \<longleftrightarrow> same_statics t s" "pl_mem (acl_deliver api t) = pl_mem t"
  "pl_eng (acl_deliver api t) = snd (api_take_output api (pl_eng t))"
proof -
  obtain ws w where o: "api_take_output api (pl_eng t) = (ws, w)" by fastforce
  note f = script_writes_frame [of "with_eng w t" ws]
  have "same_statics t (acl_deliver api t)" using f by (simp add: acl_deliver_def o Let_def same_statics_def)
  then show "same_statics s (acl_deliver api t) \<longleftrightarrow> same_statics s t" "same_statics (acl_deliver api t) s \<longleftrightarrow> same_statics t s"
    by (auto simp: same_statics_def)
  show "pl_mem (acl_deliver api t) = pl_mem t" "pl_eng (acl_deliver api t) = snd (api_take_output api (pl_eng t))"
    using f by (simp_all add: acl_deliver_def o Let_def)
qed

lemma log_frame: "acl_log_engine_error api what s = Some s' \<Longrightarrow> same_statics s s' \<and> pl_eng s' = pl_eng s"
  by (auto simp: acl_log_engine_error_def Let_def split: prod.splits bind_splits)

section \<open>Undefined behaviour\<close>

definition path_ok :: "'w plugin \<Rightarrow> bool" where
  "path_ok s \<longleftrightarrow> length (g_script_path s) = 4096 \<and> nul_terminated (g_script_path s)"

lemma path_ok_cong: "same_statics s t \<Longrightarrow> path_ok t \<longleftrightarrow> path_ok s"
  by (simp add: path_ok_def same_statics_def)

lemma wire_strs_ok: "set ss \<subseteq> set ts \<Longrightarrow> \<exists>ws. wire_strs (put_lits lit ts m) lit ss = Some ws"
proof (induction ss)
  case (Cons s ss)
  have "\<exists>u. fold (\<lambda>s f. f(lit s \<mapsto> s @ [0])) ts (mem_bytes m) (lit s) = Some (u @ [0])"
    using fold_lits [of ts lit s "mem_bytes m"] Cons.prems by auto
  then obtain u where "mem_bytes (put_lits lit ts m) (lit s) = Some (u @ [0])" by (auto simp: put_lits_def)
  then show ?case using Cons by (auto simp: wire_str_def c_strlen_def nul_terminated_def)
qed simp

context engine_contract
begin

lemma acl_log_safe:
  assumes "engine_ok (pl_eng s)"
  shows "defined (\<lambda>s'. engine_ok (pl_eng s') \<and> same_statics s s') (acl_log_engine_error api what s)"
proof -
  obtain n b where nb: "api_last_error api (g_engine s) 512 (pl_eng s) = (n, b)" by fastforce
  with last_error_fits [OF assms nb] have n: "0 \<le> n" "int (length b) = min n 512" by auto
  show ?thesis
    unfolding acl_log_engine_error_def nb Let_def prod.case
    using n assms by (intro defined_bind [OF stack_buf_defined] defined_bind [OF fmt_prec_defined]) auto
qed

lemma load_script_safe:
  assumes "engine_ok (pl_eng s)"
  shows "defined (\<lambda>(rc, s'). engine_ok (pl_eng s') \<and> same_statics s s') (load_script api files malloc_ok s)"
proof (cases "files (cstr (g_script_path s))")
  case None
  then show ?thesis using assms by (simp add: load_script_def Let_def del: bytes_of_Cons)
next
  case (Some f)
  let ?s = "with_eng (api_reset api (g_engine s) (pl_eng s)) s"
  obtain rc w where run: "api_run api (g_engine s) (slice_of (take SCRIPT_MAX_BYTES (f_bytes f))) (pl_eng ?s) = (rc, w)" by fastforce
  have "engine_ok w" using run_ok [of "pl_eng ?s"] drop_ok [OF assms] run by (metis plugin_frame(10) snd_conv)
  then have t: "engine_ok (pl_eng (acl_deliver api (with_eng w ?s)))" using write_ok by simp
  show ?thesis
    using assms t Some run
    by (auto simp: load_script_def Let_def intro!: defined_bind [OF acl_log_safe [OF t]] simp del: bytes_of_Cons)
qed

lemma call_bool_safe:
  assumes "engine_ok (pl_eng s)"
  shows "defined (\<lambda>(ok, s'). engine_ok (pl_eng s') \<and> same_statics s s') (call_bool api fn args s)"
proof -
  obtain rc out m w where c: "api_call api (g_engine s) (slice_of fn) args (pl_mem s) (pl_eng s) = (rc, out, m, w)"
    using prod_cases4 by blast
  let ?t = "acl_deliver api (with_eng w (s\<lparr>pl_mem := m\<rparr>))"
  have t: "engine_ok (pl_eng ?t)" using call_result [OF assms c] write_ok by simp
  have st: "same_statics s ?t" by simp
  show ?thesis
    unfolding call_bool_def c Let_def prod.case
    using t st by (auto intro!: defined_bind [OF acl_log_safe [OF t]] simp del: bytes_of_Cons)
qed

lemma on_acl_check_safe:
  assumes "engine_ok (pl_eng s)"
  shows "defined (\<lambda>(rc, s'). engine_ok (pl_eng s') \<and> same_statics s s') (on_acl_check api lit ed s)"
proof (cases "access_name (ac_access ed)")
  case (Some a)
  let ?strs = "[or_empty (ac_client ed), or_empty (ac_username ed), or_empty (ac_topic ed), a]"
  let ?s = "s\<lparr>pl_mem := put_lits lit ?strs (pl_mem s)\<rparr>"
  obtain args where "wire_strs (pl_mem ?s) lit ?strs = Some args" using wire_strs_ok [of ?strs ?strs lit "pl_mem s"] by auto
  then show ?thesis
    using Some assms by (auto simp: on_acl_check_def Let_def intro!: defined_bind [OF call_bool_safe]
        simp del: bytes_of_Cons wire_strs.simps)
qed (use assms in \<open>simp add: on_acl_check_def\<close>)

lemma on_basic_auth_safe:
  assumes "engine_ok (pl_eng s)"
  shows "defined (\<lambda>(rc, s'). engine_ok (pl_eng s') \<and> same_statics s s') (on_basic_auth api lit ed s)"
proof -
  let ?strs = "[or_empty (ba_client ed), or_empty (ba_username ed), or_empty (ba_password ed)]"
  let ?s = "s\<lparr>pl_mem := put_lits lit ?strs (pl_mem s)\<rparr>"
  obtain args where "wire_strs (pl_mem ?s) lit ?strs = Some args" using wire_strs_ok [of ?strs ?strs lit "pl_mem s"] by auto
  then show ?thesis
    using assms by (auto simp: on_basic_auth_def Let_def intro!: defined_bind [OF call_bool_safe]
        simp del: bytes_of_Cons wire_strs.simps)
qed

lemma on_reload_safe:
  assumes "engine_ok (pl_eng s)"
  shows "defined (\<lambda>(rc, s'). engine_ok (pl_eng s') \<and> same_statics s s') (on_reload api files malloc_ok s)"
  unfolding on_reload_def
  by (rule defined_bind [OF load_script_safe [OF assms]]) (auto simp del: bytes_of_Cons)

end

section \<open>The life of the plugin\<close>

definition callbacks_for :: "bool \<Rightarrow> mosq_event list" where
  "callbacks_for basic = [MOSQ_EVT_ACL_CHECK, MOSQ_EVT_RELOAD] @ (if basic then [MOSQ_EVT_BASIC_AUTH] else [])"

definition plugin_ok :: "bool \<times> 'w plugin \<Rightarrow> bool" where
  "plugin_ok bs \<longleftrightarrow> path_ok (snd bs) \<and>
     (if fst bs then g_engine (snd bs) \<noteq> 0 \<and> g_pid (snd bs) \<and> pl_callbacks (snd bs) = callbacks_for (g_basic_auth (snd bs))
      else g_engine (snd bs) = 0 \<and> pl_callbacks (snd bs) = [])"

lemma plugin_ok_cong: "same_statics s t \<Longrightarrow> plugin_ok (b, t) \<longleftrightarrow> plugin_ok (b, s)"
  by (auto simp: plugin_ok_def path_ok_def same_statics_def)

definition keeps_plugin :: "'w plugin \<Rightarrow> 'w plugin \<Rightarrow> bool" where
  "keeps_plugin s t \<longleftrightarrow> path_ok t \<and> g_engine t = g_engine s \<and> g_pid t = g_pid s \<and> pl_callbacks t = pl_callbacks s \<and> pl_eng t = pl_eng s"

lemma keeps_plugin_upd:
  "keeps_plugin s t \<Longrightarrow> keeps_plugin s (t\<lparr>g_script_path := put_cstr (g_script_path t) (take 4095 b)\<rparr>)"
  "keeps_plugin s t \<Longrightarrow> keeps_plugin s (t\<lparr>g_basic_auth := a\<rparr>)"
  by (simp_all add: keeps_plugin_def path_ok_def)

lemma acl_options_keep: "keeps_plugin s t \<Longrightarrow> keeps_plugin s (snd (acl_options opts ops t))"
proof (induction opts arbitrary: ops t)
  case (Cons kv opts)
  obtain k v where kv: "kv = (k, v)" by (cases kv)
  note keep = Cons.IH [OF keeps_plugin_upd(1) [OF Cons.prems]] Cons.IH [OF keeps_plugin_upd(2) [OF Cons.prems]] Cons.IH [OF Cons.prems]
  show ?case unfolding kv acl_options.simps(2) by (simp only: keep split: if_split) simp
qed simp

lemma acl_options_frame:
  assumes "acl_options opts ops s = (ops', s')" and "path_ok s"
  shows "path_ok s' \<and> g_engine s' = g_engine s \<and> g_pid s' = g_pid s \<and> pl_callbacks s' = pl_callbacks s \<and> pl_eng s' = pl_eng s"
proof -
  have "keeps_plugin s s" using assms(2) by (simp add: keeps_plugin_def)
  then have "keeps_plugin s s'" using acl_options_keep [of s s opts ops] assms(1) by simp
  then show ?thesis by (simp add: keeps_plugin_def)
qed

context engine_contract
begin

lemma plugin_init_safe:
  assumes "engine_ok (pl_eng s)" and "plugin_ok (False, s)"
  shows "defined (\<lambda>(rc, s'). engine_ok (pl_eng s') \<and> plugin_ok (rc = MOSQ_ERR_SUCCESS, s')) (mosquitto_plugin_init api files malloc_ok opts s)"
proof -
  define s1 where "s1 = s\<lparr>g_pid := True, g_script_path := (g_script_path s)[0 := 0]\<rparr>"
  have "0 \<in> set ((g_script_path s)[0 := 0])" using assms(2) by (auto simp: plugin_ok_def path_ok_def intro!: set_update_memI)
  then have p1: "path_ok s1" using assms(2) by (simp add: s1_def path_ok_def plugin_ok_def nul_terminated_def)
  obtain ops s2 where o: "acl_options opts 100000 s1 = (ops, s2)" by fastforce
  have s2: "path_ok s2" "g_engine s2 = 0" "g_pid s2" "pl_callbacks s2 = []" "engine_ok (pl_eng s2)"
    using acl_options_frame [OF o p1] assms by (auto simp: s1_def plugin_ok_def)
  obtain e w where init: "api_init_with_config api (Some (acl_config ops)) (pl_eng s2) = (e, w)" by fastforce
  have w: "engine_ok w" using init_ok [OF s2(5), of "Some (acl_config ops)"] init by simp
  define s3 where "s3 = with_eng (api_set_write_fn api e w) ((with_eng w s2)\<lparr>g_engine := e\<rparr>)"
  have s3: "engine_ok (pl_eng s3)" "path_ok s3" "g_engine s3 = e" "g_pid s3" "pl_callbacks s3 = []"
    using s2 write_ok [OF w] by (auto simp: s3_def path_ok_def)
  have fin: "defined (\<lambda>(rc, s'). engine_ok (pl_eng s') \<and> plugin_ok (rc = MOSQ_ERR_SUCCESS, s'))
      (load_script api files malloc_ok s3 \<bind> (\<lambda>(rc, s). if rc \<noteq> MOSQ_ERR_SUCCESS
        then Some (rc, (with_eng (api_destroy api (g_engine s) (pl_eng s)) s)\<lparr>g_engine := 0\<rparr>) else Some (MOSQ_ERR_SUCCESS, acl_register s)))"
    if "e \<noteq> 0"
    using s3 that drop_ok
    by (auto intro!: defined_bind [OF load_script_safe [OF s3(1)]] split: prod.splits
        simp: plugin_ok_def path_ok_def same_statics_def acl_register_def mosquitto_callback_register_def callbacks_for_def Let_def)
  show ?thesis
    using s2 w fin
    by (auto simp: mosquitto_plugin_init_def s1_def [symmetric] o init Let_def s3_def [symmetric] plugin_ok_def path_ok_def
        simp del: bytes_of_Cons)
qed

lemma broker_step_ok:
  assumes "broker_step api lit (b, s) (b', s')" and "engine_ok (pl_eng s)" and "plugin_ok (b, s)"
  shows "engine_ok (pl_eng s') \<and> plugin_ok (b', s')"
  using assms(1)
proof (cases rule: broker_step.cases)
  case (load files malloc_ok options rc)
  then show ?thesis using plugin_init_safe [of s files malloc_ok options] assms by simp
next
  case (check ed rc)
  then show ?thesis using on_acl_check_safe [of s lit ed] assms plugin_ok_cong by fastforce
next
  case (auth ad rc)
  then show ?thesis using on_basic_auth_safe [of s lit ad] assms plugin_ok_cong by fastforce
next
  case (reload files malloc_ok rc)
  then show ?thesis using on_reload_safe [of s files malloc_ok] assms plugin_ok_cong by fastforce
next
  case (unload rc)
  then show ?thesis using assms drop_ok
    by (auto simp: mosquitto_plugin_cleanup_def Let_def plugin_ok_def path_ok_def callbacks_for_def
        mosquitto_callback_unregister_def)
qed

text \<open>Every state the broker reaches is sound, and no callback it may then invoke is undefined.\<close>

lemma broker_reachable_ok:
  assumes "(broker_step api lit)\<^sup>*\<^sup>* (False, s0) bs" and "engine_ok (pl_eng s0)" and "plugin_ok (False, s0)"
  shows "engine_ok (pl_eng (snd bs)) \<and> plugin_ok bs"
  using assms(1)
proof (induction rule: rtranclp_induct)
  case (step x y)
  then show ?case using broker_step_ok by (metis prod.collapse)
qed (use assms in simp)

end

section \<open>The decision\<close>

definition str_wire :: "(byte list \<Rightarrow> u64) \<Rightarrow> byte list \<Rightarrow> gengo_value_wire_t" where
  "str_wire lit b = \<lparr>w_tag = tag_code GENGO_WIRE_STRING, w_flags = 0, w_reserved = 0, w_payload = lit b,
     w_len = of_nat (length b), w_reserved2 = 0\<rparr>"

lemma wire_strs_exact:
  "set ss \<subseteq> set ts \<Longrightarrow> inj_on lit (set ts) \<Longrightarrow> \<forall>b \<in> set ss. 0 \<notin> set b \<Longrightarrow>
     wire_strs (put_lits lit ts m) lit ss = Some (map (str_wire lit) ss)"
proof (induction ss)
  case (Cons s ss)
  then have "mem_bytes (put_lits lit ts m) (lit s) = Some (s @ [0])" by (intro put_lits_at) auto
  then show ?case
    using Cons by (simp add: wire_str_def c_strlen_def nul_terminated_def cstr_id str_wire_def)
qed simp

definition says_yes :: "int \<Rightarrow> gengo_value_wire_t option \<Rightarrow> bool" where
  "says_yes rc out \<longleftrightarrow> rc = 0 \<and> (\<exists>v. out = Some v \<and> w_tag v = tag_code GENGO_WIRE_BOOLEAN \<and> w_payload v = 1)"

lemma call_bool_result:
  assumes "call_bool api fn args s = Some (ok, s')"
    and "api_call api (g_engine s) (slice_of fn) args (pl_mem s) (pl_eng s) = (rc, out, m, w)"
  shows "ok \<longleftrightarrow> says_yes rc out"
  using assms by (auto simp: call_bool_def Let_def says_yes_def gengo_wire_null_def split: if_splits bind_splits option.splits)

definition acl_strs :: "acl_check_t \<Rightarrow> byte list \<Rightarrow> byte list list" where
  "acl_strs ed a = [or_empty (ac_client ed), or_empty (ac_username ed), or_empty (ac_topic ed), a]"

text \<open>C20. Access control is fail-closed: an access is granted exactly when the script's acl, called with the client, the user, the topic and
  the name of the access kind, returned code 0 and the boolean true; every error of the script and every other value denies it, and a kind of
  access that is not one of the four is denied without asking.\<close>

theorem acl_fail_closed:
  assumes "on_acl_check api lit ed s = Some (rc, s')" and "inj_on lit (set (acl_strs ed a))" and "\<forall>b \<in> set (acl_strs ed a). 0 \<notin> set b"
    and "api_call api (g_engine s) (slice_of (bytes_of ''acl'')) (map (str_wire lit) (acl_strs ed a))
           (put_lits lit (acl_strs ed a) (pl_mem s)) (pl_eng s) = (c, out, m, w)"
    and "access_name (ac_access ed) = Some a \<or> access_name (ac_access ed) = None"
  shows "rc = (if access_name (ac_access ed) = Some a \<and> says_yes c out then MOSQ_ERR_SUCCESS else MOSQ_ERR_ACL_DENIED)"
proof (cases "access_name (ac_access ed)")
  case None
  then show ?thesis using assms(1) by (simp add: on_acl_check_def)
next
  case (Some a')
  then have a: "access_name (ac_access ed) = Some a" using assms(5) by simp
  let ?s = "s\<lparr>pl_mem := put_lits lit (acl_strs ed a) (pl_mem s)\<rparr>"
  have "wire_strs (pl_mem ?s) lit (acl_strs ed a) = Some (map (str_wire lit) (acl_strs ed a))"
    using wire_strs_exact [OF _ assms(2,3)] by simp
  then obtain ok where ok: "call_bool api (bytes_of ''acl'') (map (str_wire lit) (acl_strs ed a)) ?s = Some (ok, s')"
    and rc: "rc = (if ok then MOSQ_ERR_SUCCESS else MOSQ_ERR_ACL_DENIED)"
    using assms(1) a by (auto simp: on_acl_check_def acl_strs_def [symmetric] Let_def split: bind_splits simp del: bytes_of_Cons)
  then show ?thesis using call_bool_result [OF ok] assms(4) a by simp
qed

definition acl_demo_api :: "gengo_value_wire_t \<Rightarrow> unit engine_api" where
  "acl_demo_api v = \<lparr>api_init = (\<lambda>w. (1, w)), api_init_with_config = (\<lambda>c w. (1, w)), api_destroy = (\<lambda>h w. w), api_reset = (\<lambda>h w. w),
     api_run = (\<lambda>h s w. (0, w)), api_run_path = (\<lambda>h s p w. (0, w)), api_call = (\<lambda>h n args m w. (0, Some v, m, w)),
     api_load_bundle = (\<lambda>h n z w. (0, w)), api_load_bundle_dir = (\<lambda>h n d w. (0, w)), api_last_error = (\<lambda>h n w. (0, [])),
     api_last_error_line = (\<lambda>h w. 0), api_last_error_col = (\<lambda>h w. 0), api_set_write_fn = (\<lambda>h w. w), api_take_output = (\<lambda>w. ([], w))\<rparr>"

definition acl_demo :: "unit plugin" where
  "acl_demo = \<lparr>g_pid = True, g_engine = 1, g_script_path = bytes_of ''p'' @ replicate 4095 0, g_basic_auth = False,
     pl_callbacks = [], pl_log = [], pl_junk = [], pl_mem = \<lparr>mem_bytes = Map.empty, mem_wires = Map.empty\<rparr>, pl_eng = ()\<rparr>"

definition acl_demo_check :: acl_check_t where
  "acl_demo_check = \<lparr>ac_client = Some [99, 49], ac_username = None, ac_topic = Some [116], ac_access = MOSQ_ACL_READ\<rparr>"

definition acl_demo_lit :: "byte list \<Rightarrow> u64" where
  "acl_demo_lit b = 16 + of_nat (length b)"

theorem acl_fail_closed_witness:
  "\<exists>s' s''. on_acl_check (acl_demo_api (gengo_wire_bool 1)) acl_demo_lit acl_demo_check acl_demo = Some (MOSQ_ERR_SUCCESS, s')
     \<and> on_acl_check (acl_demo_api (gengo_wire_int 1)) acl_demo_lit acl_demo_check acl_demo = Some (MOSQ_ERR_ACL_DENIED, s'')"
proof -
  have strs: "acl_strs acl_demo_check (bytes_of ''read'') = [[99, 49], [], [116], bytes_of ''read'']"
    by (simp add: acl_strs_def acl_demo_check_def or_empty_def)
  have inj: "inj_on acl_demo_lit (set (acl_strs acl_demo_check (bytes_of ''read'')))"
    unfolding strs by (simp add: acl_demo_lit_def)
  have nz: "\<forall>b \<in> set (acl_strs acl_demo_check (bytes_of ''read'')). 0 \<notin> set b" unfolding strs by simp
  have rc: "\<exists>s'. on_acl_check (acl_demo_api v) acl_demo_lit acl_demo_check acl_demo
      = Some (if says_yes 0 (Some v) then MOSQ_ERR_SUCCESS else MOSQ_ERR_ACL_DENIED, s')" for v
  proof -
    have "wire_strs (put_lits acl_demo_lit (acl_strs acl_demo_check (bytes_of ''read'')) (pl_mem acl_demo)) acl_demo_lit
        (acl_strs acl_demo_check (bytes_of ''read'')) = Some (map (str_wire acl_demo_lit) (acl_strs acl_demo_check (bytes_of ''read'')))"
      using wire_strs_exact [OF _ inj nz] by simp
    then obtain rc s' where r: "on_acl_check (acl_demo_api v) acl_demo_lit acl_demo_check acl_demo = Some (rc, s')"
      unfolding acl_strs_def
      by (simp add: on_acl_check_def call_bool_def acl_demo_api_def Let_def acl_demo_check_def del: bytes_of_Cons wire_strs.simps)
    have "rc = (if access_name (ac_access acl_demo_check) = Some (bytes_of ''read'') \<and> says_yes 0 (Some v)
        then MOSQ_ERR_SUCCESS else MOSQ_ERR_ACL_DENIED)"
      by (rule acl_fail_closed [OF r inj nz, where w = "()"]) (simp_all add: acl_demo_api_def acl_demo_check_def)
    then show ?thesis using r by (auto simp: acl_demo_check_def)
  qed
  show ?thesis using rc [of "gengo_wire_bool 1"] rc [of "gengo_wire_int 1"]
    by (simp add: says_yes_def gengo_wire_bool_def gengo_wire_int_def)
qed

text \<open>A reload gives up the previous policy before the new script has been accepted: once the file is open and its buffer allocated, the
  engine after the reload, whatever its outcome, is determined by the reset engine. Two plugins that served different policies end up in the same
  engine state, although the log then says that the previous policy is kept.\<close>

theorem reload_forgets_previous_policy:
  assumes "on_reload api files malloc_ok s = Some (rc, s')" and "on_reload api files malloc_ok t = Some (rc', t')"
    and "same_statics s t" and "files (cstr (g_script_path s)) = Some f" and "malloc_ok SCRIPT_MAX_BYTES"
    and "api_reset api (g_engine s) (pl_eng s) = api_reset api (g_engine s) (pl_eng t)"
  shows "pl_eng s' = pl_eng t'"
proof -
  have eng: "pl_eng u' = snd (api_take_output api (snd (api_run api (g_engine u) (slice_of (take SCRIPT_MAX_BYTES (f_bytes f)))
      (api_reset api (g_engine u) (pl_eng u)))))"
    if "on_reload api files malloc_ok u = Some (r, u')" "files (cstr (g_script_path u)) = Some f" for u u' :: "'a plugin" and r
    using that assms(5)
    by (auto simp: on_reload_def load_script_def Let_def split: bind_splits prod.splits if_splits dest!: log_frame simp del: bytes_of_Cons)
  show ?thesis using eng [OF assms(1)] eng [OF assms(2)] assms(3,4,6) by (simp add: same_statics_def)
qed

definition policy_api :: "nat engine_api" where
  "policy_api = \<lparr>api_init = (\<lambda>w. (1, w)), api_init_with_config = (\<lambda>c w. (1, w)), api_destroy = (\<lambda>h w. w), api_reset = (\<lambda>h w. 0),
     api_run = (\<lambda>h s w. (-1, w)), api_run_path = (\<lambda>h s p w. (0, w)), api_call = (\<lambda>h n args m w. (0, None, m, w)),
     api_load_bundle = (\<lambda>h n z w. (0, w)), api_load_bundle_dir = (\<lambda>h n d w. (0, w)), api_last_error = (\<lambda>h n w. (0, [])),
     api_last_error_line = (\<lambda>h w. 0), api_last_error_col = (\<lambda>h w. 0), api_set_write_fn = (\<lambda>h w. w), api_take_output = (\<lambda>w. ([], w))\<rparr>"

definition policy_plugin :: "nat \<Rightarrow> nat plugin" where
  "policy_plugin w = \<lparr>g_pid = True, g_engine = 1, g_script_path = [112, 0], g_basic_auth = False,
     pl_callbacks = [], pl_log = [], pl_junk = [], pl_mem = \<lparr>mem_bytes = Map.empty, mem_wires = Map.empty\<rparr>, pl_eng = w\<rparr>"

theorem reload_forgets_previous_policy_witness:
  "\<exists>s' t'. on_reload policy_api (\<lambda>p. Some (regular_file [])) (\<lambda>n. True) (policy_plugin 7) = Some (MOSQ_ERR_SUCCESS, s')
     \<and> on_reload policy_api (\<lambda>p. Some (regular_file [])) (\<lambda>n. True) (policy_plugin 8) = Some (MOSQ_ERR_SUCCESS, t') \<and> pl_eng s' = pl_eng t'"
proof -
  have run: "\<exists>s'. on_reload policy_api (\<lambda>p. Some (regular_file [])) (\<lambda>n. True) (policy_plugin w) = Some (MOSQ_ERR_SUCCESS, s')" for w
    by (simp add: on_reload_def load_script_def acl_log_engine_error_def policy_api_def policy_plugin_def Let_def stack_buf_def fmt_prec_def
        with_eng_def acl_deliver_def del: bytes_of_Cons)
  obtain s' where s': "on_reload policy_api (\<lambda>p. Some (regular_file [])) (\<lambda>n. True) (policy_plugin 7) = Some (MOSQ_ERR_SUCCESS, s')" using run by blast
  obtain t' where t': "on_reload policy_api (\<lambda>p. Some (regular_file [])) (\<lambda>n. True) (policy_plugin 8) = Some (MOSQ_ERR_SUCCESS, t')" using run by blast
  have "pl_eng s' = pl_eng t'"
    by (rule reload_forgets_previous_policy [OF s' t']) (simp_all add: same_statics_def policy_plugin_def policy_api_def)
  then show ?thesis using s' t' by blast
qed

end
