(* ===== verification/EngineHosts.thy ===== *)
theory EngineHosts
  imports EngineAbiProps FastCgiProps FirmwareGateProps BundleHost SqlitePolicyProps MosquittoAclProps
begin

text \<open>
  The engine library as the hosts see it: the exported functions of \<open>src/engine.zig\<close> fill the record of prototypes of
  \<open>gengo-engine.h\<close>, and they keep the contract the host programs were verified against. So the five hosts run on the
  modelled engine without undefined behaviour.
\<close>

section \<open>Results of calls\<close>

definition result_ok :: "cmem \<Rightarrow> gengo_value_wire_t \<Rightarrow> bool" where
  "result_ok m v \<longleftrightarrow> (w_tag v = tag_code GENGO_WIRE_STRING \<and> w_payload v \<noteq> 0 \<longrightarrow> string_wire_ok m v)"

lemma result_ok_makeWire [simp]:
  "t \<noteq> GENGO_WIRE_STRING \<Longrightarrow> result_ok m (makeWire t p n)" "result_ok m null_wire" "result_ok m (number_wire f p)"
  by (cases t) (simp_all add: result_ok_def makeWire_def null_wire_def number_wire_def)

lemma string_wire_result: "text_ok (bh_mem s) b \<Longrightarrow> string_wire t b s = Inr (wr, s') \<Longrightarrow> result_ok (bh_mem s') wr"
  by (auto simp: string_wire_def wireLen_def result_ok_def string_wire_ok_def makeWire_def text_ok_def unat_of_nat split: if_splits)

lemma close_wires_result: "t \<noteq> GENGO_WIRE_STRING \<Longrightarrow> close_wires t n p r = Inr (wr, s') \<Longrightarrow> result_ok m wr"
  by (auto simp: close_wires_def split: sum.splits)

lemma bumped_result: "t \<noteq> GENGO_WIRE_STRING \<Longrightarrow> bumped t n k f s = Inr (wr, s') \<Longrightarrow> result_ok m wr"
  by (auto simp: bumped_def intro: close_wires_result split: option.splits)

lemma too_deep_Inr: "too_deep d r = Inr x \<longleftrightarrow> d < MaxWireDepth \<and> r = Inr x"
  by (auto simp: too_deep_def)

lemma valueToWireDepth_result:
  "text_in (bh_mem s) v \<Longrightarrow> valueToWireDepth v d s = Inr (wr, s') \<Longrightarrow> result_ok (bh_mem s') wr"
proof (induction v arbitrary: d)
  case (VError b)
  then show ?case
    by (auto simp: too_deep_Inr string_wire_def wireLen_def split: if_splits)
qed (auto simp: too_deep_Inr intro: string_wire_result bumped_result)

lemma elems_wire_result: "t \<noteq> GENGO_WIRE_STRING \<Longrightarrow> elems_wire env h t n r = Inr (wr, s') \<Longrightarrow> result_ok m wr"
  by (auto simp: elems_wire_def split: sum.splits)

lemma scratch_result:
  assumes "text_in (bh_mem s) v" "valueToWireWithScratch env h v s = Some (Inr (wr, s'))"
  shows "result_ok (bh_mem s') wr"
proof -
  have leaf: ?thesis if "valueToWireWithScratch env h v s = Some (valueToWireDepth v 0 s)"
    using that assms valueToWireDepth_result by simp
  show ?thesis
  proof (cases v)
    case (VString b)
    then show ?thesis
      using assms(2)
      by (auto simp: valueToWireWithScratch_def Let_def result_ok_def string_wire_ok_def makeWire_def store_bytes_def unat_of_nat
          split: prod.splits if_splits)
  qed (use assms(2) in \<open>auto simp: valueToWireWithScratch_def valueToWire_def simp del: valueToWireDepth.simps
        intro: elems_wire_result leaf split: if_splits\<close>)
qed

lemma heap_of_mem [simp]: "bh_mem (heap_of vm m r) = m"
  by (simp add: heap_of_def split: prod.split)

lemma return_value_result:
  "text_in m v \<Longrightarrow> return_value env h v m e = Some (rc, out, m', e') \<Longrightarrow> rc = 0 \<Longrightarrow> \<exists>wr. out = Some wr \<and> result_ok m' wr"
  using scratch_result [of "heap_of (en_vm env) m (e_rt e)" v env h] by (auto simp: return_value_def split: option.splits sum.splits)

lemma return_value_total: "text_in m v \<Longrightarrow> return_value env h v m e \<noteq> None"
proof -
  assume t: "text_in m v"
  have "length (snd (setStringScratch env h b)) < 2 ^ 32" if "length b < 2 ^ 32" for b
    using that by (auto simp: setStringScratch_def min_def split: option.split)
  then have "valueToWireWithScratch env h v s \<noteq> None" for s
    using t by (cases v) (auto simp: valueToWireWithScratch_def Let_def text_ok_def split_beta not_le [symmetric])
  then show ?thesis by (auto simp: return_value_def split: option.split sum.split)
qed

text \<open>A call either stops before the script or is a call of the virtual machine whose result is returned.\<close>

lemma call_result:
  assumes "interp_ok (en_vm (ew_env w))" "engine_call h nm args argc m w = Some (rc, out, m', w')" "rc = 0"
  shows "\<exists>wr. out = Some wr \<and> result_ok m' wr"
  using assms
  by (auto simp: engine_call_def Let_def split_beta interp_ok_def prod_eq_iff
      split: option.splits if_splits sum.splits dest!: return_value_result [rotated])

section \<open>Calls that return\<close>

text \<open>
  A wire the hosts build: null, a boolean, a number that is no rune, or a string whose bytes are readable.
\<close>

definition plain_wire :: "cmem \<Rightarrow> gengo_value_wire_t \<Rightarrow> bool" where
  "plain_wire m v \<longleftrightarrow> w_tag v = tag_code GENGO_WIRE_NULL \<or> w_tag v = tag_code GENGO_WIRE_BOOLEAN
     \<or> w_tag v = tag_code GENGO_WIRE_NUMBER \<and> w_flags v AND GENGO_WIRE_FLAG_RUNE = 0 \<or> string_wire_ok m v"

lemma plain_wires:
  "plain_wire m gengo_wire_null" "plain_wire m (gengo_wire_bool b)" "plain_wire m (gengo_wire_int n)" "plain_wire m (gengo_wire_float x)"
  by (simp_all add: plain_wire_def gengo_defs)

lemma plain_str: "s \<noteq> 0 \<Longrightarrow> gengo_wire_str m s = Some v \<Longrightarrow> plain_wire m v"
  by (auto simp: gengo_wire_str_def c_strlen_def plain_wire_def string_wire_ok_def gengo_defs unat_of_nat
      intro!: order_trans [OF mod_less_eq_dividend length_cstr_le] split: option.splits if_splits)

lemma plain_decodes:
  assumes "plain_wire m v" shows "wireToValue ok m v \<noteq> None"
proof -
  from assms consider (const) "w_tag v = tag_code GENGO_WIRE_NULL \<or> w_tag v = tag_code GENGO_WIRE_BOOLEAN"
    | (num) "w_tag v = tag_code GENGO_WIRE_NUMBER" "w_flags v AND GENGO_WIRE_FLAG_RUNE = 0"
    | (str) b where "w_tag v = tag_code GENGO_WIRE_STRING" "w_payload v \<noteq> 0" "mem_bytes m (w_payload v) = Some b" "unat (w_len v) \<le> length b"
    unfolding plain_wire_def string_wire_ok_def by blast
  then show ?thesis
  proof cases
    case const
    then show ?thesis unfolding wireToValue_def by (subst wireToValueDepth.simps) (elim disjE; simp add: MaxWireDepth_def)
  next
    case num
    then show ?thesis unfolding wireToValue_def by (subst wireToValueDepth.simps) (simp add: MaxWireDepth_def)
  next
    case str
    then have "wire_text ok m v \<noteq> None" by (simp add: wire_text_def load_bytes_def)
    then show ?thesis unfolding wireToValue_def
      by (subst wireToValueDepth.simps) (auto simp: MaxWireDepth_def str(1) dec_then_def split: sum.split)
  qed
qed

lemma dec_all_total: "\<forall>x \<in> set xs. f x \<noteq> None \<Longrightarrow> dec_all f xs \<noteq> None"
  by (induction xs) (auto simp: dec_then_def split: option.splits sum.splits)

lemma call_returns:
  assumes "interp_ok (en_vm (ew_env w))" "\<forall>v \<in> set args. plain_wire m v"
  shows "engine_call h nm (Some args) (int (length args)) m w \<noteq> None"
proof -
  have d: "dec_all (wireToValue ok m) args = None \<Longrightarrow> False" for ok
    using assms(2) plain_decodes dec_all_total [of args "wireToValue ok m"] by blast
  have r: "return_value env h v m' e = None \<Longrightarrow> False"
    if "vm_call (en_vm (ew_env w)) c nm vs m r = (Inr v, out, m', r')" for env v m' e c nm vs r out r'
    using that assms(1) return_value_total unfolding interp_ok_def by blast
  show ?thesis
    by (auto simp: engine_call_def Let_def pushEngineState_def dest: d dest: r split: option.split sum.split prod.split)
qed

section \<open>The library\<close>

text \<open>
  The record of prototypes, filled with the exported functions. The write callback collects what it is given; a call that
  panics would end the process and is answered -2 here, which \<open>call_returns\<close> excludes for the wires the hosts pass.
\<close>

definition engine_lib :: "'r world engine_api" where
  "engine_lib = \<lparr>api_init = engine_init, api_init_with_config = engine_init_with_config, api_destroy = engine_destroy, api_reset = engine_reset,
     api_run = engine_run, api_run_path = engine_run_path,
     api_call = (\<lambda>h nm args m w. case engine_call h nm (Some args) (int (length args)) m w of None \<Rightarrow> (-2, None, m, w) | Some r \<Rightarrow> r),
     api_load_bundle = engine_load_bundle, api_load_bundle_dir = engine_load_bundle_dir, api_last_error = engine_last_error,
     api_last_error_line = engine_last_error_line, api_last_error_col = engine_last_error_col,
     api_set_write_fn = (\<lambda>h. engine_set_write_fn h True), api_take_output = (\<lambda>w. (ew_output w, w\<lparr>ew_output := []\<rparr>))\<rparr>"

lemma last_error_spec:
  assumes "world_ok w" "engine_last_error h n w = (r, b)"
  shows "0 \<le> r" "r \<le> 512" "int (length b) = min r (max n 0)"
proof -
  have "length (e_last_error e) \<le> 512" if "getEngine h w = Some e" for e
    using getEngine_in [OF that] assms(1) by (auto simp: world_ok_def idle_def engine_inv_def MaxErrorLen_def)
  moreover have "length (ew_init_error w) \<le> 512" using assms(1) by (simp add: world_ok_def MaxErrorLen_def)
  ultimately show "0 \<le> r" "r \<le> 512" "int (length b) = min r (max n 0)"
    using assms(2) by (auto simp: engine_last_error_def split: option.splits if_splits)
qed

lemma lib_simps [simp]:
  "api_init engine_lib = engine_init" "api_init_with_config engine_lib = engine_init_with_config" "api_destroy engine_lib = engine_destroy"
  "api_reset engine_lib = engine_reset" "api_run engine_lib = engine_run" "api_run_path engine_lib = engine_run_path"
  "api_load_bundle engine_lib = engine_load_bundle" "api_load_bundle_dir engine_lib = engine_load_bundle_dir"
  "api_last_error engine_lib = engine_last_error" "api_set_write_fn engine_lib h = engine_set_write_fn h True"
  "snd (api_take_output engine_lib w) = w\<lparr>ew_output := []\<rparr>"
  by (simp_all add: engine_lib_def)

lemma lib_call:
  assumes w: "world_ok w" and c: "api_call engine_lib h name args m w = (rc, out, m', w')"
  shows "world_ok w' \<and> (rc = 0 \<longrightarrow> (\<exists>v. out = Some v \<and> result_ok m' v))"
proof (cases "engine_call h name (Some args) (int (length args)) m w")
  case None
  then show ?thesis using c w by (auto simp: engine_lib_def)
next
  case (Some x)
  have env: "interp_ok (en_vm (ew_env w))" and i: "idle w" using w by (simp_all add: world_ok_def env_ok_def)
  have c': "engine_call h name (Some args) (int (length args)) m w = Some (rc, out, m', w')" using c Some by (simp add: engine_lib_def)
  show ?thesis using updates_ok [OF w call_updates [OF i c']] call_result [OF env c'] by blast
qed

lemma lib_runs:
  assumes "world_ok w"
  shows "world_ok (snd (engine_run h s w))" "world_ok (snd (engine_run_path h s p w))" "world_ok (engine_reset h w)"
    "world_ok (snd (engine_load_bundle h nm z w))" "world_ok (snd (engine_load_bundle_dir h nm d w))" "world_ok (engine_set_write_fn h c w)"
    "world_ok (w\<lparr>ew_output := []\<rparr>)"
proof -
  have i: "idle w" and env: "env_ok (ew_env w)" using assms by (simp_all add: world_ok_def)
  note ok = updates_ok [OF assms]
  show "world_ok (snd (engine_run h s w))" "world_ok (snd (engine_run_path h s p w))" "world_ok (engine_reset h w)"
    "world_ok (snd (engine_load_bundle h nm z w))" "world_ok (snd (engine_load_bundle_dir h nm d w))" "world_ok (engine_set_write_fn h c w)"
    by (rule ok [OF run_calls_update(1) [OF i]] ok [OF run_calls_update(2) [OF i]] ok [OF reset_updates [OF i]]
        ok [OF load_calls_update(1) [OF env]] ok [OF load_calls_update(2) [OF env]] ok [OF setters_update(1)])+
  show "world_ok (w\<lparr>ew_output := []\<rparr>)" using assms by (simp add: world_ok_def idle_def)
qed

interpretation engine_library: engine_limits engine_lib world_ok
proof (unfold_locales, goal_cases)
  case (1 w h n r b)
  then show ?case using last_error_spec [of w h n r b] by simp
next
  case (2 w h name args m rc out m' w')
  then show ?case by (rule lib_call [unfolded result_ok_def])
next
  case (8 w h n)
  then show ?case using last_error_spec(2) [of w h n] by (cases "engine_last_error h n w") simp
qed (simp_all add: engine_init_ok engine_init_with_config_ok engine_destroy_ok lib_runs)

end
