(* ===== verification/EngineHeader.thy ===== *)
theory EngineHeader
  imports EngineHosts
begin

text \<open>
  What \<open>gengo-engine.h\<close> promises of each function, read off its comments, as predicates on the call: the arguments, the
  library before (\<open>w\<close>), the result and the library after (\<open>w'\<close>). \<open>keeps_header\<close> collects them for all calls and the lemmas
  show that the code keeps each promise; where the header is silent about an input (\<open>header_speaks\<close>) or says something the
  code does not do, the theorems say so.
\<close>

section \<open>The promises\<close>

abbreviation alive :: "'r world \<Rightarrow> int \<Rightarrow> bool" where
  "alive w h \<equiv> getEngine h w \<noteq> None"

text \<open>A description of a failed creation is available under the handle 0.\<close>

definition described :: "'r world \<Rightarrow> bool" where
  "described w \<longleftrightarrow> 0 < fst (engine_last_error 0 512 w)"

definition hdr_init :: "'r world \<Rightarrow> int \<times> 'r world \<Rightarrow> bool" where
  "hdr_init w r \<longleftrightarrow> (case r of (rc, w') \<Rightarrow>
     0 < rc \<and> \<not> alive w rc \<and> alive w' rc \<or> rc = 0 \<and> None \<notin> set (ew_slots w) \<or> rc = -4 \<and> described w')"

definition hdr_init_with_config :: "gengo_instance_config_t \<Rightarrow> 'r world \<Rightarrow> int \<times> 'r world \<Rightarrow> bool" where
  "hdr_init_with_config c w r \<longleftrightarrow> (case r of (rc, w') \<Rightarrow> let top = en_ceiling (ew_env w) in
     (0 < rc \<and> \<not> alive w rc \<and> alive w' rc \<or> rc = 0 \<and> None \<notin> set (ew_slots w) \<or> rc = -4
      \<or> rc = -3 \<and> (heap_size_bytes top < heap_size_bytes c \<or> max_objects top < max_objects c \<or> max_stack top < max_stack c
          \<or> max_frames top < max_frames c \<or> max_defers top < max_defers c))
     \<and> (rc \<le> 0 \<longrightarrow> described w'))"

definition hdr_destroy :: "int \<Rightarrow> 'r world \<Rightarrow> bool" where
  "hdr_destroy h w' \<longleftrightarrow> \<not> alive w' h"

text \<open>Reset keeps the configuration.\<close>

definition hdr_reset :: "int \<Rightarrow> 'r world \<Rightarrow> 'r world \<Rightarrow> bool" where
  "hdr_reset h w w' \<longleftrightarrow> map_option e_config (getEngine h w') = map_option e_config (getEngine h w)"

text \<open>The codes of a run stand for the outcome of the script.\<close>

definition hdr_run :: "run_result \<Rightarrow> int \<Rightarrow> bool" where
  "hdr_run res rc \<longleftrightarrow> (case res of RunOk \<Rightarrow> rc = 0 | CompileError er \<Rightarrow> rc = -1 | RuntimeError er \<Rightarrow> rc = -2)"

definition hdr_run_path :: "run_result \<Rightarrow> int \<Rightarrow> bool" where
  "hdr_run_path res rc \<longleftrightarrow> (case res of RunOk \<Rightarrow> rc = 0 | CompileError er \<Rightarrow> rc = -1 | RuntimeError er \<Rightarrow> rc = -2)"

definition hdr_begin :: "bool \<Rightarrow> exec_result \<Rightarrow> int \<Rightarrow> bool" where
  "hdr_begin valid_args res rc \<longleftrightarrow> (if \<not> valid_args then rc = -1
     else case res of Completed \<Rightarrow> rc = 0 | Suspended \<Rightarrow> rc = 1 | ExecCompileError er \<Rightarrow> rc = -1 | ExecRuntimeError er \<Rightarrow> rc = -2)"

definition hdr_continue :: "bool \<Rightarrow> exec_result \<Rightarrow> int \<Rightarrow> bool" where
  "hdr_continue valid_args res rc \<longleftrightarrow> hdr_begin valid_args res rc"

definition hdr_sleep_remaining_ms :: "int \<Rightarrow> 'r world \<Rightarrow> int \<Rightarrow> bool" where
  "hdr_sleep_remaining_ms h w rc \<longleftrightarrow> (\<not> alive w h \<longrightarrow> rc = -1)"

definition hdr_call :: "int \<Rightarrow> bool" where
  "hdr_call rc \<longleftrightarrow> rc \<in> {0, -2}"

definition hdr_add_source :: "int \<Rightarrow> 'r world \<Rightarrow> int \<Rightarrow> bool" where
  "hdr_add_source h w rc \<longleftrightarrow> (case getEngine h w of None \<Rightarrow> rc = -1
     | Some e \<Rightarrow> rc = (if length (e_sources e) = MaxSources then -3 else 0))"

definition hdr_register_module :: "int \<Rightarrow> byte list \<Rightarrow> int \<Rightarrow> 'r world \<Rightarrow> int \<Rightarrow> bool" where
  "hdr_register_module h name n w rc \<longleftrightarrow> (case getEngine h w of None \<Rightarrow> rc = -1
     | Some e \<Rightarrow> rc = (if length (e_modules e) = MaxHostModules then -3 else if n < 0 \<or> int MaxHostModuleFuncs < n then -4
         else if \<not> validateModuleName name then -5 else 0))"

definition hdr_set_host_call_fn :: "int \<Rightarrow> bool \<Rightarrow> 'r world \<Rightarrow> int \<times> 'r world \<Rightarrow> bool" where
  "hdr_set_host_call_fn h cb w r \<longleftrightarrow> (if alive w h then fst r = 0 \<and> map_option e_host_call_cb (getEngine h (snd r)) = Some cb else fst r = -1)"

definition hdr_set_import_loader :: "int \<Rightarrow> import_loader option \<Rightarrow> 'r world \<Rightarrow> int \<times> 'r world \<Rightarrow> bool" where
  "hdr_set_import_loader h cb w r \<longleftrightarrow> (if alive w h then fst r = 0 \<and> map_option e_loader (getEngine h (snd r)) = Some cb else fst r = -1)"

text \<open>Output falls through to the file descriptors when there is no write callback.\<close>

definition hdr_set_write_fn :: "int \<Rightarrow> bool \<Rightarrow> 'r world \<Rightarrow> 'r world \<Rightarrow> bool" where
  "hdr_set_write_fn h cb w w' \<longleftrightarrow> (alive w h \<longrightarrow> map_option e_write_cb (getEngine h w') = Some cb)"

definition hdr_set_read_fn :: "int \<Rightarrow> bool \<Rightarrow> 'r world \<Rightarrow> 'r world \<Rightarrow> bool" where
  "hdr_set_read_fn h cb w w' \<longleftrightarrow> (alive w h \<longrightarrow> map_option e_read_cb (getEngine h w') = Some cb)"

definition hdr_set_trace_fn :: "int \<Rightarrow> bool \<Rightarrow> 'r world \<Rightarrow> 'r world \<Rightarrow> bool" where
  "hdr_set_trace_fn h cb w w' \<longleftrightarrow> (if alive w h then map_option e_trace_cb (getEngine h w') = Some cb else w' = w)"

definition hdr_set_net_handlers :: "int \<Rightarrow> bool \<Rightarrow> 'r world \<Rightarrow> 'r world \<Rightarrow> bool" where
  "hdr_set_net_handlers h cb w w' \<longleftrightarrow> (if alive w h then map_option e_net_handlers (getEngine h w') = Some cb else w' = w)"

definition hdr_set_http_handler :: "int \<Rightarrow> bool \<Rightarrow> 'r world \<Rightarrow> 'r world \<Rightarrow> bool" where
  "hdr_set_http_handler h cb w w' \<longleftrightarrow> (if alive w h then map_option e_http_handler (getEngine h w') = Some cb else w' = w)"

text \<open>
  Policies: the codes of an added rule, and what an engine without rules decides. \<open>pattern_ok\<close> is the documented pattern syntax
  as the rule parser has it.
\<close>

definition pattern_ok :: "ip6_parser \<Rightarrow> byte list \<Rightarrow> bool" where
  "pattern_ok ip_six pattern \<longleftrightarrow> (\<exists>r. buildPolicyRule ip_six Allow pattern 0 = Inr r)"

definition hdr_policy_add :: "ip6_parser \<Rightarrow> byte list \<Rightarrow> PolicyState option \<Rightarrow> int \<times> PolicyState option \<Rightarrow> bool" where
  "hdr_policy_add ip_six pattern p r \<longleftrightarrow> (case p of None \<Rightarrow> fst r = -1
     | Some rules \<Rightarrow> if length rules = 32 then fst r = -2 \<and> snd r = p
         else if \<not> pattern_ok ip_six pattern then fst r = -3 \<and> snd r = p
         else fst r = 0 \<and> (\<exists>rule. snd r = Some (rules @ [rule])))"

definition hdr_net_policy_add :: "int \<Rightarrow> byte list \<Rightarrow> 'r world \<Rightarrow> int \<times> 'r world \<Rightarrow> bool" where
  "hdr_net_policy_add h pattern w r \<longleftrightarrow>
     hdr_policy_add (en_ip6 (ew_env w)) pattern (map_option e_dial (getEngine h w)) (fst r, map_option e_dial (getEngine h (snd r)))"

definition hdr_net_listen_policy_add :: "int \<Rightarrow> byte list \<Rightarrow> 'r world \<Rightarrow> int \<times> 'r world \<Rightarrow> bool" where
  "hdr_net_listen_policy_add h pattern w r \<longleftrightarrow>
     hdr_policy_add (en_ip6 (ew_env w)) pattern (map_option e_listen (getEngine h w)) (fst r, map_option e_listen (getEngine h (snd r)))
     \<and> map_option e_dial (getEngine h (snd r)) = map_option e_dial (getEngine h w)"

text \<open>As documented, a cleared dial policy allows every address, and a cleared listen policy none.\<close>

definition hdr_net_policy_clear :: "int \<Rightarrow> byte list \<Rightarrow> 'r world \<Rightarrow> bool" where
  "hdr_net_policy_clear h address w' \<longleftrightarrow> (\<forall>e. getEngine h w' = Some e \<longrightarrow> checkDialPolicy (en_ip6 (ew_env w')) (e_dial e) address)"

definition hdr_net_listen_policy_clear :: "int \<Rightarrow> byte list \<Rightarrow> 'r world \<Rightarrow> 'r world \<Rightarrow> bool" where
  "hdr_net_listen_policy_clear h address w w' \<longleftrightarrow> (case getEngine h w' of None \<Rightarrow> w' = w
     | Some e \<Rightarrow> \<not> checkListenPolicy (en_ip6 (ew_env w')) (e_listen e) address)"

text \<open>Bundles.\<close>

definition hdr_load_bundle :: "int \<Rightarrow> byte list \<Rightarrow> 'r world \<Rightarrow> int \<times> 'r world \<Rightarrow> bool" where
  "hdr_load_bundle h name w r \<longleftrightarrow> (case getEngine h w of None \<Rightarrow> fst r = -1
     | Some e \<Rightarrow> (fst r = -2 \<longleftrightarrow> length (e_packages e) = 32) \<and> fst r \<in> {0, -2, -3, -4, -5}
         \<and> (fst r = 0 \<longrightarrow> (\<exists>fs. map_option e_packages (getEngine h (snd r)) = Some (e_packages e @ [\<lparr>pk_name = name, pk_files = fs\<rparr>]) \<and> length fs \<le> 64))
         \<and> (fst r \<noteq> 0 \<longrightarrow> snd r = w))"

definition hdr_load_bundle_dir :: "int \<Rightarrow> byte list \<Rightarrow> 'r world \<Rightarrow> int \<times> 'r world \<Rightarrow> bool" where
  "hdr_load_bundle_dir h name w r \<longleftrightarrow> hdr_load_bundle h name w r"

definition hdr_clear_bundles :: "int \<Rightarrow> 'r world \<Rightarrow> 'r world \<Rightarrow> bool" where
  "hdr_clear_bundles h w w' \<longleftrightarrow> (\<forall>e. getEngine h w = Some e \<longrightarrow> (\<exists>e'. getEngine h w' = Some e' \<and> e_packages e' = []
     \<and> e_sources e' = e_sources e \<and> e_loader e' = e_loader e))"

text \<open>Introspection, mounts and errors.\<close>

definition hdr_get_global :: "int \<Rightarrow> byte list \<Rightarrow> bool \<Rightarrow> 'r world \<Rightarrow> int \<Rightarrow> bool" where
  "hdr_get_global h name out w rc \<longleftrightarrow> (case getEngine h w of None \<Rightarrow> rc = -1
     | Some e \<Rightarrow> if map_of (vm_globals (en_vm (ew_env w)) (e_rt e)) name = None then rc = -2 else rc = 0 \<or> rc = -3 \<and> out)"

definition hdr_list_globals :: "int \<Rightarrow> 'r world \<Rightarrow> int \<Rightarrow> bool" where
  "hdr_list_globals h w rc \<longleftrightarrow> rc = (if alive w h then 0 else -1)"

definition hdr_list_functions :: "int \<Rightarrow> 'r world \<Rightarrow> int \<Rightarrow> bool" where
  "hdr_list_functions h w rc \<longleftrightarrow> rc = (if alive w h then 0 else -1)"

definition hdr_mount_dir :: "int \<Rightarrow> byte list \<Rightarrow> 'r world \<Rightarrow> int \<times> 'r world \<Rightarrow> bool" where
  "hdr_mount_dir h name w r \<longleftrightarrow> (if \<not> alive w h then fst r = -1
     else fst r = 0 \<and> (\<exists>e m. getEngine h (snd r) = Some e \<and> view (e_mounts e) name = Some m) \<or> fst r = -2)"

definition hdr_mount_driver :: "int \<Rightarrow> byte list \<Rightarrow> nat \<Rightarrow> 'r world \<Rightarrow> int \<times> 'r world \<Rightarrow> bool" where
  "hdr_mount_driver h name d w r \<longleftrightarrow> (if \<not> alive w h then fst r = -1
     else fst r = 0 \<and> (\<exists>e. getEngine h (snd r) = Some e \<and> view (e_mounts e) name = Some (driver_mount name d)) \<or> fst r = -2)"

definition hdr_engine_version :: "byte list \<Rightarrow> bool" where
  "hdr_engine_version v \<longleftrightarrow> nul_terminated v"

text \<open>The full length is returned, and at most the buffer is written.\<close>

definition hdr_last_error :: "int \<Rightarrow> int \<Rightarrow> 'r world \<Rightarrow> int \<times> byte list \<Rightarrow> bool" where
  "hdr_last_error h n w r \<longleftrightarrow> (case getEngine h w of None \<Rightarrow> fst r = 0
     | Some e \<Rightarrow> fst r = int (length (e_last_error e)) \<and> snd r = take (nat n) (e_last_error e))"

definition hdr_last_error_line :: "int \<Rightarrow> 'r world \<Rightarrow> int \<Rightarrow> bool" where
  "hdr_last_error_line h w n \<longleftrightarrow> 0 \<le> n \<and> (\<not> alive w h \<longrightarrow> n = 0)"

definition hdr_last_error_col :: "int \<Rightarrow> 'r world \<Rightarrow> int \<Rightarrow> bool" where
  "hdr_last_error_col h w n \<longleftrightarrow> 0 \<le> n \<and> (\<not> alive w h \<longrightarrow> n = 0)"

definition hdr_last_error_path :: "int \<Rightarrow> int \<Rightarrow> 'r world \<Rightarrow> int \<times> byte list \<Rightarrow> bool" where
  "hdr_last_error_path h n w r \<longleftrightarrow> (case getEngine h w of None \<Rightarrow> fst r = 0
     | Some e \<Rightarrow> fst r = int (length (e_error_path e)) \<and> snd r = take (nat n) (e_error_path e))"

section \<open>All calls\<close>

definition script_result :: "'r world \<Rightarrow> 'r engine \<Rightarrow> cslice \<Rightarrow> byte list \<Rightarrow> run_result" where
  "script_result w e src path = (let e = setupHostModules (ew_env w) e
     in fst (vm_run (en_vm (ew_env w)) (caps_of e) (defaultSourceProvider (e_config e)) (wasmSlice src) path (e_rt e)))"

definition begin_result :: "'r world \<Rightarrow> 'r engine \<Rightarrow> cslice \<Rightarrow> exec_result" where
  "begin_result w e src = (let e = setupHostModules (ew_env w) e
     in fst (vm_begin (en_vm (ew_env w)) (caps_of e) Filesystem (wasmSlice src) (e_rt e)))"

fun keeps_header :: "abi_op \<Rightarrow> 'r world \<Rightarrow> bool" where
  "keeps_header OInit w = hdr_init w (engine_init w)"
| "keeps_header (OInitWithConfig c) w = (c \<noteq> None \<longrightarrow> hdr_init_with_config (the c) w (engine_init_with_config c w))"
| "keeps_header (ODestroy h) w = hdr_destroy h (engine_destroy h w)"
| "keeps_header (ORegisterModule h nm fs n) w = (\<forall>rc w'. engine_register_module h nm fs n w = Some (rc, w') \<longrightarrow> hdr_register_module h (wasmSlice nm) n w rc)"
| "keeps_header (ORun h s) w = (\<forall>e. getEngine h w = Some e \<longrightarrow> hdr_run (script_result w e s []) (fst (engine_run h s w)))"
| "keeps_header (ORunPath h s p) w = (\<forall>e. getEngine h w = Some e \<longrightarrow> hdr_run_path (script_result w e s (wasmSlice p)) (fst (engine_run_path h s p w)))"
| "keeps_header (OBegin h s) w = (case getEngine h w of None \<Rightarrow> fst (engine_begin h s w) = -1
     | Some e \<Rightarrow> hdr_begin (0 \<le> snd s) (begin_result w e s) (fst (engine_begin h s w)))"
| "keeps_header (OContinue h) w = (case getEngine h w of None \<Rightarrow> fst (engine_continue h w) = -1
     | Some e \<Rightarrow> hdr_continue True (fst (vm_continue (en_vm (ew_env w)) (caps_of e) (e_rt e))) (fst (engine_continue h w)))"
| "keeps_header (OReset h) w = hdr_reset h w (engine_reset h w)"
| "keeps_header (OCall h nm args argc m) w = (\<forall>r. engine_call h nm args argc m w = Some r \<longrightarrow> hdr_call (fst r))"
| "keeps_header (OAddSource h p s) w = hdr_add_source h w (fst (engine_add_source h p s w))"
| "keeps_header (OSetImportLoader h cb) w = hdr_set_import_loader h cb w (engine_set_import_loader h cb w)"
| "keeps_header (OSetHostCallFn h c) w = hdr_set_host_call_fn h c w (engine_set_host_call_fn h c w)"
| "keeps_header (OSetWriteFn h c) w = hdr_set_write_fn h c w (engine_set_write_fn h c w)"
| "keeps_header (OSetReadFn h c) w = hdr_set_read_fn h c w (engine_set_read_fn h c w)"
| "keeps_header (OSetTraceFn h c) w = hdr_set_trace_fn h c w (engine_set_trace_fn h c w)"
| "keeps_header (OSetNetHandlers h c) w = hdr_set_net_handlers h c w (engine_set_net_handlers h c w)"
| "keeps_header (OSetHttpHandler h c) w = hdr_set_http_handler h c w (engine_set_http_handler h c w)"
| "keeps_header (OMountDir h nm p) w = hdr_mount_dir h (wasmSlice nm) w (engine_mount_dir h nm p w)"
| "keeps_header (OMountDriver h nm d) w = (d \<noteq> None \<longrightarrow> hdr_mount_driver h (wasmSlice nm) (the d) w (engine_mount_driver h nm d w))"
| "keeps_header (OGetGlobal h nm b m) w = (\<forall>r. engine_get_global h nm b m w = Some r \<longrightarrow> hdr_get_global h (wasmSlice nm) b w (fst r))"
| "keeps_header (OListGlobals h b m) w = (\<forall>r. engine_list_globals h b m w = Some r \<longrightarrow> hdr_list_globals h w (fst r))"
| "keeps_header (OPolicyAdd h a p q) w = hdr_net_policy_add h (wasmSlice p) w (engine_net_policy_add h a p q w)"
| "keeps_header (OPolicyClear h) w = (\<forall>address. hdr_net_policy_clear h address (engine_net_policy_clear h w))"
| "keeps_header (OListenAdd h a p q) w = hdr_net_listen_policy_add h (wasmSlice p) w (engine_net_listen_policy_add h a p q w)"
| "keeps_header (OListenClear h) w = (\<forall>address. hdr_net_listen_policy_clear h address w (engine_net_listen_policy_clear h w))"
| "keeps_header (OLoadBundle h nm z) w = hdr_load_bundle h (wasmSlice nm) w (engine_load_bundle h nm z w)"
| "keeps_header (OLoadBundleDir h nm d) w = hdr_load_bundle_dir h (wasmSlice nm) w (engine_load_bundle_dir h nm d w)"
| "keeps_header (OClearBundles h) w = hdr_clear_bundles h w (engine_clear_bundles h w)"

text \<open>
  The inputs the header speaks about: lengths that are not negative, arguments within the limits it leaves unmentioned, and
  not the cases where it contradicts the code (a creation that finds no free slot, a cleared dial policy).
\<close>

definition sizes :: "gengo_instance_config_t \<Rightarrow> nat list" where
  "sizes c = [heap_size_bytes c, max_objects c, max_stack c, max_frames c, max_defers c]"

fun header_speaks :: "abi_op \<Rightarrow> 'r world \<Rightarrow> bool" where
  "header_speaks (OInitWithConfig c) w = (c \<noteq> None \<and> None \<in> set (ew_slots w)
     \<and> (\<forall>n \<in> set (sizes (the c)) \<union> set (sizes (en_ceiling (ew_env w))). n < 2 ^ 64))"
| "header_speaks (ORegisterModule h nm fs n) w = (\<exists>l. fs = Some l \<and> (\<forall>f \<in> set l. length (wasmSlice (fd_name f, int (fd_name_len f))) \<le> 64 \<and> fd_arity f \<le> 255))"
| "header_speaks (ORun h s) w = (0 \<le> snd s)"
| "header_speaks (ORunPath h s p) w = (0 \<le> snd s \<and> 0 \<le> snd p)"
| "header_speaks (OCall h nm args argc m) w = (getEngine h w \<noteq> None \<and> 0 \<le> argc \<and> argc \<le> 64)"
| "header_speaks (OAddSource h p s) w = (0 \<le> snd p \<and> 0 \<le> snd s \<and> length (wasmSlice p) \<le> 256 \<and> length (wasmSlice s) \<le> 4096)"
| "header_speaks (OMountDir h nm p) w = (0 \<le> snd nm \<and> 0 \<le> snd p)"
| "header_speaks (OMountDriver h nm d) w = (0 \<le> snd nm)"
| "header_speaks (OPolicyClear h) w = False"
| "header_speaks (OLoadBundle h nm z) w = (0 < snd nm \<and> 0 < snd z)"
| "header_speaks (OLoadBundleDir h nm d) w = (0 < snd nm \<and> 0 < snd d \<and> en_walk (ew_env w) (wasmSlice d) \<noteq> Inl PackageTableFull)"
| "header_speaks op w = True"

text \<open>The calls that only read, on a handle (0 asks for the description of a failed creation instead).\<close>

definition queries_keep_header :: "int \<Rightarrow> int \<Rightarrow> 'r world \<Rightarrow> bool" where
  "queries_keep_header h n w \<longleftrightarrow> hdr_last_error h n w (engine_last_error h n w) \<and> hdr_last_error_path h n w (engine_last_error_path h n w)
     \<and> hdr_last_error_line h w (engine_last_error_line h w) \<and> hdr_last_error_col h w (engine_last_error_col h w)
     \<and> hdr_sleep_remaining_ms h w (engine_sleep_remaining_ms h w) \<and> hdr_engine_version (gengo_engine_version (ew_env w))
     \<and> (\<forall>b. hdr_list_functions h w (fst (engine_list_functions h b w)))"

section \<open>The code keeps them\<close>

lemma slots_len: "world_ok w \<Longrightarrow> length (ew_slots w) = MaxEngines"
  by (simp add: world_ok_def idle_def)

lemma engine_at: "world_ok w \<Longrightarrow> getEngine h w = Some e \<Longrightarrow> engine_inv (ew_env w) e"
  using getEngine_in [of h w e] slots_len [of w] by (auto simp: world_ok_def)

lemma claim_slot_header:
  assumes "claim_slot msg e0 w = (rc, w')" "length (ew_slots w) = MaxEngines" "msg \<noteq> []"
  shows "0 < rc \<and> \<not> alive w rc \<and> alive w' rc \<or> rc = 0 \<and> None \<notin> set (ew_slots w) \<or> rc = -4 \<and> described w'"
proof (cases "free_slot (ew_slots w)")
  case None
  then show ?thesis using assms(1) free_slot_None [of "ew_slots w"] by (simp add: claim_slot_def)
next
  case (Some i)
  note i = free_slot_Some [OF Some]
  have "getEngine (int i + 1) v = ew_slots v ! i" for v :: "'a world" using i assms(2) by (intro getEngine_slot) simp
  moreover have "getEngine 0 v = None" for v :: "'a world" by (simp add: getEngine_def)
  ultimately show ?thesis
    using assms i Some by (cases e0) (auto simp: claim_slot_def described_def engine_last_error_def setInitError_def MaxErrorLen_def bytes_of_def)
qed

lemma init_header: "world_ok w \<Longrightarrow> hdr_init w (engine_init w)"
  using claim_slot_header [of "''engine_init: allocation failed''" "initInPlaceDefault (ew_env w)" "w\<lparr>ew_init_error := []\<rparr>"]
  by (auto simp: hdr_init_def engine_init_def slots_len split: prod.split)


lemma length_dec_nat: "n < 10 ^ k \<Longrightarrow> 0 < k \<Longrightarrow> length (dec_nat n) \<le> k"
proof (induction n arbitrary: k rule: dec_nat.induct)
  case (1 n)
  show ?case
  proof (cases "n < 10")
    case True
    then show ?thesis using 1(3) by (simp add: dec_nat.simps [of n])
  next
    case False
    then obtain j where j: "k = Suc (Suc j)" using 1(2,3) by (cases k; cases "k - 1") auto
    have "n div 10 < 10 ^ Suc j" using 1(2) by (simp add: j less_mult_imp_div_less mult.commute)
    then have "length (dec_nat (n div 10)) \<le> Suc j" using 1(1) [OF False] by simp
    then show ?thesis using False by (simp add: dec_nat.simps [of n] j)
  qed
qed

text \<open>The sizes of a configuration are \<open>size_t\<close>, so the description of an excess fits its buffer.\<close>

lemma exceeds_nonempty:
  assumes "length nm \<le> 64" "r < 2 ^ 64" "c < 2 ^ 64"
  shows "exceeds nm r c \<noteq> []"
proof -
  have "length (dec_nat r) \<le> 20" "length (dec_nat c) \<le> 20" using assms(2,3) by (auto intro!: length_dec_nat)
  then show ?thesis using assms(1) by (simp add: exceeds_def bufPrint_def MaxErrorLen_def bytes_of_def)
qed

lemma length_sizes: "length (sizes c) = 5"
  by (simp add: sizes_def)

lemma init_config_outcome:
  "engine_init_with_config (Some c) w = claim_slot ''engine_init_with_config: allocation failed'' (initInPlaceWithConfig (ew_env w) c) (w\<lparr>ew_init_error := []\<rparr>)
   \<or> (\<exists>nm i. i < 5 \<and> length nm \<le> 64 \<and> sizes (en_ceiling (ew_env w)) ! i < sizes c ! i
        \<and> engine_init_with_config (Some c) w = (-3, w\<lparr>ew_init_error := exceeds nm (sizes c ! i) (sizes (en_ceiling (ew_env w)) ! i)\<rparr>))"
proof -
  let ?R = "engine_init_with_config (Some c) w" and ?t = "en_ceiling (ew_env w)"
  have five: "\<exists>nm i. i < 5 \<and> length nm \<le> 64 \<and> sizes ?t ! i < sizes c ! i \<and> ?R = (-3, w\<lparr>ew_init_error := exceeds nm (sizes c ! i) (sizes ?t ! i)\<rparr>)"
    if "k < 5" "length n \<le> 64" "sizes ?t ! k < sizes c ! k" "?R = (-3, w\<lparr>ew_init_error := exceeds n (sizes c ! k) (sizes ?t ! k)\<rparr>)" for k n
    using that by blast
  note def = engine_init_with_config_def validateCeiling_def Let_def sizes_def
  consider (a) "heap_size_bytes ?t < heap_size_bytes c" | (b) "\<not> heap_size_bytes ?t < heap_size_bytes c" "max_objects ?t < max_objects c"
    | (d) "\<not> heap_size_bytes ?t < heap_size_bytes c" "\<not> max_objects ?t < max_objects c" "max_stack ?t < max_stack c"
    | (e) "\<not> heap_size_bytes ?t < heap_size_bytes c" "\<not> max_objects ?t < max_objects c" "\<not> max_stack ?t < max_stack c" "max_frames ?t < max_frames c"
    | (f) "\<not> heap_size_bytes ?t < heap_size_bytes c" "\<not> max_objects ?t < max_objects c" "\<not> max_stack ?t < max_stack c" "\<not> max_frames ?t < max_frames c"
        "max_defers ?t < max_defers c"
    | (g) "\<not> heap_size_bytes ?t < heap_size_bytes c" "\<not> max_objects ?t < max_objects c" "\<not> max_stack ?t < max_stack c" "\<not> max_frames ?t < max_frames c"
        "\<not> max_defers ?t < max_defers c" by blast
  then show ?thesis
  proof cases
    case a then show ?thesis by (intro disjI2 five [of 0 "''heap_size_bytes''"]) (simp_all add: def)
  next
    case b then show ?thesis by (intro disjI2 five [of 1 "''max_objects''"]) (simp_all add: def)
  next
    case d then show ?thesis by (intro disjI2 five [of 2 "''max_stack''"]) (simp_all add: def)
  next
    case e then show ?thesis by (intro disjI2 five [of 3 "''max_frames''"]) (simp_all add: def)
  next
    case f then show ?thesis by (intro disjI2 five [of 4 "''max_defers''"]) (simp_all add: def)
  next
    case g then show ?thesis by (intro disjI1) (simp add: def)
  qed
qed

lemma init_config_header:
  assumes "world_ok w" "None \<in> set (ew_slots w)" and "\<forall>n \<in> set (sizes c) \<union> set (sizes (en_ceiling (ew_env w))). n < 2 ^ 64"
  shows "hdr_init_with_config c w (engine_init_with_config (Some c) w)"
  using init_config_outcome [of c w]
proof (elim disjE exE conjE)
  assume eq: "engine_init_with_config (Some c) w = claim_slot ''engine_init_with_config: allocation failed'' (initInPlaceWithConfig (ew_env w) c) (w\<lparr>ew_init_error := []\<rparr>)"
  obtain rc w' where r: "claim_slot ''engine_init_with_config: allocation failed'' (initInPlaceWithConfig (ew_env w) c) (w\<lparr>ew_init_error := []\<rparr>) = (rc, w')"
    by fastforce
  then show ?thesis
    using claim_slot_header [OF r] assms(1,2) by (auto simp: eq r hdr_init_with_config_def Let_def slots_len)
next
  fix nm i
  assume i: "i < (5::nat)" "length nm \<le> 64" "sizes (en_ceiling (ew_env w)) ! i < sizes c ! i"
    and eq: "engine_init_with_config (Some c) w = (-3, w\<lparr>ew_init_error := exceeds nm (sizes c ! i) (sizes (en_ceiling (ew_env w)) ! i)\<rparr>)"
  have "exceeds nm (sizes c ! i) (sizes (en_ceiling (ew_env w)) ! i) \<noteq> []"
    using assms(3) i nth_mem [of i "sizes c"] nth_mem [of i "sizes (en_ceiling (ew_env w))"] by (intro exceeds_nonempty) (auto simp: length_sizes)
  moreover have "heap_size_bytes (en_ceiling (ew_env w)) < heap_size_bytes c \<or> max_objects (en_ceiling (ew_env w)) < max_objects c \<or> max_stack (en_ceiling (ew_env w)) < max_stack c
      \<or> max_frames (en_ceiling (ew_env w)) < max_frames c \<or> max_defers (en_ceiling (ew_env w)) < max_defers c"
    using i by (auto simp: sizes_def less_Suc_eq numeral_eq_Suc)
  ultimately show ?thesis
    by (simp add: eq hdr_init_with_config_def Let_def described_def engine_last_error_def getEngine_def)
qed

lemma simple_headers:
  assumes "world_ok w"
  shows "hdr_destroy h (engine_destroy h w)" "hdr_set_host_call_fn h c w (engine_set_host_call_fn h c w)"
    "hdr_set_import_loader h cb w (engine_set_import_loader h cb w)" "hdr_set_write_fn h c w (engine_set_write_fn h c w)"
    "hdr_set_read_fn h c w (engine_set_read_fn h c w)" "hdr_set_trace_fn h c w (engine_set_trace_fn h c w)"
    "hdr_set_net_handlers h c w (engine_set_net_handlers h c w)" "hdr_set_http_handler h c w (engine_set_http_handler h c w)"
    "hdr_clear_bundles h w (engine_clear_bundles h w)"
  using destroy_same [OF slots_len [OF assms]] getEngine_put [OF _ slots_len [OF assms]]
  by (auto simp: hdr_destroy_def hdr_set_host_call_fn_def hdr_set_import_loader_def hdr_set_write_fn_def hdr_set_read_fn_def hdr_set_trace_fn_def
      hdr_set_net_handlers_def hdr_set_http_handler_def hdr_clear_bundles_def engine_set_host_call_fn_def engine_set_import_loader_def
      engine_set_write_fn_def engine_set_read_fn_def engine_set_trace_fn_def engine_set_net_handlers_def engine_set_http_handler_def
      engine_clear_bundles_def clearRegistry_def setConfig_sources_def upd_engine_def split: option.split)

lemma run_headers:
  assumes "world_ok w" "getEngine h w = Some e"
  shows "0 \<le> snd s \<Longrightarrow> hdr_run (script_result w e s []) (fst (engine_run h s w))"
    and "0 \<le> snd s \<Longrightarrow> 0 \<le> snd p \<Longrightarrow> hdr_run_path (script_result w e s (wasmSlice p)) (fst (engine_run_path h s p w))"
    and "hdr_begin (0 \<le> snd s) (begin_result w e s) (fst (engine_begin h s w))"
    and "hdr_continue True (fst (vm_continue (en_vm (ew_env w)) (caps_of e) (e_rt e))) (fst (engine_continue h w))"
  using assms(2)
  by (auto simp: script_result_def begin_result_def hdr_run_def hdr_run_path_def hdr_begin_def hdr_continue_def engine_run_def engine_run_path_def
      engine_begin_def engine_continue_def in_engine_def pushEngineState_def run_code_def execResultCode_def Let_def split_beta caps_of_def
      split: run_result.split exec_result.split)

lemma reset_header: "world_ok w \<Longrightarrow> hdr_reset h w (engine_reset h w)"
proof (cases "getEngine h w")
  case None
  then show ?thesis by (simp add: hdr_reset_def engine_reset_def)
next
  case (Some e)
  assume w: "world_ok w"
  have "getEngine h (engine_reset h w) = Some ((clearError e)\<lparr>e_rt := vm_reset (en_vm (ew_env w)) (e_rt (clearError e))\<rparr>)"
    using w Some slots_len [OF w]
    by (simp add: engine_reset_def pushEngineState_def popEngineState_def Let_def world_ok_def getEngine_put [of h "w\<lparr>ew_view := _\<rparr>" e])
  then show ?thesis using Some by (simp add: hdr_reset_def clearError_def)
qed

lemma call_header: "getEngine h w \<noteq> None \<Longrightarrow> 0 \<le> argc \<Longrightarrow> argc \<le> 64 \<Longrightarrow> engine_call h nm args argc m w = Some r \<Longrightarrow> hdr_call (fst r)"
  by (auto simp: engine_call_def hdr_call_def Let_def pushEngineState_def split_beta return_value_def
      split: option.splits if_splits sum.splits)

lemma add_source_header:
  assumes "world_ok w" "0 \<le> snd p" "0 \<le> snd s" "length (wasmSlice p) \<le> 256" "length (wasmSlice s) \<le> 4096"
  shows "hdr_add_source h w (fst (engine_add_source h p s w))"
  using assms(2-5) engine_at [OF assms(1)]
  by (fastforce simp: hdr_add_source_def engine_add_source_def engine_inv_def sources_ok_def split: option.split)

lemma register_zero:
  "register_funcs fds n acc = Some (rc, n', fs) \<Longrightarrow>
     \<forall>f \<in> set fds. length (wasmSlice (fd_name f, int (fd_name_len f))) \<le> 64 \<and> fd_arity f \<le> 255 \<Longrightarrow> rc = 0"
  by (induction fds n acc rule: register_funcs.induct) (auto simp: Let_def split: if_splits)

lemma register_header:
  assumes "world_ok w" "\<forall>f \<in> set l. length (wasmSlice (fd_name f, int (fd_name_len f))) \<le> 64 \<and> fd_arity f \<le> 255"
    and "engine_register_module h nm (Some l) n w = Some (rc, w')"
  shows "hdr_register_module h (wasmSlice nm) n w rc"
proof (cases "getEngine h w")
  case None
  then show ?thesis using assms(3) by (simp add: engine_register_module_def hdr_register_module_def)
next
  case (Some e)
  have m: "length (e_modules e) \<le> MaxHostModules" using engine_at [OF assms(1) Some] by (simp add: engine_inv_def modules_ok_def)
  have z: "rc = 0" if "register_funcs (take k l) i [] = Some (rc, n', fs)" for rc k i n' fs
    using register_zero [OF that] assms(2) set_take_subset [of k l] by blast
  have eq: "(if n = 0 then [] else take (nat n) l) = take (nat n) l" by simp
  show ?thesis
    using assms(3) m Some unfolding engine_register_module_def eq option.sel
    by (auto simp: hdr_register_module_def Let_def split_beta dest: z simp del: register_funcs.simps split: if_splits option.splits)
qed


lemma hdr_policy_add_None [simp]: "hdr_policy_add ip_six pat None (-1, p)"
  by (simp add: hdr_policy_add_def)

lemma pattern_ok_iff: "(\<exists>r. buildPolicyRule ip_six act pat prt = Inr r) \<longleftrightarrow> pattern_ok ip_six pat"
  by (auto simp: pattern_ok_def buildPolicyRule_def Let_def split: option.split)

lemma add_rule_header:
  assumes "policy_ok p"
  shows "hdr_policy_add ip_six pat (Some p) (policy_code (fst (addRuleTo ip_six p act pat prt)), Some (snd (addRuleTo ip_six p act pat prt)))"
proof (cases "length p = 32")
  case True
  then show ?thesis using assms by (simp add: hdr_policy_add_def addRuleTo_def MaxPolicyRules_def policy_code_def)
next
  case False
  then have l: "\<not> MaxPolicyRules \<le> length p" using assms(1) by (simp add: policy_ok_def MaxPolicyRules_def)
  show ?thesis
    using l False pattern_ok_iff [of ip_six act pat prt] buildPolicyRule_err [of ip_six act pat prt]
    by (auto simp: hdr_policy_add_def addRuleTo_def policy_code_def split: sum.splits)
qed

lemma policy_headers:
  assumes "world_ok w"
  shows "hdr_net_policy_add h (wasmSlice p) w (engine_net_policy_add h a p q w)"
    and "hdr_net_listen_policy_add h (wasmSlice p) w (engine_net_listen_policy_add h a p q w)"
    and "hdr_net_listen_policy_clear h address w (engine_net_listen_policy_clear h w)"
proof -
  have ok: "policy_ok (e_dial e)" "policy_ok (e_listen e)" if "getEngine h w = Some e" for e
    using engine_at [OF assms that] by (simp_all add: engine_inv_def)
  note put = getEngine_put [OF _ slots_len [OF assms]]
  show "hdr_net_policy_add h (wasmSlice p) w (engine_net_policy_add h a p q w)"
    by (cases "getEngine h w") (simp_all add: hdr_net_policy_add_def engine_net_policy_add_def split_beta Let_def put add_rule_header [OF ok(1)])
  show "hdr_net_listen_policy_add h (wasmSlice p) w (engine_net_listen_policy_add h a p q w)"
    by (cases "getEngine h w") (simp_all add: hdr_net_listen_policy_add_def engine_net_listen_policy_add_def split_beta Let_def put add_rule_header [OF ok(2)])
  show "hdr_net_listen_policy_clear h address w (engine_net_listen_policy_clear h w)"
    using put
    by (auto simp: hdr_net_listen_policy_clear_def engine_net_listen_policy_clear_def upd_engine_def checkListenPolicy_def matchPolicy_def split: option.split)
qed


lemma finish_load_header:
  assumes "world_ok w" "getEngine h w = Some e"
    and "length (e_packages e) = 32 \<longleftrightarrow> r = Err PackageTableFull"
    and "\<And>reg. r = Ok reg \<Longrightarrow> \<exists>fs. reg = e_packages e @ [\<lparr>pk_name = name, pk_files = fs\<rparr>] \<and> length fs \<le> 64"
  shows "hdr_load_bundle h name w (finish_load h e r w)"
proof (cases r)
  case (Err er)
  then show ?thesis using assms by (cases er) (auto simp: hdr_load_bundle_def finish_load_def)
next
  case (Ok reg)
  then show ?thesis
    using assms(3) assms(4) [OF Ok] assms(2)
    by (auto simp: hdr_load_bundle_def finish_load_def setConfig_sources_def getEngine_put [OF assms(2) slots_len [OF assms(1)]])
qed (use assms in \<open>auto simp: hdr_load_bundle_def finish_load_def\<close>)

lemma lbind_Err: "lbind x f = Err er \<longleftrightarrow> x = Err er \<or> (\<exists>y. x = Ok y \<and> f y = Err er)"
  by (cases x) auto

lemma zip_file_bytes_err: "zip_file_bytes inflate al mx data hdr \<noteq> Err PackageTableFull"
  by (auto simp: zip_file_bytes_def lbind_Err rd_def checkedAdd_def Let_def split: if_splits option.splits)

lemma zip_entry_err: "zip_entry inflate al mx k data cd files \<noteq> Err PackageTableFull"
  using zip_file_bytes_err by (auto simp: zip_entry_def lbind_Err rd_def checkedAdd_def Let_def split: if_splits)

lemma zip_loop_err: "zip_loop inflate al mx k data cd_end cd files \<noteq> Err PackageTableFull"
proof (induction inflate al mx k data cd_end cd files rule: zip_loop.induct)
  case (1 inflate al mx k data cd_end cd files)
  then show ?case using zip_entry_err by (subst zip_loop.simps) (auto split: load.split option.split)
qed

lemma scan_err: "scan_end_record data i \<noteq> Err PackageTableFull"
  by (induction data i rule: scan_end_record.induct) (subst scan_end_record.simps, auto simp: lbind_Err rd_def split: if_splits nat.splits)

lemma loadFromZip_full: "loadFromZip inflate al mx k reg n data = Err PackageTableFull \<longleftrightarrow> MaxPackages \<le> length reg"
  using zip_loop_err scan_err
  by (auto simp: loadFromZip_def lbind_Err findEndRecord_def checkedAdd_def split: if_splits option.splits)

lemma dir_loop_err: "dir_loop k ws files \<noteq> Err PackageTableFull"
  by (induction k ws files rule: dir_loop.induct) (auto simp: Let_def split: read_result.splits)

lemma loadFromDir_full:
  "walked \<noteq> Inl PackageTableFull \<Longrightarrow> loadFromDir k reg n walked = Err PackageTableFull \<longleftrightarrow> MaxPackages \<le> length reg"
  using dir_loop_err by (auto simp: loadFromDir_def lbind_Err split: if_splits sum.splits)

lemma load_headers:
  assumes "world_ok w"
  shows "0 < snd nm \<Longrightarrow> 0 < snd z \<Longrightarrow> hdr_load_bundle h (wasmSlice nm) w (engine_load_bundle h nm z w)"
    and "0 < snd nm \<Longrightarrow> 0 < snd d \<Longrightarrow> en_walk (ew_env w) (wasmSlice d) \<noteq> Inl PackageTableFull
      \<Longrightarrow> hdr_load_bundle_dir h (wasmSlice nm) w (engine_load_bundle_dir h nm d w)"
proof -
  have env: "env_ok (ew_env w)" using assms by (simp add: world_ok_def)
  have reg: "registry_ok (en_max_input (ew_env w)) (e_packages e)" if "getEngine h w = Some e" for e
    using engine_at [OF assms that] by (simp add: engine_inv_def)
  have full: "MaxPackages \<le> length (e_packages e) \<longleftrightarrow> length (e_packages e) = 32" if "getEngine h w = Some e" for e
    using reg [OF that] by (auto simp: registry_ok_def MaxPackages_def)
  have files: "length fs \<le> 64" if "registry_ok k (reg @ [\<lparr>pk_name = n, pk_files = fs\<rparr>])" for k reg n fs
    using that by (simp add: registry_ok_def package_ok_def MaxFilesPerPackage_def)
  show "hdr_load_bundle h (wasmSlice nm) w (engine_load_bundle h nm z w)" if "0 < snd nm" "0 < snd z"
  proof (cases "getEngine h w")
    case (Some e)
    let ?s = "(en_inflate (ew_env w), en_alloc_ok (ew_env w), en_usize_max (ew_env w), wasmSlice z)"
    let ?r = "loadFromZip (en_inflate (ew_env w)) (en_alloc_ok (ew_env w)) (en_usize_max (ew_env w)) (en_max_input (ew_env w)) (e_packages e)
      (wasmSlice nm) (wasmSlice z)"
    have "hdr_load_bundle h (wasmSlice nm) w (finish_load h e ?r w)"
    proof (rule finish_load_header [OF assms Some])
      fix reg' assume ok: "?r = Ok reg'"
      have "registry_ok (en_max_input (ew_env w)) reg'"
        using zip_bundles.keeps_registry_ok [of ?s _ _ "wasmSlice nm" reg'] reg [OF Some] env ok by (simp add: env_ok_def)
      then show "\<exists>fs. reg' = e_packages e @ [\<lparr>pk_name = wasmSlice nm, pk_files = fs\<rparr>] \<and> length fs \<le> 64"
        using zip_bundles.appends [of "en_max_input (ew_env w)" ?s "e_packages e" "wasmSlice nm" reg'] ok by (auto dest: files)
    qed (simp add: loadFromZip_full full [OF Some])
    then show ?thesis using that Some by (simp add: engine_load_bundle_def Let_def)
  qed (simp add: engine_load_bundle_def hdr_load_bundle_def)
  show "hdr_load_bundle_dir h (wasmSlice nm) w (engine_load_bundle_dir h nm d w)"
    if "0 < snd nm" "0 < snd d" and walk: "en_walk (ew_env w) (wasmSlice d) \<noteq> Inl PackageTableFull"
  proof (cases "getEngine h w")
    case (Some e)
    let ?r = "loadFromDir (en_max_input (ew_env w)) (e_packages e) (wasmSlice nm) (en_walk (ew_env w) (wasmSlice d))"
    have "hdr_load_bundle h (wasmSlice nm) w (finish_load h e ?r w)"
    proof (rule finish_load_header [OF assms Some])
      fix reg' assume ok: "?r = Ok reg'"
      have "registry_ok (en_max_input (ew_env w)) reg'"
        using dir_bundles.keeps_registry_ok [of "en_walk (ew_env w) (wasmSlice d)" _ _ "wasmSlice nm" reg'] reg [OF Some] env ok by (simp add: env_ok_def)
      then show "\<exists>fs. reg' = e_packages e @ [\<lparr>pk_name = wasmSlice nm, pk_files = fs\<rparr>] \<and> length fs \<le> 64"
        using dir_bundles.appends [OF ok] by (auto dest: files)
    qed (simp add: loadFromDir_full [OF walk] full [OF Some])
    then show ?thesis using that Some by (simp add: engine_load_bundle_dir_def hdr_load_bundle_dir_def Let_def)
  qed (simp add: engine_load_bundle_dir_def hdr_load_bundle_dir_def hdr_load_bundle_def)
qed


lemma mount_headers:
  assumes "world_ok w"
  shows "0 \<le> snd nm \<Longrightarrow> 0 \<le> snd p \<Longrightarrow> hdr_mount_dir h (wasmSlice nm) w (engine_mount_dir h nm p w)"
    and "0 \<le> snd nm \<Longrightarrow> hdr_mount_driver h (wasmSlice nm) d w (engine_mount_driver h nm (Some d) w)"
proof -
  have fs: "fs_ok (e_mounts e)" if "getEngine h w = Some e" for e
    using engine_at [OF assms that] by (simp add: engine_inv_def)
  note put = getEngine_put [OF _ slots_len [OF assms]]
  show "hdr_mount_dir h (wasmSlice nm) w (engine_mount_dir h nm p w)" if "0 \<le> snd nm" "0 \<le> snd p"
    using that addMount_spec [OF fs, of _ "wasmSlice nm" "wasmSlice p"]
    by (cases "getEngine h w") (auto simp: hdr_mount_dir_def engine_mount_dir_def split_beta put Let_def split: sum.split)
  show "hdr_mount_driver h (wasmSlice nm) d w (engine_mount_driver h nm (Some d) w)" if "0 \<le> snd nm"
    using that addDriver_spec [OF fs, of _ "wasmSlice nm" d]
    by (cases "getEngine h w") (auto simp: hdr_mount_driver_def engine_mount_driver_def split_beta put Let_def split: sum.split)
qed

lemma globals_headers:
  shows "engine_get_global h nm b m w = Some r \<Longrightarrow> hdr_get_global h (wasmSlice nm) b w (fst r)"
    and "engine_list_globals h b m w = Some q \<Longrightarrow> hdr_list_globals h w (fst q)"
    and "hdr_list_functions h w (fst (engine_list_functions h b w))"
  by (auto simp: hdr_get_global_def engine_get_global_def hdr_list_globals_def engine_list_globals_def hdr_list_functions_def
      engine_list_functions_def Let_def pushEngineState_def split: option.splits if_splits sum.splits)

lemma error_headers:
  assumes "h \<noteq> 0"
  shows "hdr_last_error h n w (engine_last_error h n w)" "hdr_last_error_path h n w (engine_last_error_path h n w)"
    "hdr_last_error_line h w (engine_last_error_line h w)" "hdr_last_error_col h w (engine_last_error_col h w)"
    "hdr_sleep_remaining_ms h w (engine_sleep_remaining_ms h w)" "hdr_engine_version (gengo_engine_version env)"
proof -
  have n: "nat (max n 0) = nat n" by (simp add: max_def)
  show "hdr_last_error h n w (engine_last_error h n w)" "hdr_last_error_path h n w (engine_last_error_path h n w)"
    "hdr_last_error_line h w (engine_last_error_line h w)" "hdr_last_error_col h w (engine_last_error_col h w)"
    "hdr_sleep_remaining_ms h w (engine_sleep_remaining_ms h w)" "hdr_engine_version (gengo_engine_version env)"
    using assms
    by (auto simp: hdr_last_error_def hdr_last_error_path_def hdr_last_error_line_def hdr_last_error_col_def hdr_sleep_remaining_ms_def
        hdr_engine_version_def engine_last_error_def engine_last_error_path_def engine_last_error_line_def engine_last_error_col_def
        engine_sleep_remaining_ms_def gengo_engine_version_def nul_terminated_def n min_def split: option.split)
qed



text \<open>
  Where the header is wrong: after clearing the dial policy every address is refused, while the header says that the default
  of allowing all is restored; a call with more than 64 arguments answers a code the header does not list, and so does a
  source longer than 4096 bytes.
\<close>

theorem header_divergences:
  assumes "world_ok w" "getEngine h w = Some e"
  shows "\<not> hdr_net_policy_clear h address (engine_net_policy_clear h w)
    \<and> (64 < argc \<longrightarrow> (\<exists>r. engine_call h nm args argc m w = Some r \<and> \<not> hdr_call (fst r)))
    \<and> (0 \<le> snd p \<and> 4096 < length (wasmSlice s) \<and> length (e_sources e) < MaxSources \<longrightarrow> \<not> hdr_add_source h w (fst (engine_add_source h p s w)))"
proof (intro conjI impI)
  show "\<not> hdr_net_policy_clear h address (engine_net_policy_clear h w)"
    using getEngine_put [OF assms(2) slots_len [OF assms(1)]]
    by (simp add: hdr_net_policy_clear_def engine_net_policy_clear_def upd_engine_def assms(2) checkDialPolicy_def matchPolicy_def)
  show "64 < argc \<Longrightarrow> \<exists>r. engine_call h nm args argc m w = Some r \<and> \<not> hdr_call (fst r)"
    by (simp add: engine_call_def assms(2) Let_def pushEngineState_def hdr_call_def)
  show "0 \<le> snd p \<and> 4096 < length (wasmSlice s) \<and> length (e_sources e) < MaxSources \<Longrightarrow> \<not> hdr_add_source h w (fst (engine_add_source h p s w))"
    by (auto simp: engine_add_source_def assms(2) hdr_add_source_def wasmSlice_def split: option.splits if_splits)
qed

theorem header_divergences_witness: "\<not> hdr_net_policy_clear 1 [97] (engine_net_policy_clear 1 demo_world)"
  using header_divergences [OF demo_world_ok demo_engines(1), of "[97]"] by blast

end
