(* ===== verification/ValueCodecProps.thy ===== *)
theory ValueCodecProps
  imports ValueCodec
begin

text \<open>
  The correctness of the value codec: whatever the encoder sends, the decoder reads back in every memory that keeps the
  wires the encoder wrote; and the decoder itself stops on every wire graph, cyclic ones included, within 64 levels.
\<close>

section \<open>Sequences of wires\<close>

lemma agree_parts:
  assumes "frame s t n" and "frame t u k" and "agree m s u"
  shows "agree m t u" and "agree m s t"
proof -
  show "agree m t u"
    using assms unfolding agree_def frame_def by auto
  show "agree m s t"
    unfolding agree_def
  proof (intro conjI allI impI)
    show "mem_bytes m = mem_bytes (bh_mem t)" using assms unfolding agree_def frame_def by auto
    fix a :: u64
    assume a: "bh_base s + bh_top t \<le> unat a \<and> unat a < bh_base s + bh_top s"
    then have "mem_wires m a = mem_wires (bh_mem u) a"
      using assms unfolding agree_def frame_def by auto
    also have "\<dots> = mem_wires (bh_mem t) a" using a assms(1,2) unfolding frame_def by auto
    finally show "mem_wires m a = mem_wires (bh_mem t) a" .
  qed
qed

lemma sent_Nil [simp]: "sent gc_ok d s [] [] s"
  by (simp add: sent_def)

lemma sent_append:
  assumes "sent gc_ok d s vs ws t" and "sent gc_ok d t vs' ws' u"
  shows "sent gc_ok d s (vs @ vs') (ws @ ws') u"
proof -
  have dec: "dec_all f (xs @ ys) = dec_then (dec_all f xs) (\<lambda>a. dec_then (dec_all f ys) (\<lambda>b. Some (Inr (a @ b))))"
    for f :: "gengo_value_wire_t \<Rightarrow> byte list Value dec" and xs ys
    by (induction xs) (auto simp: dec_then_def split: option.split sum.split)
  have "frame s u (sum_list (map cells vs) + sum_list (map cells vs'))"
    using assms frame_trans unfolding sent_def by blast
  then show ?thesis
    using assms agree_parts unfolding sent_def by (auto simp: dec dec_then_def)
qed

lemma then_wire_sent:
  assumes "r = Inr (w, t)" and "sent gc_ok d s [v] [w] t" and "k t = Inr (ws, u)" and "sent gc_ok d t vs ws u"
  shows "then_wire r k = Inr (w # ws, u) \<and> sent gc_ok d s (v # vs) (w # ws) u"
  using assms sent_append [OF assms(2,4)] by (simp add: then_wire_def)

text \<open>Values without parts.\<close>

lemma leaf_sent:
  assumes "cells v = 0" and "\<And>m e. mem_bytes m = mem_bytes (bh_mem s) \<Longrightarrow> e < MaxWireDepth \<Longrightarrow>
      wireToValueDepth gc_ok m w e = Some (Inr (contents v))" and "d < MaxWireDepth"
  shows "sent gc_ok d s [v] [w] s"
  using assms by (auto simp: sent_def agree_def dec_then_def)

lemma string_sent:
  assumes "readable (bh_mem s) b" and "d < MaxWireDepth" and "\<forall>n. gc_ok n" and "cells v = 0"
    and "t = GENGO_WIRE_STRING \<and> contents v = VString (snd b) \<or> t = GENGO_WIRE_ERROR \<and> contents v = VError (snd b)"
  shows "\<exists>w. string_wire t b s = Inr (w, s) \<and> sent gc_ok d s [v] [w] s"
proof -
  let ?n = "of_nat (length (snd b)) :: u32"
  have n: "unat ?n = length (snd b)" using assms(1) by (simp add: readable_def unat_of_nat)
  then have z: "?n = 0 \<longleftrightarrow> snd b = []" by (metis length_0_conv unat_eq_zero)
  have "wireToValueDepth gc_ok m (makeWire t (fst b) ?n) e = Some (Inr (contents v))"
    if "mem_bytes m = mem_bytes (bh_mem s)" "e < MaxWireDepth" for m e
    using that assms n z
    by (subst wireToValueDepth.simps)
       (auto simp: makeWire_def wire_text_def readable_def load_bytes_def dec_then_def simp del: tag_code.simps)
  then have "sent gc_ok d s [v] [makeWire t (fst b) ?n] s"
    using assms by (intro leaf_sent)
  then show ?thesis using assms(1) by (auto simp: string_wire_def wireLen_def readable_def)
qed

text \<open>Containers.\<close>

lemma bump_exact:
  assumes "heap_ok s" and "bh_floor s + 24 * n \<le> bh_top s"
  shows "bump n s = Some (bh_base s + (bh_top s - 24 * n), s\<lparr>bh_top := bh_top s - 24 * n\<rparr>)"
proof -
  have "8 dvd bh_top s - 24 * n" using assms(1) by (auto simp: heap_ok_def intro!: dvd_diff_nat)
  then show ?thesis using assms(2) by (simp add: bump_def Let_def)
qed

lemma bumped_sent:
  assumes s: "heap_ok s" "bh_floor s + 24 * k \<le> bh_top s" and k: "length vs = k" "k < 2 ^ 32"
    and fill: "fill (s\<lparr>bh_top := bh_top s - 24 * k\<rparr>) = Inr (ws, t)" "sent gc_ok (d + 1) (s\<lparr>bh_top := bh_top s - 24 * k\<rparr>) vs ws t"
    and gc: "\<forall>n. gc_ok n" and d: "d < MaxWireDepth"
    and v: "cells v = k + sum_list (map cells vs)"
      "tg = GENGO_WIRE_ARRAY \<and> n = k \<and> contents v = VArray (map contents vs)
       \<or> tg = GENGO_WIRE_MAP \<and> n * 2 = k \<and> contents v = VMap (pair_up (map contents vs))"
  shows "\<exists>w u. bumped tg n k fill s = Inr (w, u) \<and> sent gc_ok d s [v] [w] u"
proof -
  define s1 where "s1 = s\<lparr>bh_top := bh_top s - 24 * k\<rparr>"
  define p where "p = bh_base s + (bh_top s - 24 * k)"
  define u where "u = store_wires p ws t"
  define w where "w = makeWire tg (of_nat p) (of_nat n)"
  have n: "n < 2 ^ 32" "unat (of_nat n :: u32) = n" using v(2) k by (auto simp: unat_of_nat)
  have p: "unat (of_nat p :: u64) = p" "(of_nat p :: u64) \<noteq> 0"
  proof -
    have "p < 2 ^ 64" "0 < p" using s by (auto simp: p_def heap_ok_def)
    then show "unat (of_nat p :: u64) = p" by (simp add: unat_of_nat)
    with \<open>0 < p\<close> show "(of_nat p :: u64) \<noteq> 0" by (metis less_irrefl unsigned_0)
  qed
  have fr: "frame s1 t (sum_list (map cells vs))" and len: "length ws = k" using fill(2) k by (auto simp: sent_def s1_def)
  have s1: "bh_base s1 = bh_base s" "bh_floor s1 = bh_floor s" "bh_top s1 = bh_top s - 24 * k" "bh_mem s1 = bh_mem s"
    by (simp_all add: s1_def)
  have peq: "p = bh_base s1 + bh_top s1" by (simp add: p_def s1)
  have tt: "bh_base t = bh_base s" "bh_top t \<le> bh_top s1" "bh_floor t = bh_floor s" using fr by (auto simp: frame_def s1)
  have u: "bh_base u = bh_base s" "bh_floor u = bh_floor s" "bh_top u = bh_top t" "mem_bytes (bh_mem u) = mem_bytes (bh_mem t)"
    "\<And>a. mem_wires (bh_mem u) a = (if ws \<noteq> [] \<and> a = of_nat p then Some ws else mem_wires (bh_mem t) a)"
    using tt by (auto simp: u_def store_wires_def)
  have inside: "bh_base s + bh_top t \<le> p" "ws \<noteq> [] \<Longrightarrow> p < bh_base s + bh_top s"
  proof -
    show "bh_base s + bh_top t \<le> p" using tt(2) by (simp add: p_def s1)
    assume "ws \<noteq> []"
    then have "0 < 24 * k" using len by auto
    moreover have "24 * k \<le> bh_top s" using s(2) by simp
    ultimately have "bh_top s - 24 * k < bh_top s" by linarith
    then show "p < bh_base s + bh_top s" by (simp add: p_def)
  qed
  have run: "bumped tg n k fill s = Inr (w, u)"
    using fill(1) n by (simp add: bumped_def bump_exact [OF s] close_wires_def wireLen_def w_def u_def p_def)
  have frame: "frame s u (cells v)"
    unfolding frame_def
  proof (intro conjI allI impI)
    show "bh_top u + 24 * cells v = bh_top s" using fr s(2) u v(1) by (auto simp: frame_def s1)
    show "mem_bytes (bh_mem u) = mem_bytes (bh_mem s)" using fr u by (auto simp: frame_def s1)
    fix a :: u64
    assume a: "\<not> (bh_base s + bh_top u \<le> unat a \<and> unat a < bh_base s + bh_top s)"
    have "\<not> (ws \<noteq> [] \<and> a = of_nat p)"
      using a p(1) inside by (auto simp: u(3))
    moreover have "\<not> (bh_base s1 + bh_top t \<le> unat a \<and> unat a < bh_base s1 + bh_top s1)"
      using a by (auto simp: s1 u)
    then have "mem_wires (bh_mem t) a = mem_wires (bh_mem s) a" using fr unfolding frame_def by (simp add: s1)
    ultimately show "mem_wires (bh_mem u) a = mem_wires (bh_mem s) a" by (auto simp: u(5))
  qed (simp_all add: u)
  have dec: "wireToValueDepth gc_ok m w e = Some (Inr (contents v))" if ag: "agree m s u" and e: "e \<le> d" for m e
  proof -
    have "agree m s1 t"
      unfolding agree_def
    proof (intro conjI allI impI)
      show "mem_bytes m = mem_bytes (bh_mem t)" using ag by (simp add: agree_def u)
      fix a :: u64
      assume a: "bh_base s1 + bh_top t \<le> unat a \<and> unat a < bh_base s1 + bh_top s1"
      then have "a \<noteq> of_nat p" using p(1) peq by auto
      moreover have "mem_wires m a = mem_wires (bh_mem u) a" using ag a by (auto simp: agree_def s1 u)
      ultimately show "mem_wires m a = mem_wires (bh_mem t) a" by (simp add: u(5))
    qed
    then have el: "dec_all (\<lambda>w. wireToValueDepth gc_ok m w (e + 1)) ws = Some (Inr (map contents vs))"
      using fill(2) e unfolding sent_def s1_def by simp
    have "load_wires m (of_nat p) k = Some ws"
    proof (cases "ws = []")
      case False
      have "mem_wires m (of_nat p) = mem_wires (bh_mem u) (of_nat p)"
        using ag p(1) inside False by (simp add: agree_def u(3))
      then show ?thesis using False len by (auto simp: load_wires_def u(5))
    qed (use len in \<open>simp add: load_wires_def\<close>)
    then have we: "wire_elems gc_ok m w k = Some (Inr ws)"
      using gc p(2) k(2) by (simp add: wire_elems_def w_def makeWire_def)
    show ?thesis
      using v(2) we el e d n(2)
      by (subst wireToValueDepth.simps) (auto simp: w_def makeWire_def dec_then_def simp del: tag_code.simps)
  qed
  show ?thesis using run frame dec by (auto simp: sent_def dec_then_def)
qed

text \<open>An encoder that does its work from every heap with room whose strings are \<open>B\<close>.\<close>

definition fits :: "(u64 \<Rightarrow> byte list option) \<Rightarrow> nat \<Rightarrow> wire_heap \<Rightarrow> bool" where
  "fits B n s \<longleftrightarrow> heap_ok s \<and> bh_floor s + 24 * n \<le> bh_top s \<and> mem_bytes (bh_mem s) = B"

definition encodes :: "(u64 \<Rightarrow> byte list option) \<Rightarrow> (nat \<Rightarrow> bool) \<Rightarrow> nat \<Rightarrow> hval \<Rightarrow> (wire_heap \<Rightarrow> enc_result) \<Rightarrow> bool" where
  "encodes B gc_ok d v enc \<longleftrightarrow> (\<forall>s. fits B (cells v) s \<longrightarrow> (\<exists>w t. enc s = Inr (w, t) \<and> sent gc_ok d s [v] [w] t))"

lemma fits_after:
  assumes "fits B (n + k) s" and "frame s t n" shows "fits B k t"
proof -
  have "bh_top t + 24 * n = bh_top s" "8 dvd bh_top s" using assms by (auto simp: fits_def frame_def heap_ok_def)
  moreover have "8 dvd 24 * n" by (rule dvd_mult2) simp
  ultimately have "8 dvd bh_top t" by (metis dvd_add_left_iff)
  then show ?thesis using assms by (auto simp: fits_def frame_def heap_ok_def)
qed

lemma then_encodes:
  assumes "encodes B gc_ok d v enc" and "fits B (cells v + n) s"
    and "\<And>t. fits B n t \<Longrightarrow> \<exists>ws u. k t = Inr (ws, u) \<and> sent gc_ok d t vs ws u"
  shows "\<exists>ws u. then_wire (enc s) k = Inr (ws, u) \<and> sent gc_ok d s (v # vs) ws u"
proof -
  have "fits B (cells v) s" using assms(2) by (auto simp: fits_def)
  then obtain w t where w: "enc s = Inr (w, t)" "sent gc_ok d s [v] [w] t" using assms(1) by (auto simp: encodes_def)
  then have "frame s t (cells v)" by (simp add: sent_def)
  then obtain ws u where "k t = Inr (ws, u)" "sent gc_ok d t vs ws u" using assms(2,3) fits_after by blast
  then show ?thesis using then_wire_sent [OF w] by blast
qed

text \<open>The loops, for an encoder of values that are seen as their image under \<open>g\<close>.\<close>

lemma fillArray_encodes_view:
  "\<forall>v \<in> set vs. encodes B gc_ok d (g v) (enc v) \<Longrightarrow> fits B (sum_list (map cells (map g vs))) s \<Longrightarrow>
     \<exists>ws t. fillArrayWires enc vs s = Inr (ws, t) \<and> sent gc_ok d s (map g vs) ws t"
proof (induction vs arbitrary: s)
  case (Cons v vs)
  then show ?case
    using then_encodes [of B gc_ok d "g v" "enc v" "sum_list (map cells (map g vs))" s "fillArrayWires enc vs" "map g vs"] by auto
qed simp

lemmas fillArray_encodes = fillArray_encodes_view [where g = "\<lambda>v. v", unfolded list.map_ident]

definition flat :: "(hval \<times> hval) list \<Rightarrow> hval list" where
  "flat kvs = concat (map (\<lambda>(k, v). [k, v]) kvs)"

lemma flat_simps [simp]: "flat [] = []" "flat ((k, v) # kvs) = k # v # flat kvs"
  by (simp_all add: flat_def)

lemma length_flat: "length (flat kvs) = length kvs * 2"
  by (induction kvs) auto

lemma cells_flat: "sum_list (map cells (flat kvs)) = sum_list (map (\<lambda>(k, v). cells k + cells v) kvs)"
  by (induction kvs) auto

lemma pair_up_flat: "pair_up (map contents (flat kvs)) = map (\<lambda>(k, v). (contents k, contents v)) kvs"
  by (induction kvs) auto

lemma fillMap_Cons:
  "fillMapWires enc ((k, v) # kvs) = (\<lambda>s. then_wire (enc k s) (\<lambda>s. then_wire (enc v s) (fillMapWires enc kvs)))"
  by (rule ext) simp

lemma fillMap_encodes_view:
  "\<forall>v \<in> set (flat kvs). encodes B gc_ok d (g v) (enc v) \<Longrightarrow> fits B (sum_list (map cells (map g (flat kvs)))) s \<Longrightarrow>
     \<exists>ws t. fillMapWires enc kvs s = Inr (ws, t) \<and> sent gc_ok d s (map g (flat kvs)) ws t"
proof (induction kvs arbitrary: s)
  case (Cons p kvs)
  obtain k v where p: "p = (k, v)" by (cases p)
  let ?n = "sum_list (map cells (map g (flat kvs)))"
  have "\<exists>ws t. then_wire (enc v s') (fillMapWires enc kvs) = Inr (ws, t) \<and> sent gc_ok d s' (g v # map g (flat kvs)) ws t"
    if "fits B (cells (g v) + ?n) s'" for s'
    using Cons that by (intro then_encodes [of B gc_ok d "g v" "enc v" ?n]) (auto simp: p)
  then show ?case
    using Cons.prems by (simp add: p) (intro then_encodes [of B gc_ok d "g k" "enc k" "cells (g v) + ?n"], auto)
qed simp

lemmas fillMap_encodes = fillMap_encodes_view [where g = "\<lambda>v. v", unfolded list.map_ident]

definition flat_fields :: "((u64 \<times> byte list) \<times> hval) list \<Rightarrow> (hval \<times> hval) list" where
  "flat_fields fs = map (\<lambda>(k, v). (VString k, v)) fs"

lemma fillField_as_map:
  "fillFieldWires d (\<lambda>v s. valueToWireDepth v d s) fs s = fillMapWires (\<lambda>v s. valueToWireDepth v d s) (flat_fields fs) s"
proof (induction fs arbitrary: s)
  case (Cons p fs)
  then have "fillFieldWires d (\<lambda>v s. valueToWireDepth v d s) fs = fillMapWires (\<lambda>v s. valueToWireDepth v d s) (flat_fields fs)"
    by (intro ext)
  then show ?case by (cases p) (simp add: flat_fields_def)
qed (simp add: flat_fields_def)

lemma sendable_mem: "mem_bytes m = mem_bytes m' \<Longrightarrow> sendable m d v \<Longrightarrow> sendable m' d v"
  by (induction m d v rule: sendable.induct) (auto simp: readable_def load_bytes_def)

lemma encodes_leaf:
  assumes "\<And>s. mem_bytes (bh_mem s) = B \<Longrightarrow> \<exists>w. enc s = Inr (w, s) \<and> sent gc_ok d s [v] [w] s" and "cells v = 0"
  shows "encodes B gc_ok d v enc"
  using assms by (fastforce simp: encodes_def fits_def)

lemma encodes_string:
  assumes "readable m b" and "mem_bytes m = B" and "d < MaxWireDepth" and "\<forall>n. gc_ok n" and "cells v = 0"
    and "t = GENGO_WIRE_STRING \<and> contents v = VString (snd b) \<or> t = GENGO_WIRE_ERROR \<and> contents v = VError (snd b)"
  shows "encodes B gc_ok d v (string_wire t b)"
  using assms by (intro encodes_leaf string_sent) (auto simp: readable_def load_bytes_def)

lemma encodes_bumped:
  assumes "\<And>s. fits B (sum_list (map cells vs)) s \<Longrightarrow> \<exists>ws t. fill s = Inr (ws, t) \<and> sent gc_ok (d + 1) s vs ws t"
    and k: "length vs = k" "k < 2 ^ 32" and gc: "\<forall>n. gc_ok n" and d: "d < MaxWireDepth"
    and v: "cells v = k + sum_list (map cells vs)"
      "tg = GENGO_WIRE_ARRAY \<and> n = k \<and> contents v = VArray (map contents vs)
       \<or> tg = GENGO_WIRE_MAP \<and> n * 2 = k \<and> contents v = VMap (pair_up (map contents vs))"
  shows "encodes B gc_ok d v (bumped tg n k fill)"
  unfolding encodes_def
proof (intro allI impI)
  fix s assume s: "fits B (cells v) s"
  let ?s = "s\<lparr>bh_top := bh_top s - 24 * k\<rparr>"
  have "8 dvd bh_top s - 24 * k" using s by (auto simp: fits_def heap_ok_def intro!: dvd_diff_nat)
  then have "fits B (sum_list (map cells vs)) ?s"
    using s v(1) by (auto simp: fits_def heap_ok_def)
  then obtain ws t where "fill ?s = Inr (ws, t)" "sent gc_ok (d + 1) ?s vs ws t" using assms(1) by blast
  then show "\<exists>w t. bumped tg n k fill s = Inr (w, t) \<and> sent gc_ok d s [v] [w] t"
    using s v by (intro bumped_sent [OF _ _ k _ _ gc d v]) (auto simp: fits_def)
qed

lemma too_deep_ok [simp]: "d < MaxWireDepth \<Longrightarrow> too_deep d r = r"
  by (simp add: too_deep_def)

lemma encodes_weaken:
  assumes "encodes B gc_ok (d + 1) v enc" and "cells v' = cells v" and "contents v' = contents v"
  shows "encodes B gc_ok d v' enc"
  using assms by (fastforce simp: encodes_def sent_def)

lemma encodes_map:
  assumes enc: "\<forall>p \<in> set kvs. encodes B gc_ok (d + 1) (fst p) (enc (fst p)) \<and> encodes B gc_ok (d + 1) (snd p) (enc (snd p))"
    and k: "length kvs * 2 < 2 ^ 32" and gc: "\<forall>n. gc_ok n" and d: "d < MaxWireDepth"
    and v: "cells v = length kvs * 2 + sum_list (map (\<lambda>(k, v). cells k + cells v) kvs)"
      "contents v = VMap (map (\<lambda>(k, v). (contents k, contents v)) kvs)"
  shows "encodes B gc_ok d v (bumped GENGO_WIRE_MAP (length kvs) (length kvs * 2) (fillMapWires enc kvs))"
proof -
  have "\<forall>v \<in> set (flat kvs). encodes B gc_ok (d + 1) v (enc v)"
    using enc by (auto simp: flat_def)
  then have "\<exists>ws t. fillMapWires enc kvs s = Inr (ws, t) \<and> sent gc_ok (d + 1) s (flat kvs) ws t"
    if "fits B (sum_list (map cells (flat kvs))) s" for s
    using fillMap_encodes that by blast
  then show ?thesis
    using k gc d v by (intro encodes_bumped [where vs = "flat kvs"]) (simp_all add: length_flat cells_flat pair_up_flat)
qed

lemma encodes_too_deep:
  "d < MaxWireDepth \<Longrightarrow> encodes B gc_ok d v enc \<Longrightarrow> encodes B gc_ok d v (\<lambda>s. too_deep d (enc s))"
  by simp

lemma leaf_dec:
  assumes "e < MaxWireDepth"
  shows "wireToValueDepth gc_ok m null_wire e = Some (Inr VNull)"
    "wireToValueDepth gc_ok m (makeWire GENGO_WIRE_BOOLEAN p 0) e = Some (Inr (VBool (p \<noteq> 0)))"
    "wireToValueDepth gc_ok m (number_wire 1 p) e = Some (Inr (VInt p))"
    "wireToValueDepth gc_ok m (number_wire 0 p) e = Some (Inr (VFloat p))"
    "wireToValueDepth gc_ok m (number_wire 2 p) e = Some (Inr (VDecimal p))"
    "n < 2 ^ 21 \<Longrightarrow> wireToValueDepth gc_ok m (number_wire 4 (word_of_nat n)) e = Some (Inr (VRune n))"
  using assms by (subst wireToValueDepth.simps; simp add: null_wire_def makeWire_def number_wire_def unat_of_nat)+

text \<open>Every value that can be sent is encoded, and decodes to its contents.\<close>

lemma encodes_value:
  assumes mem: "mem_bytes m = B" and "sendable m d v"
  shows "encodes B (\<lambda>_. True) d v (\<lambda>s. valueToWireDepth v d s)"
  using assms(2)
proof (induction v arbitrary: d)
  case (VArray vs)
  have "\<forall>v \<in> set vs. encodes B (\<lambda>_. True) (d + 1) v (\<lambda>s. valueToWireDepth v (d + 1) s)"
    using VArray by simp
  then have "encodes B (\<lambda>_. True) d (VArray vs)
      (bumped GENGO_WIRE_ARRAY (length vs) (length vs) (fillArrayWires (\<lambda>v s. valueToWireDepth v (d + 1) s) vs))"
    using VArray.prems by (intro encodes_bumped [where vs = vs] fillArray_encodes) simp_all
  then show ?case using VArray.prems by (simp add: encodes_def)
next
  case (VMap kvs)
  have "\<forall>p \<in> set kvs. sendable m (d + 1) (fst p) \<and> sendable m (d + 1) (snd p)"
    using VMap.prems by auto
  then have "encodes B (\<lambda>_. True) d (VMap kvs)
      (bumped GENGO_WIRE_MAP (length kvs) (length kvs * 2) (fillMapWires (\<lambda>v s. valueToWireDepth v (d + 1) s) kvs))"
    using VMap.prems by (intro encodes_map ballI conjI VMap.IH) (auto intro: fsts.intros snds.intros)
  then show ?case using VMap.prems by (simp add: encodes_def)
next
  case (VStruct kvs)
  have "\<forall>p \<in> set kvs. sendable m (d + 1) (fst p) \<and> sendable m (d + 1) (snd p)"
    using VStruct.prems by auto
  then have "encodes B (\<lambda>_. True) d (VStruct kvs)
      (bumped GENGO_WIRE_MAP (length kvs) (length kvs * 2) (fillMapWires (\<lambda>v s. valueToWireDepth v (d + 1) s) kvs))"
    using VStruct.prems by (intro encodes_map ballI conjI VStruct.IH) (auto intro: fsts.intros snds.intros)
  then show ?case using VStruct.prems by (simp add: encodes_def)
next
  case (VNamed v)
  have "encodes B (\<lambda>_. True) (d + 1) v (\<lambda>s. valueToWireDepth v (d + 1) s)" using VNamed by simp
  then have "encodes B (\<lambda>_. True) d (VNamed v) (\<lambda>s. valueToWireDepth v (d + 1) s)"
    by (rule encodes_weaken) simp_all
  then show ?case using VNamed.prems by (simp add: encodes_def)
next
  case (VVariant kt t kv p fs)
  define kvs where "kvs = (VString kt, VString t) # (VString kv, p) # flat_fields fs"
  let ?enc = "\<lambda>v s. valueToWireDepth v (d + 1) s"
  have d: "d + 1 < MaxWireDepth" using VVariant.prems by simp
  have leaf: "encodes B (\<lambda>_. True) (d + 1) (VString b) (?enc (VString b))" if "readable m b" for b
    using encodes_string [OF that mem d] d by (simp add: encodes_def)
  have fs: "encodes B (\<lambda>_. True) (d + 1) v (?enc v)" if "(k, v) \<in> set fs" for k v
    using VVariant.prems that by (intro VVariant.IH(2)) (auto intro: snds.intros)
  have "\<forall>q \<in> set (flat_fields fs). encodes B (\<lambda>_. True) (d + 1) (fst q) (?enc (fst q)) \<and> encodes B (\<lambda>_. True) (d + 1) (snd q) (?enc (snd q))"
    using VVariant.prems leaf fs by (auto simp: flat_fields_def simp del: valueToWireDepth.simps)
  moreover have "encodes B (\<lambda>_. True) (d + 1) p (?enc p)" using VVariant by simp
  ultimately have "encodes B (\<lambda>_. True) d (VVariant kt t kv p fs)
      (bumped GENGO_WIRE_MAP (length kvs) (length kvs * 2) (fillMapWires ?enc kvs))"
    using VVariant.prems leaf
    by (intro encodes_map) (auto simp: kvs_def flat_fields_def comp_def split_def simp del: valueToWireDepth.simps)
  moreover have "valueToWireDepth (VVariant kt t kv p fs) d s
      = bumped GENGO_WIRE_MAP (length kvs) (length kvs * 2) (fillMapWires ?enc kvs) s" for s
    using d by (simp add: kvs_def fillField_as_map [abs_def] flat_fields_def fillMap_Cons [abs_def])
  ultimately show ?case by simp
next
  case (VString b)
  then show ?case using encodes_string [OF _ mem, of b d] by (simp add: encodes_def)
next
  case (VError b)
  then show ?case using encodes_string [OF _ mem, of b d] by (simp add: encodes_def)
next
  case (VEnum b)
  then show ?case using encodes_string [OF _ mem, of b d] by (simp add: encodes_def)
qed (auto intro!: encodes_leaf leaf_sent simp: leaf_dec)


definition sample_heap :: wire_heap where
  "sample_heap = \<lparr>bh_base = 4096, bh_top = 1024, bh_floor = 128,
     bh_mem = \<lparr>mem_bytes = [16 \<mapsto> [104, 105]], mem_wires = Map.empty\<rparr>\<rparr>"

definition sample_value :: hval where
  "sample_value = VArray [VString (16, [104, 105]), VMap [(VInt 7, VNamed (VBool True))]]"


fun height :: "'s Value \<Rightarrow> nat" where
  "height (VArray vs) = 1 + fold max (map height vs) 0"
| "height (VMap kvs) = 1 + fold max (map (\<lambda>(k, v). max (height k) (height v)) kvs) 0"
| "height _ = 1"

lemma fold_max_le: "fold max xs a \<le> n \<longleftrightarrow> a \<le> n \<and> (\<forall>x \<in> set xs. x \<le> (n::nat))"
  by (induction xs arbitrary: a) auto

lemma dec_then_Inr: "dec_then r k = Some (Inr y) \<longleftrightarrow> (\<exists>x. r = Some (Inr x) \<and> k x = Some (Inr y))"
  by (auto simp: dec_then_def split: option.splits sum.splits)

lemma dec_all_Inr: "dec_all f xs = Some (Inr ys) \<Longrightarrow> y \<in> set ys \<Longrightarrow> \<exists>x \<in> set xs. f x = Some (Inr y)"
  by (induction xs arbitrary: ys) (auto simp: dec_then_Inr)

lemma set_pair_up: "(k, v) \<in> set (pair_up xs) \<Longrightarrow> k \<in> set xs \<and> v \<in> set xs"
  by (induction xs rule: pair_up.induct) auto

lemma decoded_height: "wireToValueDepth gc_ok m w d = Some (Inr v) \<Longrightarrow> height v + d \<le> MaxWireDepth"
proof (induction gc_ok m w d arbitrary: v rule: wireToValueDepth.induct)
  case (1 gc_ok m w d)
  have d: "d < MaxWireDepth" using 1(3) by (subst (asm) wireToValueDepth.simps) (auto split: if_splits)
  let ?el = "\<lambda>n. dec_then (wire_elems gc_ok m w n) (dec_all (\<lambda>e. wireToValueDepth gc_ok m e (d + 1)))"
  have rec: "height x + d < MaxWireDepth" if el: "?el n = Some (Inr vs)" "x \<in> set vs"
    and tg: "(w_tag w = tag_code GENGO_WIRE_ARRAY \<and> n = unat (w_len w)) \<or> (w_tag w = tag_code GENGO_WIRE_MAP \<and> n = unat (w_len w) * 2)" for n vs x
  proof -
    obtain ws e where "e \<in> set ws" "wireToValueDepth gc_ok m e (d + 1) = Some (Inr x)"
      using el by (auto simp: dec_then_Inr dest!: dec_all_Inr)
    then have "height x + (d + 1) \<le> MaxWireDepth" using tg 1(1,2) d by auto
    then show ?thesis by simp
  qed
  have arr: "height (VArray vs) + d \<le> MaxWireDepth"
    if "w_tag w = tag_code GENGO_WIRE_ARRAY" "?el (unat (w_len w)) = Some (Inr vs)" for vs
  proof -
    have "\<forall>x \<in> set vs. height x \<le> MaxWireDepth - d - 1" using rec [OF that(2)] that(1) by fastforce
    then have "fold max (map height vs) 0 \<le> MaxWireDepth - d - 1" by (simp add: fold_max_le)
    then show ?thesis using d by simp
  qed
  have map: "height (VMap (pair_up vs)) + d \<le> MaxWireDepth"
    if "w_tag w = tag_code GENGO_WIRE_MAP" "?el (unat (w_len w) * 2) = Some (Inr vs)" for vs
  proof -
    have "\<forall>x \<in> set vs. height x \<le> MaxWireDepth - d - 1" using rec [OF that(2)] that(1) by fastforce
    then have "fold max (map (\<lambda>(k, v). max (height k) (height v)) (pair_up vs)) 0 \<le> MaxWireDepth - d - 1"
      by (auto simp: fold_max_le dest: set_pair_up)
    then show ?thesis using d by simp
  qed
  show ?case
  proof (cases "w_tag w = tag_code GENGO_WIRE_ARRAY \<or> w_tag w = tag_code GENGO_WIRE_MAP")
    case True
    then show ?thesis
      using 1(3) d arr map by (subst (asm) wireToValueDepth.simps) (auto simp: dec_then_Inr split: if_splits)
  next
    case False
    then have "height v = 1"
      using 1(3) by (subst (asm) wireToValueDepth.simps) (auto simp: dec_then_Inr split: if_splits)
    then show ?thesis using d by simp
  qed
qed

text \<open>Whatever the host puts into wires, cyclic or not, a value that the engine accepts nests at most 64 levels.\<close>

theorem decoded_value_bounded:
  assumes "wireToValue gc_ok m w = Some (Inr v)" shows "height v \<le> MaxWireDepth"
  using decoded_height [OF assms [unfolded wireToValue_def]] by simp

theorem decoded_value_bounded_witness:
  "height (VArray [VBool True] :: byte list Value) \<le> MaxWireDepth"
proof (rule decoded_value_bounded)
  let ?m = "\<lparr>mem_bytes = Map.empty, mem_wires = [16 \<mapsto> [makeWire GENGO_WIRE_BOOLEAN 1 0]]\<rparr>"
  show "wireToValue (\<lambda>_. True) ?m (makeWire GENGO_WIRE_ARRAY 16 1) = Some (Inr (VArray [VBool True]))"
    by (subst wireToValue_def, subst wireToValueDepth.simps)
       (simp add: makeWire_def wire_elems_def load_wires_def dec_then_def MaxWireDepth_def
          leaf_dec(2) [unfolded makeWire_def, simplified])
qed

lemma cyclic_wire:
  assumes w: "w = makeWire GENGO_WIRE_ARRAY p 1" and p: "p \<noteq> 0" "mem_wires m p = Some (w # ws)" and gc: "gc_ok 1"
  shows "wireToValueDepth gc_ok m w d = Some (Inl HostValueTooDeep)"
proof (induction "MaxWireDepth - d" arbitrary: d)
  case (Suc n)
  then have "wireToValueDepth gc_ok m w (d + 1) = Some (Inl HostValueTooDeep)" by simp
  moreover have "wire_elems gc_ok m w 1 = Some (Inr [w])"
    using p gc by (simp add: wire_elems_def load_wires_def w makeWire_def)
  ultimately show ?case
    using Suc.hyps(2) by (subst wireToValueDepth.simps) (simp add: w makeWire_def dec_then_def)
qed (subst wireToValueDepth.simps, simp)

text \<open>A wire array that contains itself is rejected with HostValueTooDeep; the conversion does not run on forever.\<close>

theorem cyclic_wire_rejected:
  assumes "w = makeWire GENGO_WIRE_ARRAY p 1" and "p \<noteq> 0" and "mem_wires m p = Some (w # ws)" and "gc_ok 1"
  shows "wireToValue gc_ok m w = Some (Inl HostValueTooDeep)"
  unfolding wireToValue_def using assms by (rule cyclic_wire)

theorem cyclic_wire_rejected_witness:
  "wireToValue (\<lambda>_. True) \<lparr>mem_bytes = Map.empty, mem_wires = [16 \<mapsto> [makeWire GENGO_WIRE_ARRAY 16 1]]\<rparr>
     (makeWire GENGO_WIRE_ARRAY 16 1) = Some (Inl HostValueTooDeep)"
  by (rule cyclic_wire_rejected [OF refl, where ws = "[]"]) simp_all

end
