(* ===== verification/Ieee.thy ===== *)
theory Ieee
  imports GengoWire Complex_Main
begin

text \<open>
  IEEE-754 arithmetic on bit patterns, for the functions of \<open>tools/ffi_test_lib.c\<close> on \<open>float\<close> and \<open>double\<close> and for the printing of floats in
  \<open>src/runtime/io.zig\<close>: the exact result is computed on natural numbers and rounded to nearest, ties to even. A result that is no number is the quiet
  NaN; the payload and sign of NaNs are not modelled.
\<close>

section \<open>Formats\<close>

text \<open>A format has \<open>fp_mant\<close> stored bits of the significand and \<open>fp_ebits\<close> bits of the exponent.\<close>

record fp_format =
  fp_mant :: nat
  fp_ebits :: nat

definition double_format :: fp_format where
  "double_format = \<lparr>fp_mant = 52, fp_ebits = 11\<rparr>"

definition float_format :: fp_format where
  "float_format = \<lparr>fp_mant = 23, fp_ebits = 8\<rparr>"

definition fp_emin :: "fp_format \<Rightarrow> int" where
  "fp_emin f = 2 - 2 ^ (fp_ebits f - 1) - int (fp_mant f)"

definition fp_top :: "fp_format \<Rightarrow> nat" where
  "fp_top f = 2 ^ fp_ebits f - 1"

text \<open>\<open>Fin s m e\<close> is \<open>m\<close> times the power \<open>e\<close> of two, negative when \<open>s\<close> holds.\<close>

datatype fp = Nan | Infinite bool | Fin bool nat int

definition fp_decode :: "fp_format \<Rightarrow> nat \<Rightarrow> fp" where
  "fp_decode f b =
     (let s = (2 ^ (fp_mant f + fp_ebits f) \<le> b); ex = b div 2 ^ fp_mant f mod 2 ^ fp_ebits f; fr = b mod 2 ^ fp_mant f in
      if ex = fp_top f then (if fr = 0 then Infinite s else Nan)
      else if ex = 0 then Fin s fr (fp_emin f)
      else Fin s (2 ^ fp_mant f + fr) (int ex - 1 + fp_emin f))"

definition fp_nan :: "fp_format \<Rightarrow> nat" where
  "fp_nan f = fp_top f * 2 ^ fp_mant f + 2 ^ (fp_mant f - 1)"

definition fp_sign :: "fp_format \<Rightarrow> bool \<Rightarrow> nat" where
  "fp_sign f s = (if s then 2 ^ (fp_mant f + fp_ebits f) else 0)"

definition fp_infinity :: "fp_format \<Rightarrow> bool \<Rightarrow> nat" where
  "fp_infinity f s = fp_sign f s + fp_top f * 2 ^ fp_mant f"

section \<open>Rounding\<close>

text \<open>The fraction \<open>p / q\<close> divided by a power of two.\<close>

definition scale2 :: "nat \<Rightarrow> nat \<Rightarrow> int \<Rightarrow> nat \<times> nat" where
  "scale2 p q e = (if 0 \<le> e then (p, q * 2 ^ nat e) else (p * 2 ^ nat (- e), q))"

text \<open>The integer part of the binary logarithm of \<open>p / q\<close>.\<close>

definition flog2 :: "nat \<Rightarrow> nat \<Rightarrow> int" where
  "flog2 p q = (let d = int (ilog2 p) - int (ilog2 q) in case scale2 p q d of (a, b) \<Rightarrow> if b \<le> a then d else d - 1)"

definition round_even :: "nat \<Rightarrow> nat \<Rightarrow> nat" where
  "round_even a b = (if b < 2 * (a mod b) \<or> b = 2 * (a mod b) \<and> odd (a div b) then a div b + 1 else a div b)"

definition fp_exponent :: "fp_format \<Rightarrow> nat \<Rightarrow> nat \<Rightarrow> int" where
  "fp_exponent f p q = max (fp_emin f) (flog2 p q - int (fp_mant f))"

definition fp_significand :: "fp_format \<Rightarrow> nat \<Rightarrow> nat \<Rightarrow> nat" where
  "fp_significand f p q = (case scale2 p q (fp_exponent f p q) of (a, b) \<Rightarrow> round_even a b)"

text \<open>
  The bits of \<open>p / q\<close>: the exponent field and the significand are added, which carries a significand that was rounded up into the exponent, and a result
  beyond the largest number into infinity.
\<close>

definition fp_round :: "fp_format \<Rightarrow> bool \<Rightarrow> nat \<Rightarrow> nat \<Rightarrow> nat" where
  "fp_round f s p q = fp_sign f s +
     (if p = 0 then 0
      else min (fp_top f * 2 ^ fp_mant f) (nat (fp_exponent f p q - fp_emin f) * 2 ^ fp_mant f + fp_significand f p q))"

text \<open>\<open>m\<close> times the power \<open>e\<close> of two, rounded.\<close>

definition fp_make :: "fp_format \<Rightarrow> bool \<Rightarrow> nat \<Rightarrow> int \<Rightarrow> nat" where
  "fp_make f s m e = (if 0 \<le> e then fp_round f s (m * 2 ^ nat e) 1 else fp_round f s m (2 ^ nat (- e)))"

section \<open>Operations\<close>

definition signed_mant :: "bool \<Rightarrow> nat \<Rightarrow> int" where
  "signed_mant s m = (if s then - int m else int m)"

text \<open>The exact sum of two finite numbers, with the sign of a zero sum.\<close>

definition fin_add :: "fp_format \<Rightarrow> bool \<Rightarrow> nat \<Rightarrow> int \<Rightarrow> bool \<Rightarrow> nat \<Rightarrow> int \<Rightarrow> nat" where
  "fin_add f s m e s' m' e' =
     (let l = min e e'; v = signed_mant s m * 2 ^ nat (e - l) + signed_mant s' m' * 2 ^ nat (e' - l) in
      if v = 0 then fp_sign f (s \<and> s') else fp_make f (v < 0) (nat \<bar>v\<bar>) l)"

fun fp_sum :: "fp_format \<Rightarrow> fp \<Rightarrow> fp \<Rightarrow> nat" where
  "fp_sum f (Fin s m e) (Fin s' m' e') = fin_add f s m e s' m' e'"
| "fp_sum f Nan y = fp_nan f"
| "fp_sum f x Nan = fp_nan f"
| "fp_sum f (Infinite s) (Infinite s') = (if s = s' then fp_infinity f s else fp_nan f)"
| "fp_sum f (Infinite s) (Fin s' m' e') = fp_infinity f s"
| "fp_sum f (Fin s m e) (Infinite s') = fp_infinity f s'"

fun fp_neg :: "fp \<Rightarrow> fp" where
  "fp_neg Nan = Nan"
| "fp_neg (Infinite s) = Infinite (\<not> s)"
| "fp_neg (Fin s m e) = Fin (\<not> s) m e"

fun fp_product :: "fp_format \<Rightarrow> fp \<Rightarrow> fp \<Rightarrow> nat" where
  "fp_product f (Fin s m e) (Fin s' m' e') = fp_make f (s \<noteq> s') (m * m') (e + e')"
| "fp_product f Nan y = fp_nan f"
| "fp_product f x Nan = fp_nan f"
| "fp_product f (Infinite s) (Infinite s') = fp_infinity f (s \<noteq> s')"
| "fp_product f (Infinite s) (Fin s' m' e') = (if m' = 0 then fp_nan f else fp_infinity f (s \<noteq> s'))"
| "fp_product f (Fin s m e) (Infinite s') = (if m = 0 then fp_nan f else fp_infinity f (s \<noteq> s'))"

fun fp_quotient :: "fp_format \<Rightarrow> fp \<Rightarrow> fp \<Rightarrow> nat" where
  "fp_quotient f (Fin s m e) (Fin s' m' e') =
     (if m' = 0 then (if m = 0 then fp_nan f else fp_infinity f (s \<noteq> s'))
      else case scale2 m m' (e' - e) of (p, q) \<Rightarrow> fp_round f (s \<noteq> s') p q)"
| "fp_quotient f Nan y = fp_nan f"
| "fp_quotient f x Nan = fp_nan f"
| "fp_quotient f (Infinite s) (Infinite s') = fp_nan f"
| "fp_quotient f (Infinite s) (Fin s' m' e') = fp_infinity f (s \<noteq> s')"
| "fp_quotient f (Fin s m e) (Infinite s') = fp_sign f (s \<noteq> s')"

text \<open>\<open>x + y * z\<close> with one rounding.\<close>

fun fp_fused :: "fp_format \<Rightarrow> fp \<Rightarrow> fp \<Rightarrow> fp \<Rightarrow> nat" where
  "fp_fused f x (Fin s m e) (Fin s' m' e') = fp_sum f x (Fin (s \<noteq> s') (m * m') (e + e'))"
| "fp_fused f x y z = fp_sum f x (fp_decode f (fp_product f y z))"

abbreviation f64_decode :: "f64 \<Rightarrow> fp" where
  "f64_decode d \<equiv> fp_decode double_format (unat d)"

definition f64_add :: "f64 \<Rightarrow> f64 \<Rightarrow> f64" where
  "f64_add a b = of_nat (fp_sum double_format (f64_decode a) (f64_decode b))"

definition f64_sub :: "f64 \<Rightarrow> f64 \<Rightarrow> f64" where
  "f64_sub a b = of_nat (fp_sum double_format (f64_decode a) (fp_neg (f64_decode b)))"

definition f64_mul :: "f64 \<Rightarrow> f64 \<Rightarrow> f64" where
  "f64_mul a b = of_nat (fp_product double_format (f64_decode a) (f64_decode b))"

definition f64_fma :: "f64 \<Rightarrow> f64 \<Rightarrow> f64 \<Rightarrow> f64" where
  "f64_fma a b c = of_nat (fp_fused double_format (f64_decode c) (f64_decode a) (f64_decode b))"

definition f32_div :: "u32 \<Rightarrow> u32 \<Rightarrow> u32" where
  "f32_div a b = of_nat (fp_quotient float_format (fp_decode float_format (unat a)) (fp_decode float_format (unat b)))"

section \<open>What a pattern stands for\<close>

definition fp_value :: "fp \<Rightarrow> real option" where
  "fp_value x = (case x of Fin s m e \<Rightarrow> Some ((if s then - real m else real m) * 2 powi e) | _ \<Rightarrow> None)"

definition f64_value :: "f64 \<Rightarrow> real option" where
  "f64_value d = fp_value (f64_decode d)"

section \<open>Rounding to a representable number is exact\<close>

lemma powi_nat: "0 \<le> e \<Longrightarrow> (2::real) powi e = 2 ^ nat e"
  by (simp add: power_int_def)

lemma powi_split: "(2::real) powi e = 2 powi (e - l) * 2 powi l"
  by (simp flip: power_int_add)

lemma powi_less: "(2::real) powi a < 2 powi b \<Longrightarrow> a < b"
  using power_int_increasing [of b a "2::real"] by (meson leI not_less one_le_numeral)

lemma scale2_quotient:
  assumes "scale2 p q e = (a, b)" and "0 < q"
  shows "0 < b" and "real a / real b = real p / real q / 2 powi e"
  using assms by (auto simp: scale2_def power_int_def field_simps split: if_splits)

lemma flog2_bounds:
  assumes p: "0 < p" and q: "0 < q"
  shows "2 powi flog2 p q \<le> real p / real q" and "real p / real q < 2 powi (flog2 p q + 1)"
proof -
  let ?i = "ilog2 p" and ?j = "ilog2 q"
  define d where "d = int ?i - int ?j"
  obtain a b where ab: "scale2 p q d = (a, b)" by (cases "scale2 p q d")
  note s = scale2_quotient [OF ab q]
  have i: "2 ^ ?i \<le> real p" "real p < 2 ^ Suc ?i"
    using ilog2_bounds [OF p] by (metis of_nat_le_iff of_nat_numeral of_nat_power, metis of_nat_less_iff of_nat_numeral of_nat_power)
  have j: "2 ^ ?j \<le> real q" "real q < 2 ^ Suc ?j"
    using ilog2_bounds [OF q] by (metis of_nat_le_iff of_nat_numeral of_nat_power, metis of_nat_less_iff of_nat_numeral of_nat_power)
  have up: "real p / real q < 2 ^ Suc ?i / 2 ^ ?j"
    using i j q by (intro frac_less) auto
  have low: "2 ^ ?i / 2 ^ Suc ?j < real p / real q"
    using i j p q by (intro frac_less2) auto
  have up': "real p / real q < 2 powi (d + 1)"
  proof -
    have "(2::real) powi (d + 1) = 2 powi int (Suc ?i) / 2 powi int ?j"
      by (subst power_int_diff [symmetric]) (simp_all add: d_def algebra_simps)
    then show ?thesis using up by (simp add: power_int_add)
  qed
  have low': "2 powi (d - 1) < real p / real q"
  proof -
    have "(2::real) powi (d - 1) = 2 powi int ?i / 2 powi int (Suc ?j)"
      by (subst power_int_diff [symmetric]) (simp_all add: d_def algebra_simps)
    then show ?thesis using low by (simp add: power_int_add)
  qed
  have le: "b \<le> a \<longleftrightarrow> 2 powi d \<le> real p / real q"
  proof -
    have "b \<le> a \<longleftrightarrow> 1 \<le> real a / real b" using s(1) by (simp add: le_divide_eq)
    also have "\<dots> \<longleftrightarrow> 2 powi d \<le> real p / real q"
      unfolding s(2) using q by (simp add: le_divide_eq mult.commute)
    finally show ?thesis .
  qed
  have fl: "flog2 p q = (if b \<le> a then d else d - 1)"
    by (simp add: flog2_def Let_def ab flip: d_def)
  show "2 powi flog2 p q \<le> real p / real q" and "real p / real q < 2 powi (flog2 p q + 1)"
    using le up' low' by (auto simp: fl)
qed

lemma round_even_exact: "0 < b \<Longrightarrow> round_even (k * b) b = k"
  by (simp add: round_even_def)

lemma round_even_le: "0 < b \<Longrightarrow> a \<le> n * b \<Longrightarrow> round_even a b \<le> n"
proof -
  assume b: "0 < b" and a: "a \<le> n * b"
  have le: "a div b \<le> n" using a b by (metis div_le_mono nonzero_mult_div_cancel_right less_numeral_extra(3))
  show ?thesis
  proof (cases "a div b = n")
    case True
    then have "a mod b = 0" using a b by (metis add_le_same_cancel1 div_mult_mod_eq le_zero_eq)
    then show ?thesis using True b by (simp add: round_even_def)
  qed (use le in \<open>auto simp: round_even_def\<close>)
qed

text \<open>A number with at most \<open>fp_mant + 1\<close> significant bits that the exponents of the format reach.\<close>

definition representable :: "fp_format \<Rightarrow> real \<Rightarrow> bool" where
  "representable f x \<longleftrightarrow> (\<exists>m e. x = real m * 2 powi e \<and> m < 2 ^ (fp_mant f + 1) \<and> fp_emin f \<le> e
     \<and> x < 2 powi (int (fp_top f) + fp_emin f + int (fp_mant f) - 1))"

lemma fp_significand_exact:
  assumes p: "0 < p" and q: "0 < q"
    and x: "real p / real q = real m * 2 powi e" and m: "m < 2 ^ (fp_mant f + 1)" and e: "fp_emin f \<le> e"
  shows "real p / real q = real (fp_significand f p q) * 2 powi fp_exponent f p q"
    and "fp_significand f p q < 2 ^ (fp_mant f + 1)"
    and "fp_emin f < fp_exponent f p q \<Longrightarrow> 2 ^ fp_mant f \<le> fp_significand f p q"
proof -
  let ?E = "fp_exponent f p q" and ?M = "fp_mant f"
  note fl = flog2_bounds [OF p q]
  have "real m * 2 powi e < 2 ^ (?M + 1) * 2 powi e"
    using m by (intro mult_strict_right_mono) (metis of_nat_less_iff of_nat_numeral of_nat_power, simp)
  also have "\<dots> = 2 powi (int (?M + 1) + e)" by (simp add: power_int_add)
  finally have "(2::real) powi flog2 p q < 2 powi (int (?M + 1) + e)" using fl(1) x by simp
  then have "flog2 p q < int (?M + 1) + e" by (rule powi_less)
  then have Ee: "?E \<le> e" using e by (simp add: fp_exponent_def)
  obtain a b where ab: "scale2 p q ?E = (a, b)" by (cases "scale2 p q ?E")
  note s = scale2_quotient [OF ab q]
  define k where "k = m * 2 ^ nat (e - ?E)"
  have "real a / real b = real k"
    unfolding s(2) x using Ee by (simp add: k_def powi_split [of e ?E] powi_nat)
  then have "real a = real (k * b)" using s(1) by (simp add: field_simps)
  then have "a = k * b" by (simp only: of_nat_eq_iff)
  then have sg: "fp_significand f p q = k"
    using s(1) by (simp add: fp_significand_def ab round_even_exact)
  show eq: "real p / real q = real (fp_significand f p q) * 2 powi ?E"
    using Ee unfolding sg x by (simp add: k_def powi_split [of e ?E] powi_nat)
  have up: "real k * 2 powi ?E < 2 powi (int ?M + 1) * 2 powi ?E"
  proof -
    have "flog2 p q + 1 \<le> int ?M + 1 + ?E" by (simp add: fp_exponent_def)
    then have "(2::real) powi (flog2 p q + 1) \<le> 2 powi (int ?M + 1 + ?E)" by (intro power_int_increasing) auto
    with fl(2) have "real k * 2 powi ?E < 2 powi (int ?M + 1 + ?E)" unfolding eq sg by (rule less_le_trans)
    then show ?thesis by (simp add: power_int_add)
  qed
  then have "real k < 2 powi int (?M + 1)" by (simp add: add.commute)
  then show "fp_significand f p q < 2 ^ (?M + 1)"
    unfolding sg by (simp only: power_int_of_nat) (metis of_nat_less_iff of_nat_numeral of_nat_power)
  assume "fp_emin f < ?E"
  then have "flog2 p q = int ?M + ?E" by (simp add: fp_exponent_def max_def split: if_splits)
  then have "2 powi int ?M * 2 powi ?E \<le> real k * 2 powi ?E"
    using fl(1) eq unfolding sg by (simp add: power_int_add)
  then have "2 powi int ?M \<le> real k" by simp
  then show "2 ^ ?M \<le> fp_significand f p q"
    unfolding sg by (simp only: power_int_of_nat) (metis of_nat_le_iff of_nat_numeral of_nat_power)
qed

text \<open>The pattern with exponent \<open>E\<close> and significand \<open>k\<close>.\<close>

lemma fp_decode_assembled:
  assumes k: "k < 2 ^ (fp_mant f + 1)" and n: "0 < n \<Longrightarrow> 2 ^ fp_mant f \<le> k" and top: "n + 1 < fp_top f"
  shows "fp_decode f (fp_sign f s + (n * 2 ^ fp_mant f + k)) = Fin s k (int n + fp_emin f)"
proof -
  let ?M = "fp_mant f" and ?X = "fp_ebits f"
  define c where "c = (if k < 2 ^ ?M then 0 else 1 :: nat)"
  define r where "r = k - c * 2 ^ ?M"
  have r: "r < 2 ^ ?M" "k = c * 2 ^ ?M + r" using k by (auto simp: c_def r_def)
  define S where "S = (if s then 2 ^ ?X else 0 :: nat)"
  define w where "w = (S + (n + c)) * 2 ^ ?M + r"
  have b: "fp_sign f s + (n * 2 ^ ?M + k) = w"
    by (simp add: fp_sign_def S_def w_def r(2) power_add algebra_simps)
  have t: "n + c < 2 ^ ?X" "n + c \<noteq> fp_top f" using top by (auto simp: fp_top_def c_def)
  have ex: "w div 2 ^ ?M mod 2 ^ ?X = n + c" using t(1) r(1) by (simp add: w_def S_def)
  have fr: "w mod 2 ^ ?M = r" using r(1) by (simp add: w_def)
  have sg: "2 ^ (?M + ?X) \<le> w \<longleftrightarrow> s"
  proof (cases s)
    case True
    then show ?thesis by (simp add: w_def S_def power_add algebra_simps)
  next
    case False
    have "(n + c) * 2 ^ ?M + r < (n + c + 1) * 2 ^ ?M" using r(1) by simp
    also have "\<dots> \<le> 2 ^ ?X * 2 ^ ?M" using t(1) by (intro mult_right_mono) auto
    finally show ?thesis using False by (simp add: w_def S_def power_add mult.commute)
  qed
  show ?thesis
  proof (cases "k < 2 ^ ?M")
    case True
    then have "n = 0" using n by (cases "n = 0") auto
    then have z: "n + c = 0" "r = k" using True by (auto simp: c_def r_def)
    then show ?thesis using top unfolding b by (simp add: fp_decode_def Let_def ex fr sg)
  next
    case False
    then have "c = 1" by (simp add: c_def)
    then have z: "n + c = Suc n" "2 ^ ?M + r = k" "Suc n \<noteq> fp_top f" using t(2) r(2) by auto
    show ?thesis unfolding b fp_decode_def Let_def ex fr sg z(1,2) using z(3) by simp
  qed
qed

lemma fp_round_zero:
  assumes "1 < fp_top f"
  shows "fp_decode f (fp_round f s 0 q) = Fin s 0 (fp_emin f)"
  using fp_decode_assembled [of 0 f 0 s] assms by (simp add: fp_round_def)

theorem fp_round_exact:
  assumes q: "0 < q" and x: "representable f (real p / real q)" and top: "1 < fp_top f"
  shows "\<exists>k e. fp_decode f (fp_round f s p q) = Fin s k e \<and> real k * 2 powi e = real p / real q"
proof (cases "p = 0")
  case True
  then show ?thesis using fp_round_zero [OF top] by simp
next
  case False
  then have p: "0 < p" by simp
  let ?E = "fp_exponent f p q" and ?M = "fp_mant f" and ?k = "fp_significand f p q"
  obtain m e where m: "real p / real q = real m * 2 powi e" "m < 2 ^ (?M + 1)" "fp_emin f \<le> e"
    and lim: "real p / real q < 2 powi (int (fp_top f) + fp_emin f + int ?M - 1)"
    using x unfolding representable_def by blast
  note sg = fp_significand_exact [OF p q m]
  define n where "n = nat (?E - fp_emin f)"
  have "flog2 p q < int (fp_top f) + fp_emin f + int ?M - 1"
    using flog2_bounds(1) [OF p q] lim by (intro powi_less) (rule le_less_trans)
  then have n: "int n = ?E - fp_emin f" "n + 1 < fp_top f" using top by (auto simp: n_def fp_exponent_def)
  have "n * 2 ^ ?M + ?k \<le> (n + 2) * 2 ^ ?M" using sg(2) by simp
  also have "\<dots> \<le> fp_top f * 2 ^ ?M" using n(2) by (intro mult_right_mono) auto
  finally have "fp_round f s p q = fp_sign f s + (n * 2 ^ ?M + ?k)"
    using p by (simp add: fp_round_def n_def)
  moreover have "fp_decode f (fp_sign f s + (n * 2 ^ ?M + ?k)) = Fin s ?k (int n + fp_emin f)"
    using n sg(2,3) by (intro fp_decode_assembled) auto
  ultimately show ?thesis using n(1) sg(1) by simp
qed

lemma fp_make_quotient:
  obtains p q where "0 < q" and "real p / real q = real m * 2 powi e" and "fp_make f s m e = fp_round f s p q" and "p = 0 \<longleftrightarrow> m = 0"
proof (rule that)
  let ?p = "if 0 \<le> e then m * 2 ^ nat e else m" and ?q = "if 0 \<le> e then 1 else 2 ^ nat (- e) :: nat"
  show "0 < ?q" "?p = 0 \<longleftrightarrow> m = 0" by simp_all
  show "real ?p / real ?q = real m * 2 powi e"
    by (cases "0 \<le> e") (simp_all add: powi_nat power_int_def field_simps)
  show "fp_make f s m e = fp_round f s ?p ?q" by (simp add: fp_make_def)
qed

lemma fp_make_exact:
  assumes "representable f (real m * 2 powi e)" and "1 < fp_top f"
  shows "\<exists>k e'. fp_decode f (fp_make f s m e) = Fin s k e' \<and> real k * 2 powi e' = real m * 2 powi e"
proof -
  obtain p q where pq: "0 < q" "real p / real q = real m * 2 powi e" and mk: "fp_make f s m e = fp_round f s p q"
    by (rule fp_make_quotient)
  from fp_round_exact [OF pq(1) _ assms(2), of p s] assms(1) show ?thesis unfolding mk pq(2) by (rule meta_mp)
qed

lemma fp_value_Fin: "fp_value (Fin s m e) = Some (real_of_int (signed_mant s m) * 2 powi e)"
  by (simp add: fp_value_def signed_mant_def)

lemma fin_add_exact:
  assumes x: "representable f \<bar>real_of_int (signed_mant s m) * 2 powi e + real_of_int (signed_mant s' m') * 2 powi e'\<bar>"
    and top: "1 < fp_top f"
  shows "fp_value (fp_decode f (fin_add f s m e s' m' e'))
    = Some (real_of_int (signed_mant s m) * 2 powi e + real_of_int (signed_mant s' m') * 2 powi e')"
proof -
  let ?l = "min e e'"
  define v where "v = signed_mant s m * 2 ^ nat (e - ?l) + signed_mant s' m' * 2 ^ nat (e' - ?l)"
  have sum: "real_of_int (signed_mant s m) * 2 powi e + real_of_int (signed_mant s' m') * 2 powi e' = real_of_int v * 2 powi ?l"
    using powi_split [of e ?l] powi_split [of e' ?l] by (simp add: v_def powi_nat distrib_right)
  show ?thesis
  proof (cases "v = 0")
    case True
    then have "fin_add f s m e s' m' e' = fp_round f (s \<and> s') 0 1" by (simp add: fin_add_def Let_def v_def fp_round_def)
    then show ?thesis using True fp_round_zero [OF top, of "s \<and> s'" 1] unfolding sum by (simp add: fp_value_def)
  next
    case False
    have abs: "\<bar>real_of_int v * 2 powi ?l\<bar> = real (nat \<bar>v\<bar>) * 2 powi ?l" by (simp add: abs_mult)
    obtain k d where k: "fp_decode f (fp_make f (v < 0) (nat \<bar>v\<bar>) ?l) = Fin (v < 0) k d" "real k * 2 powi d = real (nat \<bar>v\<bar>) * 2 powi ?l"
      using fp_make_exact [OF _ top, of "nat \<bar>v\<bar>" ?l "v < 0"] x unfolding sum abs by blast
    have "fin_add f s m e s' m' e' = fp_make f (v < 0) (nat \<bar>v\<bar>) ?l" using False by (simp add: fin_add_def Let_def v_def)
    then show ?thesis using k unfolding sum by (simp add: fp_value_def)
  qed
qed

lemma fp_sum_exact:
  assumes "fp_value x = Some a" and "fp_value y = Some b" and "representable f \<bar>a + b\<bar>" and "1 < fp_top f"
  shows "fp_value (fp_decode f (fp_sum f x y)) = Some (a + b)"
  using assms fin_add_exact by (cases x; cases y) (auto simp: fp_value_Fin, simp_all add: fp_value_def)

lemma fp_product_exact:
  assumes "fp_value x = Some a" and "fp_value y = Some b" and r: "representable f \<bar>a * b\<bar>" and top: "1 < fp_top f"
  shows "fp_value (fp_decode f (fp_product f x y)) = Some (a * b)"
proof -
  obtain s m e s' m' e' where xy: "x = Fin s m e" "y = Fin s' m' e'"
    using assms(1,2) by (cases x; cases y) (auto simp: fp_value_def)
  have ab: "a = real_of_int (signed_mant s m) * 2 powi e" "b = real_of_int (signed_mant s' m') * 2 powi e'"
    using assms(1,2) by (simp_all add: xy fp_value_Fin)
  have abs: "\<bar>a * b\<bar> = real (m * m') * 2 powi (e + e')"
    by (simp add: ab signed_mant_def abs_mult power_int_add)
  obtain k d where k: "fp_decode f (fp_make f (s \<noteq> s') (m * m') (e + e')) = Fin (s \<noteq> s') k d" "real k * 2 powi d = \<bar>a * b\<bar>"
    using fp_make_exact [OF r [unfolded abs] top, of "s \<noteq> s'"] abs by auto
  have "a * b = (if s \<noteq> s' then - \<bar>a * b\<bar> else \<bar>a * b\<bar>)"
    unfolding abs by (simp add: ab signed_mant_def power_int_add)
  moreover have "fp_value (fp_decode f (fp_product f x y)) = Some (if s \<noteq> s' then - \<bar>a * b\<bar> else \<bar>a * b\<bar>)"
    using k by (simp add: xy fp_value_def)
  ultimately show ?thesis by metis
qed

lemma fp_neg_value: "fp_value x = Some a \<Longrightarrow> fp_value (fp_neg x) = Some (- a)"
  by (cases x) (auto simp: fp_value_def)

section \<open>Patterns fit their word\<close>

lemma fp_round_bound: "fp_round f s p q < 2 ^ (fp_mant f + fp_ebits f + 1)"
proof -
  have "fp_top f * 2 ^ fp_mant f < 2 ^ fp_ebits f * 2 ^ fp_mant f" by (simp add: fp_top_def)
  then have "(if p = 0 then 0 else min (fp_top f * 2 ^ fp_mant f) z) < 2 ^ (fp_mant f + fp_ebits f)" for z
    unfolding power_add mult.commute [of "2 ^ fp_mant f"] by (simp add: min_less_iff_disj)
  then have "fp_round f s p q < fp_sign f s + 2 ^ (fp_mant f + fp_ebits f)" unfolding fp_round_def by (rule add_strict_left_mono)
  then show ?thesis by (auto simp: fp_sign_def split: if_splits)
qed

lemma fp_make_bound: "fp_make f s m e < 2 ^ (fp_mant f + fp_ebits f + 1)"
  by (simp only: fp_make_def fp_round_bound split: if_split) simp

lemma fp_special_bound:
  "fp_sign f s < 2 ^ (fp_mant f + fp_ebits f + 1)"
  "fp_infinity f s < 2 ^ (fp_mant f + fp_ebits f + 1)"
  "0 < fp_mant f \<Longrightarrow> fp_nan f < 2 ^ (fp_mant f + fp_ebits f + 1)"
proof -
  have t: "(fp_top f + 1) * 2 ^ fp_mant f = 2 ^ (fp_mant f + fp_ebits f)" by (simp add: fp_top_def power_add)
  show "fp_sign f s < 2 ^ (fp_mant f + fp_ebits f + 1)" by (simp add: fp_sign_def)
  have "fp_top f * 2 ^ fp_mant f < 2 ^ (fp_mant f + fp_ebits f)" unfolding t [symmetric] by simp
  then show "fp_infinity f s < 2 ^ (fp_mant f + fp_ebits f + 1)" by (simp add: fp_infinity_def fp_sign_def)
  assume "0 < fp_mant f"
  then have "(2::nat) ^ (fp_mant f - 1) \<le> 2 ^ fp_mant f" by (intro power_increasing) auto
  then have "fp_nan f \<le> (fp_top f + 1) * 2 ^ fp_mant f" by (simp add: fp_nan_def)
  then show "fp_nan f < 2 ^ (fp_mant f + fp_ebits f + 1)" unfolding t by (rule le_less_trans) simp
qed

lemma fp_sum_bound: "0 < fp_mant f \<Longrightarrow> fp_sum f x y < 2 ^ (fp_mant f + fp_ebits f + 1)"
  by (induction f x y rule: fp_sum.induct)
    (simp_all only: fp_sum.simps fin_add_def Let_def fp_make_bound fp_special_bound split: if_split, auto)

lemma fp_product_bound: "0 < fp_mant f \<Longrightarrow> fp_product f x y < 2 ^ (fp_mant f + fp_ebits f + 1)"
  by (induction f x y rule: fp_product.induct)
    (simp_all only: fp_product.simps fp_make_bound fp_special_bound split: if_split, auto)

section \<open>Doubles that hold integers\<close>

lemma double_format_facts: "fp_top double_format = 2047" "fp_mant double_format = 52" "fp_ebits double_format = 11"
  "fp_emin double_format = - 1074"
  by (simp_all add: fp_top_def fp_emin_def double_format_def)

lemma representable_int:
  assumes "\<bar>n\<bar> < 2 ^ 53"
  shows "representable double_format \<bar>real_of_int n\<bar>"
proof -
  have "nat \<bar>n\<bar> < 2 ^ (fp_mant double_format + 1)" using assms by (simp add: double_format_facts)
  moreover have "\<bar>real_of_int n\<bar> = real (nat \<bar>n\<bar>) * 2 powi 0" by simp
  moreover have "\<bar>real_of_int n\<bar> < 2 powi 1024"
  proof -
    have "\<bar>real_of_int n\<bar> < 2 ^ 53" using assms by (metis of_int_abs of_int_less_numeral_power_cancel_iff)
    also have "(2::real) ^ 53 \<le> 2 ^ 1024" by (rule power_increasing) auto
    finally show ?thesis by simp
  qed
  ultimately show ?thesis unfolding representable_def by (intro exI [of _ "nat \<bar>n\<bar>"] exI [of _ 0]) (simp add: double_format_facts)
qed

lemmas double_bounds = fp_sum_bound [of double_format, unfolded double_format_facts]
  fp_product_bound [of double_format, unfolded double_format_facts]

lemma f64_of_nat_pattern:
  assumes "b < 2 ^ (52 + 11 + 1)"
  shows "f64_value (of_nat b) = fp_value (fp_decode double_format b)"
  using assms by (simp add: f64_value_def unat_of_nat double_format_facts)

lemma f64_add_exact:
  assumes "f64_value a = Some x" and "f64_value b = Some y" and "representable double_format \<bar>x + y\<bar>"
  shows "f64_value (f64_add a b) = Some (x + y)"
  unfolding f64_add_def using assms
  by (subst f64_of_nat_pattern) (rule double_bounds, simp, rule fp_sum_exact, simp_all add: f64_value_def double_format_facts)

lemma f64_sub_exact:
  assumes "f64_value a = Some x" and "f64_value b = Some y" and "representable double_format \<bar>x - y\<bar>"
  shows "f64_value (f64_sub a b) = Some (x - y)"
proof -
  have n: "fp_value (fp_neg (f64_decode b)) = Some (- y)" using assms(2) by (intro fp_neg_value) (simp add: f64_value_def)
  have "f64_value (f64_sub a b) = Some (x + - y)"
    unfolding f64_sub_def using assms n
    by (subst f64_of_nat_pattern) (rule double_bounds, simp, rule fp_sum_exact, simp_all add: f64_value_def double_format_facts)
  then show ?thesis by simp
qed

lemma f64_mul_exact:
  assumes "f64_value a = Some x" and "f64_value b = Some y" and "representable double_format \<bar>x * y\<bar>"
  shows "f64_value (f64_mul a b) = Some (x * y)"
  unfolding f64_mul_def using assms
  by (subst f64_of_nat_pattern) (rule double_bounds, simp, rule fp_product_exact, simp_all add: f64_value_def double_format_facts)

text \<open>The casts from and to \<open>int64_t\<close> agree with the value of the pattern.\<close>

lemma f64_decode_fields:
  "f64_decode d = (if f64_exp d = 2047 then (if f64_frac d = 0 then Infinite (f64_neg d) else Nan)
    else if f64_exp d = 0 then Fin (f64_neg d) (f64_frac d) (- 1074) else Fin (f64_neg d) (2 ^ 52 + f64_frac d) (int (f64_exp d) - 1075))"
  by (simp add: fp_decode_def double_format_facts f64_exp_def f64_frac_def f64_neg_def Let_def)

lemma f64_value_trunc:
  assumes "f64_value d = Some x"
  shows "f64_exp d \<noteq> 2047" and "real (f64_trunc_mag (f64_exp d) (f64_frac d)) \<le> \<bar>x\<bar>"
    and "\<bar>x\<bar> < real (f64_trunc_mag (f64_exp d) (f64_frac d)) + 1" and "f64_neg d \<Longrightarrow> x \<le> 0" and "\<not> f64_neg d \<Longrightarrow> 0 \<le> x"
proof -
  show ne: "f64_exp d \<noteq> 2047" using assms by (auto simp: f64_value_def f64_decode_fields fp_value_def split: if_splits)
  define m where "m = (if f64_exp d = 0 then f64_frac d else 2 ^ 52 + f64_frac d)"
  define sc where "sc = (if f64_exp d = 0 then 1 else f64_exp d)"
  have x: "x = (if f64_neg d then - real m else real m) * 2 powi (int sc - 1075)"
    using assms ne by (simp add: f64_value_def f64_decode_fields fp_value_def m_def sc_def algebra_simps split: if_splits)
  then have ax: "\<bar>x\<bar> = real m * 2 powi (int sc - 1075)" by (simp add: abs_mult)
  show "f64_neg d \<Longrightarrow> x \<le> 0" "\<not> f64_neg d \<Longrightarrow> 0 \<le> x" by (simp_all add: x)
  have tr: "f64_trunc_mag (f64_exp d) (f64_frac d) = (if 1075 \<le> sc then m * 2 ^ (sc - 1075) else m div 2 ^ (1075 - sc))"
    unfolding f64_trunc_mag_def Let_def m_def sc_def by (rule refl)
  have "real (f64_trunc_mag (f64_exp d) (f64_frac d)) \<le> \<bar>x\<bar> \<and> \<bar>x\<bar> < real (f64_trunc_mag (f64_exp d) (f64_frac d)) + 1"
  proof (cases "1075 \<le> sc")
    case True
    then have "(2::real) powi (int sc - 1075) = 2 ^ (sc - 1075)" by (simp add: power_int_def nat_diff_distrib)
    then show ?thesis unfolding tr ax using True by simp
  next
    case False
    then have "(2::real) powi (int sc - 1075) = 1 / 2 ^ (1075 - sc)"
      by (simp add: power_int_def nat_diff_distrib' field_simps)
    then have "\<bar>x\<bar> = real m / real (2 ^ (1075 - sc))" unfolding ax by simp
    then have "nat \<lfloor>\<bar>x\<bar>\<rfloor> = m div 2 ^ (1075 - sc)" by (simp only: floor_divide_of_nat_eq nat_int)
    then have "f64_trunc_mag (f64_exp d) (f64_frac d) = nat \<lfloor>\<bar>x\<bar>\<rfloor>" using False by (simp add: tr)
    moreover have "real (nat \<lfloor>\<bar>x\<bar>\<rfloor>) \<le> \<bar>x\<bar>" and "\<bar>x\<bar> < real (nat \<lfloor>\<bar>x\<bar>\<rfloor>) + 1" by linarith+
    ultimately show ?thesis by simp
  qed
  then show "real (f64_trunc_mag (f64_exp d) (f64_frac d)) \<le> \<bar>x\<bar>" "\<bar>x\<bar> < real (f64_trunc_mag (f64_exp d) (f64_frac d)) + 1" by auto
qed

lemma i64_of_f64_value:
  assumes v: "f64_value d = Some (real_of_int n)" and n: "- (2 ^ 63) \<le> n" "n < 2 ^ 63"
  shows "i64_of_f64 d = Some n"
proof -
  note t = f64_value_trunc [OF v]
  have mag: "int (f64_trunc_mag (f64_exp d) (f64_frac d)) = \<bar>n\<bar>" using t(2,3) by linarith
  have "n = (if f64_neg d then - \<bar>n\<bar> else \<bar>n\<bar>)" using t(4,5) by auto
  then show ?thesis using t(1) n mag by (auto simp: i64_of_f64_def Let_def split: if_splits)
qed

lemma f64_of_i64_value:
  assumes n: "\<bar>n\<bar> < 2 ^ 53"
  shows "f64_value (f64_of_i64 n) = Some (real_of_int n)"
proof (cases "n = 0")
  case True
  then show ?thesis
    by (simp add: f64_of_i64_def f64_value_def fp_decode_def double_format_facts Let_def fp_value_def)
next
  case False
  define a where "a = nat \<bar>n\<bar>"
  define k where "k = ilog2 a"
  have a: "0 < a" "a < 2 ^ 53" using False n by (auto simp: a_def)
  have k: "2 ^ k \<le> a" "a < 2 ^ Suc k" using ilog2_bounds [OF a(1)] by (auto simp: k_def)
  have "(2::nat) ^ k < 2 ^ 53" using k(1) a(2) by (rule le_less_trans)
  then have k52: "k \<le> 52" using power_less_imp_less_exp [of "2::nat" k 53] by simp
  let ?fr = "(a - 2 ^ k) * 2 ^ (52 - k)"
  have eq: "f64_of_i64 n = f64_pack (n < 0) (k + 1023) ?fr"
    using a(1) k52 by (simp add: f64_of_i64_def Let_def flip: a_def k_def)
  have fr: "?fr < 2 ^ 52" by (rule f64_frac_small [OF k52 k(2,1)])
  have p52: "(2::nat) ^ 52 = 2 ^ k * 2 ^ (52 - k)" using k52 by (metis le_add_diff_inverse power_add)
  have m: "2 ^ 52 + ?fr = a * 2 ^ (52 - k)" unfolding p52 using k(1) by (metis add_mult_distrib le_add_diff_inverse)
  have "real (2 ^ 52 + ?fr) * 2 powi (int (k + 1023) - 1075) = real a * (2 powi int (52 - k) * 2 powi (int k - 52))"
    unfolding m by simp
  also have "\<dots> = real a" using k52 by (simp only: of_nat_diff flip: power_int_add) (simp flip: power_int_add)
  finally have v: "real (2 ^ 52 + ?fr) * 2 powi (int (k + 1023) - 1075) = real a" .
  have dec: "f64_decode (f64_of_i64 n) = Fin (n < 0) (2 ^ 52 + ?fr) (int (k + 1023) - 1075)"
    unfolding eq f64_decode_fields using f64_pack_fields [OF _ fr, of "k + 1023" "n < 0"] k52 by simp
  have "fp_value (f64_decode (f64_of_i64 n)) = Some ((if n < 0 then - 1 else 1) * real a)"
    unfolding dec fp_value_def v [symmetric] by simp
  then show ?thesis by (simp add: f64_value_def a_def)
qed

section \<open>Rounding does not cross a representable number\<close>

lemma fp_round_le:
  assumes p: "0 < p" and q: "0 < q" and top: "1 < fp_top f"
    and n: "real p / real q \<le> real n * 2 powi e" "n < 2 ^ (fp_mant f + 1)" "fp_emin f \<le> e"
    and lim: "real n * 2 powi e < 2 powi (int (fp_top f) + fp_emin f + int (fp_mant f) - 1)"
  shows "\<exists>k d. fp_decode f (fp_round f s p q) = Fin s k d \<and> real k * 2 powi d \<le> real n * 2 powi e"
proof -
  let ?E = "fp_exponent f p q" and ?M = "fp_mant f" and ?k = "fp_significand f p q"
  note fl = flog2_bounds [OF p q]
  obtain a b where ab: "scale2 p q ?E = (a, b)" by (cases "scale2 p q ?E")
  note s = scale2_quotient [OF ab q]
  have pos: "(0::real) < 2 powi ?E" by simp
  have k: "?k = round_even a b" by (simp add: fp_significand_def ab)
  have x: "real p / real q = real a / real b * 2 powi ?E" unfolding s(2) by simp
  have "real n * 2 powi e < 2 powi (int (?M + 1) + e)"
  proof -
    have "real n * 2 powi e < 2 ^ (?M + 1) * 2 powi e"
      using n(2) by (intro mult_strict_right_mono) (metis of_nat_less_iff of_nat_numeral of_nat_power, simp)
    then show ?thesis by (simp add: power_int_add)
  qed
  then have "(2::real) powi flog2 p q < 2 powi (int (?M + 1) + e)" using fl(1) n(1) by linarith
  then have "flog2 p q < int (?M + 1) + e" by (rule powi_less)
  then have Ee: "?E \<le> e" using n(3) by (simp add: fp_exponent_def)
  have ne: "real n * 2 powi e = real (n * 2 ^ nat (e - ?E)) * 2 powi ?E"
    using Ee by (simp add: powi_split [of e ?E] powi_nat)
  have kn: "?k \<le> n * 2 ^ nat (e - ?E)"
  proof -
    have "real a / real b \<le> real (n * 2 ^ nat (e - ?E))" using n(1) unfolding x ne by (rule mult_right_le_imp_le) (rule pos)
    then have "real a \<le> real (n * 2 ^ nat (e - ?E) * b)" using s(1) by (simp add: divide_le_eq)
    then have "a \<le> n * 2 ^ nat (e - ?E) * b" by (simp only: of_nat_le_iff)
    then show ?thesis unfolding k by (rule round_even_le [OF s(1)])
  qed
  have kM: "?k \<le> 2 ^ (?M + 1)"
  proof -
    have "flog2 p q + 1 \<le> int ?M + 1 + ?E" by (simp add: fp_exponent_def)
    then have "(2::real) powi (flog2 p q + 1) \<le> 2 powi (int ?M + 1 + ?E)" by (intro power_int_increasing) auto
    with fl(2) have "real a / real b * 2 powi ?E < 2 powi (int (?M + 1)) * 2 powi ?E"
      unfolding x by (simp add: power_int_add)
    then have "real a / real b < 2 powi (int (?M + 1))" by (rule mult_right_less_imp_less) (rule less_imp_le [OF pos])
    then have "real a / real b \<le> 2 ^ (?M + 1)" by (simp only: power_int_of_nat less_imp_le)
    then have "real a \<le> real (2 ^ (?M + 1) * b)" using s(1) by (simp add: divide_le_eq)
    then have "a \<le> 2 ^ (?M + 1) * b" by (simp only: of_nat_le_iff)
    then show ?thesis unfolding k by (rule round_even_le [OF s(1)])
  qed
  have low: "2 ^ ?M \<le> ?k" if "fp_emin f < ?E"
  proof -
    have "flog2 p q = int ?M + ?E" using that by (simp add: fp_exponent_def max_def split: if_splits)
    then have "2 powi int ?M * 2 powi ?E \<le> real a / real b * 2 powi ?E" using fl(1) unfolding x by (simp add: power_int_add)
    then have "2 powi int ?M \<le> real a / real b" by (rule mult_right_le_imp_le) (rule pos)
    then have "real (2 ^ ?M) \<le> real a / real b" by simp
    then have "real (2 ^ ?M * b) \<le> real a" using s(1) by (simp add: le_divide_eq)
    then have "2 ^ ?M * b \<le> a" by (simp only: of_nat_le_iff)
    then have "2 ^ ?M \<le> a div b" using s(1) by (simp add: less_eq_div_iff_mult_less_eq)
    then show ?thesis by (simp add: k round_even_def)
  qed
  define j where "j = nat (?E - fp_emin f)"
  have "(2::real) powi flog2 p q < 2 powi (int (fp_top f) + fp_emin f + int ?M - 1)" using fl(1) n(1) lim by linarith
  then have "flog2 p q < int (fp_top f) + fp_emin f + int ?M - 1" by (rule powi_less)
  then have j: "int j = ?E - fp_emin f" "j + 1 < fp_top f" using top by (auto simp: j_def fp_exponent_def)
  have bits: "fp_round f s p q = fp_sign f s + (j * 2 ^ ?M + ?k)"
  proof -
    have "j * 2 ^ ?M + ?k \<le> (j + 2) * 2 ^ ?M" using kM by simp
    also have "\<dots> \<le> fp_top f * 2 ^ ?M" using j(2) by (intro mult_right_mono) auto
    finally show ?thesis using p by (simp add: fp_round_def j_def)
  qed
  show ?thesis
  proof (cases "?k < 2 ^ (?M + 1)")
    case True
    then have "fp_decode f (fp_sign f s + (j * 2 ^ ?M + ?k)) = Fin s ?k (int j + fp_emin f)"
      using j low by (intro fp_decode_assembled) auto
    moreover have "real ?k * 2 powi ?E \<le> real n * 2 powi e" unfolding ne using kn by (intro mult_right_mono) (simp_all only: of_nat_le_iff, simp)
    ultimately show ?thesis unfolding bits using j(1) by simp
  next
    case False
    then have k2: "?k = 2 ^ (?M + 1)" using kM by simp
    then have b2: "j * 2 ^ ?M + ?k = (j + 1) * 2 ^ ?M + 2 ^ ?M" by simp
    have le: "real (2 ^ ?M) * 2 powi (int (j + 1) + fp_emin f) \<le> real n * 2 powi e"
    proof -
      have e1: "int (j + 1) + fp_emin f = 1 + ?E" using j(1) by simp
      have "real (2 ^ ?M) * 2 powi (int (j + 1) + fp_emin f) = real ?k * 2 powi ?E"
        unfolding k2 e1 by (simp add: power_int_add)
      also have "\<dots> \<le> real n * 2 powi e" unfolding ne using kn by (intro mult_right_mono) (simp_all only: of_nat_le_iff, simp)
      finally show ?thesis .
    qed
    have "j + 1 + 1 < fp_top f"
    proof -
      have "(2::real) powi (int ?M + (int (j + 1) + fp_emin f)) \<le> real n * 2 powi e" using le by (simp add: power_int_add)
      then have "(2::real) powi (int ?M + (int (j + 1) + fp_emin f)) < 2 powi (int (fp_top f) + fp_emin f + int ?M - 1)" using lim by linarith
      then show ?thesis by (auto dest: powi_less)
    qed
    then have "fp_decode f (fp_sign f s + ((j + 1) * 2 ^ ?M + 2 ^ ?M)) = Fin s (2 ^ ?M) (int (j + 1) + fp_emin f)"
      by (intro fp_decode_assembled) auto
    then show ?thesis unfolding bits b2 using le by blast
  qed
qed

lemma fp_make_le:
  assumes x: "real m * 2 powi e \<le> real n" and n: "n < 2 ^ 53"
  shows "\<exists>k d. fp_decode double_format (fp_make double_format s m e) = Fin s k d \<and> real k * 2 powi d \<le> real n"
proof (cases "m = 0")
  case True
  then show ?thesis using fp_round_zero [of double_format s] by (auto simp: fp_make_def double_format_facts)
next
  case False
  obtain p q where pq: "0 < q" "real p / real q = real m * 2 powi e" and p: "p = 0 \<longleftrightarrow> m = 0"
    and mk: "fp_make double_format s m e = fp_round double_format s p q"
    by (rule fp_make_quotient)
  have p: "0 < p" using p False by simp
  have "real n < 2 ^ 53" using n by (metis of_nat_less_iff of_nat_numeral of_nat_power)
  also have "(2::real) ^ 53 \<le> 2 ^ 1024" by (rule power_increasing) auto
  finally have lim: "real n * 2 powi 0 < 2 powi (int (fp_top double_format) + fp_emin double_format + int (fp_mant double_format) - 1)"
    by (simp add: double_format_facts)
  show ?thesis
    using fp_round_le [OF p pq(1) _ _ _ _ lim, of s] x n unfolding mk pq(2) by (simp add: double_format_facts)
qed

lemma powi_pos: "(0::real) < 2 powi e"
  by simp

lemma nonneg_scaled: "0 \<le> r * 2 powi e \<Longrightarrow> (0::real) \<le> r"
  using powi_pos [of e] by (simp only: zero_le_mult_iff) linarith

lemma f64_mul_le:
  assumes a: "f64_value a = Some x" "0 \<le> x" and b: "f64_value b = Some y" "0 \<le> y" and n: "x * y \<le> real n" "n < 2 ^ 53"
  shows "\<exists>z. f64_value (f64_mul a b) = Some z \<and> 0 \<le> z \<and> z \<le> real n"
proof -
  obtain s m e s' m' e' where ab: "f64_decode a = Fin s m e" "f64_decode b = Fin s' m' e'"
    using a(1) b(1) by (cases "f64_decode a"; cases "f64_decode b") (auto simp: f64_value_def fp_value_def)
  have x: "x = (if s then - real m else real m) * 2 powi e" and y: "y = (if s' then - real m' else real m') * 2 powi e'"
    using a(1) b(1) ab by (auto simp: f64_value_def fp_value_def)
  have z: "m = 0" if "s" using nonneg_scaled [OF a(2) [unfolded x]] that by simp
  have z': "m' = 0" if "s'" using nonneg_scaled [OF b(2) [unfolded y]] that by simp
  have "real (m * m') * 2 powi (e + e') = x * y" using z z' by (auto simp: x y power_int_add)
  then have "real (m * m') * 2 powi (e + e') \<le> real n" using n(1) by simp
  from fp_make_le [OF this n(2)] obtain k d where
    k: "fp_decode double_format (fp_make double_format (s \<noteq> s') (m * m') (e + e')) = Fin (s \<noteq> s') k d" "real k * 2 powi d \<le> real n"
    by blast
  have v: "f64_value (f64_mul a b) = fp_value (Fin (s \<noteq> s') k d)"
    unfolding f64_mul_def ab by (subst f64_of_nat_pattern) (rule double_bounds, simp, simp only: fp_product.simps k(1))
  show ?thesis
  proof (cases "s \<noteq> s'")
    case False
    then show ?thesis using k(2) by (simp add: v fp_value_def)
  next
    case True
    then have "m * m' = 0" using z z' by auto
    then have "fp_make double_format (s \<noteq> s') (m * m') (e + e') = fp_round double_format (s \<noteq> s') 0 1" by (simp add: fp_make_def fp_round_def)
    then have "k = 0" using k(1) fp_round_zero [of double_format "s \<noteq> s'" 1] by (simp add: double_format_facts)
    then show ?thesis by (simp add: v fp_value_def)
  qed
qed

lemma f64_sub_le:
  assumes a: "f64_value a = Some x" and b: "f64_value b = Some y" and n: "y \<le> x" "x - y \<le> real n" "n < 2 ^ 53"
  shows "\<exists>z. f64_value (f64_sub a b) = Some z \<and> 0 \<le> z \<and> z \<le> real n"
proof -
  obtain s m e s' m' e' where ab: "f64_decode a = Fin s m e" "fp_neg (f64_decode b) = Fin s' m' e'"
    using a b by (cases "f64_decode a"; cases "f64_decode b") (auto simp: f64_value_def fp_value_def)
  have x: "x = real_of_int (signed_mant s m) * 2 powi e" using a ab by (simp add: f64_value_def fp_value_Fin)
  have y: "- y = real_of_int (signed_mant s' m') * 2 powi e'"
    using fp_neg_value [of "f64_decode b" y] b ab by (simp add: f64_value_def fp_value_Fin)
  let ?l = "min e e'"
  define v where "v = signed_mant s m * 2 ^ nat (e - ?l) + signed_mant s' m' * 2 ^ nat (e' - ?l)"
  have "x + - y = real_of_int v * 2 powi ?l"
    unfolding x y using powi_split [of e ?l] powi_split [of e' ?l] by (simp add: v_def powi_nat distrib_right)
  then have sum: "x - y = real_of_int v * 2 powi ?l" by simp
  have "0 \<le> real_of_int v * 2 powi ?l" using n(1) sum by simp
  then have "0 \<le> real_of_int v" by (rule nonneg_scaled)
  then have v0: "0 \<le> v" by simp
  have w: "f64_value (f64_sub a b) = fp_value (fp_decode double_format (fin_add double_format s m e s' m' e'))"
    unfolding f64_sub_def ab by (subst f64_of_nat_pattern) (rule double_bounds, simp, simp only: fp_sum.simps)
  show ?thesis
  proof (cases "v = 0")
    case True
    then have "fin_add double_format s m e s' m' e' = fp_round double_format (s \<and> s') 0 1" by (simp add: fin_add_def Let_def v_def fp_round_def)
    then show ?thesis using fp_round_zero [of double_format "s \<and> s'" 1] by (simp add: w double_format_facts fp_value_def)
  next
    case False
    have "real (nat \<bar>v\<bar>) * 2 powi ?l \<le> real n" using n(2) v0 sum by simp
    from fp_make_le [OF this n(3), of False] obtain k d where
      k: "fp_decode double_format (fp_make double_format False (nat \<bar>v\<bar>) ?l) = Fin False k d" "real k * 2 powi d \<le> real n" by blast
    have "fin_add double_format s m e s' m' e' = fp_make double_format False (nat \<bar>v\<bar>) ?l"
      using False v0 by (simp add: fin_add_def Let_def v_def)
    then show ?thesis using k by (simp add: w fp_value_def)
  qed
qed

lemma f64_fma_exact:
  assumes "f64_value a = Some x" and "f64_value b = Some y" and "f64_value c = Some z" and r: "representable double_format \<bar>z + x * y\<bar>"
  shows "f64_value (f64_fma a b c) = Some (z + x * y)"
proof -
  obtain s m e s' m' e' where ab: "f64_decode a = Fin s m e" "f64_decode b = Fin s' m' e'"
    using assms(1,2) by (cases "f64_decode a"; cases "f64_decode b") (auto simp: f64_value_def fp_value_def)
  have "fp_value (Fin (s \<noteq> s') (m * m') (e + e')) = Some (x * y)"
    using assms(1,2) ab by (auto simp: f64_value_def fp_value_def power_int_add)
  moreover have "fp_value (f64_decode c) = Some z" using assms(3) by (simp add: f64_value_def)
  ultimately have "fp_value (fp_decode double_format (fp_sum double_format (f64_decode c) (Fin (s \<noteq> s') (m * m') (e + e')))) = Some (z + x * y)"
    using r by (intro fp_sum_exact) (simp_all add: double_format_facts)
  then show ?thesis
    unfolding f64_fma_def ab fp_fused.simps by (subst f64_of_nat_pattern) (rule double_bounds, simp)
qed

end
