(* ===== verification/FfiTestLib.thy ===== *)
theory FfiTestLib
  imports Ieee "HOL-Library.Monad_Syntax"
begin

text \<open>
  The C library of the foreign-function tests, \<open>tools/ffi_test_lib.c\<close>. Signed overflow, a cast to \<open>int64_t\<close> out of its
  range and a read behind a block are undefined and give \<open>None\<close>; unsigned arithmetic wraps; \<open>float\<close> and \<open>double\<close> are the
  IEEE-754 formats with every operation rounded to its type. A compiler may contract \<open>a + b * c\<close> of \<open>ffi_mix\<close> into one operation,
  which its first argument tells. The theorems state where the results are exact.
\<close>

definition in_i64 :: "int \<Rightarrow> int option" where
  "in_i64 n = (if - (2 ^ 63) \<le> n \<and> n < 2 ^ 63 then Some n else None)"

definition in_i32 :: "int \<Rightarrow> int option" where
  "in_i32 n = (if - (2 ^ 31) \<le> n \<and> n < 2 ^ 31 then Some n else None)"

definition ffi_add :: "int \<Rightarrow> int \<Rightarrow> int option" where
  "ffi_add a b = in_i64 (a + b)"

definition ffi_mul :: "u32 \<Rightarrow> u32 \<Rightarrow> u32" where
  "ffi_mul a b = a * b"

definition ffi_many :: "int \<Rightarrow> int \<Rightarrow> int \<Rightarrow> int \<Rightarrow> int \<Rightarrow> int \<Rightarrow> int option" where
  "ffi_many a b c d e f = do {
     x \<leftarrow> in_i32 (a + b);
     x \<leftarrow> in_i32 (x + c);
     x \<leftarrow> in_i32 (x + d);
     x \<leftarrow> in_i32 (x + e);
     in_i32 (x + f)
   }"

definition ffi_hi :: "u64 \<Rightarrow> u64" where
  "ffi_hi s = s"

definition ffi_nullable :: "u64 \<Rightarrow> int" where
  "ffi_nullable p = (if p \<noteq> 0 then 7 else -1)"

text \<open>The loop of \<open>ffi_cstring_len\<close> on the rest of the block from \<open>s + n\<close> on.\<close>

fun cstring_len_loop :: "byte list \<Rightarrow> int \<Rightarrow> int option" where
  "cstring_len_loop [] n = None"
| "cstring_len_loop (b # bs) n = (if b \<noteq> 0 then cstring_len_loop bs (n + 1) else Some n)"

definition ffi_cstring_len :: "cmem \<Rightarrow> u64 \<Rightarrow> int option" where
  "ffi_cstring_len m s = (case mem_bytes m s of None \<Rightarrow> None | Some b \<Rightarrow> cstring_len_loop b 0)"

definition ffi_echo_str :: "u64 \<Rightarrow> int \<Rightarrow> int" where
  "ffi_echo_str s n = n"

definition ffi_void :: "int \<Rightarrow> unit" where
  "ffi_void x = ()"

section \<open>The functions on float and double\<close>

definition ffi_mix :: "bool \<Rightarrow> f64 \<Rightarrow> f64 \<Rightarrow> f64 \<Rightarrow> f64 \<Rightarrow> f64" where
  "ffi_mix contracted a b c d = f64_sub (if contracted then f64_fma b c a else f64_add a (f64_mul b c)) d"

definition ffi_fdiv :: "u32 \<Rightarrow> u32 \<Rightarrow> u32" where
  "ffi_fdiv a b = f32_div a b"

definition ffi_all :: "f64 \<Rightarrow> f64 \<Rightarrow> f64 \<Rightarrow> f64 \<Rightarrow> f64 \<Rightarrow> f64 \<Rightarrow> f64 \<Rightarrow> f64 \<Rightarrow> f64" where
  "ffi_all a b c d e f g h =
     f64_add (f64_add (f64_add (f64_add (f64_add (f64_add (f64_add a b) c) d) e) f) g) h"

definition ffi_mul_i64_double :: "f64 \<Rightarrow> int \<Rightarrow> int option" where
  "ffi_mul_i64_double a b = i64_of_f64 (f64_mul a (f64_of_i64 b))"

text \<open>The cast from \<open>int32_t\<close> to \<open>double\<close> is the one from \<open>int64_t\<close> on the same number.\<close>

definition ffi_mixed :: "int \<Rightarrow> f64 \<Rightarrow> int \<Rightarrow> f64 \<Rightarrow> int \<Rightarrow> int option" where
  "ffi_mixed a b c d e =
     i64_of_f64 (f64_add (f64_add (f64_add (f64_add (f64_of_i64 a) b) (f64_of_i64 c)) d) (f64_of_i64 e))"

section \<open>Properties\<close>

lemma cstring_len_loop_eq:
  "cstring_len_loop b n = (if nul_terminated b then Some (n + int (length (cstr b))) else None)"
  by (induction b arbitrary: n) (auto simp: nul_terminated_def cstr_def)

text \<open>The hand-written loop of ffi_cstring_len computes strlen: it stops at the first NUL of every terminated block and reads behind the end of
  exactly those that have none.\<close>

theorem ffi_cstring_len_is_strlen: "ffi_cstring_len m s = map_option int (c_strlen m s)"
  by (simp add: ffi_cstring_len_def c_strlen_def cstring_len_loop_eq split: option.split)

text \<open>ffi_many returns the exact sum whenever it is defined, and it is defined for all arguments of magnitude below 2^28.\<close>

theorem ffi_many_exact:
  "(\<forall>r. ffi_many a b c d e f = Some r \<longrightarrow> r = a + b + c + d + e + f)
   \<and> (\<bar>a\<bar> < 2 ^ 28 \<and> \<bar>b\<bar> < 2 ^ 28 \<and> \<bar>c\<bar> < 2 ^ 28 \<and> \<bar>d\<bar> < 2 ^ 28 \<and> \<bar>e\<bar> < 2 ^ 28 \<and> \<bar>f\<bar> < 2 ^ 28
      \<longrightarrow> ffi_many a b c d e f = Some (a + b + c + d + e + f))"
proof
  show "\<forall>r. ffi_many a b c d e f = Some r \<longrightarrow> r = a + b + c + d + e + f"
    by (auto simp: ffi_many_def in_i32_def split: bind_splits if_splits)
  show "\<bar>a\<bar> < 2 ^ 28 \<and> \<bar>b\<bar> < 2 ^ 28 \<and> \<bar>c\<bar> < 2 ^ 28 \<and> \<bar>d\<bar> < 2 ^ 28 \<and> \<bar>e\<bar> < 2 ^ 28 \<and> \<bar>f\<bar> < 2 ^ 28
      \<longrightarrow> ffi_many a b c d e f = Some (a + b + c + d + e + f)"
  proof
    assume small: "\<bar>a\<bar> < 2 ^ 28 \<and> \<bar>b\<bar> < 2 ^ 28 \<and> \<bar>c\<bar> < 2 ^ 28 \<and> \<bar>d\<bar> < 2 ^ 28 \<and> \<bar>e\<bar> < 2 ^ 28 \<and> \<bar>f\<bar> < 2 ^ 28"
    have ab: "\<bar>a + b\<bar> < 2 * 2 ^ 28" using small by linarith
    have abc: "\<bar>a + b + c\<bar> < 3 * 2 ^ 28" using ab small by linarith
    have abcd: "\<bar>a + b + c + d\<bar> < 4 * 2 ^ 28" using abc small by linarith
    have abcde: "\<bar>a + b + c + d + e\<bar> < 5 * 2 ^ 28" using abcd small by linarith
    have "\<bar>a + b + c + d + e + f\<bar> < 6 * 2 ^ 28" using abcde small by linarith
    note bounds = ab abc abcd abcde this
    from bounds [simplified] show "ffi_many a b c d e f = Some (a + b + c + d + e + f)" by (simp add: ffi_many_def in_i32_def abs_less_iff)
  qed
qed

theorem ffi_many_exact_witness: "ffi_many 1 2 3 4 5 6 = Some 21"
  using ffi_many_exact [THEN conjunct2, of 1 2 3 4 5 6] by simp

lemma f64_add_int:
  assumes "f64_value a = Some (real_of_int x)" and "f64_value b = Some (real_of_int y)" and "\<bar>x + y\<bar> < 2 ^ 53"
  shows "f64_value (f64_add a b) = Some (real_of_int (x + y))"
  using f64_add_exact [OF assms(1,2)] representable_int [OF assms(3)] by simp

text \<open>ffi_mixed is exact on integers: with doubles that hold integers below 2^50 in magnitude and any three int32_t, the casts and the four
  additions lose nothing and the result is the sum.\<close>

theorem ffi_mixed_exact:
  assumes i32: "\<bar>a\<bar> \<le> 2 ^ 31" "\<bar>c\<bar> \<le> 2 ^ 31" "\<bar>e\<bar> \<le> 2 ^ 31"
    and b: "f64_value b = Some (real_of_int y)" "\<bar>y\<bar> < 2 ^ 50"
    and d: "f64_value d = Some (real_of_int w)" "\<bar>w\<bar> < 2 ^ 50"
  shows "ffi_mixed a b c d e = Some (a + y + c + w + e)"
proof -
  have pow: "(2::int) ^ 31 = 2147483648" "(2::int) ^ 50 = 1125899906842624" "(2::int) ^ 53 = 9007199254740992" by simp_all
  have v: "f64_value (f64_of_i64 a) = Some (real_of_int a)" "f64_value (f64_of_i64 c) = Some (real_of_int c)"
    "f64_value (f64_of_i64 e) = Some (real_of_int e)"
    using i32 unfolding pow by (intro f64_of_i64_value; simp)+
  have 1: "f64_value (f64_add (f64_of_i64 a) b) = Some (real_of_int (a + y))"
    using i32 b(2) unfolding pow by (intro f64_add_int v b(1)) (unfold pow, linarith)
  have 2: "f64_value (f64_add (f64_add (f64_of_i64 a) b) (f64_of_i64 c)) = Some (real_of_int (a + y + c))"
    using i32 b(2) unfolding pow by (intro f64_add_int v 1) (unfold pow, linarith)
  have 3: "f64_value (f64_add (f64_add (f64_add (f64_of_i64 a) b) (f64_of_i64 c)) d) = Some (real_of_int (a + y + c + w))"
    using i32 b(2) d(2) unfolding pow by (intro f64_add_int d(1) 2) (unfold pow, linarith)
  have 4: "f64_value (f64_add (f64_add (f64_add (f64_add (f64_of_i64 a) b) (f64_of_i64 c)) d) (f64_of_i64 e))
      = Some (real_of_int (a + y + c + w + e))"
    using i32 b(2) d(2) unfolding pow by (intro f64_add_int v 3) (unfold pow, linarith)
  have "\<bar>a + y + c + w + e\<bar> < 2 ^ 53" using i32 b(2) d(2) unfolding pow by linarith
  then show ?thesis
    unfolding ffi_mixed_def by (intro i64_of_f64_value [OF 4]) (simp_all add: abs_less_iff)
qed

theorem ffi_mixed_exact_witness: "ffi_mixed 1 (f64_of_i64 20) 300 (f64_of_i64 (- 4000)) 50000 = Some 46321"
  using ffi_mixed_exact [of 1 300 50000 "f64_of_i64 20" 20 "f64_of_i64 (- 4000)" "- 4000"]
  by (simp add: f64_of_i64_value)

text \<open>ffi_mul_i64_double is exact when the factors and the product are integers below 2^53 in magnitude.\<close>

theorem ffi_mul_i64_double_exact:
  assumes "f64_value a = Some (real_of_int x)" and "\<bar>n\<bar> < 2 ^ 53" and p: "\<bar>x * n\<bar> < 2 ^ 53"
  shows "ffi_mul_i64_double a n = Some (x * n)"
proof -
  have "f64_value (f64_mul a (f64_of_i64 n)) = Some (real_of_int (x * n))"
    using f64_mul_exact [OF assms(1) f64_of_i64_value [OF assms(2)]] representable_int [OF p] by simp
  then show ?thesis
    unfolding ffi_mul_i64_double_def using p by (intro i64_of_f64_value) (simp_all add: abs_less_iff)
qed

theorem ffi_mul_i64_double_exact_witness: "ffi_mul_i64_double (f64_of_i64 (- 3)) 7 = Some (- 21)"
  using ffi_mul_i64_double_exact [of "f64_of_i64 (- 3)" "- 3" 7] by (simp add: f64_of_i64_value)

text \<open>Whether the compiler contracts the product and the sum of ffi_mix cannot be seen when the product, the sum and the result are
  integers below 2^53 in magnitude: the result is exact either way.\<close>

theorem ffi_mix_exact:
  assumes a: "f64_value a = Some (real_of_int x)" and b: "f64_value b = Some (real_of_int y)" and c: "f64_value c = Some (real_of_int z)"
    and d: "f64_value d = Some (real_of_int w)"
    and small: "\<bar>y * z\<bar> < 2 ^ 53" "\<bar>x + y * z\<bar> < 2 ^ 53" "\<bar>x + y * z - w\<bar> < 2 ^ 53"
  shows "f64_value (ffi_mix contracted a b c d) = Some (real_of_int (x + y * z - w))"
proof -
  have p: "f64_value (f64_mul b c) = Some (real_of_int (y * z))"
    using f64_mul_exact [OF b c] representable_int [OF small(1)] by simp
  have "f64_value (f64_fma b c a) = Some (real_of_int (x + y * z))"
    using f64_fma_exact [OF b c a] representable_int [OF small(2)] by simp
  moreover have "f64_value (f64_add a (f64_mul b c)) = Some (real_of_int (x + y * z))"
    by (rule f64_add_int [OF a p small(2)])
  ultimately have "f64_value (if contracted then f64_fma b c a else f64_add a (f64_mul b c)) = Some (real_of_int (x + y * z))" by simp
  from f64_sub_exact [OF this d] show ?thesis
    unfolding ffi_mix_def using representable_int [OF small(3)] by simp
qed

theorem ffi_mix_exact_witness:
  "f64_value (ffi_mix True (f64_of_i64 1) (f64_of_i64 2) (f64_of_i64 3) (f64_of_i64 4)) = Some 3
   \<and> f64_value (ffi_mix False (f64_of_i64 1) (f64_of_i64 2) (f64_of_i64 3) (f64_of_i64 4)) = Some 3"
  using ffi_mix_exact [of "f64_of_i64 1" 1 "f64_of_i64 2" 2 "f64_of_i64 3" 3 "f64_of_i64 4" 4] by (simp add: f64_of_i64_value)

end
