(* ===== verification/NativeCall.thy ===== *)
theory NativeCall
  imports ZigStd
begin

text \<open>
  What the capability modules of the engine (\<open>src/lang/native/cap_fs.zig\<close>, \<open>cap_net.zig\<close>, \<open>cap_http.zig\<close>) share: the script
  values they take and give, the errors they raise in the script, and the sequencing of calls of host callbacks. A native is
  called with the list of its arguments on a state \<open>'u\<close> of the host and gives an error or a value and the new state;
  \<open>None\<close> stands for a panic, a read of memory that nobody wrote, or a loop that does not end.
\<close>

section \<open>Script values\<close>

text \<open>
  \<open>NString\<close> is an interned string, \<open>NDyn\<close> a string object made at run time (\<open>dyn_string\<close>, \<open>string_view\<close>), \<open>NNamed\<close> a value of a
  named type with the flag that its base type is \<open>string\<close>, \<open>NErrorRef\<close> an error value with the index of its text in the
  table of interned strings, \<open>NOther\<close> every other kind.
\<close>

datatype nval =
    NNull
  | NBool bool
  | NInt int
  | NFloat f64
  | NString "byte list"
  | NDyn "byte list"
  | NNamed bool nval
  | NErrorRef nat
  | NArray "nval list"
  | NMap "(nval \<times> nval) list"
  | NStruct "byte list" "(byte list \<times> nval) list"
  | NOther

datatype native_error =
    ArityMismatch | TypeError | CapabilityError | CapabilityNotAvailable | NativeOutOfMemory
  | PathNotMountedError | InvalidPathError | PathTooLongError | NetError | DeadlineExceeded | InvalidRequest | RequestTooLarge | HttpHandlerError
  | TooManyConstants | PermissionDenied

fun asStringValue :: "nval \<Rightarrow> byte list option" where
  "asStringValue (NString b) = Some b"
| "asStringValue (NDyn b) = Some b"
| "asStringValue (NNamed is_string v) = (if is_string then asStringValue v else None)"
| "asStringValue _ = None"

section \<open>Calls\<close>

type_synonym ('a, 'u) native = "'u \<Rightarrow> ((native_error + 'a) \<times> 'u) option"

definition nret :: "'a \<Rightarrow> ('a, 'u) native" where
  "nret x u = Some (Inr x, u)"

definition nfail :: "native_error \<Rightarrow> ('a, 'u) native" where
  "nfail e u = Some (Inl e, u)"

definition npanic :: "('a, 'u) native" where
  "npanic u = None"

definition nbind :: "('a, 'u) native \<Rightarrow> ('a \<Rightarrow> ('b, 'u) native) \<Rightarrow> ('b, 'u) native" where
  "nbind m k u = (case m u of None \<Rightarrow> None | Some (Inl e, u) \<Rightarrow> Some (Inl e, u) | Some (Inr x, u) \<Rightarrow> k x u)"

text \<open>\<open>defer\<close>: the clean-up runs after the rest of the block, whether that failed or not.\<close>

definition ndefer :: "('u \<Rightarrow> 'u) \<Rightarrow> ('a, 'u) native \<Rightarrow> ('a, 'u) native" where
  "ndefer f m u = (case m u of None \<Rightarrow> None | Some (r, u) \<Rightarrow> Some (r, f u))"

text \<open>\<open>x orelse return error.E\<close>.\<close>

definition norelse :: "'a option \<Rightarrow> native_error \<Rightarrow> ('a, 'u) native" where
  "norelse x e = (case x of None \<Rightarrow> nfail e | Some y \<Rightarrow> nret y)"

definition nguard :: "bool \<Rightarrow> native_error \<Rightarrow> (unit, 'u) native" where
  "nguard b e = (if b then nret () else nfail e)"

text \<open>\<open>@intCast\<close> of a length to a 32-bit signed integer.\<close>

definition ni32 :: "nat \<Rightarrow> (unit, 'u) native" where
  "ni32 n = (if 2 ^ 31 \<le> n then npanic else nret ())"

text \<open>\<open>makeDynString\<close>; \<open>gc_ok n\<close> tells whether the managed heap has room for \<open>n\<close> bytes or elements.\<close>

definition makeDynString :: "(nat \<Rightarrow> bool) \<Rightarrow> byte list \<Rightarrow> (nval, 'u) native" where
  "makeDynString gc_ok b = (if gc_ok (length b) then nret (NDyn b) else nfail NativeOutOfMemory)"

fun makeDynStrings :: "(nat \<Rightarrow> bool) \<Rightarrow> byte list list \<Rightarrow> (nval list, 'u) native" where
  "makeDynStrings gc_ok [] = nret []"
| "makeDynStrings gc_ok (b # bs) = nbind (makeDynString gc_ok b) (\<lambda>v. nbind (makeDynStrings gc_ok bs) (\<lambda>vs. nret (v # vs)))"

named_theorems native_simps \<open>evaluation of sequenced calls\<close>

lemma nret_apply [native_simps]: "nret x u = Some (Inr x, u)" by (simp add: nret_def)
lemma nfail_apply [native_simps]: "nfail e u = Some (Inl e, u)" by (simp add: nfail_def)
lemma npanic_apply [native_simps]: "npanic u = None" by (simp add: npanic_def)

lemma nbind_nret [native_simps]: "nbind (nret x) k = k x" by (simp add: nbind_def nret_def fun_eq_iff)
lemma nbind_nfail [native_simps]: "nbind (nfail e) k = nfail e" by (simp add: nbind_def nfail_def fun_eq_iff)
lemma nbind_npanic [native_simps]: "nbind npanic k = npanic" by (simp add: nbind_def npanic_def fun_eq_iff)

lemma nbind_Some [native_simps]: "m u = Some (Inr x, u') \<Longrightarrow> nbind m k u = k x u'"
  by (simp add: nbind_def)

lemma norelse_simps [native_simps]: "norelse None e = nfail e" "norelse (Some x) e = nret x"
  by (simp_all add: norelse_def)

lemma nguard_simps [native_simps]: "nguard True e = nret ()" "nguard False e = nfail e"
  by (simp_all add: nguard_def)

lemmas native_eval = nbind_def ndefer_def norelse_def nguard_def ni32_def nret_def nfail_def npanic_def makeDynString_def

lemma nbind_cases:
  "nbind m k u = Some (r, u'') \<longleftrightarrow>
    (\<exists>e. m u = Some (Inl e, u'') \<and> r = Inl e) \<or> (\<exists>x u'. m u = Some (Inr x, u') \<and> k x u' = Some (r, u''))"
  by (auto simp: nbind_def split: option.split sum.split)

lemma ndefer_cases: "ndefer f m u = Some (r, u'') \<longleftrightarrow> (\<exists>u'. m u = Some (r, u') \<and> u'' = f u')"
  by (auto simp: ndefer_def split: option.split)

lemma norelse_cases: "norelse x e u = Some (r, u') \<longleftrightarrow> u' = u \<and> r = (case x of None \<Rightarrow> Inl e | Some y \<Rightarrow> Inr y)"
  by (auto simp: norelse_def nret_def nfail_def split: option.split)

lemma nguard_cases: "nguard b e u = Some (r, u') \<longleftrightarrow> u' = u \<and> r = (if b then Inr () else Inl e)"
  by (auto simp: nguard_def nret_def nfail_def)

lemma ni32_cases: "ni32 n u = Some (r, u') \<longleftrightarrow> n < 2 ^ 31 \<and> u' = u \<and> r = Inr ()"
  by (auto simp: ni32_def nret_def npanic_def)

lemma nret_cases: "nret x u = Some (r, u') \<longleftrightarrow> u' = u \<and> r = Inr x"
  by (auto simp: nret_def)

lemma nfail_cases: "nfail e u = Some (r, u') \<longleftrightarrow> u' = u \<and> r = Inl e"
  by (auto simp: nfail_def)

lemma makeDynString_cases: "makeDynString gc b u = Some (r, u') \<longleftrightarrow>
    u' = u \<and> r = (if gc (length b) then Inr (NDyn b) else Inl NativeOutOfMemory)"
  by (auto simp: makeDynString_def nret_def nfail_def)

lemmas native_cases = nbind_cases ndefer_cases norelse_cases nguard_cases ni32_cases nret_cases nfail_cases makeDynString_cases

lemma makeDynStrings_result:
  "makeDynStrings gc bs u = Some (r, u') \<Longrightarrow> u' = u \<and> (r = Inr (map NDyn bs) \<or> r = Inl NativeOutOfMemory)"
  by (induction bs arbitrary: r u') (fastforce simp: native_cases split: if_splits)+

lemma makeDynStrings_ok: "\<forall>b \<in> set bs. gc (length b) \<Longrightarrow> makeDynStrings gc bs = nret (map NDyn bs)"
  by (induction bs) (simp_all add: nbind_nret makeDynString_def)

end
