(* ===== verification/CapFs.thy ===== *)
theory CapFs
  imports FsMounts NativeCall
begin

text \<open>
  The filesystem capability (\<open>src/lang/native/cap_fs.zig\<close>): reading, testing, writing, listing, deleting and creating below
  the mounts, through the host's driver (\<open>gengo_fs_driver_t\<close> of \<open>gengo-engine.h\<close>) or through the operating system.
  A callback and its user pointer are a function on the state \<open>'u\<close> of the host. The calls of the operating system
  are the record \<open>'u fs_os\<close>; the target is POSIX or WASI (the Windows branches are left out).
\<close>

section \<open>Drivers\<close>

text \<open>
  \<open>dv_open\<close> gets the path, the flags (0 read, 1 write) and the old content of \<open>*out_fd\<close> and gives the result code and the new
  one; \<open>dv_read\<close> and \<open>dv_list\<close> give the result code and the bytes they stored at the start of the buffer.
\<close>

record 'u gengo_fs_driver_t =
  dv_open :: "(byte list \<Rightarrow> int \<Rightarrow> int \<Rightarrow> 'u \<Rightarrow> int \<times> int \<times> 'u) option"
  dv_read :: "(int \<Rightarrow> nat \<Rightarrow> 'u \<Rightarrow> int \<times> byte list \<times> 'u) option"
  dv_write :: "(int \<Rightarrow> byte list \<Rightarrow> 'u \<Rightarrow> int \<times> 'u) option"
  dv_close :: "(int \<Rightarrow> 'u \<Rightarrow> 'u) option"
  dv_exists :: "(byte list \<Rightarrow> 'u \<Rightarrow> int \<times> 'u) option"
  dv_list :: "(byte list \<Rightarrow> nat \<Rightarrow> 'u \<Rightarrow> int \<times> byte list \<times> 'u) option"
  dv_unlink :: "(byte list \<Rightarrow> 'u \<Rightarrow> int \<times> 'u) option"
  dv_mkdir :: "(byte list \<Rightarrow> 'u \<Rightarrow> int \<times> 'u) option"

definition null_driver :: "'u gengo_fs_driver_t" where
  "null_driver = \<lparr>dv_open = None, dv_read = None, dv_write = None, dv_close = None, dv_exists = None, dv_list = None,
     dv_unlink = None, dv_mkdir = None\<rparr>"

datatype open_error = FileNotFound | OtherOpenError

record 'u fs_os =
  os_open :: "byte list \<Rightarrow> 'u \<Rightarrow> (open_error + int) \<times> 'u"
  os_read :: "int \<Rightarrow> nat \<Rightarrow> 'u \<Rightarrow> byte list option \<times> 'u"
  os_create :: "byte list \<Rightarrow> 'u \<Rightarrow> int option \<times> 'u"
  os_write_all :: "int \<Rightarrow> byte list \<Rightarrow> 'u \<Rightarrow> bool \<times> 'u"
  os_close :: "int \<Rightarrow> 'u \<Rightarrow> 'u"
  os_opendir :: "byte list \<Rightarrow> 'u \<Rightarrow> int option \<times> 'u"
  os_next :: "int \<Rightarrow> 'u \<Rightarrow> byte list option option \<times> 'u"
  os_delete :: "byte list \<Rightarrow> 'u \<Rightarrow> bool \<times> 'u"
  os_mkdirs :: "byte list \<Rightarrow> 'u \<Rightarrow> bool \<times> 'u"

text \<open>\<open>fe_alloc n\<close> tells whether the page allocator gives \<open>n\<close> bytes, \<open>fe_gc\<close> the same for the managed heap.\<close>

record ('d, 'u) fs_env =
  fe_wasi :: bool
  fe_os :: "'u fs_os"
  fe_driver :: "'d \<Rightarrow> 'u gengo_fs_driver_t"
  fe_alloc :: "nat \<Rightarrow> bool"
  fe_gc :: "nat \<Rightarrow> bool"

definition driver_of :: "('d, 'u) fs_env \<Rightarrow> 'd Mount \<Rightarrow> 'u gengo_fs_driver_t" where
  "driver_of env m = (case mt_driver m of None \<Rightarrow> null_driver | Some d \<Rightarrow> fe_driver env d)"

definition lookup_error :: "LookupError \<Rightarrow> native_error" where
  "lookup_error e = (case e of PathNotMounted \<Rightarrow> PathNotMountedError | InvalidPath \<Rightarrow> InvalidPathError | PathTooLong \<Rightarrow> PathTooLongError)"

definition fs_try :: "LookupError + 'a \<Rightarrow> ('a, 'u) native" where
  "fs_try r = (case r of Inl e \<Rightarrow> nfail (lookup_error e) | Inr x \<Rightarrow> nret x)"

definition fs_host :: "('u \<Rightarrow> 'a \<times> 'u) \<Rightarrow> ('a, 'u) native" where
  "fs_host f u = (case f u of (x, u) \<Rightarrow> Some (Inr x, u))"

text \<open>A callback that answers with a negative code.\<close>

definition fs_ok_code :: "('u \<Rightarrow> int \<times> 'u) \<Rightarrow> (unit, 'u) native" where
  "fs_ok_code f = nbind (fs_host f) (\<lambda>rc. nguard (0 \<le> rc) CapabilityError)"

section \<open>Reading\<close>

text \<open>The loops that read until a call gives no more bytes, into a block of 4096; \<open>rd\<close> is the call on the open file.\<close>

partial_function (option) drv_read_loop ::
  "(nat \<Rightarrow> bool) \<Rightarrow> ('u \<Rightarrow> int \<times> byte list \<times> 'u) \<Rightarrow> byte list \<Rightarrow> 'u \<Rightarrow> ((native_error + byte list) \<times> 'u) option" where
  "drv_read_loop alloc rd acc u =
     (case rd u of (n, stored, u) \<Rightarrow>
        if n < 0 then Some (Inl CapabilityError, u)
        else if n = 0 then (if acc = [] \<or> alloc (length acc) then Some (Inr acc, u) else Some (Inl CapabilityError, u))
        else if 4096 < n \<or> int (length stored) < n then None
        else if \<not> alloc (length acc + nat n) then Some (Inl CapabilityError, u)
        else drv_read_loop alloc rd (acc @ take (nat n) stored) u)"

partial_function (option) os_read_loop ::
  "(nat \<Rightarrow> bool) \<Rightarrow> ('u \<Rightarrow> byte list option \<times> 'u) \<Rightarrow> byte list \<Rightarrow> 'u \<Rightarrow> ((native_error + byte list) \<times> 'u) option" where
  "os_read_loop alloc rd acc u =
     (case rd u of
        (None, u) \<Rightarrow> Some (Inl CapabilityError, u)
      | (Some got, u) \<Rightarrow>
          if got = [] then (if acc = [] \<or> alloc (length acc) then Some (Inr acc, u) else Some (Inl CapabilityError, u))
          else if \<not> alloc (length acc + length got) then Some (Inl CapabilityError, u)
          else os_read_loop alloc rd (acc @ got) u)"

definition drv_open_file :: "(byte list \<Rightarrow> int \<Rightarrow> int \<Rightarrow> 'u \<Rightarrow> int \<times> int \<times> 'u) \<Rightarrow> byte list \<Rightarrow> int \<Rightarrow> (int, 'u) native" where
  "drv_open_file open_fn rest flags =
     nbind (ni32 (length rest)) (\<lambda>_.
     nbind (fs_host (\<lambda>u. case open_fn rest flags (-1) u of (rc, fd, u) \<Rightarrow> ((rc, fd), u))) (\<lambda>(rc, fd).
     if rc < 0 then nfail CapabilityError else nret fd))"

definition drv_read_file :: "('d, 'u) fs_env \<Rightarrow> 'u gengo_fs_driver_t \<Rightarrow> byte list \<Rightarrow> (nval, 'u) native" where
  "drv_read_file env drv rest =
     nbind (norelse (dv_open drv) CapabilityError) (\<lambda>open_fn.
     nbind (norelse (dv_read drv) CapabilityError) (\<lambda>read_fn.
     nbind (norelse (dv_close drv) CapabilityError) (\<lambda>close_fn.
     nbind (drv_open_file open_fn rest 0) (\<lambda>fd.
     ndefer (close_fn fd) (
       nbind (drv_read_loop (fe_alloc env) (read_fn fd 4096) []) (makeDynString (fe_gc env)))))))"

definition os_read_file :: "('d, 'u) fs_env \<Rightarrow> byte list \<Rightarrow> (nval, 'u) native" where
  "os_read_file env rpath =
     nbind (fs_host (os_open (fe_os env) rpath)) (\<lambda>r. case r of Inl _ \<Rightarrow> nfail CapabilityError
      | Inr fd \<Rightarrow> ndefer (os_close (fe_os env) fd) (
          nbind (os_read_loop (fe_alloc env) (os_read (fe_os env) fd 4096) []) (makeDynString (fe_gc env))))"

section \<open>Writing\<close>

definition drv_write_file :: "'u gengo_fs_driver_t \<Rightarrow> byte list \<Rightarrow> byte list \<Rightarrow> (nval, 'u) native" where
  "drv_write_file drv rest content =
     nbind (norelse (dv_open drv) CapabilityError) (\<lambda>open_fn.
     nbind (norelse (dv_write drv) CapabilityError) (\<lambda>write_fn.
     nbind (norelse (dv_close drv) CapabilityError) (\<lambda>close_fn.
     nbind (drv_open_file open_fn rest 1) (\<lambda>fd.
     ndefer (close_fn fd) (
       nbind (ni32 (length content)) (\<lambda>_.
       nbind (fs_ok_code (write_fn fd content)) (\<lambda>_. nret NNull)))))))"

definition os_write_file :: "('d, 'u) fs_env \<Rightarrow> byte list \<Rightarrow> byte list \<Rightarrow> (nval, 'u) native" where
  "os_write_file env rpath content =
     nbind (fs_host (os_create (fe_os env) rpath)) (\<lambda>r. nbind (norelse r CapabilityError) (\<lambda>fd.
     ndefer (os_close (fe_os env) fd) (
       nbind (fs_host (os_write_all (fe_os env) fd content)) (\<lambda>ok.
       nbind (nguard ok CapabilityError) (\<lambda>_. nret NNull)))))"

section \<open>Listing\<close>

text \<open>The two passes over the packed names; \<open>list_data\<close> is the rest from \<open>pos\<close> on.\<close>

function count_names :: "byte list \<Rightarrow> nat" where
  "count_names list_data =
     (case indexOfScalar list_data 0 of None \<Rightarrow> 0
      | Some e \<Rightarrow> if e = 0 then 0 else Suc (count_names (drop (e + 1) list_data)))"
  by auto
termination
  by (relation "measure length") (auto dest: indexOfScalar_SomeD)

fun fill_names :: "byte list \<Rightarrow> nat \<Rightarrow> byte list list" where
  "fill_names list_data 0 = []"
| "fill_names list_data (Suc n) =
     (case indexOfScalar list_data 0 of None \<Rightarrow> []
      | Some e \<Rightarrow> if e = 0 then [] else take e list_data # fill_names (drop (e + 1) list_data) n)"

declare count_names.simps [simp del]

definition list_array :: "('d, 'u) fs_env \<Rightarrow> nat \<Rightarrow> byte list list \<Rightarrow> (nval, 'u) native" where
  "list_array env n names =
     nbind (nguard (fe_gc env n) NativeOutOfMemory) (\<lambda>_.
     nbind (makeDynStrings (fe_gc env) names) (\<lambda>vs. nret (NArray vs)))"

definition drv_list_dir :: "('d, 'u) fs_env \<Rightarrow> 'u gengo_fs_driver_t \<Rightarrow> byte list \<Rightarrow> (nval, 'u) native" where
  "drv_list_dir env drv rest =
     nbind (norelse (dv_list drv) CapabilityError) (\<lambda>list_fn.
     nbind (nguard (fe_alloc env 65536) CapabilityError) (\<lambda>_.
     nbind (ni32 (length rest)) (\<lambda>_.
     nbind (fs_host (\<lambda>u. case list_fn rest 65536 u of (rc, stored, u) \<Rightarrow> ((rc, stored), u))) (\<lambda>(rc, stored).
     if rc < 0 then nfail CapabilityError
     else if 65536 < rc \<or> int (length stored) < rc then npanic
     else let list_data = take (nat rc) stored; name_count = count_names list_data
          in list_array env name_count (fill_names list_data name_count)))))"

partial_function (option) os_list_loop ::
  "(nat \<Rightarrow> bool) \<Rightarrow> ('u \<Rightarrow> byte list option option \<times> 'u) \<Rightarrow> byte list list \<Rightarrow> 'u \<Rightarrow> ((native_error + byte list list) \<times> 'u) option" where
  "os_list_loop alloc nxt acc u =
     (case nxt u of
        (None, u) \<Rightarrow> Some (Inl CapabilityError, u)
      | (Some None, u) \<Rightarrow> Some (Inr acc, u)
      | (Some (Some name), u) \<Rightarrow>
          if alloc (length name) then os_list_loop alloc nxt (acc @ [name]) u else Some (Inl CapabilityError, u))"

definition os_list_dir :: "('d, 'u) fs_env \<Rightarrow> byte list \<Rightarrow> (nval, 'u) native" where
  "os_list_dir env rpath =
     nbind (fs_host (os_opendir (fe_os env) rpath)) (\<lambda>r. nbind (norelse r CapabilityError) (\<lambda>dir.
     ndefer (os_close (fe_os env) dir) (
       nbind (os_list_loop (fe_alloc env) (os_next (fe_os env) dir) []) (\<lambda>names. list_array env (length names) names))))"

section \<open>The natives\<close>

datatype fs_native = cap_fs_read | cap_fs_exists | cap_fs_write | cap_fs_list | cap_fs_delete | cap_fs_mkdir

definition fs_arity :: "fs_native \<Rightarrow> nat" where
  "fs_arity f = (if f = cap_fs_write then 2 else 1)"

definition drv_exists :: "'u gengo_fs_driver_t \<Rightarrow> byte list \<Rightarrow> (nval, 'u) native" where
  "drv_exists drv rest =
     nbind (norelse (dv_exists drv) CapabilityError) (\<lambda>exists_fn.
     nbind (ni32 (length rest)) (\<lambda>_. nbind (fs_host (exists_fn rest)) (\<lambda>rc. nret (NBool (0 < rc)))))"

definition os_exists :: "('d, 'u) fs_env \<Rightarrow> byte list \<Rightarrow> (nval, 'u) native" where
  "os_exists env rpath =
     nbind (fs_host (os_open (fe_os env) rpath)) (\<lambda>r. case r of
        Inl FileNotFound \<Rightarrow> nret (NBool False)
      | Inl OtherOpenError \<Rightarrow> nfail CapabilityError
      | Inr fd \<Rightarrow> nbind (fs_host (\<lambda>u. ((), os_close (fe_os env) fd u))) (\<lambda>_. nret (NBool True)))"

text \<open>\<open>unlink\<close> and \<open>mkdir\<close> of a driver: one callback on the path.\<close>

definition drv_path_op :: "(byte list \<Rightarrow> 'u \<Rightarrow> int \<times> 'u) option \<Rightarrow> byte list \<Rightarrow> (nval, 'u) native" where
  "drv_path_op cb rest =
     nbind (norelse cb CapabilityError) (\<lambda>f. nbind (ni32 (length rest)) (\<lambda>_. nbind (fs_ok_code (f rest)) (\<lambda>_. nret NNull)))"

definition os_path_op :: "(byte list \<Rightarrow> 'u \<Rightarrow> bool \<times> 'u) \<Rightarrow> byte list \<Rightarrow> (nval, 'u) native" where
  "os_path_op f rpath = nbind (fs_host (f rpath)) (\<lambda>ok. nbind (nguard ok CapabilityError) (\<lambda>_. nret NNull))"

fun on_driver :: "('d, 'u) fs_env \<Rightarrow> fs_native \<Rightarrow> 'u gengo_fs_driver_t \<Rightarrow> byte list \<Rightarrow> byte list \<Rightarrow> (nval, 'u) native" where
  "on_driver env cap_fs_read drv rest content = drv_read_file env drv rest"
| "on_driver env cap_fs_exists drv rest content = drv_exists drv rest"
| "on_driver env cap_fs_write drv rest content = drv_write_file drv rest content"
| "on_driver env cap_fs_list drv rest content = drv_list_dir env drv rest"
| "on_driver env cap_fs_delete drv rest content = drv_path_op (dv_unlink drv) rest"
| "on_driver env cap_fs_mkdir drv rest content = drv_path_op (dv_mkdir drv) rest"

fun on_os :: "('d, 'u) fs_env \<Rightarrow> fs_native \<Rightarrow> byte list \<Rightarrow> byte list \<Rightarrow> (nval, 'u) native" where
  "on_os env cap_fs_read rpath content = os_read_file env rpath"
| "on_os env cap_fs_exists rpath content = os_exists env rpath"
| "on_os env cap_fs_write rpath content = os_write_file env rpath content"
| "on_os env cap_fs_list rpath content = os_list_dir env rpath"
| "on_os env cap_fs_delete rpath content = os_path_op (os_delete (fe_os env)) rpath"
| "on_os env cap_fs_mkdir rpath content = os_path_op (os_mkdirs (fe_os env)) rpath"

text \<open>\<open>dispatch\<close>: arguments, mount, then the driver or the operating system.\<close>

definition fs_dispatch :: "('d, 'u) fs_env \<Rightarrow> 'd FsState \<Rightarrow> fs_native \<Rightarrow> nval list \<Rightarrow> (nval, 'u) native" where
  "fs_dispatch env es f args =
     (if length args \<noteq> fs_arity f then nfail ArityMismatch
      else nbind (norelse (asStringValue (args ! 0)) TypeError) (\<lambda>path.
        nbind (if f = cap_fs_write then norelse (asStringValue (args ! 1)) TypeError else nret []) (\<lambda>content.
        nbind (fs_try (lookup es path)) (\<lambda>(m, rest).
        if mt_kind m = driver then on_driver env f (driver_of env m) rest content
        else if fe_wasi env then nfail CapabilityNotAvailable
        else nbind (fs_try (resolve es path 4096)) (\<lambda>rpath. on_os env f rpath content)))))"

end
