(* ===== verification/CapFsProps.thy ===== *)
theory CapFsProps
  imports CapFs
begin

text \<open>
  What the filesystem capability promises: the callbacks of a driver are called in the order of a file session and on paths
  below the mount only, a file that is read comes back whole, a listing is unpacked as the driver packed it, results have the
  type of their native, and a missing callback is an error that touches nothing.
\<close>

section \<open>Loops\<close>

lemma read_loop_rel:
  assumes "drv_read_loop alloc rd acc u = Some (r, u')"
    and step: "\<And>u n st u'. rd u = (n, st, u') \<Longrightarrow> R u u'" and trans: "\<And>x y z. R x y \<Longrightarrow> R y z \<Longrightarrow> R x z"
  shows "R u u'"
proof -
  have "(\<forall>u n st u'. rd u = (n, st, u') \<longrightarrow> R u u') \<longrightarrow> (case y of (r, u') \<Rightarrow> R u u')"
    if "drv_read_loop alloc rd acc u = Some y" for y
    using that
  proof (induction rule: drv_read_loop.raw_induct [rotated, consumes 1, case_names step])
    case (step loop alloc rd acc u y)
    obtain n st v where v: "rd u = (n, st, v)" by (cases "rd u")
    show ?case
    proof
      assume R: "\<forall>u n st u'. rd u = (n, st, u') \<longrightarrow> R u u'"
      have uv: "R u v" using R v by blast
      show "case y of (r, u') \<Rightarrow> R u u'"
        using step(2) uv step(1) [of alloc rd "acc @ take (nat n) st" v y] R
        by (auto simp: v split: if_splits intro: uv trans [OF uv])
    qed
  qed
  then show ?thesis using assms(1) step by blast
qed

text \<open>\<open>serves rd u content u'\<close>: the read callback hands out \<open>content\<close> in non-empty pieces that fit the block, then answers 0.\<close>

inductive serves :: "('u \<Rightarrow> int \<times> byte list \<times> 'u) \<Rightarrow> 'u \<Rightarrow> byte list \<Rightarrow> 'u \<Rightarrow> bool" for rd where
  end_of_file: "rd u = (0, st, u') \<Longrightarrow> serves rd u [] u'"
| piece: "rd u = (int (length c), st, u1) \<Longrightarrow> c \<noteq> [] \<Longrightarrow> length c \<le> 4096 \<Longrightarrow> length c \<le> length st \<Longrightarrow> take (length c) st = c
    \<Longrightarrow> serves rd u1 rest u' \<Longrightarrow> serves rd u (c @ rest) u'"

lemma read_loop_serves:
  "serves rd u content u' \<Longrightarrow> (\<And>n. alloc n) \<Longrightarrow> drv_read_loop alloc rd acc u = Some (Inr (acc @ content), u')"
proof (induction arbitrary: acc rule: serves.induct)
  case (end_of_file u st u')
  then show ?case by (subst drv_read_loop.simps) simp
next
  case (piece u c st u1 rest u')
  have "drv_read_loop alloc rd (acc @ c) u1 = Some (Inr ((acc @ c) @ rest), u')"
    using piece.IH piece.prems by blast
  then show ?case using piece.hyps piece.prems by (subst drv_read_loop.simps) simp
qed

lemma read_loop_returns:
  assumes "\<And>u n st u'. rd u = (n, st, u') \<Longrightarrow> 0 < n \<Longrightarrow> n \<le> 4096 \<and> n \<le> int (length st) \<and> (\<mu> u' :: nat) < \<mu> u"
  shows "drv_read_loop alloc rd acc u \<noteq> None"
proof (induction "\<mu> u" arbitrary: acc u rule: less_induct)
  case less
  obtain n st v where v: "rd u = (n, st, v)" by (cases "rd u")
  show ?case
  proof (cases "0 < n")
    case True
    then show ?thesis using assms [OF v] less [of v "acc @ take (nat n) st"] by (subst drv_read_loop.simps) (simp add: v)
  next
    case False
    then show ?thesis by (subst drv_read_loop.simps) (auto simp: v)
  qed
qed

section \<open>Listings\<close>

definition pack_names :: "byte list list \<Rightarrow> byte list" where
  "pack_names names = concat (map (\<lambda>n. n @ [0]) names)"

definition packable :: "byte list \<Rightarrow> bool" where
  "packable n \<longleftrightarrow> n \<noteq> [] \<and> 0 \<notin> set n"

lemma count_pack: "list_all packable names \<Longrightarrow> count_names (pack_names names) = length names"
proof (induction names)
  case Nil
  then show ?case by (subst count_names.simps) (simp add: pack_names_def)
next
  case (Cons n names)
  then have "indexOfScalar (n @ 0 # pack_names names) 0 = Some (length n)" by (simp add: indexOfScalar_append packable_def)
  with Cons show ?case by (subst count_names.simps) (simp add: pack_names_def packable_def)
qed

lemma fill_pack: "list_all packable names \<Longrightarrow> fill_names (pack_names names) (length names) = names"
proof (induction names)
  case (Cons n names)
  then have "indexOfScalar (n @ 0 # pack_names names) 0 = Some (length n)" by (simp add: indexOfScalar_append packable_def)
  with Cons show ?case by (simp add: pack_names_def packable_def)
qed simp

lemma list_array_ok: "fe_gc env n \<Longrightarrow> \<forall>b \<in> set names. fe_gc env (length b) \<Longrightarrow> list_array env n names = nret (NArray (map NDyn names))"
  by (simp add: list_array_def native_simps(4) nguard_simps makeDynStrings_ok)

section \<open>The sequence of calls\<close>

text \<open>What a driver sees, and a driver that keeps a log of it.\<close>

datatype fs_event =
    EvOpen "byte list" int int int
  | EvRead int int
  | EvWrite int "byte list" int
  | EvClose int
  | EvExists "byte list"
  | EvList "byte list"
  | EvUnlink "byte list"
  | EvMkdir "byte list"

definition logged :: "'u gengo_fs_driver_t \<Rightarrow> ('u \<times> fs_event list) gengo_fs_driver_t" where
  "logged d = \<lparr>
     dv_open = map_option (\<lambda>f p fl old (u, t). case f p fl old u of (rc, fd, u) \<Rightarrow> (rc, fd, u, t @ [EvOpen p fl rc fd])) (dv_open d),
     dv_read = map_option (\<lambda>f fd k (u, t). case f fd k u of (n, st, u) \<Rightarrow> (n, st, u, t @ [EvRead fd n])) (dv_read d),
     dv_write = map_option (\<lambda>f fd b (u, t). case f fd b u of (n, u) \<Rightarrow> (n, u, t @ [EvWrite fd b n])) (dv_write d),
     dv_close = map_option (\<lambda>f fd (u, t). (f fd u, t @ [EvClose fd])) (dv_close d),
     dv_exists = map_option (\<lambda>f p (u, t). case f p u of (n, u) \<Rightarrow> (n, u, t @ [EvExists p])) (dv_exists d),
     dv_list = map_option (\<lambda>f p k (u, t). case f p k u of (n, st, u) \<Rightarrow> (n, st, u, t @ [EvList p])) (dv_list d),
     dv_unlink = map_option (\<lambda>f p (u, t). case f p u of (n, u) \<Rightarrow> (n, u, t @ [EvUnlink p])) (dv_unlink d),
     dv_mkdir = map_option (\<lambda>f p (u, t). case f p u of (n, u) \<Rightarrow> (n, u, t @ [EvMkdir p])) (dv_mkdir d)\<rparr>"

text \<open>
  The allowed sequences for one native on the path \<open>rest\<close>: nothing, one question or order about that path, a failed open, or an
  open, reads (of a file opened for reading) or writes (of one opened for writing) on the descriptor it gave, and one close of it.
\<close>

definition on_file :: "int \<Rightarrow> int \<Rightarrow> fs_event \<Rightarrow> bool" where
  "on_file fl fd e \<longleftrightarrow> (case e of EvRead fd' n \<Rightarrow> fl = 0 \<and> fd' = fd | EvWrite fd' b n \<Rightarrow> fl = 1 \<and> fd' = fd | _ \<Rightarrow> False)"

fun session_ok :: "byte list \<Rightarrow> fs_event list \<Rightarrow> bool" where
  "session_ok rest [] = True"
| "session_ok rest (EvOpen p fl rc fd # es) = (p = rest \<and>
     (if rc < 0 then es = [] else es \<noteq> [] \<and> last es = EvClose fd \<and> list_all (on_file fl fd) (butlast es)))"
| "session_ok rest (EvExists p # es) = (p = rest \<and> es = [])"
| "session_ok rest (EvList p # es) = (p = rest \<and> es = [])"
| "session_ok rest (EvUnlink p # es) = (p = rest \<and> es = [])"
| "session_ok rest (EvMkdir p # es) = (p = rest \<and> es = [])"
| "session_ok rest (_ # es) = False"

lemma session_file: "0 \<le> rc \<Longrightarrow> list_all (on_file fl fd) body \<Longrightarrow> session_ok rest (EvOpen rest fl rc fd # body @ [EvClose fd])"
  by simp

lemma fs_host_cases: "fs_host f u = Some (r, u') \<longleftrightarrow> (\<exists>x. f u = (x, u') \<and> r = Inr x)"
  by (auto simp: fs_host_def split: prod.split)

lemma fs_ok_code_cases: "fs_ok_code f u = Some (r, u') \<longleftrightarrow> (\<exists>rc. f u = (rc, u') \<and> r = (if 0 \<le> rc then Inr () else Inl CapabilityError))"
  by (auto simp: fs_ok_code_def native_cases fs_host_cases)

lemma drv_open_file_cases: "drv_open_file op rest fl u = Some (r, u') \<longleftrightarrow>
    length rest < 2 ^ 31 \<and> (\<exists>rc fd. op rest fl (-1) u = (rc, fd, u') \<and> r = (if rc < 0 then Inl CapabilityError else Inr fd))"
  by (auto simp: drv_open_file_def native_cases fs_host_cases split: prod.splits if_splits)

lemmas fs_eval = native_eval fs_host_def fs_ok_code_def drv_open_file_def

lemmas fs_cases = native_cases fs_host_cases fs_ok_code_cases drv_open_file_cases

lemma read_session:
  assumes "drv_read_file env (logged d) rest (u, t) = Some (r, u', t')"
  shows "\<exists>es. t' = t @ es \<and> session_ok rest es"
proof (cases "dv_open d = None \<or> dv_read d = None \<or> dv_close d = None")
  case True
  then show ?thesis using assms by (auto simp: drv_read_file_def logged_def fs_cases split: option.splits)
next
  case False
  then obtain op rd cl where d: "dv_open d = Some op" "dv_read d = Some rd" "dv_close d = Some cl" by auto
  obtain rc fd v where v: "op rest 0 (-1) u = (rc, fd, v)" by (cases "op rest 0 (-1) u")
  let ?rd = "\<lambda>(u, t). case rd fd 4096 u of (n, st, u) \<Rightarrow> (n, st, u, t @ [EvRead fd n])"
  let ?R = "\<lambda>(u :: 'a, t) (u' :: 'a, t'). \<exists>es. t' = t @ es \<and> list_all (on_file 0 fd) es"
  have loop: "?R w w'" if "drv_read_loop (fe_alloc env) ?rd [] w = Some (q, w')" for w q w'
    using that by (rule read_loop_rel) (fastforce simp: on_file_def split: prod.splits)+
  show ?thesis
  proof (cases "rc < 0")
    case True
    then show ?thesis using assms by (auto simp: drv_read_file_def logged_def fs_cases d v)
  next
    case rc: False
    obtain q w where "drv_read_loop (fe_alloc env) ?rd [] (v, t @ [EvOpen rest 0 rc fd]) = Some (q, w)" "t' = snd w @ [EvClose fd]"
      using assms rc by (auto simp: drv_read_file_def logged_def fs_cases d v)
    then obtain es where "t' = t @ EvOpen rest 0 rc fd # es @ [EvClose fd]" "list_all (on_file 0 fd) es"
      using loop by fastforce
    then show ?thesis using session_file rc by (metis linorder_not_less)
  qed
qed

lemma write_session:
  assumes "drv_write_file (logged d) rest content (u, t) = Some (r, u', t')"
  shows "\<exists>es. t' = t @ es \<and> session_ok rest es"
proof (cases "dv_open d = None \<or> dv_write d = None \<or> dv_close d = None")
  case True
  then show ?thesis using assms by (auto simp: drv_write_file_def logged_def fs_cases split: option.splits)
next
  case False
  then obtain op wr cl where d: "dv_open d = Some op" "dv_write d = Some wr" "dv_close d = Some cl" by auto
  obtain rc fd v where v: "op rest 1 (-1) u = (rc, fd, v)" by (cases "op rest 1 (-1) u")
  obtain n w where w: "wr fd content v = (n, w)" by (cases "wr fd content v")
  show ?thesis using assms by (auto simp: drv_write_file_def logged_def fs_cases d v w on_file_def split: if_splits)
qed

lemma other_sessions:
  "drv_list_dir env (logged d) rest (u, t) = Some (r, u', t') \<Longrightarrow> \<exists>es. t' = t @ es \<and> session_ok rest es"
  "drv_exists (logged d) rest (u, t) = Some (r, u', t') \<Longrightarrow> \<exists>es. t' = t @ es \<and> session_ok rest es"
  "drv_path_op (dv_unlink (logged d)) rest (u, t) = Some (r, u', t') \<Longrightarrow> \<exists>es. t' = t @ es \<and> session_ok rest es"
  "drv_path_op (dv_mkdir (logged d)) rest (u, t) = Some (r, u', t') \<Longrightarrow> \<exists>es. t' = t @ es \<and> session_ok rest es"
  by (auto simp: drv_list_dir_def list_array_def drv_exists_def drv_path_op_def logged_def fs_cases npanic_apply Let_def
      dest!: makeDynStrings_result split: option.splits prod.splits if_splits)

lemma driver_session: "on_driver env f (logged d) rest content (u, t) = Some (r, u', t') \<Longrightarrow> \<exists>es. t' = t @ es \<and> session_ok rest es"
  by (cases f) (auto intro: read_session write_session other_sessions)

section \<open>Claims\<close>

lemma dispatch_driver:
  assumes "lookup s path = Inr (m, rest)" "mt_kind m = driver" "mt_driver m = Some x" "asStringValue v = Some path"
    and "fs_dispatch env s f (v # vs) u = Some (r, u')"
  shows "(\<exists>content. on_driver env f (fe_driver env x) rest content u = Some (r, u')) \<or> u' = u \<and> (\<exists>e. r = Inl e)"
  using assms
  by (auto simp: fs_dispatch_def driver_of_def fs_try_def native_cases split: if_splits option.splits)

text \<open>
  C14. Whatever a script does, a driver is called in the order of a file session: for one native it sees nothing, a single question
  about the path, an open that fails, or an open, reads of a file opened for reading or a write of one opened for writing on
  the descriptor that open gave, and exactly one close of it, also when a callback or the script's memory fails half way. The path is the
  part after the mount's name and never climbs above it.
\<close>

theorem fs_driver_session:
  assumes "lookup s path = Inr (m, rest)" "mt_kind m = driver" "mt_driver m = Some x" "fe_driver env x = logged d"
    and "asStringValue v = Some path" "fs_dispatch env s f (v # vs) (u, t) = Some (r, u', t')"
  shows "(\<exists>es. t' = t @ es \<and> session_ok rest es)
    \<and> (rest \<noteq> [] \<longrightarrow> 0 \<notin> set rest \<and> walk 0 (splitScalar rest 47) = Some (length (splitScalar rest 47)))"
proof -
  have "\<exists>es. t' = t @ es \<and> session_ok rest es"
    using dispatch_driver [OF assms(1-3,5,6)]
  proof (elim disjE exE conjE)
    fix content assume "on_driver env f (fe_driver env x) rest content (u, t) = Some (r, u', t')"
    then show ?thesis unfolding assms(4) by (rule driver_session)
  qed (simp add: exI [of _ "[]"])
  then show ?thesis using lookup_clean [OF assms(1)] walk_clean [of "splitScalar rest 47" 0] by simp
qed

text \<open>A driver that serves one text under every path, in pieces of two bytes; its state is what is left of the open file.\<close>

definition text_driver :: "byte list \<Rightarrow> byte list gengo_fs_driver_t" where
  "text_driver b = null_driver\<lparr>dv_open := Some (\<lambda>p fl old u. if fl = 0 then (0, 7, b) else (-1, old, u)),
     dv_read := Some (\<lambda>fd k u. (int (length (take 2 u)), take 2 u, drop 2 u)), dv_close := Some (\<lambda>fd u. []),
     dv_write := Some (\<lambda>fd c u. (1, take 1 c)), dv_list := Some (\<lambda>p k u. (int (length (pack_names [[97], b])), pack_names [[97], b], u))\<rparr>"

definition vfs :: "nat FsState" where
  "vfs = snd (addDriverMountToState fs_empty [109] 0)"

definition vfs_env :: "'u gengo_fs_driver_t \<Rightarrow> (nat, 'u) fs_env" where
  "vfs_env d = \<lparr>fe_wasi = True, fe_os = \<lparr>os_open = (\<lambda>p u. (Inl FileNotFound, u)), os_read = (\<lambda>fd n u. (None, u)), os_create = (\<lambda>p u. (None, u)),
     os_write_all = (\<lambda>fd b u. (False, u)), os_close = (\<lambda>fd u. u), os_opendir = (\<lambda>p u. (None, u)), os_next = (\<lambda>fd u. (None, u)),
     os_delete = (\<lambda>p u. (False, u)), os_mkdirs = (\<lambda>p u. (False, u))\<rparr>, fe_driver = (\<lambda>_. d), fe_alloc = (\<lambda>_. True), fe_gc = (\<lambda>_. True)\<rparr>"

lemma vfs_lookup: "lookup vfs [109, 47, 120] = Inr (driver_mount [109] 0, [120])"
  by (simp add: vfs_def addDriverMountToState_def fs_empty_def StrBufSize_def MaxMounts_def Let_def lookup_def list_ex_iff
      bad_component_def split_head_def nameOf_def mount_of_def slice_def driver_mount_def)

lemma vfs_driver: "mt_kind (driver_mount n (d :: 'a)) = driver" "mt_driver (driver_mount n d) = Some d"
  by (simp_all add: driver_mount_def)

lemma vfs_env_simps [simp]: "fe_driver (vfs_env d) x = d" "fe_alloc (vfs_env d) n" "fe_gc (vfs_env d) n"
  by (simp_all add: vfs_env_def)

lemma text_driver_simps [simp]: "dv_open (text_driver b) = Some (\<lambda>p fl old u. if fl = 0 then (0, 7, b) else (-1, old, u))"
  "dv_read (text_driver b) = Some (\<lambda>fd k u. (int (length (take 2 u)), take 2 u, drop 2 u))" "dv_close (text_driver b) = Some (\<lambda>fd u. [])"
  by (simp_all add: text_driver_def)

theorem fs_driver_session_witness:
  "\<exists>es. snd (snd (the (fs_dispatch (vfs_env (logged (text_driver [1, 2, 3]))) vfs cap_fs_read [NString [109, 47, 120]] ([], [])))) = [] @ es \<and> session_ok [120] es"
proof -
  have r: "fs_dispatch (vfs_env (logged (text_driver [1, 2, 3]))) vfs cap_fs_read [NString [109, 47, 120]] ([], []) =
      Some (Inr (NDyn [1, 2, 3]), [], [EvOpen [120] 0 0 7, EvRead 7 2, EvRead 7 1, EvRead 7 0, EvClose 7])"
    by (simp add: fs_dispatch_def fs_arity_def fs_try_def vfs_lookup vfs_driver driver_of_def fs_eval drv_read_file_def logged_def
        drv_read_loop.simps)
  show ?thesis
    using fs_driver_session [OF vfs_lookup vfs_driver vfs_env_simps(1) _ r] by (simp add: r)
qed

lemma driver_file_read:
  assumes "lookup s path = Inr (m, rest)" "mt_kind m = driver" "mt_driver m = Some x" "asStringValue v = Some path" "length rest < 2 ^ 31"
    and "dv_open (fe_driver env x) = Some op" "dv_read (fe_driver env x) = Some rd" "dv_close (fe_driver env x) = Some cl"
    and "op rest 0 (-1) u = (rc, fd, u1)" "0 \<le> rc" "serves (rd fd 4096) u1 content u2" "\<forall>n. fe_alloc env n \<and> fe_gc env n"
  shows "fs_dispatch env s cap_fs_read [v] u = Some (Inr (NDyn content), cl fd u2)"
proof -
  have "drv_read_loop (fe_alloc env) (rd fd 4096) [] u1 = Some (Inr content, u2)"
    using read_loop_serves [OF assms(11), of "fe_alloc env" "[]"] assms(12) by simp
  then show ?thesis
    using assms by (simp add: fs_dispatch_def fs_arity_def fs_try_def driver_of_def drv_read_file_def fs_eval)
qed

text \<open>
  Reading a file through a driver gives the script exactly the bytes the driver hands out, whatever the sizes of its pieces up
  to the block of 4096, and closes the descriptor afterwards.
\<close>

theorem fs_read_returns_content:
  assumes "lookup s path = Inr (m, rest)" "mt_kind m = driver" "mt_driver m = Some x" "asStringValue v = Some path" "length rest < 2 ^ 31"
    and "dv_open (fe_driver env x) = Some op" "dv_read (fe_driver env x) = Some rd" "dv_close (fe_driver env x) = Some cl"
    and "op rest 0 (-1) u = (rc, fd, u1)" "0 \<le> rc" "serves (rd fd 4096) u1 content u2" "\<forall>n. fe_alloc env n \<and> fe_gc env n"
  shows "fs_dispatch env s cap_fs_read [v] u = Some (Inr (NDyn content), cl fd u2)"
  by (rule driver_file_read [OF assms])

lemma served_in_pairs: "serves (\<lambda>u. (int (length (take 2 u)), take 2 u, drop 2 u)) [1, 2, 3 :: byte] [1, 2, 3] []"
proof -
  let ?rd = "\<lambda>u. (int (length (take 2 u)), take 2 u, drop 2 u)"
  have "serves ?rd [] [] []" by (rule serves.end_of_file) simp
  then have "serves ?rd [3 :: byte] ([3] @ []) []"
    by (intro serves.piece [where c = "[3]" and rest = "[]" and ?u1.0 = "[]" and st = "[3]"]) simp_all
  then have "serves ?rd [1, 2, 3 :: byte] ([1, 2] @ [3]) []"
    by (intro serves.piece [where c = "[1, 2]" and rest = "[3]" and ?u1.0 = "[3]" and st = "[1, 2]"]) simp_all
  then show ?thesis by simp
qed

theorem fs_read_returns_content_witness:
  "fs_dispatch (vfs_env (text_driver [1, 2, 3])) vfs cap_fs_read [NString [109, 47, 120]] [] = Some (Inr (NDyn [1, 2, 3]), [])"
proof -
  let ?rd = "\<lambda>u. (int (length (take 2 u)), take 2 u, drop 2 u)"
  have "serves ?rd [1, 2, 3 :: byte] [1, 2, 3] []" by (rule served_in_pairs)
  then show ?thesis
    using fs_read_returns_content [OF vfs_lookup vfs_driver, of "NString [109, 47, 120]" "vfs_env (text_driver [1, 2, 3])"
        "\<lambda>p fl old u. if fl = 0 then (0, 7, [1, 2, 3]) else (-1, old, u)" "\<lambda>fd k. ?rd" "\<lambda>fd u. []" "[]" 0 7 "[1, 2, 3]" "[1, 2, 3]" "[]"]
    by simp
qed

text \<open>
  C34. Reading ends: if every successful read of the driver uses up something (a measure goes down) and reports no more bytes than it stored,
  the native returns, with the text or with an error.
\<close>

theorem fs_read_returns:
  assumes "dv_read (fe_driver env x) = Some rd" "lookup s path = Inr (m, rest)" "mt_kind m = driver" "mt_driver m = Some x"
    and "length rest < 2 ^ 31" "asStringValue v = Some path"
    and "\<And>fd u n st u'. rd fd 4096 u = (n, st, u') \<Longrightarrow> 0 < n \<Longrightarrow> n \<le> 4096 \<and> n \<le> int (length st) \<and> (\<mu> u' :: nat) < \<mu> u"
  shows "fs_dispatch env s cap_fs_read [v] u \<noteq> None"
proof -
  have "drv_read_loop (fe_alloc env) (rd fd 4096) [] w \<noteq> None" for fd w
    by (rule read_loop_returns) (rule assms(7))
  then have loop: "drv_read_loop (fe_alloc env) (rd fd 4096) [] w = None \<longleftrightarrow> False" for fd w by blast
  show ?thesis
    using assms(1-6) by (auto simp: fs_dispatch_def fs_arity_def fs_try_def driver_of_def drv_read_file_def fs_eval loop
        split: option.splits prod.splits sum.splits)
qed

theorem fs_read_returns_witness: "fs_dispatch (vfs_env (text_driver [1, 2, 3])) vfs cap_fs_read [NString [109, 47, 120]] [] \<noteq> None"
  by (rule fs_read_returns [OF _ vfs_lookup vfs_driver, where \<mu> = length]) auto

text \<open>
  A listing comes back as the driver packed it: names separated by NUL bytes, none of them empty, give the array of these names
  in their order.
\<close>

theorem fs_list_roundtrip:
  assumes "lookup s path = Inr (m, rest)" "mt_kind m = driver" "mt_driver m = Some x" "asStringValue v = Some path" "length rest < 2 ^ 31"
    and "dv_list (fe_driver env x) = Some ls" "ls rest 65536 u = (int (length (pack_names names)), pack_names names @ junk, u1)"
    and "list_all packable names" "length (pack_names names) \<le> 65536" "\<forall>n. fe_alloc env n \<and> fe_gc env n"
  shows "fs_dispatch env s cap_fs_list [v] u = Some (Inr (NArray (map NDyn names)), u1)"
  using assms by (simp add: fs_dispatch_def fs_arity_def fs_try_def driver_of_def drv_list_dir_def fs_eval count_pack fill_pack
      list_array_ok [unfolded nret_def])

theorem fs_list_roundtrip_witness:
  "fs_dispatch (vfs_env (text_driver [98])) vfs cap_fs_list [NString [109, 47, 120]] [] = Some (Inr (NArray [NDyn [97], NDyn [98]]), [])"
  using fs_list_roundtrip [OF vfs_lookup vfs_driver, of "NString [109, 47, 120]" "vfs_env (text_driver [98])" _ "[]" "[[97], [98]]" "[]" "[]"]
  by (simp add: text_driver_def packable_def pack_names_def)

text \<open>
  Results are typed: what a native of the filesystem capability returns is a string for a read, a boolean for a test of existence, an
  array of strings for a listing and null for the others, whether the driver or the operating system answers.
\<close>

datatype ntype = TString | TBool | TNull | TArray ntype

fun has_type :: "nval \<Rightarrow> ntype \<Rightarrow> bool" where
  "has_type (NDyn b) TString = True"
| "has_type (NBool b) TBool = True"
| "has_type NNull TNull = True"
| "has_type (NArray vs) (TArray t) = (\<forall>v \<in> set vs. has_type v t)"
| "has_type _ _ = False"

fun fs_type :: "fs_native \<Rightarrow> ntype" where
  "fs_type cap_fs_read = TString"
| "fs_type cap_fs_exists = TBool"
| "fs_type cap_fs_list = TArray TString"
| "fs_type _ = TNull"

lemma list_array_type: "list_array env n names u = Some (Inr v, u') \<Longrightarrow> has_type v (TArray TString)"
  by (auto simp: list_array_def native_cases dest!: makeDynStrings_result split: if_splits)

lemma on_driver_type: "on_driver env f d rest content u = Some (Inr v, u') \<Longrightarrow> has_type v (fs_type f)"
  by (cases f) (auto simp: drv_read_file_def drv_exists_def drv_write_file_def drv_list_dir_def drv_path_op_def fs_cases npanic_apply Let_def
      split: option.splits prod.splits if_splits dest: list_array_type)

lemma os_types:
  "os_read_file env p u = Some (Inr v, u') \<Longrightarrow> has_type v TString" "os_exists env p u = Some (Inr v, u') \<Longrightarrow> has_type v TBool"
  by (auto simp: os_read_file_def os_exists_def fs_eval split: option.splits prod.splits sum.splits open_error.splits if_splits)

lemma on_os_type: "on_os env f p content u = Some (Inr v, u') \<Longrightarrow> has_type v (fs_type f)"
  by (cases f) (auto simp: os_write_file_def os_list_dir_def os_path_op_def fs_cases
      split: option.splits if_splits dest: list_array_type os_types)

theorem fs_result_typed:
  assumes "fs_dispatch env s f args u = Some (Inr v, u')"
  shows "has_type v (fs_type f)"
  using assms by (auto simp: fs_dispatch_def fs_try_def native_cases simp del: on_driver.simps on_os.simps fs_type.simps
      split: if_splits option.splits sum.splits dest: on_driver_type on_os_type)

theorem fs_result_typed_witness: "has_type (NBool False) (fs_type cap_fs_exists)"
proof -
  have "fs_dispatch (vfs_env (text_driver []\<lparr>dv_exists := Some (\<lambda>p u. (0, u))\<rparr>)) vfs cap_fs_exists [NString [109, 47, 120]] [] = Some (Inr (NBool False), [])"
    by (simp add: fs_dispatch_def fs_arity_def fs_try_def vfs_lookup vfs_driver driver_of_def drv_exists_def fs_eval)
  then show ?thesis by (rule fs_result_typed)
qed

text \<open>
  A callback that the host left out is an error of the capability and nothing else: the native answers \<open>CapabilityError\<close> before it has
  called any other callback of the driver.
\<close>

fun has_callbacks :: "fs_native \<Rightarrow> 'u gengo_fs_driver_t \<Rightarrow> bool" where
  "has_callbacks cap_fs_read d = (dv_open d \<noteq> None \<and> dv_read d \<noteq> None \<and> dv_close d \<noteq> None)"
| "has_callbacks cap_fs_write d = (dv_open d \<noteq> None \<and> dv_write d \<noteq> None \<and> dv_close d \<noteq> None)"
| "has_callbacks cap_fs_exists d = (dv_exists d \<noteq> None)"
| "has_callbacks cap_fs_list d = (dv_list d \<noteq> None)"
| "has_callbacks cap_fs_delete d = (dv_unlink d \<noteq> None)"
| "has_callbacks cap_fs_mkdir d = (dv_mkdir d \<noteq> None)"

theorem fs_missing_callback:
  assumes "lookup s path = Inr (m, rest)" "mt_kind m = driver" "mt_driver m = Some x" "asStringValue v = Some path"
    and "\<not> has_callbacks f (fe_driver env x)" "length (v # vs) = fs_arity f" "f = cap_fs_write \<longrightarrow> asStringValue (hd vs) \<noteq> None"
  shows "fs_dispatch env s f (v # vs) u = Some (Inl CapabilityError, u)"
  using assms
  by (cases f) (auto simp: fs_dispatch_def fs_arity_def fs_try_def driver_of_def drv_read_file_def drv_write_file_def drv_exists_def
      drv_list_dir_def drv_path_op_def fs_eval length_Suc_conv split: option.splits)

theorem fs_missing_callback_witness:
  "fs_dispatch (vfs_env (text_driver [])) vfs cap_fs_delete [NString [109, 47, 120]] [] = Some (Inl CapabilityError, [])"
  by (rule fs_missing_callback [OF vfs_lookup vfs_driver]) (simp_all add: fs_arity_def text_driver_def null_driver_def)

text \<open>
  A short write goes unnoticed: whatever count the write callback reports, even 0 bytes of a longer text, the script is told that the
  write succeeded.
\<close>

theorem fs_short_write_unnoticed:
  assumes "lookup s path = Inr (m, rest)" "mt_kind m = driver" "mt_driver m = Some x" "asStringValue v = Some path" "asStringValue c = Some content"
    and "dv_open (fe_driver env x) = Some op" "dv_write (fe_driver env x) = Some wr" "dv_close (fe_driver env x) = Some cl"
    and "op rest 1 (-1) u = (rc, fd, u1)" "0 \<le> rc" "wr fd content u1 = (n, u2)" "0 \<le> n" "length rest < 2 ^ 31" "length content < 2 ^ 31"
  shows "fs_dispatch env s cap_fs_write [v, c] u = Some (Inr NNull, cl fd u2)"
  using assms by (simp add: fs_dispatch_def fs_arity_def fs_try_def driver_of_def drv_write_file_def fs_eval)

definition short_driver :: "byte list gengo_fs_driver_t" where
  "short_driver = null_driver\<lparr>dv_open := Some (\<lambda>p fl old u. (0, 7, u)), dv_write := Some (\<lambda>fd c u. (1, u @ take 1 c)),
     dv_close := Some (\<lambda>fd u. u)\<rparr>"

theorem fs_short_write_unnoticed_witness:
  "fs_dispatch (vfs_env short_driver) vfs cap_fs_write [NString [109, 47, 120], NString [1, 2, 3]] [] = Some (Inr NNull, [1])"
  using fs_short_write_unnoticed [OF vfs_lookup vfs_driver, of "NString [109, 47, 120]" "NString [1, 2, 3]" "[1, 2, 3]" "vfs_env short_driver"
    "\<lambda>p fl old u. (0, 7, u)" "\<lambda>fd c u. (1, u @ take 1 c)" "\<lambda>fd u. u" "[]" 0 7 "[]" 1 "[1]"]
  by (simp add: short_driver_def)

end
