(* ===== verification/CapNet.thy ===== *)
theory CapNet
  imports NetPolicy HostApi NativeCall
begin

text \<open>
  The network capability with the handlers of the host (\<open>src/lang/native/cap_net.zig\<close>, and the branches of
  \<open>src/lang/native/net_state.zig\<close> that call \<open>gengo_net_handlers_t\<close> of \<open>gengo-engine.h\<close>): dialling, listening, accepting, reading, writing
  and closing through tables of 16 connections and 8 listeners. A handler and its user pointer are a function on the
  state \<open>'u\<close> of the host. The built-in socket client, which is used when no handlers are registered, is left out.
  An error value of this module is not a copy of its text: it names an entry of the table of interned strings
  (\<open>internStr\<close> of \<open>chunk.zig\<close>), and that entry may be a view of the error buffer.
\<close>

section \<open>State\<close>

definition MaxConns :: nat where "MaxConns = 16"
definition MaxListeners :: nat where "MaxListeners = 8"

text \<open>
  A handler that fills \<open>*out_handle\<close> gives \<open>Some\<close> of what it stored; one that fills a buffer gives the bytes it stored at its start.
\<close>

type_synonym 'u open_fn = "byte list \<Rightarrow> byte list \<Rightarrow> 'u \<Rightarrow> int \<times> int option \<times> 'u"
type_synonym 'u addr_fn = "int \<Rightarrow> nat \<Rightarrow> 'u \<Rightarrow> byte list \<times> 'u"
type_synonym 'u time_fn = "int \<Rightarrow> int \<Rightarrow> 'u \<Rightarrow> 'u"

record 'u gengo_net_handlers_t =
  nh_dial :: "'u open_fn option"
  nh_read :: "(int \<Rightarrow> nat \<Rightarrow> 'u \<Rightarrow> int \<times> byte list \<times> 'u) option"
  nh_write :: "(int \<Rightarrow> byte list \<Rightarrow> 'u \<Rightarrow> int \<times> 'u) option"
  nh_close :: "(int \<Rightarrow> 'u \<Rightarrow> 'u) option"
  nh_local_addr :: "'u addr_fn option"
  nh_remote_addr :: "'u addr_fn option"
  nh_set_deadline :: "'u time_fn option"
  nh_set_read_deadline :: "'u time_fn option"
  nh_set_write_deadline :: "'u time_fn option"
  nh_listen :: "'u open_fn option"
  nh_accept :: "(int \<Rightarrow> 'u \<Rightarrow> int \<times> int option \<times> 'u) option"
  nh_listener_close :: "(int \<Rightarrow> 'u \<Rightarrow> 'u) option"
  nh_listener_local_addr :: "'u addr_fn option"
  nh_set_accept_deadline :: "'u time_fn option"

datatype str_slice = Owned "byte list" | ErrBufView nat

record net_entry =
  ne_id :: nat
  ne_handle :: int

record 'u net_world =
  nw_host :: 'u
  nw_conns :: "net_entry list"
  nw_next_id :: nat
  nw_listeners :: "net_entry list"
  nw_next_listener_id :: nat
  nw_err_buf :: "byte list"
  nw_err_len :: nat
  nw_slices :: "str_slice list"

text \<open>
  What does not change while a script runs: the policies, the scopes granted on the command line, whether the capability's
  types are registered, the size of the table of interned strings, the room on the heaps, and the target.
\<close>

record 'u net_env =
  nv_ip6 :: ip6_parser
  nv_dial :: PolicyState
  nv_listen :: PolicyState
  nv_scope_dial :: bool
  nv_scope_listen :: bool
  nv_types :: bool
  nv_max_slices :: nat
  nv_gc :: "nat \<Rightarrow> bool"
  nv_alloc :: "nat \<Rightarrow> bool"
  nv_usize_max :: nat
  nv_native :: bool
  nv_handlers :: "'u gengo_net_handlers_t"

definition net_start :: "'u \<Rightarrow> 'u net_world" where
  "net_start u = \<lparr>nw_host = u, nw_conns = [], nw_next_id = 1, nw_listeners = [], nw_next_listener_id = 1,
     nw_err_buf = replicate 256 0, nw_err_len = 0, nw_slices = []\<rparr>"

type_synonym ('a, 'u) net = "('a, 'u net_world) native"

text \<open>A call of a handler.\<close>

definition nw_call :: "('u \<Rightarrow> 'a \<times> 'u) \<Rightarrow> ('a, 'u) net" where
  "nw_call f w = (case f (nw_host w) of (x, u) \<Rightarrow> Some (Inr x, w\<lparr>nw_host := u\<rparr>))"

definition nw_do :: "('u net_world \<Rightarrow> 'u net_world) \<Rightarrow> (unit, 'u) net" where
  "nw_do f w = Some (Inr (), f w)"

definition nw_get :: "('u net_world \<Rightarrow> 'a) \<Rightarrow> ('a, 'u) net" where
  "nw_get f w = Some (Inr (f w), w)"

section \<open>The error buffer and interned strings\<close>

definition setNetErr :: "byte list \<Rightarrow> 'u net_world \<Rightarrow> 'u net_world" where
  "setNetErr msg w = (let m = take 256 msg in
     w\<lparr>nw_err_buf := m @ drop (length m) (nw_err_buf w), nw_err_len := length m\<rparr>)"

definition net_fail :: "byte list \<Rightarrow> ('a, 'u) net" where
  "net_fail msg = nbind (nw_do (setNetErr msg)) (\<lambda>_. nfail NetError)"

definition clear_net_err :: "(unit, 'u) net" where
  "clear_net_err = nw_do (\<lambda>w. w\<lparr>nw_err_len := 0\<rparr>)"

definition lastNetErr :: "'u net_world \<Rightarrow> str_slice" where
  "lastNetErr w = (if nw_err_len w = 0 then Owned (bytes_of ''CapabilityError'') else ErrBufView (nw_err_len w))"

fun slice_text :: "byte list \<Rightarrow> str_slice \<Rightarrow> byte list" where
  "slice_text buf (Owned b) = b"
| "slice_text buf (ErrBufView n) = take n buf"

fun find_index :: "('a \<Rightarrow> bool) \<Rightarrow> 'a list \<Rightarrow> nat option" where
  "find_index p [] = None"
| "find_index p (x # xs) = (if p x then Some 0 else map_option Suc (find_index p xs))"

text \<open>The new entry refers to the bytes it is given; a text of at most 32 bytes reuses an entry that now has the same bytes.\<close>

definition internStr :: "nat \<Rightarrow> str_slice \<Rightarrow> (nat, 'u) net" where
  "internStr max_slices s w =
     (let txt = slice_text (nw_err_buf w);
          found = (if length (txt s) \<le> 32 then find_index (\<lambda>x. txt x = txt s) (nw_slices w) else None)
      in case found of Some i \<Rightarrow> Some (Inr i, w)
         | None \<Rightarrow> if max_slices \<le> length (nw_slices w) then Some (Inl TooManyConstants, w)
                   else Some (Inr (length (nw_slices w)), w\<lparr>nw_slices := nw_slices w @ [s]\<rparr>))"

definition error_value :: "'u net_env \<Rightarrow> str_slice \<Rightarrow> (nval, 'u) net" where
  "error_value env s = nbind (internStr (nv_max_slices env) s) (\<lambda>i. nret (NErrorRef i))"

text \<open>The text the script sees when it looks at an error value in the state \<open>w\<close>.\<close>

definition error_text :: "'u net_world \<Rightarrow> nat \<Rightarrow> byte list" where
  "error_text w i = slice_text (nw_err_buf w) (nw_slices w ! i)"

section \<open>The tables\<close>

definition find_entry :: "nat \<Rightarrow> net_entry list \<Rightarrow> net_entry option" where
  "find_entry i es = find (\<lambda>c. ne_id c = i) es"

text \<open>The entry is replaced by the last one.\<close>

definition remove_entry :: "nat \<Rightarrow> net_entry list \<Rightarrow> net_entry list" where
  "remove_entry i es = (case find_index (\<lambda>c. ne_id c = i) es of None \<Rightarrow> es | Some k \<Rightarrow> butlast (es[k := last es]))"

definition findConn :: "nat \<Rightarrow> (net_entry option, 'u) net" where
  "findConn i = nw_get (\<lambda>w. find_entry i (nw_conns w))"

definition removeConn :: "nat \<Rightarrow> (unit, 'u) net" where
  "removeConn i = nw_do (\<lambda>w. w\<lparr>nw_conns := remove_entry i (nw_conns w)\<rparr>)"

definition findListener :: "nat \<Rightarrow> (net_entry option, 'u) net" where
  "findListener i = nw_get (\<lambda>w. find_entry i (nw_listeners w))"

definition removeListener :: "nat \<Rightarrow> (unit, 'u) net" where
  "removeListener i = nw_do (\<lambda>w. w\<lparr>nw_listeners := remove_entry i (nw_listeners w)\<rparr>)"

text \<open>The new entry; the counter of ids has 32 bits.\<close>

definition add_conn :: "int option \<Rightarrow> (nat, 'u) net" where
  "add_conn out_handle w =
     (case out_handle of None \<Rightarrow> None
      | Some h \<Rightarrow> let i = nw_next_id w in if i + 1 = 2 ^ 32 then None
          else Some (Inr i, w\<lparr>nw_next_id := i + 1, nw_conns := nw_conns w @ [\<lparr>ne_id = i, ne_handle = h\<rparr>]\<rparr>))"

definition add_listener :: "int option \<Rightarrow> (nat, 'u) net" where
  "add_listener out_handle w =
     (case out_handle of None \<Rightarrow> None
      | Some h \<Rightarrow> let i = nw_next_listener_id w in if i + 1 = 2 ^ 32 then None
          else Some (Inr i, w\<lparr>nw_next_listener_id := i + 1, nw_listeners := nw_listeners w @ [\<lparr>ne_id = i, ne_handle = h\<rparr>]\<rparr>))"

definition or_msg :: "'a option \<Rightarrow> byte list \<Rightarrow> ('a, 'u) net" where
  "or_msg x msg = (case x of None \<Rightarrow> net_fail msg | Some y \<Rightarrow> nret y)"

fun close_all :: "(int \<Rightarrow> 'u \<Rightarrow> 'u) option \<Rightarrow> net_entry list \<Rightarrow> 'u \<Rightarrow> 'u" where
  "close_all cb [] u = u"
| "close_all cb (c # cs) u = close_all cb cs (case cb of None \<Rightarrow> u | Some f \<Rightarrow> f (ne_handle c) u)"

definition netReset :: "'u net_env \<Rightarrow> 'u net_world \<Rightarrow> 'u net_world" where
  "netReset env w =
     (let u = close_all (nh_close (nv_handlers env)) (nw_conns w) (nw_host w);
          u = close_all (nh_listener_close (nv_handlers env)) (nw_listeners w) u
      in w\<lparr>nw_host := u, nw_conns := [], nw_next_id := 1, nw_listeners := [], nw_next_listener_id := 1\<rparr>)"

section \<open>Operations on the handlers\<close>

definition out3 :: "'a \<times> 'b \<times> 'u \<Rightarrow> ('a \<times> 'b) \<times> 'u" where
  "out3 r = (case r of (a, b, u) \<Rightarrow> ((a, b), u))"

definition netDial :: "'u net_env \<Rightarrow> byte list \<Rightarrow> byte list \<Rightarrow> (nat, 'u) net" where
  "netDial env network address =
     nbind clear_net_err (\<lambda>_.
     nbind (nw_get (\<lambda>w. MaxConns \<le> length (nw_conns w))) (\<lambda>full.
     if full then net_fail (bytes_of ''too many connections (max 16)'')
     else nbind (or_msg (nh_dial (nv_handlers env)) (bytes_of ''dial handler not registered'')) (\<lambda>dial_fn.
     nbind (nw_call (\<lambda>u. out3 (dial_fn network address u))) (\<lambda>(rc, out_handle).
     if rc < 0 then net_fail (bytes_of ''dial: host handler returned error '' @ dec_int rc)
     else add_conn out_handle))))"

definition netDialTls :: "'u net_env \<Rightarrow> byte list \<Rightarrow> byte list \<Rightarrow> (nat, 'u) net" where
  "netDialTls env network address =
     (if \<not> nv_native env then nfail CapabilityNotAvailable
      else net_fail (bytes_of ''dial_tls: TLS is not supported with host net callbacks''))"

definition netListen :: "'u net_env \<Rightarrow> byte list \<Rightarrow> byte list \<Rightarrow> (nat, 'u) net" where
  "netListen env network address =
     nbind clear_net_err (\<lambda>_.
     nbind (nw_get (\<lambda>w. MaxListeners \<le> length (nw_listeners w))) (\<lambda>full.
     if full then net_fail (bytes_of ''too many listeners (max 8)'')
     else nbind (or_msg (nh_listen (nv_handlers env)) (bytes_of ''listen handler not registered'')) (\<lambda>listen_fn.
     nbind (nw_call (\<lambda>u. out3 (listen_fn network address u))) (\<lambda>(rc, out_handle).
     if rc < 0 then net_fail (bytes_of ''listen: host handler returned error '' @ dec_int rc)
     else add_listener out_handle))))"

text \<open>The room in the table is checked after the host has accepted.\<close>

definition netListenerAccept :: "'u net_env \<Rightarrow> nat \<Rightarrow> (nat, 'u) net" where
  "netListenerAccept env listener_id =
     nbind clear_net_err (\<lambda>_.
     nbind (findListener listener_id) (\<lambda>l.
     nbind (or_msg l (bytes_of ''accept: unknown listener handle '' @ dec_nat listener_id)) (\<lambda>l.
     nbind (or_msg (nh_accept (nv_handlers env)) (bytes_of ''accept handler not registered'')) (\<lambda>accept_fn.
     nbind (nw_call (\<lambda>u. out3 (accept_fn (ne_handle l) u))) (\<lambda>(rc, out_handle).
     if rc = 0 then nfail DeadlineExceeded
     else if rc < 0 then net_fail (bytes_of ''accept: host handler returned error '' @ dec_int rc)
     else nbind (nw_get (\<lambda>w. MaxConns \<le> length (nw_conns w))) (\<lambda>full.
     if full then net_fail (bytes_of ''too many connections (max 16)'')
     else add_conn out_handle))))))"

definition nw_unit :: "('u \<Rightarrow> 'u) option \<Rightarrow> (unit, 'u) net" where
  "nw_unit f = (case f of None \<Rightarrow> nret () | Some g \<Rightarrow> nw_call (\<lambda>u. ((), g u)))"

definition netListenerClose :: "'u net_env \<Rightarrow> nat \<Rightarrow> (unit, 'u) net" where
  "netListenerClose env i =
     nbind (findListener i) (\<lambda>l. nbind (norelse l CapabilityError) (\<lambda>l.
     nbind (nw_unit (map_option (\<lambda>f. f (ne_handle l)) (nh_listener_close (nv_handlers env)))) (\<lambda>_. removeListener i)))"

definition netClose :: "'u net_env \<Rightarrow> nat \<Rightarrow> (unit, 'u) net" where
  "netClose env i =
     nbind (findConn i) (\<lambda>c. nbind (norelse c CapabilityError) (\<lambda>c.
     nbind (nw_unit (map_option (\<lambda>f. f (ne_handle c)) (nh_close (nv_handlers env)))) (\<lambda>_. removeConn i)))"

text \<open>Addresses: the handler fills a zeroed block of 128 bytes, of which the bytes before the first NUL count.\<close>

definition addr_of :: "'u net_env \<Rightarrow> net_entry option \<Rightarrow> 'u addr_fn option \<Rightarrow> (byte list, 'u) net" where
  "addr_of env found cb =
     nbind (norelse found CapabilityError) (\<lambda>c. nbind (norelse cb CapabilityError) (\<lambda>f.
     nbind (nw_call (f (ne_handle c) 128)) (\<lambda>stored.
     if 128 < length stored then npanic
     else let buf = stored @ replicate (128 - length stored) 0;
              len = (case indexOfScalar buf 0 of Some k \<Rightarrow> k | None \<Rightarrow> 128)
          in nbind (nguard (nv_alloc env len) NativeOutOfMemory) (\<lambda>_. nret (take len buf)))))"

definition netListenerLocalAddr :: "'u net_env \<Rightarrow> nat \<Rightarrow> (byte list, 'u) net" where
  "netListenerLocalAddr env i = nbind (findListener i) (\<lambda>l. addr_of env l (nh_listener_local_addr (nv_handlers env)))"

definition netLocalAddr :: "'u net_env \<Rightarrow> nat \<Rightarrow> (byte list, 'u) net" where
  "netLocalAddr env i = nbind (findConn i) (\<lambda>c. addr_of env c (nh_local_addr (nv_handlers env)))"

definition netRemoteAddr :: "'u net_env \<Rightarrow> nat \<Rightarrow> (byte list, 'u) net" where
  "netRemoteAddr env i = nbind (findConn i) (\<lambda>c. addr_of env c (nh_remote_addr (nv_handlers env)))"

definition time_on :: "net_entry option \<Rightarrow> 'u time_fn option \<Rightarrow> int \<Rightarrow> (unit, 'u) net" where
  "time_on found cb ms = nbind (norelse found CapabilityError) (\<lambda>c. nw_unit (map_option (\<lambda>f. f (ne_handle c) ms) cb))"

definition netListenerSetAcceptDeadline :: "'u net_env \<Rightarrow> nat \<Rightarrow> int \<Rightarrow> (unit, 'u) net" where
  "netListenerSetAcceptDeadline env i ms = nbind (findListener i) (\<lambda>l. time_on l (nh_set_accept_deadline (nv_handlers env)) ms)"

definition netSetDeadline :: "'u net_env \<Rightarrow> nat \<Rightarrow> int \<Rightarrow> (unit, 'u) net" where
  "netSetDeadline env i ms = nbind (findConn i) (\<lambda>c. time_on c (nh_set_deadline (nv_handlers env)) ms)"

definition netSetReadDeadline :: "'u net_env \<Rightarrow> nat \<Rightarrow> int \<Rightarrow> (unit, 'u) net" where
  "netSetReadDeadline env i ms = nbind (findConn i) (\<lambda>c. time_on c (nh_set_read_deadline (nv_handlers env)) ms)"

definition netSetWriteDeadline :: "'u net_env \<Rightarrow> nat \<Rightarrow> int \<Rightarrow> (unit, 'u) net" where
  "netSetWriteDeadline env i ms = nbind (findConn i) (\<lambda>c. time_on c (nh_set_write_deadline (nv_handlers env)) ms)"

definition i32_max :: nat where "i32_max = 2 ^ 31 - 1"

definition netRead :: "'u net_env \<Rightarrow> nat \<Rightarrow> nat \<Rightarrow> (byte list, 'u) net" where
  "netRead env i max_bytes =
     nbind clear_net_err (\<lambda>_.
     nbind (findConn i) (\<lambda>c.
     nbind (or_msg c (bytes_of ''read: unknown connection handle '' @ dec_nat i)) (\<lambda>c.
     nbind (nguard (nv_alloc env max_bytes) NativeOutOfMemory) (\<lambda>_.
     nbind (or_msg (nh_read (nv_handlers env)) (bytes_of ''read handler not registered'')) (\<lambda>read_fn.
     nbind (nw_call (\<lambda>u. out3 (read_fn (ne_handle c) (min max_bytes i32_max) u))) (\<lambda>(n, stored).
     if n < 0 then net_fail (bytes_of ''read: host handler returned error '' @ dec_int n)
     else if int max_bytes < n \<or> int (length stored) < n then npanic
     else nbind (nguard (nv_alloc env (nat n)) NativeOutOfMemory) (\<lambda>_. nret (take (nat n) stored))))))))"

definition netWrite :: "'u net_env \<Rightarrow> nat \<Rightarrow> byte list \<Rightarrow> (nat, 'u) net" where
  "netWrite env i data =
     nbind clear_net_err (\<lambda>_.
     nbind (findConn i) (\<lambda>c.
     nbind (or_msg c (bytes_of ''write: unknown connection handle '' @ dec_nat i)) (\<lambda>c.
     nbind (or_msg (nh_write (nv_handlers env)) (bytes_of ''write handler not registered'')) (\<lambda>write_fn.
     nbind (nw_call (write_fn (ne_handle c) (take i32_max data))) (\<lambda>n.
     if n < 0 then net_fail (bytes_of ''write: host handler returned error '' @ dec_int n) else nret (nat n))))))"

section \<open>Arguments\<close>

text \<open>The comparison of a finite, non-negative double with a bound, and its truncation.\<close>

definition f64_above :: "nat \<Rightarrow> f64 \<Rightarrow> bool" where
  "f64_above n d \<longleftrightarrow>
     (let mant = (if f64_exp d = 0 then f64_frac d else 2 ^ 52 + f64_frac d); sc = (if f64_exp d = 0 then 1 else f64_exp d)
      in if 1075 \<le> sc then n < mant * 2 ^ (sc - 1075) else n * 2 ^ (1075 - sc) < mant)"

definition f64_zero :: "f64 \<Rightarrow> bool" where
  "f64_zero d \<longleftrightarrow> f64_exp d = 0 \<and> f64_frac d = 0"

definition f64_in_range :: "nat \<Rightarrow> f64 \<Rightarrow> bool" where
  "f64_in_range n d \<longleftrightarrow> f64_exp d \<noteq> 2047 \<and> \<not> (f64_neg d \<and> \<not> f64_zero d) \<and> \<not> f64_above n d"

definition extractHandle :: "nval \<Rightarrow> (nat, 'u) net" where
  "extractHandle arg =
     (case arg of NStruct typ ((k, v) # fs) \<Rightarrow>
        (case v of
           NInt n \<Rightarrow> if n < 0 \<or> 2 ^ 32 - 1 < n then nfail TypeError else nret (nat n)
         | NFloat d \<Rightarrow> if f64_in_range (2 ^ 32 - 1) d then nret (f64_trunc_mag (f64_exp d) (f64_frac d)) else nfail TypeError
         | _ \<Rightarrow> nfail TypeError)
      | NStruct typ [] \<Rightarrow> npanic
      | _ \<Rightarrow> nfail TypeError)"

text \<open>
  The bound of \<open>extractUsize\<close> is \<open>maxInt(usize)\<close> as a double, which rounds up to \<open>2 ^ 64\<close> on a 64-bit target: that value passes the test and
  does not fit.
\<close>

definition extractUsize :: "nat \<Rightarrow> nval \<Rightarrow> (nat, 'u) net" where
  "extractUsize usize_max arg =
     (case arg of
        NInt n \<Rightarrow> if n < 0 \<or> int usize_max < n then nfail TypeError else nret (nat n)
      | NFloat d \<Rightarrow>
          if \<not> f64_in_range (if usize_max < 2 ^ 53 then usize_max else usize_max + 1) d then nfail TypeError
          else let m = f64_trunc_mag (f64_exp d) (f64_frac d) in if usize_max < m then npanic else nret m
      | _ \<Rightarrow> nfail TypeError)"

definition extractI64 :: "nval \<Rightarrow> (int, 'u) net" where
  "extractI64 arg =
     (case arg of NInt n \<Rightarrow> nret n
      | NFloat d \<Rightarrow> norelse (i64_of_f64 d) TypeError
      | _ \<Rightarrow> nfail TypeError)"

section \<open>Results\<close>

definition conn_type :: "byte list" where "conn_type = bytes_of ''net.Conn''"
definition listener_type :: "byte list" where "listener_type = bytes_of ''net.Listener''"

text \<open>The struct that holds an id: the type is looked up, the object allocated and the field name interned.\<close>

definition handle_value :: "'u net_env \<Rightarrow> byte list \<Rightarrow> nat \<Rightarrow> (nval, 'u) net" where
  "handle_value env typ i =
     nbind (nguard (nv_types env) CapabilityError) (\<lambda>_.
     nbind (nguard (nv_gc env 1) NativeOutOfMemory) (\<lambda>_.
     nbind (internStr (nv_max_slices env) (Owned (bytes_of ''_handle''))) (\<lambda>_. nret (NStruct typ [(bytes_of ''_handle'', NInt (int i))]))))"

definition ok_pair :: "'u net_env \<Rightarrow> nval \<Rightarrow> (nval, 'u) net" where
  "ok_pair env v = nbind (nguard (nv_gc env 2) NativeOutOfMemory) (\<lambda>_. nret (NArray [v, NNull]))"

definition err_pair :: "'u net_env \<Rightarrow> str_slice \<Rightarrow> (nval, 'u) net" where
  "err_pair env s = nbind (error_value env s) (\<lambda>e. nbind (nguard (nv_gc env 2) NativeOutOfMemory) (\<lambda>_. nret (NArray [NNull, e])))"

text \<open>\<open>m catch \<dots>\<close>: the handler gets the error.\<close>

definition ncatch :: "('a, 'u) native \<Rightarrow> (native_error \<Rightarrow> ('b, 'u) native) \<Rightarrow> ('a \<Rightarrow> ('b, 'u) native) \<Rightarrow> ('b, 'u) native" where
  "ncatch m h k w = (case m w of None \<Rightarrow> None | Some (Inl e, w) \<Rightarrow> h e w | Some (Inr x, w) \<Rightarrow> k x w)"

definition last_err_then :: "(str_slice \<Rightarrow> (nval, 'u) net) \<Rightarrow> (nval, 'u) net" where
  "last_err_then k = nbind (nw_get lastNetErr) k"

definition net_error_text :: "native_error \<Rightarrow> (str_slice \<Rightarrow> (nval, 'u) net) \<Rightarrow> (nval, 'u) net" where
  "net_error_text e k = (if e = DeadlineExceeded then k (Owned (bytes_of ''timeout'')) else last_err_then k)"

section \<open>The natives\<close>

datatype net_native =
    cap_net_dial | cap_net_dial_tls | cap_net_listen | cap_net_listener_accept | cap_net_listener_close
  | cap_net_listener_local_addr | cap_net_listener_set_accept_deadline | cap_net_read | cap_net_write | cap_net_close
  | cap_net_local_addr | cap_net_remote_addr | cap_net_set_deadline | cap_net_set_read_deadline | cap_net_set_write_deadline

fun net_arity :: "net_native \<Rightarrow> nat" where
  "net_arity cap_net_listener_accept = 1"
| "net_arity cap_net_listener_close = 1"
| "net_arity cap_net_listener_local_addr = 1"
| "net_arity cap_net_close = 1"
| "net_arity cap_net_local_addr = 1"
| "net_arity cap_net_remote_addr = 1"
| "net_arity _ = 2"

definition str_arg :: "nval \<Rightarrow> (byte list, 'u) net" where
  "str_arg v = norelse (asStringValue v) TypeError"

definition dialImpl :: "'u net_env \<Rightarrow> bool \<Rightarrow> nval list \<Rightarrow> (nval, 'u) net" where
  "dialImpl env use_tls args =
     nbind (str_arg (args ! 0)) (\<lambda>network. nbind (str_arg (args ! 1)) (\<lambda>address.
     if \<not> nv_scope_dial env then
       error_value env (Owned (bytes_of (if use_tls then ''net.dial_tls: dial scope not granted (--cap net=dial)''
         else ''net.dial: dial scope not granted (--cap net=dial)'')))
     else if \<not> checkDialPolicy (nv_ip6 env) (nv_dial env) address then
       error_value env (Owned (bytes_of (if use_tls then ''net.dial_tls: refused by policy'' else ''net.dial: refused by policy'')))
     else ncatch ((if use_tls then netDialTls else netDial) env network address)
       (\<lambda>_. last_err_then (error_value env)) (handle_value env conn_type)))"

definition net_listen_impl :: "'u net_env \<Rightarrow> nval list \<Rightarrow> (nval, 'u) net" where
  "net_listen_impl env args =
     nbind (str_arg (args ! 0)) (\<lambda>network. nbind (str_arg (args ! 1)) (\<lambda>address.
     if \<not> nv_scope_listen env then err_pair env (Owned (bytes_of ''net.listen: listen scope not granted (--cap net=listen)''))
     else if \<not> checkListenPolicy (nv_ip6 env) (nv_listen env) address then err_pair env (Owned (bytes_of ''net.listen: refused by policy''))
     else ncatch (netListen env network address) (\<lambda>_. last_err_then (err_pair env))
       (\<lambda>i. nbind (handle_value env listener_type i) (ok_pair env))))"

definition net_accept_impl :: "'u net_env \<Rightarrow> nval list \<Rightarrow> (nval, 'u) net" where
  "net_accept_impl env args =
     nbind (extractHandle (args ! 0)) (\<lambda>i.
     ncatch (netListenerAccept env i) (\<lambda>e. net_error_text e (err_pair env)) (\<lambda>c. nbind (handle_value env conn_type c) (ok_pair env)))"

text \<open>Errors of the remaining operations become \<open>CapabilityError\<close>, except for reads and writes, whose errors are values.\<close>

definition or_capability :: "('a, 'u) net \<Rightarrow> ('a \<Rightarrow> (nval, 'u) net) \<Rightarrow> (nval, 'u) net" where
  "or_capability m k = ncatch m (\<lambda>_. nfail CapabilityError) k"

definition on_handle :: "nval list \<Rightarrow> (nat \<Rightarrow> (nval, 'u) net) \<Rightarrow> (nval, 'u) net" where
  "on_handle args k = nbind (extractHandle (args ! 0)) k"

definition unit_op :: "nval list \<Rightarrow> (nat \<Rightarrow> (unit, 'u) net) \<Rightarrow> (nval, 'u) net" where
  "unit_op args f = on_handle args (\<lambda>i. or_capability (f i) (\<lambda>_. nret NNull))"

definition addr_op :: "'u net_env \<Rightarrow> nval list \<Rightarrow> (nat \<Rightarrow> (byte list, 'u) net) \<Rightarrow> (nval, 'u) net" where
  "addr_op env args f = on_handle args (\<lambda>i. or_capability (f i) (makeDynString (nv_gc env)))"

definition deadline_op :: "nval list \<Rightarrow> (nat \<Rightarrow> int \<Rightarrow> (unit, 'u) net) \<Rightarrow> (nval, 'u) net" where
  "deadline_op args f = on_handle args (\<lambda>i. nbind (extractI64 (args ! 1)) (\<lambda>ms. or_capability (f i ms) (\<lambda>_. nret NNull)))"

definition net_read_impl :: "'u net_env \<Rightarrow> nval list \<Rightarrow> (nval, 'u) net" where
  "net_read_impl env args = on_handle args (\<lambda>i. nbind (extractUsize (nv_usize_max env) (args ! 1)) (\<lambda>max_bytes.
     ncatch (netRead env i max_bytes) (\<lambda>e. net_error_text e (error_value env)) (makeDynString (nv_gc env))))"

definition net_write_impl :: "'u net_env \<Rightarrow> nval list \<Rightarrow> (nval, 'u) net" where
  "net_write_impl env args = on_handle args (\<lambda>i. nbind (str_arg (args ! 1)) (\<lambda>data.
     ncatch (netWrite env i data) (\<lambda>e. net_error_text e (error_value env)) (\<lambda>n. nret (NInt (int n)))))"

fun net_body :: "'u net_env \<Rightarrow> net_native \<Rightarrow> nval list \<Rightarrow> (nval, 'u) net" where
  "net_body env cap_net_dial args = dialImpl env False args"
| "net_body env cap_net_dial_tls args = dialImpl env True args"
| "net_body env cap_net_listen args = net_listen_impl env args"
| "net_body env cap_net_listener_accept args = net_accept_impl env args"
| "net_body env cap_net_listener_close args = unit_op args (netListenerClose env)"
| "net_body env cap_net_listener_local_addr args = addr_op env args (netListenerLocalAddr env)"
| "net_body env cap_net_listener_set_accept_deadline args = deadline_op args (netListenerSetAcceptDeadline env)"
| "net_body env cap_net_read args = net_read_impl env args"
| "net_body env cap_net_write args = net_write_impl env args"
| "net_body env cap_net_close args = unit_op args (netClose env)"
| "net_body env cap_net_local_addr args = addr_op env args (netLocalAddr env)"
| "net_body env cap_net_remote_addr args = addr_op env args (netRemoteAddr env)"
| "net_body env cap_net_set_deadline args = deadline_op args (netSetDeadline env)"
| "net_body env cap_net_set_read_deadline args = deadline_op args (netSetReadDeadline env)"
| "net_body env cap_net_set_write_deadline args = deadline_op args (netSetWriteDeadline env)"

definition net_dispatch :: "'u net_env \<Rightarrow> net_native \<Rightarrow> nval list \<Rightarrow> (nval, 'u) net" where
  "net_dispatch env f args = (if length args \<noteq> net_arity f then nfail ArityMismatch else net_body env f args)"

text \<open>A script with its natives in any order, and the end of a runtime.\<close>

inductive net_reach :: "'u net_env \<Rightarrow> 'u net_world \<Rightarrow> 'u net_world \<Rightarrow> bool" for env where
  start: "net_reach env w w"
| native: "net_reach env w w1 \<Longrightarrow> net_dispatch env f args w1 = Some (r, w2) \<Longrightarrow> net_reach env w w2"
| reset: "net_reach env w w1 \<Longrightarrow> net_reach env w (netReset env w1)"

end
