(* ===== verification/CapNetProps.thy ===== *)
theory CapNetProps
  imports CapNet "HOL-Library.Multiset"
begin

text \<open>
  What the network capability promises, by way of a step relation: every native of a script is a sequence of the steps of
  \<open>micro\<close>, each of which changes the tables and calls at most one handler. The invariants of the tables and the rules about the handler
  calls are then proved step by step: an address that the policy refuses never reaches the host, a handle is used only between the host's giving
  it and its close, and ids name one connection each.
\<close>

section \<open>Steps\<close>

definition conn_use :: "'u gengo_net_handlers_t \<Rightarrow> int \<Rightarrow> 'u \<Rightarrow> 'u \<Rightarrow> bool" where
  "conn_use nh h u u' \<longleftrightarrow> (\<exists>f k n st. nh_read nh = Some f \<and> f h k u = (n, st, u')) \<or> (\<exists>f b n. nh_write nh = Some f \<and> f h b u = (n, u'))
     \<or> (\<exists>f k st. (nh_local_addr nh = Some f \<or> nh_remote_addr nh = Some f) \<and> f h k u = (st, u'))
     \<or> (\<exists>f ms. (nh_set_deadline nh = Some f \<or> nh_set_read_deadline nh = Some f \<or> nh_set_write_deadline nh = Some f) \<and> f h ms u = u')"

definition listener_use :: "'u gengo_net_handlers_t \<Rightarrow> int \<Rightarrow> 'u \<Rightarrow> 'u \<Rightarrow> bool" where
  "listener_use nh h u u' \<longleftrightarrow> (\<exists>f k st. nh_listener_local_addr nh = Some f \<and> f h k u = (st, u'))
     \<or> (\<exists>f ms. nh_set_accept_deadline nh = Some f \<and> f h ms u = u')"

definition may_dial :: "'u net_env \<Rightarrow> byte list \<Rightarrow> bool" where
  "may_dial env address \<longleftrightarrow> nv_scope_dial env \<and> checkDialPolicy (nv_ip6 env) (nv_dial env) address"

definition may_listen :: "'u net_env \<Rightarrow> byte list \<Rightarrow> bool" where
  "may_listen env address \<longleftrightarrow> nv_scope_listen env \<and> checkListenPolicy (nv_ip6 env) (nv_listen env) address"

inductive micro :: "'u net_env \<Rightarrow> 'u net_world \<Rightarrow> 'u net_world \<Rightarrow> bool" for env where
  set_error: "micro env w (setNetErr msg w)"
| no_error: "micro env w (w\<lparr>nw_err_len := 0\<rparr>)"
| new_slice: "s = lastNetErr w \<or> (\<exists>b. s = Owned b) \<Longrightarrow> length (nw_slices w) < nv_max_slices env \<Longrightarrow> micro env w (w\<lparr>nw_slices := nw_slices w @ [s]\<rparr>)"
| dial_failed: "nh_dial (nv_handlers env) = Some f \<Longrightarrow> may_dial env a \<Longrightarrow> f n a (nw_host w) = (rc, out, u) \<Longrightarrow> rc < 0 \<Longrightarrow> micro env w (w\<lparr>nw_host := u\<rparr>)"
| dialled: "nh_dial (nv_handlers env) = Some f \<Longrightarrow> may_dial env a \<Longrightarrow> f n a (nw_host w) = (rc, Some h, u) \<Longrightarrow> 0 \<le> rc \<Longrightarrow> length (nw_conns w) < MaxConns
    \<Longrightarrow> nw_next_id w + 1 < 2 ^ 32
    \<Longrightarrow> micro env w (w\<lparr>nw_host := u, nw_next_id := nw_next_id w + 1, nw_conns := nw_conns w @ [\<lparr>ne_id = nw_next_id w, ne_handle = h\<rparr>]\<rparr>)"
| listen_failed: "nh_listen (nv_handlers env) = Some f \<Longrightarrow> may_listen env a \<Longrightarrow> f n a (nw_host w) = (rc, out, u) \<Longrightarrow> rc < 0 \<Longrightarrow> micro env w (w\<lparr>nw_host := u\<rparr>)"
| listening: "nh_listen (nv_handlers env) = Some f \<Longrightarrow> may_listen env a \<Longrightarrow> f n a (nw_host w) = (rc, Some h, u) \<Longrightarrow> 0 \<le> rc
    \<Longrightarrow> length (nw_listeners w) < MaxListeners \<Longrightarrow> nw_next_listener_id w + 1 < 2 ^ 32
    \<Longrightarrow> micro env w (w\<lparr>nw_host := u, nw_next_listener_id := nw_next_listener_id w + 1,
          nw_listeners := nw_listeners w @ [\<lparr>ne_id = nw_next_listener_id w, ne_handle = h\<rparr>]\<rparr>)"
| not_accepted: "nh_accept (nv_handlers env) = Some f \<Longrightarrow> l \<in> set (nw_listeners w) \<Longrightarrow> f (ne_handle l) (nw_host w) = (rc, out, u)
    \<Longrightarrow> rc \<le> 0 \<or> MaxConns \<le> length (nw_conns w) \<Longrightarrow> micro env w (w\<lparr>nw_host := u\<rparr>)"
| accepted: "nh_accept (nv_handlers env) = Some f \<Longrightarrow> l \<in> set (nw_listeners w) \<Longrightarrow> f (ne_handle l) (nw_host w) = (rc, Some h, u)
    \<Longrightarrow> 0 < rc \<Longrightarrow> length (nw_conns w) < MaxConns \<Longrightarrow> nw_next_id w + 1 < 2 ^ 32
    \<Longrightarrow> micro env w (w\<lparr>nw_host := u, nw_next_id := nw_next_id w + 1, nw_conns := nw_conns w @ [\<lparr>ne_id = nw_next_id w, ne_handle = h\<rparr>]\<rparr>)"
| conn_used: "c \<in> set (nw_conns w) \<Longrightarrow> conn_use (nv_handlers env) (ne_handle c) (nw_host w) u \<Longrightarrow> micro env w (w\<lparr>nw_host := u\<rparr>)"
| listener_used: "l \<in> set (nw_listeners w) \<Longrightarrow> listener_use (nv_handlers env) (ne_handle l) (nw_host w) u \<Longrightarrow> micro env w (w\<lparr>nw_host := u\<rparr>)"
| conn_closed: "find_entry i (nw_conns w) = Some c \<Longrightarrow> u = (case nh_close (nv_handlers env) of None \<Rightarrow> nw_host w | Some f \<Rightarrow> f (ne_handle c) (nw_host w))
    \<Longrightarrow> micro env w (w\<lparr>nw_host := u, nw_conns := remove_entry i (nw_conns w)\<rparr>)"
| listener_closed: "find_entry i (nw_listeners w) = Some l
    \<Longrightarrow> u = (case nh_listener_close (nv_handlers env) of None \<Rightarrow> nw_host w | Some f \<Rightarrow> f (ne_handle l) (nw_host w))
    \<Longrightarrow> micro env w (w\<lparr>nw_host := u, nw_listeners := remove_entry i (nw_listeners w)\<rparr>)"
| net_reset: "micro env w (netReset env w)"

definition steps_at :: "'u net_env \<Rightarrow> ('a, 'u) net \<Rightarrow> 'u net_world \<Rightarrow> bool" where
  "steps_at env m w \<longleftrightarrow> (\<forall>r w'. m w = Some (r, w') \<longrightarrow> (micro env)\<^sup>*\<^sup>* w w')"

named_theorems net_steps \<open>operations as sequences of steps\<close>

lemma nw_call_cases: "nw_call f w = Some (r, w') \<longleftrightarrow> (\<exists>x u. f (nw_host w) = (x, u) \<and> r = Inr x \<and> w' = w\<lparr>nw_host := u\<rparr>)"
  by (auto simp: nw_call_def split: prod.split)

lemma nw_do_cases: "nw_do f w = Some (r, w') \<longleftrightarrow> r = Inr () \<and> w' = f w"
  by (auto simp: nw_do_def)

lemma nw_get_cases: "nw_get f w = Some (r, w') \<longleftrightarrow> r = Inr (f w) \<and> w' = w"
  by (auto simp: nw_get_def)

lemma net_fail_cases: "net_fail msg w = Some (r, w') \<longleftrightarrow> r = Inl NetError \<and> w' = setNetErr msg w"
  by (auto simp: net_fail_def native_cases nw_do_cases)

lemma or_msg_cases: "or_msg x msg w = Some (r, w') \<longleftrightarrow>
    (case x of None \<Rightarrow> r = Inl NetError \<and> w' = setNetErr msg w | Some y \<Rightarrow> r = Inr y \<and> w' = w)"
  by (auto simp: or_msg_def native_cases net_fail_cases split: option.split)

lemmas net_cases = native_cases nw_call_cases nw_do_cases nw_get_cases net_fail_cases or_msg_cases

lemma steps_nbind [net_steps]:
  assumes "steps_at env m w" and "\<And>x w1. m w = Some (Inr x, w1) \<Longrightarrow> steps_at env (k x) w1"
  shows "steps_at env (nbind m k) w"
  using assms unfolding steps_at_def nbind_cases by (meson rtranclp_trans)

lemma steps_ncatch [net_steps]:
  assumes "steps_at env m w" and "\<And>x w1. m w = Some (Inr x, w1) \<Longrightarrow> steps_at env (k x) w1" and "\<And>e w1. m w = Some (Inl e, w1) \<Longrightarrow> steps_at env (h e) w1"
  shows "steps_at env (ncatch m h k) w"
proof -
  have "(micro env)\<^sup>*\<^sup>* w w'" if "ncatch m h k w = Some (r, w')" for r w'
    using that assms unfolding steps_at_def
    by (auto simp: ncatch_def split: option.splits sum.splits prod.splits intro: rtranclp_trans)
  then show ?thesis by (simp add: steps_at_def)
qed

lemma steps_same: "(\<And>r w'. m w = Some (r, w') \<Longrightarrow> w' = w) \<Longrightarrow> steps_at env m w"
  by (auto simp: steps_at_def)

lemma steps_one: "(\<And>r w'. m w = Some (r, w') \<Longrightarrow> w' = w \<or> micro env w w') \<Longrightarrow> steps_at env m w"
  by (auto simp: steps_at_def)

lemma steps_pure [net_steps]:
  "steps_at env (nret x) w" "steps_at env (nfail e) w" "steps_at env npanic w" "steps_at env (norelse o1 e) w" "steps_at env (nguard b e) w"
  "steps_at env (nw_get f) w" "steps_at env (makeDynString gc s) w" "steps_at env (findConn i) w" "steps_at env (findListener i) w"
  by (rule steps_same, simp add: net_cases npanic_apply findConn_def findListener_def)+

lemma steps_errors [net_steps]:
  "steps_at env (net_fail msg) w" "steps_at env clear_net_err w" "steps_at env (or_msg o1 msg) w"
  by (rule steps_one, auto simp: net_cases clear_net_err_def intro: micro.intros split: option.splits)+

lemma steps_intern [net_steps]: "s = lastNetErr w \<or> (\<exists>b. s = Owned b) \<Longrightarrow> steps_at env (internStr (nv_max_slices env) s) w"
  by (rule steps_one) (auto simp: internStr_def Let_def intro!: micro.new_slice split: option.splits if_splits)

lemma steps_error_value [net_steps]: "s = lastNetErr w \<or> (\<exists>b. s = Owned b) \<Longrightarrow> steps_at env (error_value env s) w"
  unfolding error_value_def by (intro net_steps)

lemma steps_err_pair [net_steps]: "s = lastNetErr w \<or> (\<exists>b. s = Owned b) \<Longrightarrow> steps_at env (err_pair env s) w"
  unfolding err_pair_def by (intro net_steps)

lemma steps_last_err [net_steps]:
  "(\<And>s. s = lastNetErr w \<or> (\<exists>b. s = Owned b) \<Longrightarrow> steps_at env (k s) w) \<Longrightarrow> steps_at env (last_err_then k) w"
  unfolding last_err_then_def by (rule steps_nbind) (auto simp: net_cases intro: net_steps)

lemma steps_error_text [net_steps]:
  "(\<And>s. s = lastNetErr w \<or> (\<exists>b. s = Owned b) \<Longrightarrow> steps_at env (k s) w) \<Longrightarrow> steps_at env (net_error_text e k) w"
  unfolding net_error_text_def by (auto intro: net_steps)

lemma steps_owned [net_steps]: "steps_at env (internStr (nv_max_slices env) (Owned b)) w" "steps_at env (error_value env (Owned b)) w"
    "steps_at env (err_pair env (Owned b)) w"
  by (simp_all add: steps_intern steps_error_value steps_err_pair)

lemma steps_results [net_steps]: "steps_at env (handle_value env typ i) w" "steps_at env (ok_pair env v) w"
  unfolding handle_value_def ok_pair_def by (intro net_steps)+

lemma steps_args [net_steps]:
  "steps_at env (extractHandle a) w" "steps_at env (extractUsize n a) w" "steps_at env (extractI64 a) w" "steps_at env (str_arg a) w"
  by (auto simp: extractHandle_def extractUsize_def extractI64_def str_arg_def Let_def intro: net_steps split: nval.split list.split)

lemma find_entry_in: "find_entry i es = Some c \<Longrightarrow> c \<in> set es \<and> ne_id c = i"
  by (auto simp: find_entry_def find_Some_iff)

lemma add_conn_cases: "add_conn out w = Some (r, w') \<longleftrightarrow> (\<exists>h. out = Some h \<and> nw_next_id w + 1 \<noteq> 2 ^ 32 \<and> r = Inr (nw_next_id w)
    \<and> w' = w\<lparr>nw_next_id := nw_next_id w + 1, nw_conns := nw_conns w @ [\<lparr>ne_id = nw_next_id w, ne_handle = h\<rparr>]\<rparr>)"
  by (auto simp: add_conn_def Let_def split: option.split)

lemma add_listener_cases: "add_listener out w = Some (r, w') \<longleftrightarrow> (\<exists>h. out = Some h \<and> nw_next_listener_id w + 1 \<noteq> 2 ^ 32 \<and> r = Inr (nw_next_listener_id w)
    \<and> w' = w\<lparr>nw_next_listener_id := nw_next_listener_id w + 1, nw_listeners := nw_listeners w @ [\<lparr>ne_id = nw_next_listener_id w, ne_handle = h\<rparr>]\<rparr>)"
  by (auto simp: add_listener_def Let_def split: option.split)

text \<open>The steps keep the counters of ids below \<open>2 ^ 32\<close>, which the rules for new entries ask for.\<close>

definition ids_small :: "'u net_world \<Rightarrow> bool" where
  "ids_small w \<longleftrightarrow> nw_next_id w < 2 ^ 32 \<and> nw_next_listener_id w < 2 ^ 32"

lemma steps_or_msg: "(\<And>f. x = Some f \<Longrightarrow> steps_at env (k f) w) \<Longrightarrow> steps_at env (nbind (or_msg x msg) k) w"
  by (cases x) (auto simp: steps_at_def net_cases intro: micro.set_error)

lemma steps_open:
  assumes "\<And>rc out u. f (nw_host w) = (rc, out, u) \<Longrightarrow> rc < 0 \<Longrightarrow> micro env w (w\<lparr>nw_host := u\<rparr>)"
    and "\<And>rc out u r w'. f (nw_host w) = (rc, out, u) \<Longrightarrow> \<not> rc < 0 \<Longrightarrow> k out (w\<lparr>nw_host := u\<rparr>) = Some (r, w') \<Longrightarrow> (micro env)\<^sup>*\<^sup>* w w'"
  shows "steps_at env (nbind (nw_call (\<lambda>u. out3 (f u))) (\<lambda>(rc, out). if rc < 0 then net_fail (msg rc) else k out)) w"
  unfolding steps_at_def
proof (intro allI impI)
  fix r w' assume "nbind (nw_call (\<lambda>u. out3 (f u))) (\<lambda>(rc, out). if rc < 0 then net_fail (msg rc) else k out) w = Some (r, w')"
  then obtain rc out u where u: "f (nw_host w) = (rc, out, u)"
    and k: "(if rc < 0 then net_fail (msg rc) else k out) (w\<lparr>nw_host := u\<rparr>) = Some (r, w')"
    by (auto simp: net_cases out3_def split: prod.splits)
  show "(micro env)\<^sup>*\<^sup>* w w'"
  proof (cases "rc < 0")
    case True
    have "micro env (w\<lparr>nw_host := u\<rparr>) w'" using k True by (auto simp: net_fail_cases intro: micro.set_error)
    then show ?thesis using assms(1) [OF u True] by (meson rtranclp.simps)
  qed (use k assms(2) [OF u] in auto)
qed

lemma steps_dial: "may_dial env a \<Longrightarrow> ids_small w \<Longrightarrow> steps_at env (netDial env n a) w"
  unfolding netDial_def
proof (intro net_steps, goal_cases)
  case (1 x w1 full w2)
  note st = this
  show ?case
  proof (cases full)
    case False
    then have w2: "w2 = w\<lparr>nw_err_len := 0\<rparr>" "length (nw_conns w2) < MaxConns"
      using st by (auto simp: net_cases clear_net_err_def)
    show ?thesis
      unfolding if_not_P [OF False]
    proof (rule steps_or_msg, rule steps_open)
      fix f rc out u assume f: "nh_dial (nv_handlers env) = Some f" and u: "f n a (nw_host w2) = (rc, out, u)"
      show "rc < 0 \<Longrightarrow> micro env w2 (w2\<lparr>nw_host := u\<rparr>)" by (rule micro.dial_failed [OF f st(1) u])
      show "(micro env)\<^sup>*\<^sup>* w2 w'" if "\<not> rc < 0" "add_conn out (w2\<lparr>nw_host := u\<rparr>) = Some (r, w')" for r w'
        using that u st(2) w2(2) micro.dialled [OF f st(1), of n w2 rc _ u] by (auto simp: add_conn_cases ids_small_def w2(1))
    qed
  qed (simp add: net_steps)
qed

lemma steps_listen: "may_listen env a \<Longrightarrow> ids_small w \<Longrightarrow> steps_at env (netListen env n a) w"
  unfolding netListen_def
proof (intro net_steps, goal_cases)
  case (1 x w1 full w2)
  note st = this
  show ?case
  proof (cases full)
    case False
    then have w2: "w2 = w\<lparr>nw_err_len := 0\<rparr>" "length (nw_listeners w2) < MaxListeners"
      using st by (auto simp: net_cases clear_net_err_def)
    show ?thesis
      unfolding if_not_P [OF False]
    proof (rule steps_or_msg, rule steps_open)
      fix f rc out u assume f: "nh_listen (nv_handlers env) = Some f" and u: "f n a (nw_host w2) = (rc, out, u)"
      show "rc < 0 \<Longrightarrow> micro env w2 (w2\<lparr>nw_host := u\<rparr>)" by (rule micro.listen_failed [OF f st(1) u])
      show "(micro env)\<^sup>*\<^sup>* w2 w'" if "\<not> rc < 0" "add_listener out (w2\<lparr>nw_host := u\<rparr>) = Some (r, w')" for r w'
        using that u st(2) w2(2) micro.listening [OF f st(1), of n w2 rc _ u] by (auto simp: add_listener_cases ids_small_def w2(1))
    qed
  qed (simp add: net_steps)
qed

lemma steps_accept: "ids_small w \<Longrightarrow> steps_at env (netListenerAccept env i) w"
  unfolding netListenerAccept_def
proof (rule steps_nbind, rule net_steps, rule steps_nbind, rule net_steps, goal_cases)
  case (1 x w1 found w2)
  note st = this
  have w2: "w2 = w\<lparr>nw_err_len := 0\<rparr>" "found = find_entry i (nw_listeners w2)"
    using st by (auto simp: net_cases clear_net_err_def findListener_def)
  show ?case
  proof (rule steps_or_msg, rule steps_or_msg)
    fix l f assume l: "found = Some l" and f: "nh_accept (nv_handlers env) = Some f"
    have l_in: "l \<in> set (nw_listeners w2)" using find_entry_in l w2(2) by metis
    show "steps_at env (nbind (nw_call (\<lambda>u. out3 (f (ne_handle l) u))) (\<lambda>(rc, out_handle).
       if rc = 0 then nfail DeadlineExceeded
       else if rc < 0 then net_fail (bytes_of ''accept: host handler returned error '' @ dec_int rc)
       else nbind (nw_get (\<lambda>w. MaxConns \<le> length (nw_conns w))) (\<lambda>full.
         if full then net_fail (bytes_of ''too many connections (max 16)'') else add_conn out_handle))) w2"
      unfolding steps_at_def
    proof (intro allI impI)
      fix r w' assume run: "nbind (nw_call (\<lambda>u. out3 (f (ne_handle l) u))) (\<lambda>(rc, out_handle).
         if rc = 0 then nfail DeadlineExceeded
         else if rc < 0 then net_fail (bytes_of ''accept: host handler returned error '' @ dec_int rc)
         else nbind (nw_get (\<lambda>w. MaxConns \<le> length (nw_conns w))) (\<lambda>full.
           if full then net_fail (bytes_of ''too many connections (max 16)'') else add_conn out_handle)) w2 = Some (r, w')"
      obtain rc out u where u: "f (ne_handle l) (nw_host w2) = (rc, out, u)" by (cases "f (ne_handle l) (nw_host w2)")
      show "(micro env)\<^sup>*\<^sup>* w2 w'"
      proof (cases "rc \<le> 0 \<or> MaxConns \<le> length (nw_conns w2)")
        case True
        have "micro env w2 (w2\<lparr>nw_host := u\<rparr>)" by (rule micro.not_accepted [OF f l_in u True])
        moreover have "w' = w2\<lparr>nw_host := u\<rparr> \<or> micro env (w2\<lparr>nw_host := u\<rparr>) w'"
          using run u True by (auto simp: net_cases out3_def add_conn_cases intro: micro.set_error split: if_splits)
        ultimately show ?thesis by (meson rtranclp.simps)
      next
        case False
        then show ?thesis using run u micro.accepted [OF f l_in, of rc _ u] st(1)
          by (auto simp: net_cases out3_def add_conn_cases ids_small_def w2(1) split: if_splits)
      qed
    qed
  qed
qed

lemma nw_unit_cases: "nw_unit g w = Some (r, w') \<longleftrightarrow> r = Inr () \<and> w' = (case g of None \<Rightarrow> w | Some f \<Rightarrow> w\<lparr>nw_host := f (nw_host w)\<rparr>)"
  by (auto simp: nw_unit_def net_cases split: option.split)

lemma steps_close: "steps_at env (netClose env i) w"
proof -
  have "w' = w \<or> micro env w w'" if "netClose env i w = Some (r, w')" for r w'
    using that micro.conn_closed [of i w _ _ env]
    by (auto simp: netClose_def net_cases findConn_def removeConn_def nw_unit_cases split: option.splits)
  then show ?thesis by (rule steps_one)
qed

lemma steps_listener_close: "steps_at env (netListenerClose env i) w"
proof -
  have "w' = w \<or> micro env w w'" if "netListenerClose env i w = Some (r, w')" for r w'
    using that micro.listener_closed [of i w _ _ env]
    by (auto simp: netListenerClose_def net_cases findListener_def removeListener_def nw_unit_cases split: option.splits)
  then show ?thesis by (rule steps_one)
qed

lemma steps_addr:
  assumes "\<And>c f k u st u'. found = Some c \<Longrightarrow> cb = Some f \<Longrightarrow> f (ne_handle c) k u = (st, u') \<Longrightarrow> u = nw_host w \<Longrightarrow> micro env w (w\<lparr>nw_host := u'\<rparr>)"
  shows "steps_at env (addr_of env found cb) w"
proof (rule steps_one)
  fix r w' assume "addr_of env found cb w = Some (r, w')"
  then show "w' = w \<or> micro env w w'"
    using assms by (auto simp: addr_of_def net_cases npanic_apply Let_def split: option.split_asm if_split_asm)
qed

lemma steps_time:
  assumes "\<And>c f. found = Some c \<Longrightarrow> cb = Some f \<Longrightarrow> micro env w (w\<lparr>nw_host := f (ne_handle c) ms (nw_host w)\<rparr>)"
  shows "steps_at env (time_on found cb ms) w"
proof (rule steps_one)
  fix r w' assume "time_on found cb ms w = Some (r, w')"
  then show "w' = w \<or> micro env w w'"
    using assms by (auto simp: time_on_def net_cases nw_unit_cases split: option.split_asm)
qed

lemma steps_found:
  "(\<And>c. find_entry i (nw_conns w) = c \<Longrightarrow> steps_at env (k c) w) \<Longrightarrow> steps_at env (nbind (findConn i) k) w"
  "(\<And>c. find_entry i (nw_listeners w) = c \<Longrightarrow> steps_at env (k c) w) \<Longrightarrow> steps_at env (nbind (findListener i) k) w"
  by (rule steps_nbind, rule net_steps, simp add: net_cases findConn_def findListener_def)+

lemma conn_use_addr: "nh_local_addr nh = Some f \<or> nh_remote_addr nh = Some f \<Longrightarrow> f h k u = (st, u') \<Longrightarrow> conn_use nh h u u'"
  unfolding conn_use_def by blast

lemma conn_use_time: "nh_set_deadline nh = Some f \<or> nh_set_read_deadline nh = Some f \<or> nh_set_write_deadline nh = Some f
    \<Longrightarrow> conn_use nh h u (f h ms u)"
  unfolding conn_use_def by blast

lemma listener_use_intros: "nh_listener_local_addr nh = Some f \<Longrightarrow> f h k u = (st, u') \<Longrightarrow> listener_use nh h u u'"
    "nh_set_accept_deadline nh = Some g \<Longrightarrow> listener_use nh h u (g h ms u)"
  unfolding listener_use_def by blast+

lemma conn_use_rw: "nh_read nh = Some f \<Longrightarrow> f h k u = (n, st, u') \<Longrightarrow> conn_use nh h u u'"
    "nh_write nh = Some g \<Longrightarrow> g h b u = (n, u') \<Longrightarrow> conn_use nh h u u'"
  unfolding conn_use_def by blast+

lemma micro_conn: "find_entry i (nw_conns w) = Some c \<Longrightarrow> conn_use (nv_handlers env) (ne_handle c) (nw_host w) u \<Longrightarrow> micro env w (w\<lparr>nw_host := u\<rparr>)"
  by (rule micro.conn_used [where c = c]) (auto dest: find_entry_in)

lemma micro_listener: "find_entry i (nw_listeners w) = Some c \<Longrightarrow> listener_use (nv_handlers env) (ne_handle c) (nw_host w) u
    \<Longrightarrow> micro env w (w\<lparr>nw_host := u\<rparr>)"
  by (rule micro.listener_used [where l = c]) (auto dest: find_entry_in)

lemma steps_conn_addr:
  assumes "cb = nh_local_addr (nv_handlers env) \<or> cb = nh_remote_addr (nv_handlers env)"
  shows "steps_at env (nbind (findConn i) (\<lambda>c. addr_of env c cb)) w"
proof (rule steps_found, rule steps_addr)
  fix c ca f k u st u'
  assume h: "find_entry i (nw_conns w) = c" "c = Some ca" "cb = Some f" "f (ne_handle ca) k u = (st, u')" "u = nw_host w"
  have "conn_use (nv_handlers env) (ne_handle ca) (nw_host w) u'" by (rule conn_use_addr [of _ f _ k _ st]) (use assms h in auto)
  then show "micro env w (w\<lparr>nw_host := u'\<rparr>)" by (rule micro_conn [of i, rotated]) (simp add: h)
qed

lemma steps_conn_time:
  assumes "cb = nh_set_deadline (nv_handlers env) \<or> cb = nh_set_read_deadline (nv_handlers env) \<or> cb = nh_set_write_deadline (nv_handlers env)"
  shows "steps_at env (nbind (findConn i) (\<lambda>c. time_on c cb ms)) w"
proof (rule steps_found, rule steps_time)
  fix c ca f assume h: "find_entry i (nw_conns w) = c" "c = Some ca" "cb = Some f"
  have "conn_use (nv_handlers env) (ne_handle ca) (nw_host w) (f (ne_handle ca) ms (nw_host w))" by (rule conn_use_time) (use assms h in auto)
  then show "micro env w (w\<lparr>nw_host := f (ne_handle ca) ms (nw_host w)\<rparr>)" by (rule micro_conn [of i, rotated]) (simp add: h)
qed

lemma steps_addresses: "steps_at env (netLocalAddr env i) w" "steps_at env (netRemoteAddr env i) w"
  unfolding netLocalAddr_def netRemoteAddr_def by (simp_all add: steps_conn_addr)

lemma steps_deadlines:
  "steps_at env (netSetDeadline env i ms) w" "steps_at env (netSetReadDeadline env i ms) w" "steps_at env (netSetWriteDeadline env i ms) w"
  unfolding netSetDeadline_def netSetReadDeadline_def netSetWriteDeadline_def by (simp_all add: steps_conn_time)

lemma steps_listener_addr: "steps_at env (netListenerLocalAddr env i) w"
  unfolding netListenerLocalAddr_def
proof (rule steps_found, rule steps_addr)
  fix c ca f k u st u'
  assume h: "find_entry i (nw_listeners w) = c" "c = Some ca" "nh_listener_local_addr (nv_handlers env) = Some f" "f (ne_handle ca) k u = (st, u')" "u = nw_host w"
  have "listener_use (nv_handlers env) (ne_handle ca) (nw_host w) u'" by (rule listener_use_intros(1) [OF h(3), of _ k _ st]) (use h in simp)
  then show "micro env w (w\<lparr>nw_host := u'\<rparr>)" by (rule micro_listener [of i, rotated]) (simp add: h)
qed

lemma steps_accept_deadline: "steps_at env (netListenerSetAcceptDeadline env i ms) w"
  unfolding netListenerSetAcceptDeadline_def
proof (rule steps_found, rule steps_time)
  fix c ca f assume h: "find_entry i (nw_listeners w) = c" "c = Some ca" "nh_set_accept_deadline (nv_handlers env) = Some f"
  show "micro env w (w\<lparr>nw_host := f (ne_handle ca) ms (nw_host w)\<rparr>)"
    by (rule micro_listener [of i, OF _ listener_use_intros(2) [OF h(3)]]) (simp add: h)
qed

lemma steps_read: "steps_at (env :: 'u net_env) (netRead env i n) w"
  unfolding netRead_def
proof (rule steps_nbind, rule net_steps, rule steps_found, rule steps_or_msg)
  fix x found c and w1 :: "'u net_world"
  assume "find_entry i (nw_conns w1) = found" "found = Some c"
  then have c: "c \<in> set (nw_conns w1)" using find_entry_in by metis
  show "steps_at env (nbind (nguard (nv_alloc env n) NativeOutOfMemory) (\<lambda>_.
     nbind (or_msg (nh_read (nv_handlers env)) (bytes_of ''read handler not registered'')) (\<lambda>read_fn.
     nbind (nw_call (\<lambda>u. out3 (read_fn (ne_handle c) (min n i32_max) u))) (\<lambda>(k, stored).
     if k < 0 then net_fail (bytes_of ''read: host handler returned error '' @ dec_int k)
     else if int n < k \<or> int (length stored) < k then npanic
     else nbind (nguard (nv_alloc env (nat k)) NativeOutOfMemory) (\<lambda>_. nret (take (nat k) stored)))))) w1"
  proof (rule steps_nbind, rule net_steps, rule steps_or_msg, rule steps_nbind)
    fix f y w2
    assume "nguard (nv_alloc env n) NativeOutOfMemory w1 = Some (Inr y, w2)" and f: "nh_read (nv_handlers env) = Some f"
    then have w2: "w2 = w1" by (simp add: net_cases)
    show "steps_at env (nw_call (\<lambda>u. out3 (f (ne_handle c) (min n i32_max) u))) w2"
    proof (rule steps_one)
      fix r w' assume "nw_call (\<lambda>u. out3 (f (ne_handle c) (min n i32_max) u)) w2 = Some (r, w')"
      then obtain a st u where "f (ne_handle c) (min n i32_max) (nw_host w1) = (a, st, u)" "w' = w1\<lparr>nw_host := u\<rparr>"
        by (auto simp: net_cases w2 out3_def split: prod.splits)
      then show "w' = w2 \<or> micro env w2 w'" using micro.conn_used [OF c conn_use_rw(1) [OF f]] w2 by blast
    qed
  qed (auto intro!: net_steps split: prod.split)
qed

lemma steps_write: "steps_at (env :: 'u net_env) (netWrite env i b) w"
  unfolding netWrite_def
proof (rule steps_nbind, rule net_steps, rule steps_found, rule steps_or_msg, rule steps_or_msg, rule steps_nbind)
  fix x found c f and w1 :: "'u net_world"
  assume "find_entry i (nw_conns w1) = found" "found = Some c" and f: "nh_write (nv_handlers env) = Some f"
  then have c: "c \<in> set (nw_conns w1)" using find_entry_in by metis
  show "steps_at env (nw_call (f (ne_handle c) (take i32_max b))) w1"
  proof (rule steps_one)
    fix r w' assume "nw_call (f (ne_handle c) (take i32_max b)) w1 = Some (r, w')"
    then obtain n u where "f (ne_handle c) (take i32_max b) (nw_host w1) = (n, u)" "w' = w1\<lparr>nw_host := u\<rparr>"
      by (auto simp: net_cases)
    then show "w' = w1 \<or> micro env w1 w'" using micro.conn_used [OF c conn_use_rw(2) [OF f]] by blast
  qed
qed (auto intro!: net_steps)

lemma steps_natives [net_steps]:
  "(\<And>i w. steps_at env (f i) w) \<Longrightarrow> steps_at env (unit_op args f) w"
  "(\<And>i w. steps_at env (g i) w) \<Longrightarrow> steps_at env (addr_op env args g) w"
  "(\<And>i ms w. steps_at env (h i ms) w) \<Longrightarrow> steps_at env (deadline_op args h) w"
  unfolding unit_op_def addr_op_def deadline_op_def on_handle_def or_capability_def by (intro net_steps; assumption)+

lemma args_same: "str_arg v w = Some (q, w1) \<Longrightarrow> w1 = w" "extractHandle v w = Some (q', w1) \<Longrightarrow> w1 = w"
  by (auto simp: str_arg_def extractHandle_def net_cases npanic_apply split: nval.splits list.splits if_splits)

lemma steps_str_arg: "(\<And>x. asStringValue v = Some x \<Longrightarrow> steps_at env (k x) w) \<Longrightarrow> steps_at env (nbind (str_arg v) k) w"
  by (rule steps_nbind, rule net_steps) (auto simp: str_arg_def net_cases split: option.splits)

lemma steps_handle: "(\<And>x. steps_at env (k x) w) \<Longrightarrow> steps_at env (nbind (extractHandle v) k) w"
  by (rule steps_nbind, rule net_steps) (auto dest: args_same(2))

lemma steps_dialImpl: "ids_small w \<Longrightarrow> steps_at env (dialImpl env tls args) w"
proof -
  assume small: "ids_small w"
  have tls: "steps_at env (netDialTls env n a) v" for n a v
    by (simp add: netDialTls_def net_steps)
  have dial: "steps_at env (netDial env n a) w" if "nv_scope_dial env" "checkDialPolicy (nv_ip6 env) (nv_dial env) a" for n a
    using that steps_dial small by (auto simp: may_dial_def)
  show ?thesis
    unfolding dialImpl_def
    by (intro steps_str_arg) (auto intro!: net_steps dial tls)
qed

lemma steps_listenImpl: "ids_small w \<Longrightarrow> steps_at env (net_listen_impl env args) w"
  unfolding net_listen_impl_def by (intro steps_str_arg) (auto simp: may_listen_def intro!: net_steps steps_listen)

lemma steps_dispatch: "ids_small w \<Longrightarrow> steps_at env (net_dispatch env f args) w"
  unfolding net_dispatch_def
  by (cases f) (auto simp: net_accept_impl_def net_read_impl_def net_write_impl_def on_handle_def
      intro!: net_steps steps_handle steps_str_arg steps_dialImpl steps_listenImpl steps_accept steps_close steps_listener_close steps_read steps_write
        steps_addresses steps_listener_addr steps_deadlines steps_accept_deadline)

section \<open>Reachable states\<close>

definition table_ok :: "nat \<Rightarrow> nat \<Rightarrow> net_entry list \<Rightarrow> bool" where
  "table_ok mx nxt es \<longleftrightarrow> length es \<le> mx \<and> distinct (map ne_id es) \<and> (\<forall>c \<in> set es. 0 < ne_id c \<and> ne_id c < nxt) \<and> 0 < nxt"

definition net_ok :: "'u net_env \<Rightarrow> 'u net_world \<Rightarrow> bool" where
  "net_ok env w \<longleftrightarrow> table_ok MaxConns (nw_next_id w) (nw_conns w) \<and> table_ok MaxListeners (nw_next_listener_id w) (nw_listeners w)
     \<and> ids_small w \<and> length (nw_err_buf w) = 256 \<and> nw_err_len w \<le> 256 \<and> length (nw_slices w) \<le> nv_max_slices env"

lemma find_index_Some: "find_index p xs = Some i \<Longrightarrow> i < length xs \<and> p (xs ! i) \<and> (\<forall>j < i. \<not> p (xs ! j))"
proof (induction xs arbitrary: i)
  case (Cons x xs)
  then show ?case by (auto split: if_splits simp: less_Suc_eq_0_disj)
qed simp

lemma find_index_None: "find_index p xs = None \<longleftrightarrow> (\<forall>x \<in> set xs. \<not> p x)"
  by (induction xs) auto

text \<open>Replacing an element by the last one and dropping the last one removes the element.\<close>

lemma mset_swap_remove:
  assumes "k < length xs"
  shows "mset (butlast (xs[k := last xs])) = mset xs - {#xs ! k#}"
proof -
  have ne: "xs \<noteq> []" using assms by auto
  then obtain ys y where ys: "xs = ys @ [y]" by (metis append_butlast_last_id)
  show ?thesis
  proof (cases "k < length ys")
    case True
    then show ?thesis by (simp add: ys list_update_append nth_append mset_update)
  next
    case False
    then show ?thesis using assms by (simp add: ys list_update_append nth_append)
  qed
qed

lemma remove_entry_mset:
  "find_entry i es = Some c \<Longrightarrow> mset (remove_entry i es) = mset es - {#c#}"
proof -
  assume c: "find_entry i es = Some c"
  then have "find_index (\<lambda>c. ne_id c = i) es \<noteq> None"
    using find_entry_in [OF c] by (auto simp: find_index_None)
  then obtain k where k: "find_index (\<lambda>c. ne_id c = i) es = Some k" by blast
  obtain k' where k': "k' < length es" "ne_id (es ! k') = i" "c = es ! k'" "\<forall>j < k'. ne_id (es ! j) \<noteq> i"
    using c by (auto simp: find_entry_def find_Some_iff)
  have "\<not> k < k'" "\<not> k' < k" using find_index_Some [OF k] k' by auto
  then have "es ! k = c" using k'(3) by simp
  then show ?thesis using mset_swap_remove [of k es] find_index_Some [OF k] by (simp add: remove_entry_def k)
qed

lemma table_ok_remove:
  assumes "table_ok mx nxt es" "find_entry i es = Some c"
  shows "table_ok mx nxt (remove_entry i es)"
proof -
  have m: "mset (remove_entry i es) = mset (remove1 c es)" using remove_entry_mset [OF assms(2)] by simp
  have "mset (map ne_id (remove_entry i es)) = mset (map ne_id (remove1 c es))" using m by simp
  then have "distinct (map ne_id (remove_entry i es)) \<longleftrightarrow> distinct (map ne_id (remove1 c es))" by (rule mset_eq_imp_distinct_iff)
  moreover have "distinct (map ne_id (remove1 c es))"
    using assms(1) by (auto simp: table_ok_def distinct_map intro: inj_on_diff)
  moreover have "set (remove_entry i es) \<subseteq> set es" using mset_eq_setD [OF m] set_remove1_subset by metis
  moreover have "length (remove_entry i es) \<le> length es" using mset_eq_length [OF m] by (simp add: length_remove1)
  ultimately show ?thesis using assms(1) by (auto simp: table_ok_def)
qed

lemma table_ok_add: "table_ok mx nxt es \<Longrightarrow> length es < mx \<Longrightarrow> table_ok mx (nxt + 1) (es @ [\<lparr>ne_id = nxt, ne_handle = h\<rparr>])"
  by (auto simp: table_ok_def less_Suc_eq)

lemma length_setNetErr: "length (nw_err_buf w) = 256 \<Longrightarrow> length (nw_err_buf (setNetErr msg w)) = 256 \<and> nw_err_len (setNetErr msg w) \<le> 256"
  by (auto simp: setNetErr_def Let_def)

lemma setNetErr_keeps [simp]:
  "nw_host (setNetErr msg w) = nw_host w" "nw_conns (setNetErr msg w) = nw_conns w" "nw_listeners (setNetErr msg w) = nw_listeners w"
  "nw_next_id (setNetErr msg w) = nw_next_id w" "nw_next_listener_id (setNetErr msg w) = nw_next_listener_id w" "nw_slices (setNetErr msg w) = nw_slices w"
  by (simp_all add: setNetErr_def Let_def)

lemma micro_net_ok: "micro env w w' \<Longrightarrow> net_ok env w \<Longrightarrow> net_ok env w'"
proof (induction rule: micro.induct)
  case (set_error w msg)
  then show ?case using length_setNetErr [of w msg] by (simp add: net_ok_def ids_small_def)
next
  case (net_reset w)
  then show ?case by (simp add: net_ok_def ids_small_def netReset_def Let_def table_ok_def)
next
  case (dialled f a n w rc h u)
  then show ?case using table_ok_add [of MaxConns "nw_next_id w" "nw_conns w" h] by (simp add: net_ok_def ids_small_def)
next
  case (accepted f l w rc h u)
  then show ?case using table_ok_add [of MaxConns "nw_next_id w" "nw_conns w" h] by (simp add: net_ok_def ids_small_def)
next
  case (listening f a n w rc h u)
  then show ?case using table_ok_add [of MaxListeners "nw_next_listener_id w" "nw_listeners w" h] by (simp add: net_ok_def ids_small_def)
qed (auto simp: net_ok_def ids_small_def table_ok_remove)

lemma micros_net_ok: "(micro env)\<^sup>*\<^sup>* w w' \<Longrightarrow> net_ok env w \<Longrightarrow> net_ok env w'"
  by (induction rule: rtranclp_induct) (auto intro: micro_net_ok)

lemma reach_steps: "net_reach env w w' \<Longrightarrow> net_ok env w \<Longrightarrow> (micro env)\<^sup>*\<^sup>* w w'"
proof (induction rule: net_reach.induct)
  case (native w w1 f args r w2)
  then have "ids_small w1" using micros_net_ok by (auto simp: net_ok_def)
  then show ?case using native steps_dispatch unfolding steps_at_def by (meson rtranclp_trans)
next
  case (reset w w1)
  then show ?case using micro.net_reset by (meson rtranclp.rtrancl_into_rtrancl)
qed simp

lemma net_ok_start: "net_ok env (net_start u)"
  by (simp add: net_ok_def net_start_def table_ok_def ids_small_def)

text \<open>Induction over the steps of everything a script can do from the start.\<close>

lemma reach_induct:
  assumes "net_reach env (net_start u) w" and "P (net_start u)"
    and "\<And>w w'. micro env w w' \<Longrightarrow> net_ok env w \<Longrightarrow> P w \<Longrightarrow> P w'"
  shows "P w \<and> net_ok env w"
proof -
  have "(micro env)\<^sup>*\<^sup>* (net_start u) w" by (rule reach_steps [OF assms(1) net_ok_start])
  then show ?thesis
  proof (induction rule: rtranclp_induct)
    case base
    then show ?case using assms(2) net_ok_start by simp
  next
    case (step y z)
    then show ?case using assms(3) micro_net_ok by blast
  qed
qed

end
