(* ===== verification/CapNetTrace.thy ===== *)
theory CapNetTrace
  imports CapNetProps
begin

text \<open>
  The handler calls of a script as a log, the rules the log obeys in every reachable state, and the claims on the network
  capability.
\<close>

section \<open>The log\<close>

text \<open>A call that opens something is logged with its result code and the handle it stored.\<close>

datatype net_event =
    EvDial "byte list" int "int option"
  | EvBind "byte list" int "int option"
  | EvAccept int int "int option"
  | EvConn int
  | EvConnClose int
  | EvListener int
  | EvListenerClose int

type_synonym 'u log = "'u \<times> net_event list"

definition log_open :: "(byte list \<Rightarrow> int \<Rightarrow> int option \<Rightarrow> net_event) \<Rightarrow> 'u open_fn \<Rightarrow> 'u log open_fn" where
  "log_open ev f n a = (\<lambda>(u, t). case f n a u of (rc, out, u) \<Rightarrow> (rc, out, u, t @ [ev a rc out]))"

definition log_addr :: "(int \<Rightarrow> net_event) \<Rightarrow> 'u addr_fn \<Rightarrow> 'u log addr_fn" where
  "log_addr ev f h k = (\<lambda>(u, t). case f h k u of (st, u) \<Rightarrow> (st, u, t @ [ev h]))"

definition log_time :: "(int \<Rightarrow> net_event) \<Rightarrow> 'u time_fn \<Rightarrow> 'u log time_fn" where
  "log_time ev f h ms = (\<lambda>(u, t). (f h ms u, t @ [ev h]))"

definition log_close :: "(int \<Rightarrow> net_event) \<Rightarrow> (int \<Rightarrow> 'u \<Rightarrow> 'u) \<Rightarrow> int \<Rightarrow> 'u log \<Rightarrow> 'u log" where
  "log_close ev f h = (\<lambda>(u, t). (f h u, t @ [ev h]))"

definition net_logged :: "'u gengo_net_handlers_t \<Rightarrow> 'u log gengo_net_handlers_t" where
  "net_logged d = \<lparr>
     nh_dial = map_option (log_open EvDial) (nh_dial d),
     nh_read = map_option (\<lambda>f h k (u, t). case f h k u of (n, st, u) \<Rightarrow> (n, st, u, t @ [EvConn h])) (nh_read d),
     nh_write = map_option (\<lambda>f h b (u, t). case f h b u of (n, u) \<Rightarrow> (n, u, t @ [EvConn h])) (nh_write d),
     nh_close = map_option (log_close EvConnClose) (nh_close d),
     nh_local_addr = map_option (log_addr EvConn) (nh_local_addr d),
     nh_remote_addr = map_option (log_addr EvConn) (nh_remote_addr d),
     nh_set_deadline = map_option (log_time EvConn) (nh_set_deadline d),
     nh_set_read_deadline = map_option (log_time EvConn) (nh_set_read_deadline d),
     nh_set_write_deadline = map_option (log_time EvConn) (nh_set_write_deadline d),
     nh_listen = map_option (log_open EvBind) (nh_listen d),
     nh_accept = map_option (\<lambda>f l (u, t). case f l u of (rc, out, u) \<Rightarrow> (rc, out, u, t @ [EvAccept l rc out])) (nh_accept d),
     nh_listener_close = map_option (log_close EvListenerClose) (nh_listener_close d),
     nh_listener_local_addr = map_option (log_addr EvListener) (nh_listener_local_addr d),
     nh_set_accept_deadline = map_option (log_time EvListener) (nh_set_accept_deadline d)\<rparr>"

section \<open>The rules\<close>

text \<open>
  The handles that are open after an event, connections marked with \<open>True\<close> and listeners with \<open>False\<close>; \<open>None\<close> when the event uses or
  closes a handle that is not open.
\<close>

definition opened :: "bool \<Rightarrow> bool \<Rightarrow> int option \<Rightarrow> (bool \<times> int) multiset \<Rightarrow> (bool \<times> int) multiset" where
  "opened ok kind out M = (case out of Some h \<Rightarrow> if ok then add_mset (kind, h) M else M | None \<Rightarrow> M)"

fun track :: "net_event \<Rightarrow> (bool \<times> int) multiset \<Rightarrow> (bool \<times> int) multiset option" where
  "track (EvDial a rc out) M = Some (opened (0 \<le> rc) True out M)"
| "track (EvBind a rc out) M = Some (opened (0 \<le> rc) False out M)"
| "track (EvAccept l rc out) M = (if (False, l) \<in># M then Some (opened (0 < rc) True out M) else None)"
| "track (EvConn h) M = (if (True, h) \<in># M then Some M else None)"
| "track (EvConnClose h) M = (if (True, h) \<in># M then Some (M - {#(True, h)#}) else None)"
| "track (EvListener h) M = (if (False, h) \<in># M then Some M else None)"
| "track (EvListenerClose h) M = (if (False, h) \<in># M then Some (M - {#(False, h)#}) else None)"

fun track_all :: "net_event list \<Rightarrow> (bool \<times> int) multiset \<Rightarrow> (bool \<times> int) multiset option" where
  "track_all [] M = Some M"
| "track_all (e # es) M = (case track e M of None \<Rightarrow> None | Some M' \<Rightarrow> track_all es M')"

definition entry_handles :: "bool \<Rightarrow> net_entry list \<Rightarrow> (bool \<times> int) multiset" where
  "entry_handles kind es = image_mset (\<lambda>c. (kind, ne_handle c)) (mset es)"

definition live :: "'u net_world \<Rightarrow> (bool \<times> int) multiset" where
  "live w = entry_handles True (nw_conns w) + entry_handles False (nw_listeners w)"

definition permitted :: "'u net_env \<Rightarrow> net_event \<Rightarrow> bool" where
  "permitted env e \<longleftrightarrow> (case e of EvDial a rc out \<Rightarrow> may_dial env a | EvBind a rc out \<Rightarrow> may_listen env a | _ \<Rightarrow> True)"

definition log_ok :: "'u log net_env \<Rightarrow> 'u log net_world \<Rightarrow> bool" where
  "log_ok env w \<longleftrightarrow> (\<exists>M. track_all (snd (nw_host w)) {#} = Some M \<and> live w \<subseteq># M) \<and> list_all (permitted env) (snd (nw_host w))"

lemma track_all_append: "track_all (es @ fs) M = (case track_all es M of None \<Rightarrow> None | Some M' \<Rightarrow> track_all fs M')"
  by (induction es arbitrary: M) (auto split: option.split)

lemma log_ok_step:
  assumes "log_ok env w" and "snd (nw_host w') = snd (nw_host w) @ [e]" and "permitted env e"
    and "\<And>M. live w \<subseteq># M \<Longrightarrow> \<exists>M'. track e M = Some M' \<and> live w' \<subseteq># M'"
  shows "log_ok env w'"
proof -
  obtain M where M: "track_all (snd (nw_host w)) {#} = Some M" "live w \<subseteq># M" "list_all (permitted env) (snd (nw_host w))"
    using assms(1) by (auto simp: log_ok_def)
  obtain M' where "track e M = Some M'" "live w' \<subseteq># M'" using assms(4) [OF M(2)] by blast
  then show ?thesis using M assms(2,3) by (simp add: log_ok_def track_all_append)
qed

lemma log_ok_same: "log_ok env w \<Longrightarrow> nw_host w' = nw_host w \<Longrightarrow> nw_conns w' = nw_conns w \<Longrightarrow> nw_listeners w' = nw_listeners w \<Longrightarrow> log_ok env w'"
  by (simp add: log_ok_def live_def)

lemma in_live: "c \<in> set (nw_conns w) \<Longrightarrow> (True, ne_handle c) \<in># live w" "l \<in> set (nw_listeners w) \<Longrightarrow> (False, ne_handle l) \<in># live w"
  by (auto simp: live_def entry_handles_def)

lemma live_in: "x \<in># live w \<Longrightarrow> live w \<subseteq># M \<Longrightarrow> x \<in># M"
  by (rule mset_subset_eqD)

lemma subset_opened: "A \<subseteq># M \<Longrightarrow> A \<subseteq># opened ok kind out M"
  by (auto simp: opened_def split: option.split intro: subset_mset.order_trans [OF _ mset_subset_eq_add_right, of _ _ "{#_#}", simplified])

lemma live_add_conn: "live (w\<lparr>nw_host := u, nw_next_id := k, nw_conns := nw_conns w @ [\<lparr>ne_id = i, ne_handle = h\<rparr>]\<rparr>) = add_mset (True, h) (live w)"
  by (simp add: live_def entry_handles_def)

lemma live_add_listener:
  "live (w\<lparr>nw_host := u, nw_next_listener_id := k, nw_listeners := nw_listeners w @ [\<lparr>ne_id = i, ne_handle = h\<rparr>]\<rparr>) = add_mset (False, h) (live w)"
  by (simp add: live_def entry_handles_def)

lemma entry_handles_remove:
  "find_entry i es = Some c \<Longrightarrow> entry_handles kind (remove_entry i es) = entry_handles kind es - {#(kind, ne_handle c)#}"
  using remove_entry_mset [of i es c] find_entry_in [of i es c] by (simp add: entry_handles_def image_mset_Diff)

lemma live_remove_conn:
  assumes "find_entry i (nw_conns w) = Some c"
  shows "live (w\<lparr>nw_host := u, nw_conns := remove_entry i (nw_conns w)\<rparr>) = live w - {#(True, ne_handle c)#}"
proof -
  have "(True, ne_handle c) \<in># entry_handles True (nw_conns w)" using find_entry_in [OF assms] by (auto simp: entry_handles_def)
  then show ?thesis using entry_handles_remove [OF assms, of True] by (simp add: live_def)
qed

lemma live_remove_listener:
  assumes "find_entry i (nw_listeners w) = Some c"
  shows "live (w\<lparr>nw_host := u, nw_listeners := remove_entry i (nw_listeners w)\<rparr>) = live w - {#(False, ne_handle c)#}"
proof -
  have "(False, ne_handle c) \<in># entry_handles False (nw_listeners w)" using find_entry_in [OF assms] by (auto simp: entry_handles_def)
  then show ?thesis using entry_handles_remove [OF assms, of False] by (simp add: live_def)
qed

section \<open>Every step keeps the rules\<close>

lemma logged_open: "nh_dial (net_logged d) = Some f \<Longrightarrow> f n a (u, t) = (rc, out, v) \<Longrightarrow> snd v = t @ [EvDial a rc out]"
    "nh_listen (net_logged d) = Some g \<Longrightarrow> g n a (u, t) = (rc, out, v) \<Longrightarrow> snd v = t @ [EvBind a rc out]"
    "nh_accept (net_logged d) = Some k \<Longrightarrow> k l (u, t) = (rc, out, v) \<Longrightarrow> snd v = t @ [EvAccept l rc out]"
  by (auto simp: net_logged_def log_open_def split: prod.splits)

lemma logged_use: "conn_use (net_logged d) h (u, t) v \<Longrightarrow> snd v = t @ [EvConn h]"
    "listener_use (net_logged d) h (u, t) v \<Longrightarrow> snd v = t @ [EvListener h]"
  by (auto simp: conn_use_def listener_use_def net_logged_def log_addr_def log_time_def split: prod.splits)

lemma close_all_log:
  "\<exists>v. close_all (map_option (log_close ev) cb) cs (u, t) = (v, t @ (if cb = None then [] else map (\<lambda>c. ev (ne_handle c)) cs))"
proof (induction cs arbitrary: u t)
  case (Cons c cs)
  show ?case
  proof (cases cb)
    case None
    then show ?thesis using Cons by simp
  next
    case (Some f)
    then show ?thesis using Cons [of "f (ne_handle c) u" "t @ [ev (ne_handle c)]"] by (simp add: log_close_def)
  qed
qed simp

lemma track_closes:
  "entry_handles True cs \<subseteq># M \<Longrightarrow> track_all (map (\<lambda>c. EvConnClose (ne_handle c)) cs) M = Some (M - entry_handles True cs)"
  "entry_handles False cs \<subseteq># M \<Longrightarrow> track_all (map (\<lambda>c. EvListenerClose (ne_handle c)) cs) M = Some (M - entry_handles False cs)"
proof (induction cs arbitrary: M)
  case (Cons c cs)
  {
    case 1
    then have "(True, ne_handle c) \<in># M" "entry_handles True cs \<subseteq># M - {#(True, ne_handle c)#}"
      by (auto simp: entry_handles_def insert_subset_eq_iff)
    then show ?case using Cons(1) [of "M - {#(True, ne_handle c)#}"] by (simp add: entry_handles_def)
  next
    case 2
    then have "(False, ne_handle c) \<in># M" "entry_handles False cs \<subseteq># M - {#(False, ne_handle c)#}"
      by (auto simp: entry_handles_def insert_subset_eq_iff)
    then show ?case using Cons(2) [of "M - {#(False, ne_handle c)#}"] by (simp add: entry_handles_def)
  }
qed (simp_all add: entry_handles_def)

text \<open>What \<open>netReset\<close> adds to the log and leaves open.\<close>

definition reset_log :: "'u gengo_net_handlers_t \<Rightarrow> 'v net_world \<Rightarrow> net_event list" where
  "reset_log d w = (if nh_close d = None then [] else map (\<lambda>c. EvConnClose (ne_handle c)) (nw_conns w))
     @ (if nh_listener_close d = None then [] else map (\<lambda>c. EvListenerClose (ne_handle c)) (nw_listeners w))"

definition after_reset :: "'u gengo_net_handlers_t \<Rightarrow> 'v net_world \<Rightarrow> (bool \<times> int) multiset \<Rightarrow> (bool \<times> int) multiset" where
  "after_reset d w M = M - (if nh_close d = None then {#} else entry_handles True (nw_conns w))
     - (if nh_listener_close d = None then {#} else entry_handles False (nw_listeners w))"

lemma reset_logged:
  assumes "nv_handlers env = net_logged d"
  shows "snd (nw_host (netReset env w)) = snd (nw_host w) @ reset_log d w" "live (netReset env w) = {#}"
proof -
  obtain u t where h: "nw_host w = (u, t)" by (cases "nw_host w")
  obtain v where v: "close_all (nh_close (net_logged d)) (nw_conns w) (u, t) =
      (v, t @ (if nh_close d = None then [] else map (\<lambda>c. EvConnClose (ne_handle c)) (nw_conns w)))"
    using close_all_log [of EvConnClose "nh_close d" "nw_conns w" u t] by (simp add: net_logged_def) blast
  have l: "snd (close_all (nh_listener_close (net_logged d)) (nw_listeners w) (x, t')) =
      t' @ (if nh_listener_close d = None then [] else map (\<lambda>c. EvListenerClose (ne_handle c)) (nw_listeners w))" for x t'
    using close_all_log [of EvListenerClose "nh_listener_close d" "nw_listeners w" x t'] by (auto simp: net_logged_def)
  show "snd (nw_host (netReset env w)) = snd (nw_host w) @ reset_log d w"
    by (simp add: netReset_def Let_def h v l reset_log_def assms)
  show "live (netReset env w) = {#}" by (simp add: netReset_def Let_def live_def entry_handles_def)
qed

lemma track_reset: "live w \<subseteq># M \<Longrightarrow> track_all (reset_log d w) M = Some (after_reset d w M)"
proof -
  assume "live w \<subseteq># M"
  then have sum: "entry_handles True (nw_conns w) + entry_handles False (nw_listeners w) \<subseteq># M" by (simp add: live_def)
  then have c: "entry_handles True (nw_conns w) \<subseteq># M" by (rule subset_mset.order_trans [OF mset_subset_eq_add_left])
  have l: "entry_handles False (nw_listeners w) \<subseteq># M" using sum by (rule subset_mset.order_trans [OF mset_subset_eq_add_right])
  have l': "entry_handles False (nw_listeners w) \<subseteq># M - entry_handles True (nw_conns w)"
    using sum c by (simp add: subset_mset.le_diff_conv2 add.commute)
  show ?thesis
    using track_closes(1) [OF c] track_closes(2) [OF l] track_closes(2) [OF l'] by (auto simp: reset_log_def after_reset_def track_all_append)
qed

lemma log_ok_close:
  assumes "log_ok env w" "live w' = live w - {#x#}" "x \<in># live w" "nw_host w' = nw_host w \<or> snd (nw_host w') = snd (nw_host w) @ [e]"
    and "\<And>M. x \<in># M \<Longrightarrow> track e M = Some (M - {#x#})" "permitted env e"
  shows "log_ok env w'"
  using assms(4)
proof
  assume "nw_host w' = nw_host w"
  then show ?thesis using assms(1,2) by (auto simp: log_ok_def intro: subset_mset.order_trans [OF diff_subset_eq_self])
next
  assume "snd (nw_host w') = snd (nw_host w) @ [e]"
  then show ?thesis
  proof (rule log_ok_step [OF assms(1) _ assms(6)])
    fix M assume sub: "live w \<subseteq># M"
    have "live w' \<subseteq># M - {#x#}" using sub by (simp add: assms(2) subseteq_mset_def diff_le_mono)
    then show "\<exists>M'. track e M = Some M' \<and> live w' \<subseteq># M'" using assms(5) [OF live_in [OF assms(3) sub]] by blast
  qed
qed

lemma micro_log_ok:
  assumes "micro env w w'" "nv_handlers env = net_logged d" "log_ok env w"
  shows "log_ok env w'"
  using assms
proof (induction rule: micro.induct)
  case (dial_failed f a n w rc out u)
  then have "snd u = snd (nw_host w) @ [EvDial a rc out]" using logged_open(1) [of d f n a "fst (nw_host w)" "snd (nw_host w)"] by simp
  then show ?case using dial_failed by (intro log_ok_step [OF dial_failed.prems(2)]) (auto simp: permitted_def opened_def live_def split: option.split)
next
  case (dialled f a n w rc h u)
  then have "snd u = snd (nw_host w) @ [EvDial a rc (Some h)]" using logged_open(1) [of d f n a "fst (nw_host w)" "snd (nw_host w)"] by simp
  then show ?case using dialled live_add_conn [where w = w and u = u] by (intro log_ok_step [OF dialled.prems(2)]) (auto simp: permitted_def opened_def)
next
  case (listen_failed f a n w rc out u)
  then have "snd u = snd (nw_host w) @ [EvBind a rc out]" using logged_open(2) [of d f n a "fst (nw_host w)" "snd (nw_host w)"] by simp
  then show ?case using listen_failed by (intro log_ok_step [OF listen_failed.prems(2)]) (auto simp: permitted_def opened_def live_def split: option.split)
next
  case (listening f a n w rc h u)
  then have "snd u = snd (nw_host w) @ [EvBind a rc (Some h)]" using logged_open(2) [of d f n a "fst (nw_host w)" "snd (nw_host w)"] by simp
  then show ?case using listening live_add_listener [where w = w and u = u] by (intro log_ok_step [OF listening.prems(2)]) (auto simp: permitted_def opened_def)
next
  case (not_accepted f l w rc out u)
  then have "snd u = snd (nw_host w) @ [EvAccept (ne_handle l) rc out]"
    using logged_open(3) [of d f "ne_handle l" "fst (nw_host w)" "snd (nw_host w)"] by simp
  moreover have "live (w\<lparr>nw_host := u\<rparr>) = live w" by (simp add: live_def)
  ultimately show ?case using not_accepted in_live(2) [of l w] live_in subset_opened
    by (intro log_ok_step [OF not_accepted.prems(2)]) (fastforce simp: permitted_def)+
next
  case (accepted f l w rc h u)
  then have "snd u = snd (nw_host w) @ [EvAccept (ne_handle l) rc (Some h)]"
    using logged_open(3) [of d f "ne_handle l" "fst (nw_host w)" "snd (nw_host w)"] by simp
  then show ?case using accepted live_add_conn [where w = w and u = u] in_live(2) [of l w] live_in
    by (intro log_ok_step [OF accepted.prems(2)]) (fastforce simp: permitted_def opened_def)+
next
  case (conn_used c w u)
  then have "snd u = snd (nw_host w) @ [EvConn (ne_handle c)]" using logged_use(1) [of d _ "fst (nw_host w)" "snd (nw_host w)"] by simp
  moreover have "live (w\<lparr>nw_host := u\<rparr>) = live w" by (simp add: live_def)
  ultimately show ?case using conn_used in_live(1) [of c w] live_in by (intro log_ok_step [OF conn_used.prems(2)]) (fastforce simp: permitted_def)+
next
  case (listener_used l w u)
  then have "snd u = snd (nw_host w) @ [EvListener (ne_handle l)]" using logged_use(2) [of d _ "fst (nw_host w)" "snd (nw_host w)"] by simp
  moreover have "live (w\<lparr>nw_host := u\<rparr>) = live w" by (simp add: live_def)
  ultimately show ?case using listener_used in_live(2) [of l w] live_in by (intro log_ok_step [OF listener_used.prems(2)]) (fastforce simp: permitted_def)+
next
  case (conn_closed i w c u)
  have "u = nw_host w \<or> snd u = snd (nw_host w) @ [EvConnClose (ne_handle c)]"
    using conn_closed by (cases "nw_host w"; cases "nh_close d") (auto simp: net_logged_def log_close_def)
  then show ?case
    using live_remove_conn [OF conn_closed(1)] in_live(1) find_entry_in [OF conn_closed(1)]
    by (intro log_ok_close [OF conn_closed.prems(2), of _ "(True, ne_handle c)" "EvConnClose (ne_handle c)"]) (auto simp: permitted_def)
next
  case (listener_closed i w c u)
  have "u = nw_host w \<or> snd u = snd (nw_host w) @ [EvListenerClose (ne_handle c)]"
    using listener_closed by (cases "nw_host w"; cases "nh_listener_close d") (auto simp: net_logged_def log_close_def)
  then show ?case
    using live_remove_listener [OF listener_closed(1)] in_live(2) find_entry_in [OF listener_closed(1)]
    by (intro log_ok_close [OF listener_closed.prems(2), of _ "(False, ne_handle c)" "EvListenerClose (ne_handle c)"]) (auto simp: permitted_def)
next
  case (net_reset w)
  then obtain M where "track_all (snd (nw_host w)) {#} = Some M" "live w \<subseteq># M" "list_all (permitted env) (snd (nw_host w))"
    by (auto simp: log_ok_def)
  moreover have "list_all (permitted env) (reset_log d w)" by (auto simp: reset_log_def permitted_def list_all_iff)
  ultimately show ?case
    using reset_logged [OF net_reset(1), of w] track_reset [of w M d] by (simp add: log_ok_def track_all_append)
qed (auto intro: log_ok_same)

lemma log_ok_start: "log_ok env (net_start (u, []))"
  by (simp add: log_ok_def net_start_def live_def entry_handles_def)

lemma reach_log_ok: "net_reach env (net_start (u, [])) w \<Longrightarrow> nv_handlers env = net_logged d \<Longrightarrow> log_ok env w \<and> net_ok env w"
  by (rule reach_induct, assumption, rule log_ok_start, rule micro_log_ok)

section \<open>A host for the examples\<close>

text \<open>It accepts every dial with the handle 5 as long as its state is 0, and refuses with the state as a code otherwise.\<close>

definition demo_net :: "int gengo_net_handlers_t" where
  "demo_net = \<lparr>nh_dial = Some (\<lambda>n a u. if u = 0 then (0, Some 5, u) else (u, None, u - 1)), nh_read = None, nh_write = None, nh_close = Some (\<lambda>h u. u),
     nh_local_addr = None, nh_remote_addr = None, nh_set_deadline = None, nh_set_read_deadline = None, nh_set_write_deadline = None,
     nh_listen = Some (\<lambda>n a u. (0, Some 6, u)), nh_accept = Some (\<lambda>l u. (1, Some 9, u)), nh_listener_close = None,
     nh_listener_local_addr = None, nh_set_accept_deadline = None\<rparr>"

definition demo_net_env :: "'u gengo_net_handlers_t \<Rightarrow> 'u net_env" where
  "demo_net_env nh = \<lparr>nv_ip6 = \<lambda>_. None, nv_dial = [mk_rule Allow 0 match_all [] 0], nv_listen = [mk_rule Allow 0 match_all [] 0], nv_scope_dial = True, nv_scope_listen = True,
     nv_types = True, nv_max_slices = 100, nv_gc = \<lambda>_. True, nv_alloc = \<lambda>_. True, nv_usize_max = 2 ^ 64 - 1, nv_native = True, nv_handlers = nh\<rparr>"

lemma demo_net_env_simps [simp]: "nv_handlers (demo_net_env nh) = nh" "nv_gc (demo_net_env nh) n" "nv_max_slices (demo_net_env nh) = 100"
  "nv_types (demo_net_env nh)" "nv_scope_dial (demo_net_env nh)"
  by (simp_all add: demo_net_env_def)

lemma demo_policy: "checkDialPolicy (nv_ip6 (demo_net_env nh)) (nv_dial (demo_net_env nh)) [97, 58, 56]"
  by (simp add: demo_net_env_def checkDialPolicy_def matchPolicy_unfold split_address_def parseUnsigned_def underscore_edge_def
        is_digit_def digit_val_def rule_matches_def mk_rule_def)

lemma demo_dial:
  assumes "nw_host w = (0, t)" "length (nw_conns w) < 16" "nw_next_id w + 1 < 2 ^ 32" "nw_slices w = []"
  shows "\<exists>w'. net_dispatch (demo_net_env (net_logged demo_net)) cap_net_dial [NString [116], NString [97, 58, 56]] w =
      Some (Inr (NStruct conn_type [(bytes_of ''_handle'', NInt (int (nw_next_id w)))]), w')
    \<and> nw_host w' = (0, t @ [EvDial [97, 58, 56] 0 (Some 5)]) \<and> nw_conns w' = nw_conns w @ [\<lparr>ne_id = nw_next_id w, ne_handle = 5\<rparr>]"
  using assms
  by (simp add: net_dispatch_def dialImpl_def str_arg_def native_eval demo_policy ncatch_def netDial_def clear_net_err_def nw_do_def nw_get_def
      MaxConns_def or_msg_def nw_call_def out3_def net_logged_def demo_net_def log_open_def add_conn_def Let_def handle_value_def internStr_def)

section \<open>Claims\<close>

text \<open>
  C13. The network policy cannot be got around: in whatever order a script calls the natives, with whatever arguments, every address that
  reaches the host's dial handler is one the dial policy allows, under a granted dial scope, and every address that reaches the
  listen handler is one the listen policy allows, under a granted listen scope.
\<close>

theorem net_policy_enforced:
  assumes "net_reach env (net_start (u, [])) w" "nv_handlers env = net_logged d" "e \<in> set (snd (nw_host w))"
  shows "case e of EvDial a rc out \<Rightarrow> nv_scope_dial env \<and> checkDialPolicy (nv_ip6 env) (nv_dial env) a
    | EvBind a rc out \<Rightarrow> nv_scope_listen env \<and> checkListenPolicy (nv_ip6 env) (nv_listen env) a | _ \<Rightarrow> True"
proof -
  have "permitted env e" using reach_log_ok [OF assms(1,2)] assms(3) by (auto simp: log_ok_def list_all_iff)
  then show ?thesis by (auto simp: permitted_def may_dial_def may_listen_def split: net_event.splits)
qed

theorem net_policy_enforced_witness:
  "checkDialPolicy (nv_ip6 (demo_net_env (net_logged demo_net))) (nv_dial (demo_net_env (net_logged demo_net))) [97, 58, 56]"
proof -
  let ?env = "demo_net_env (net_logged demo_net)"
  obtain r w where w: "net_dispatch ?env cap_net_dial [NString [116], NString [97, 58, 56]] (net_start (0, [])) = Some (r, w)"
      "nw_host w = (0, [EvDial [97, 58, 56] 0 (Some 5)])"
    using demo_dial [of "net_start (0, [])" "[]"] by (auto simp: net_start_def)
  have "net_reach ?env (net_start (0, [])) w" using net_reach.native [OF net_reach.start w(1)] .
  from net_policy_enforced [OF this demo_net_env_simps(1), of "EvDial [97, 58, 56] 0 (Some 5)"] w(2) show ?thesis by simp
qed

text \<open>
  C30. The host's handles are used within their life only: in the log of any script, every read, write, address or deadline call and every
  close names a connection the host gave out (by a dial or an accept) and that has not been closed since, likewise for listeners, and all
  handles in the two tables are open.
\<close>

theorem net_handles_in_their_life:
  assumes "net_reach env (net_start (u, [])) w" "nv_handlers env = net_logged d"
  shows "\<exists>M. track_all (snd (nw_host w)) {#} = Some M \<and> live w \<subseteq># M"
  using reach_log_ok [OF assms] by (auto simp: log_ok_def)

theorem net_handles_in_their_life_witness:
  "\<exists>w M. nw_host w = (0 :: int, [EvDial [97, 58, 56] 0 (Some 5)]) \<and> track_all (snd (nw_host w)) {#} = Some M \<and> live w \<subseteq># M"
proof -
  let ?env = "demo_net_env (net_logged demo_net)"
  obtain r w where w: "net_dispatch ?env cap_net_dial [NString [116], NString [97, 58, 56]] (net_start (0, [])) = Some (r, w)"
      "nw_host w = (0, [EvDial [97, 58, 56] 0 (Some 5)])"
    using demo_dial [of "net_start (0, [])" "[]"] by (auto simp: net_start_def)
  have "net_reach ?env (net_start (0, [])) w" using net_reach.native [OF net_reach.start w(1)] .
  from net_handles_in_their_life [OF this demo_net_env_simps(1)] w(2) show ?thesis by (intro exI [of _ w]) simp
qed



text \<open>
  An accept on a full connection table loses a connection: the host has accepted by the time the table is looked at, the script gets an error, and the new
  handle stands in no table, so that nothing closes it, not even the reset at the end, while everything in the tables is closed there.
\<close>

theorem net_accept_leaks:
  assumes "nv_handlers env = net_logged d" "log_ok env w" "nh_close d \<noteq> None" "nh_listener_close d \<noteq> None"
    and "length (nw_conns w) = 16" "find_entry i (nw_listeners w) = Some l" "nh_accept d = Some f" "f (ne_handle l) (fst (nw_host w)) = (rc, Some h, u)" "0 < rc"
  shows "\<exists>w' M. netListenerAccept env i w = Some (Inl NetError, w') \<and> live w' = live w
    \<and> track_all (snd (nw_host (netReset env w'))) {#} = Some M \<and> (True, h) \<in># M"
proof -
  obtain u0 t where h: "nw_host w = (u0, t)" by (cases "nw_host w")
  obtain M0 where M0: "track_all t {#} = Some M0" "live w \<subseteq># M0" using assms(2) by (auto simp: log_ok_def h)
  define w' where "w' = setNetErr (bytes_of ''too many connections (max 16)'') (w\<lparr>nw_err_len := 0, nw_host := (u, t @ [EvAccept (ne_handle l) rc (Some h)])\<rparr>)"
  have run: "netListenerAccept env i w = Some (Inl NetError, w')"
    using assms h by (simp add: netListenerAccept_def native_eval clear_net_err_def nw_do_def nw_get_def findListener_def or_msg_def nw_call_def out3_def
        net_logged_def net_fail_def MaxConns_def w'_def)
  have same: "live w' = live w" by (simp add: w'_def live_def)
  have tr: "track_all (snd (nw_host w')) {#} = Some (add_mset (True, h) M0)"
    using M0 live_in in_live(2) [of l w] find_entry_in [OF assms(6)] assms(9) by (auto simp: w'_def track_all_append opened_def)
  have sub: "live w' \<subseteq># add_mset (True, h) M0" using M0(2) same by (simp add: subset_mset.order_trans)
  have "track_all (snd (nw_host (netReset env w'))) {#} = Some (after_reset d w' (add_mset (True, h) M0))"
    by (simp add: reset_logged(1) [OF assms(1)] track_all_append tr track_reset [OF sub])
  moreover have "(True, h) \<in># after_reset d w' (add_mset (True, h) M0)"
  proof -
    have "nw_conns w' = nw_conns w" "nw_listeners w' = nw_listeners w" by (simp_all add: w'_def)
    then have "after_reset d w' (add_mset (True, h) M0) = add_mset (True, h) M0 - live w"
      using assms(3,4) by (auto simp only: after_reset_def live_def diff_diff_add if_False)
    also have "\<dots> = add_mset (True, h) (M0 - live w)"
      using M0(2) subset_mset.add_diff_assoc2 [of "live w" M0 "{#(True, h)#}"] by simp
    finally show ?thesis by simp
  qed
  ultimately show ?thesis using run same by blast
qed

text \<open>A full table and a listener.\<close>

definition demo_full :: "int log net_world" where
  "demo_full = \<lparr>nw_host = (0, replicate 16 (EvDial [97, 58, 56] 0 (Some 5)) @ [EvBind [97, 58, 56] 0 (Some 6)]),
     nw_conns = map (\<lambda>i. \<lparr>ne_id = i, ne_handle = 5\<rparr>) [1..<17], nw_next_id = 17, nw_listeners = [\<lparr>ne_id = 1, ne_handle = 6\<rparr>], nw_next_listener_id = 2,
     nw_err_buf = replicate 256 0, nw_err_len = 0, nw_slices = []\<rparr>"

lemma track_dials: "track_all (replicate n (EvDial a 0 (Some h)) @ es) M = track_all es (replicate_mset n (True, h) + M)"
  by (induction n arbitrary: M) (simp_all add: opened_def)

lemma live_demo_full: "live demo_full = add_mset (False, 6) (replicate_mset 16 (True, 5))"
proof -
  have "map (\<lambda>c. (True, ne_handle c)) (nw_conns demo_full) = replicate 16 (True, 5)"
    by (simp add: demo_full_def o_def map_replicate_const)
  then have "entry_handles True (nw_conns demo_full) = replicate_mset 16 (True, 5)"
    by (metis entry_handles_def mset_map mset_replicate)
  then show ?thesis by (simp add: live_def) (simp add: entry_handles_def demo_full_def)
qed

lemma demo_full_ok: "log_ok (demo_net_env nh) demo_full"
proof -
  have "track_all (snd (nw_host demo_full)) {#} = Some (live demo_full)"
    by (simp only: live_demo_full) (simp add: demo_full_def track_dials opened_def)
  moreover have "list_all (permitted (demo_net_env nh)) (snd (nw_host demo_full))"
    using demo_policy [of nh] by (auto simp: demo_full_def list_all_iff permitted_def may_dial_def may_listen_def checkDialPolicy_def checkListenPolicy_def
        demo_net_env_def)
  ultimately show ?thesis by (simp add: log_ok_def)
qed

theorem net_accept_leaks_witness:
  "\<exists>w' M. netListenerAccept (demo_net_env (net_logged (demo_net\<lparr>nh_listener_close := Some (\<lambda>h u. u)\<rparr>))) 1 demo_full = Some (Inl NetError, w')
    \<and> live w' = live demo_full
    \<and> track_all (snd (nw_host (netReset (demo_net_env (net_logged (demo_net\<lparr>nh_listener_close := Some (\<lambda>h u. u)\<rparr>))) w'))) {#} = Some M \<and> (True, 9) \<in># M"
  by (rule net_accept_leaks [where l = "\<lparr>ne_id = 1, ne_handle = 6\<rparr>" and f = "\<lambda>l u. (1, Some 9, u)" and rc = 1 and u = 0])
     (simp_all add: demo_full_ok, simp_all add: demo_full_def demo_net_def find_entry_def)

end
