(* ===== verification/CapHttp.thy ===== *)
theory CapHttp
  imports CapNet "HOL-Library.AList"
begin

text \<open>
  The HTTP capability with the handler of the host (\<open>src/lang/native/cap_http.zig\<close>, and \<open>httpFetch\<close> and \<open>httpFetchHost\<close> of
  \<open>src/lang/native/http_state.zig\<close>): the request a script asks for as the C structures of \<open>gengo-engine.h\<close>, the call of the host's
  callback, and the response as a script value. The built-in client, which is used when no callback is registered, is left out. The
  natives work on the world of the network capability, since both put the texts of their errors into the table of interned strings.
\<close>

section \<open>The C structures\<close>

text \<open>
  A word of an array of pointers: the address of some bytes, or a number that is no address of anything.
\<close>

datatype cword = PtrTo "byte list" | PlainWord nat

record gengo_http_headers_t =
  hh_keys :: "cword list option"
  hh_values :: "cword list option"
  hh_count :: int

record gengo_http_request_t =
  rq_method :: "byte list"
  rq_url :: "byte list"
  rq_body :: "byte list"
  rq_body_len :: int
  rq_headers :: gengo_http_headers_t
  rq_timeout_ms :: int

record gengo_http_response_t =
  rs_status :: int
  rs_body :: "byte list option"
  rs_body_len :: int
  rs_headers :: gengo_http_headers_t

type_synonym 'u gengo_http_fetch_fn_t = "gengo_http_request_t \<Rightarrow> 'u \<Rightarrow> int \<times> gengo_http_response_t \<times> 'u"

text \<open>
  The parameters: the callback with its user pointer, the order in which a hash map with the given contents is walked, the room in a
  hash map, on the heap whose blocks are never freed, and whether the type of responses is registered.
\<close>

type_synonym header_map = "(byte list \<times> byte list) list"

record 'u http_env =
  hv_net :: "'u net_env"
  hv_handler :: "'u gengo_http_fetch_fn_t"
  hv_iter :: "header_map \<Rightarrow> header_map"
  hv_map_room :: "nat \<Rightarrow> bool"
  hv_bump :: "nat \<Rightarrow> bool"
  hv_type :: bool

record http_result =
  hr_status :: int
  hr_body :: "byte list"
  hr_headers :: header_map
  hr_ok :: bool

section \<open>http_state.zig\<close>

definition containsCrlf :: "byte list \<Rightarrow> bool" where
  "containsCrlf s \<longleftrightarrow> indexOfScalar s 13 \<noteq> None \<or> indexOfScalar s 10 \<noteq> None"

text \<open>The copies with a final NUL; a header that cannot be copied is left out, and so is everything after the 64th.\<close>

fun copy_headers :: "(nat \<Rightarrow> bool) \<Rightarrow> header_map \<Rightarrow> header_map \<Rightarrow> header_map" where
  "copy_headers alloc [] acc = acc"
| "copy_headers alloc ((k, v) # hs) acc =
     (if 64 \<le> length acc then acc
      else if alloc (length k + 1) \<and> alloc (length v + 1) then copy_headers alloc hs (acc @ [(k @ [0], v @ [0])])
      else copy_headers alloc hs acc)"

text \<open>
  The array of the copies holds slices, each a pointer and a length, and its address is cast to that of an array of pointers.
\<close>

definition slice_words :: "byte list list \<Rightarrow> cword list" where
  "slice_words zs = concat (map (\<lambda>z. [PtrTo z, PlainWord (length z - 1)]) zs)"

definition request_headers :: "header_map \<Rightarrow> gengo_http_headers_t" where
  "request_headers zs =
     (if zs = [] then \<lparr>hh_keys = None, hh_values = None, hh_count = 0\<rparr>
      else \<lparr>hh_keys = Some (slice_words (map fst zs)), hh_values = Some (slice_words (map snd zs)), hh_count = int (length zs)\<rparr>)"

definition http_request :: "'u http_env \<Rightarrow> byte list \<Rightarrow> byte list \<Rightarrow> byte list option \<Rightarrow> header_map option \<Rightarrow> int \<Rightarrow> gengo_http_request_t" where
  "http_request env method url maybe_body maybe_headers timeout_ms =
     \<lparr>rq_method = method @ [0], rq_url = url @ [0],
      rq_body = (case maybe_body of Some b \<Rightarrow> b | None \<Rightarrow> []), rq_body_len = (case maybe_body of Some b \<Rightarrow> int (length b) | None \<Rightarrow> 0),
      rq_headers = request_headers (case maybe_headers of None \<Rightarrow> [] | Some hs \<Rightarrow> copy_headers (nv_alloc (hv_net env)) (hv_iter env hs) []),
      rq_timeout_ms = timeout_ms\<rparr>"

text \<open>\<open>std.mem.span\<close> of a pointer in an array: the bytes before the first NUL; nothing when there is no pointer or no NUL.\<close>

definition span_at :: "cword list \<Rightarrow> nat \<Rightarrow> byte list option" where
  "span_at ws i =
     (if i < length ws then case ws ! i of PtrTo b \<Rightarrow> map_option (\<lambda>k. take k b) (indexOfScalar b 0) | PlainWord n \<Rightarrow> None else None)"

definition read_body :: "gengo_http_response_t \<Rightarrow> (byte list, 'u) net" where
  "read_body out =
     (if rs_body_len out \<le> 0 then nret []
      else case rs_body out of None \<Rightarrow> npanic
         | Some b \<Rightarrow> if int (length b) < rs_body_len out then npanic else nret (take (nat (rs_body_len out)) b))"

text \<open>Rounds that are left, index, map.\<close>

fun read_headers :: "(nat \<Rightarrow> bool) \<Rightarrow> cword list \<Rightarrow> cword list \<Rightarrow> nat \<Rightarrow> nat \<Rightarrow> header_map \<Rightarrow> (header_map, 'u) net" where
  "read_headers room ks vs 0 i hm = nret hm"
| "read_headers room ks vs (Suc n) i hm =
     (case (span_at ks i, span_at vs i) of
        (Some k, Some v) \<Rightarrow> let hm' = AList.update k v hm in
          nbind (nguard (room (length hm')) NativeOutOfMemory) (\<lambda>_. read_headers room ks vs n (Suc i) hm')
      | _ \<Rightarrow> npanic)"

definition response_headers :: "'u http_env \<Rightarrow> gengo_http_headers_t \<Rightarrow> (header_map, 'u) net" where
  "response_headers env h =
     (case (hh_keys h, hh_values h) of
        (Some ks, Some vs) \<Rightarrow> if 0 < hh_count h then read_headers (hv_map_room env) ks vs (nat (hh_count h)) 0 [] else nret []
      | _ \<Rightarrow> nret [])"

definition httpFetchHost ::
    "'u http_env \<Rightarrow> byte list \<Rightarrow> byte list \<Rightarrow> byte list option \<Rightarrow> header_map option \<Rightarrow> int \<Rightarrow> (http_result, 'u) net" where
  "httpFetchHost env method url maybe_body maybe_headers timeout_ms =
     nbind (nguard (case maybe_body of Some b \<Rightarrow> length b \<le> i32_max | None \<Rightarrow> True) RequestTooLarge) (\<lambda>_.
     nbind (nguard (nv_alloc (hv_net env) (length method + 1)) NativeOutOfMemory) (\<lambda>_.
     nbind (nguard (nv_alloc (hv_net env) (length url + 1)) NativeOutOfMemory) (\<lambda>_.
     nbind (nw_call (\<lambda>u. out3 (hv_handler env (http_request env method url maybe_body maybe_headers timeout_ms) u))) (\<lambda>(rc, out).
     if rc < 0 then nfail HttpHandlerError
     else nbind (read_body out) (\<lambda>b.
     nbind (response_headers env (rs_headers out)) (\<lambda>hs.
     nret \<lparr>hr_status = rs_status out, hr_body = b, hr_headers = hs, hr_ok = (200 \<le> rs_status out \<and> rs_status out < 300)\<rparr>))))))"

definition httpFetch ::
    "'u http_env \<Rightarrow> byte list \<Rightarrow> byte list \<Rightarrow> byte list option \<Rightarrow> header_map option \<Rightarrow> int \<Rightarrow> (http_result, 'u) net" where
  "httpFetch env method url body headers timeout_ms =
     (if containsCrlf method then nfail InvalidRequest
      else if (case headers of None \<Rightarrow> False | Some hs \<Rightarrow> list_ex (\<lambda>(k, v). containsCrlf k \<or> containsCrlf v) (hv_iter env hs)) then nfail InvalidRequest
      else httpFetchHost env method url body headers timeout_ms)"

section \<open>The response as a script value\<close>

definition response_type :: "byte list" where "response_type = bytes_of ''http.Response''"

fun header_entries :: "(nat \<Rightarrow> bool) \<Rightarrow> header_map \<Rightarrow> ((nval \<times> nval) list, 'u) net" where
  "header_entries gc [] = nret []"
| "header_entries gc ((k, v) # hs) =
     nbind (makeDynString gc k) (\<lambda>kv. nbind (makeDynString gc v) (\<lambda>vv. nbind (header_entries gc hs) (\<lambda>es. nret ((kv, vv) # es))))"

fun intern_names :: "nat \<Rightarrow> byte list list \<Rightarrow> (unit, 'u) net" where
  "intern_names max_slices [] = nret ()"
| "intern_names max_slices (n # ns) = nbind (internStr max_slices (Owned n)) (\<lambda>_. intern_names max_slices ns)"

definition buildResponseStruct :: "'u http_env \<Rightarrow> http_result \<Rightarrow> (nval, 'u) net" where
  "buildResponseStruct env r =
     (let gc = nv_gc (hv_net env) in
      nbind (nguard (hv_type env) CapabilityError) (\<lambda>_.
      nbind (nguard (gc 4) NativeOutOfMemory) (\<lambda>_.
      nbind (nguard (gc 1) NativeOutOfMemory) (\<lambda>_.
      nbind (makeDynString gc (hr_body r)) (\<lambda>body_val.
      nbind (nguard (gc (length (hr_headers r))) NativeOutOfMemory) (\<lambda>_.
      nbind (nguard (gc 1) NativeOutOfMemory) (\<lambda>_.
      nbind (header_entries gc (hv_iter env (hr_headers r))) (\<lambda>hdr_entries.
      nbind (intern_names (nv_max_slices (hv_net env)) [bytes_of ''status'', bytes_of ''body'', bytes_of ''headers'', bytes_of ''ok'']) (\<lambda>_.
      nret (NStruct response_type
        [(bytes_of ''status'', NInt (hr_status r)), (bytes_of ''body'', body_val), (bytes_of ''headers'', NMap hdr_entries),
         (bytes_of ''ok'', NBool (hr_ok r))]))))))))))"

text \<open>The text of an error is cut at 512 bytes and copied to the heap whose blocks are never freed before it is interned.\<close>

definition http_err_pair :: "'u http_env \<Rightarrow> byte list \<Rightarrow> (nval, 'u) net" where
  "http_err_pair env full = (let msg = take 512 full in
     nbind (nguard (hv_bump env (length msg)) NativeOutOfMemory) (\<lambda>_. err_pair (hv_net env) (Owned msg)))"

fun errorName :: "native_error \<Rightarrow> byte list" where
  "errorName ArityMismatch = bytes_of ''ArityMismatch''"
| "errorName TypeError = bytes_of ''TypeError''"
| "errorName CapabilityError = bytes_of ''CapabilityError''"
| "errorName CapabilityNotAvailable = bytes_of ''CapabilityNotAvailable''"
| "errorName NativeOutOfMemory = bytes_of ''OutOfMemory''"
| "errorName PathNotMountedError = bytes_of ''PathNotMounted''"
| "errorName InvalidPathError = bytes_of ''InvalidPath''"
| "errorName PathTooLongError = bytes_of ''PathTooLong''"
| "errorName NetError = bytes_of ''NetError''"
| "errorName DeadlineExceeded = bytes_of ''DeadlineExceeded''"
| "errorName InvalidRequest = bytes_of ''InvalidRequest''"
| "errorName RequestTooLarge = bytes_of ''RequestTooLarge''"
| "errorName HttpHandlerError = bytes_of ''HttpHandlerError''"
| "errorName TooManyConstants = bytes_of ''TooManyConstants''"
| "errorName PermissionDenied = bytes_of ''PermissionDenied''"

text \<open>What all three natives do with the outcome; \<open>what\<close> is the text before the name of the error.\<close>

definition fetch_result :: "'u http_env \<Rightarrow> byte list \<Rightarrow> (http_result, 'u) net \<Rightarrow> (nval, 'u) net" where
  "fetch_result env what m =
     ncatch m (\<lambda>e. if e = CapabilityNotAvailable then nfail CapabilityError else http_err_pair env (what @ bytes_of '': '' @ errorName e))
       (\<lambda>r. nbind (buildResponseStruct env r) (ok_pair (hv_net env)))"

section \<open>The natives\<close>

datatype http_native = cap_http_get | cap_http_post | cap_http_fetch

record fetch_opts =
  fo_method :: "byte list"
  fo_body :: "byte list option"
  fo_timeout :: int
  fo_headers :: header_map

definition fetch_defaults :: fetch_opts where
  "fetch_defaults = \<lparr>fo_method = bytes_of ''GET'', fo_body = None, fo_timeout = 0, fo_headers = []\<rparr>"

fun plain_string :: "nval \<Rightarrow> byte list option" where
  "plain_string (NString b) = Some b"
| "plain_string _ = None"

fun put_headers :: "(nat \<Rightarrow> bool) \<Rightarrow> (nval \<times> nval) list \<Rightarrow> header_map \<Rightarrow> (header_map, 'u) net" where
  "put_headers room [] hm = nret hm"
| "put_headers room ((k, v) # es) hm =
     (case (plain_string k, plain_string v) of
        (Some hk, Some hv) \<Rightarrow> let hm' = AList.update hk hv hm in
          nbind (nguard (room (length hm')) NativeOutOfMemory) (\<lambda>_. put_headers room es hm')
      | _ \<Rightarrow> put_headers room es hm)"

text \<open>The range check of a double lets a NaN pass, and the conversion of a NaN panics.\<close>

definition timeout_of :: "nval \<Rightarrow> (int, 'u) net" where
  "timeout_of v =
     (case v of NInt n \<Rightarrow> nret n
      | NFloat d \<Rightarrow> if f64_exp d = 2047 \<and> f64_frac d \<noteq> 0 then npanic else norelse (i64_of_f64 d) TypeError
      | _ \<Rightarrow> nfail TypeError)"

definition fetch_entry :: "(nat \<Rightarrow> bool) \<Rightarrow> nval \<times> nval \<Rightarrow> fetch_opts \<Rightarrow> (fetch_opts, 'u) net" where
  "fetch_entry room entry fo =
     (case plain_string (fst entry) of None \<Rightarrow> nret fo
      | Some key \<Rightarrow>
          if key = bytes_of ''method'' then nbind (norelse (plain_string (snd entry)) TypeError) (\<lambda>b. nret (fo\<lparr>fo_method := b\<rparr>))
          else if key = bytes_of ''body'' then nbind (norelse (plain_string (snd entry)) TypeError) (\<lambda>b. nret (fo\<lparr>fo_body := Some b\<rparr>))
          else if key = bytes_of ''timeout_ms'' then nbind (timeout_of (snd entry)) (\<lambda>n. nret (fo\<lparr>fo_timeout := n\<rparr>))
          else if key = bytes_of ''headers'' then
            (case snd entry of NMap es \<Rightarrow> nbind (put_headers room es (fo_headers fo)) (\<lambda>hm. nret (fo\<lparr>fo_headers := hm\<rparr>)) | _ \<Rightarrow> nfail TypeError)
          else nret fo)"

fun fetch_entries :: "(nat \<Rightarrow> bool) \<Rightarrow> (nval \<times> nval) list \<Rightarrow> fetch_opts \<Rightarrow> (fetch_opts, 'u) net" where
  "fetch_entries room [] fo = nret fo"
| "fetch_entries room (e # es) fo = nbind (fetch_entry room e fo) (fetch_entries room es)"

definition http_get :: "'u http_env \<Rightarrow> nval list \<Rightarrow> (nval, 'u) net" where
  "http_get env args = nbind (str_arg (args ! 0)) (\<lambda>url.
     fetch_result env (bytes_of ''http.get: '' @ url) (httpFetch env (bytes_of ''GET'') url None None 0))"

definition http_post :: "'u http_env \<Rightarrow> nval list \<Rightarrow> (nval, 'u) net" where
  "http_post env args = nbind (str_arg (args ! 0)) (\<lambda>url. nbind (str_arg (args ! 1)) (\<lambda>body.
     fetch_result env (bytes_of ''http.post: '' @ url) (httpFetch env (bytes_of ''POST'') url (Some body) None 0)))"

definition http_fetch :: "'u http_env \<Rightarrow> nval list \<Rightarrow> (nval, 'u) net" where
  "http_fetch env args = nbind (str_arg (args ! 0)) (\<lambda>url.
     case args ! 1 of
       NMap entries \<Rightarrow> nbind (fetch_entries (hv_map_room env) entries fetch_defaults) (\<lambda>fo.
         fetch_result env (bytes_of ''http.fetch: '' @ fo_method fo @ bytes_of '' '' @ url)
           (httpFetch env (fo_method fo) url (fo_body fo) (Some (fo_headers fo)) (fo_timeout fo)))
     | _ \<Rightarrow> nfail TypeError)"

fun http_arity :: "http_native \<Rightarrow> nat" where
  "http_arity cap_http_get = 1"
| "http_arity _ = 2"

fun http_body :: "'u http_env \<Rightarrow> http_native \<Rightarrow> nval list \<Rightarrow> (nval, 'u) net" where
  "http_body env cap_http_get args = http_get env args"
| "http_body env cap_http_post args = http_post env args"
| "http_body env cap_http_fetch args = http_fetch env args"

definition http_dispatch :: "'u http_env \<Rightarrow> http_native \<Rightarrow> nval list \<Rightarrow> (nval, 'u) net" where
  "http_dispatch env f args = (if length args \<noteq> http_arity f then nfail ArityMismatch else http_body env f args)"

end
