(* ===== verification/CapHttpProps.thy ===== *)
theory CapHttpProps
  imports CapHttp CapNetProps
begin

text \<open>
  What the HTTP capability promises: each native asks the host at most once, with a request that has no line break in its method and headers and fits
  the C types; the response comes back as it was given; results have the documented shape. And where it does not: the header arrays of a
  request with two headers or more are not what the C declaration says.
\<close>

section \<open>What a native does to the world\<close>

text \<open>Every run of an operation that ends relates the world before to the world after it.\<close>

definition follows :: "('u net_world \<Rightarrow> 'u net_world \<Rightarrow> bool) \<Rightarrow> ('a, 'u) net \<Rightarrow> bool" where
  "follows R m \<longleftrightarrow> (\<forall>w r w'. m w = Some (r, w') \<longrightarrow> R w w')"

lemma followsD: "follows R m \<Longrightarrow> m w = Some (r, w') \<Longrightarrow> R w w'"
  by (simp add: follows_def)

lemma nbindE:
  assumes "nbind m k w = Some (r, w')"
  obtains e where "m w = Some (Inl e, w')" "r = Inl e" | x u where "m w = Some (Inr x, u)" "k x u = Some (r, w')"
  using assms by (auto simp: nbind_cases)

lemma ncatchE:
  assumes "ncatch m h k w = Some (r, w')"
  obtains e u where "m w = Some (Inl e, u)" "h e u = Some (r, w')" | x u where "m w = Some (Inr x, u)" "k x u = Some (r, w')"
  using assms by (auto simp: ncatch_def split: option.splits sum.splits)

named_theorems http_follows \<open>operations that relate the worlds\<close>

text \<open>Relations that a new interned string respects: everything but the call of the host follows them.\<close>

locale world_relation =
  fixes R :: "'u net_world \<Rightarrow> 'u net_world \<Rightarrow> bool"
  assumes R_refl: "R w w"
    and R_trans: "R w1 w2 \<Longrightarrow> R w2 w3 \<Longrightarrow> R w1 w3"
    and R_slice: "R w (w\<lparr>nw_slices := nw_slices w @ [s]\<rparr>)"
begin

lemma pure [http_follows]: "follows R (nret x)" "follows R (nfail e)" "follows R npanic" "follows R (norelse v e)" "follows R (nguard b e)"
    "follows R (makeDynString gc b1)" "follows R (str_arg a)"
  by (auto simp: follows_def net_cases npanic_apply R_refl str_arg_def)

lemma intern [http_follows]: "follows R (internStr n sl)"
  by (auto simp: follows_def internStr_def Let_def R_refl R_slice split: option.splits if_splits)

lemma bind [http_follows]: "follows R m \<Longrightarrow> (\<And>x. follows R (k x)) \<Longrightarrow> follows R (nbind m k)"
  unfolding follows_def [of R "nbind m k"] by (auto elim!: nbindE dest: followsD intro: R_trans)

lemma catches [http_follows]:
  assumes m: "follows R m" and h: "\<And>e. follows R (h e)" and k: "\<And>x. follows R (k x)"
  shows "follows R (ncatch m h k)"
  unfolding follows_def
proof (intro allI impI)
  fix w r w' assume "ncatch m h k w = Some (r, w')"
  then show "R w w'"
  proof (cases rule: ncatchE)
    case (1 e u)
    show ?thesis using followsD [OF m 1(1)] followsD [OF h 1(2)] by (rule R_trans)
  next
    case (2 x u)
    show ?thesis using followsD [OF m 2(1)] followsD [OF k 2(2)] by (rule R_trans)
  qed
qed

lemma strings [http_follows]: "follows R (header_entries gc hs)" "follows R (intern_names n ns)"
  by (induction hs, auto intro: pure bind) (induction ns, auto intro: pure intern bind)

lemma read [http_follows]: "follows R (read_headers room ks vs n i hm)"
  by (induction n arbitrary: i hm) (auto simp: Let_def intro!: pure bind split: option.split)

lemma put [http_follows]: "follows R (put_headers room es hm)"
  by (induction room es hm rule: put_headers.induct) (auto simp: Let_def intro!: pure bind split: option.split)

lemma response [http_follows]: "follows R (read_body out)" "follows R (response_headers env h)" "follows R (buildResponseStruct env r)"
    "follows R (ok_pair nv v)" "follows R (http_err_pair env b)"
  by (auto simp: read_body_def response_headers_def buildResponseStruct_def ok_pair_def http_err_pair_def err_pair_def error_value_def Let_def
      intro!: pure intern bind strings read split: option.split)

lemma options [http_follows]: "follows R (fetch_entries room es fo)"
proof (induction es arbitrary: fo)
  case (Cons e es)
  have "follows R (timeout_of v)" for v by (auto simp: timeout_of_def intro!: pure split: nval.split)
  then have "follows R (fetch_entry room e fo)"
    by (auto simp: fetch_entry_def intro!: pure bind put split: option.split nval.split)
  then show ?case using Cons by (auto intro: bind)
qed (simp add: pure)

lemma result [http_follows]: "follows R m \<Longrightarrow> follows R (fetch_result env what m)"
  unfolding fetch_result_def by (auto intro!: pure bind catches response)

text \<open>If the call of the host follows the relation as well, every native does.\<close>

lemma dispatch:
  assumes "\<And>rq w rc out u. hv_handler env rq (nw_host w) = (rc, out, u) \<Longrightarrow> R w (w\<lparr>nw_host := u\<rparr>)"
  shows "follows R (http_dispatch env f args)"
proof -
  have "follows R (nw_call (\<lambda>u. out3 (hv_handler env rq u)))" for rq
    using assms by (auto simp: follows_def net_cases out3_def split: prod.splits)
  then have "follows R (httpFetchHost env meth url b hs timeout)" for meth url b hs timeout
    unfolding httpFetchHost_def by (intro bind) (auto intro!: pure bind response split: prod.split)
  then have "follows R (httpFetch env meth url b hs timeout)" for meth url b hs timeout
    by (auto simp: httpFetch_def intro: pure)
  then show ?thesis
    by (cases f) (auto simp: http_dispatch_def http_get_def http_post_def http_fetch_def intro!: pure bind result options split: nval.split)
qed

end

text \<open>The host's state stays; the table of interned strings grows at its end.\<close>

definition same_host :: "'u net_world \<Rightarrow> 'u net_world \<Rightarrow> bool" where
  "same_host w w' \<longleftrightarrow> nw_host w' = nw_host w"

definition slices_grow :: "'u net_world \<Rightarrow> 'u net_world \<Rightarrow> bool" where
  "slices_grow w w' \<longleftrightarrow> (\<exists>sl. nw_slices w' = nw_slices w @ sl)"

interpretation hosts: world_relation same_host
  by unfold_locales (simp_all add: same_host_def)

interpretation slices: world_relation slices_grow
  by unfold_locales (auto simp: slices_grow_def)

text \<open>\<open>asks\<close>: the host is called at most once, with a request that has \<open>P\<close>.\<close>

definition asks :: "'u http_env \<Rightarrow> (gengo_http_request_t \<Rightarrow> bool) \<Rightarrow> ('a, 'u) net \<Rightarrow> bool" where
  "asks env P m \<longleftrightarrow> (\<forall>w r w'. m w = Some (r, w') \<longrightarrow>
     nw_host w' = nw_host w \<or> (\<exists>rq rc out. P rq \<and> hv_handler env rq (nw_host w) = (rc, out, nw_host w')))"

lemma quietD: "follows same_host m \<Longrightarrow> m w = Some (r, w') \<Longrightarrow> nw_host w' = nw_host w"
  using followsD unfolding same_host_def by blast

lemma asksD: "asks env P m \<Longrightarrow> m w = Some (r, w') \<Longrightarrow>
    nw_host w' = nw_host w \<or> (\<exists>rq rc out. P rq \<and> hv_handler env rq (nw_host w) = (rc, out, nw_host w'))"
  by (simp add: asks_def)

lemma asks_quiet: "follows same_host m \<Longrightarrow> asks env P m"
  unfolding asks_def using quietD by blast

lemma asks_after:
  assumes "follows same_host m" and "\<And>x. asks env P (k x)"
  shows "asks env P (nbind m k)"
  unfolding asks_def
proof (intro allI impI)
  fix w r w' assume "nbind m k w = Some (r, w')"
  then show "nw_host w' = nw_host w \<or> (\<exists>rq rc out. P rq \<and> hv_handler env rq (nw_host w) = (rc, out, nw_host w'))"
  proof (cases rule: nbindE)
    case (2 x u)
    then show ?thesis using quietD [OF assms(1) 2(1)] asksD [OF assms(2) 2(2)] by simp
  qed (simp add: quietD [OF assms(1)])
qed

lemma asks_before:
  assumes "asks env P m" and "\<And>x. follows same_host (k x)"
  shows "asks env P (nbind m k)"
  unfolding asks_def
proof (intro allI impI)
  fix w r w' assume "nbind m k w = Some (r, w')"
  then show "nw_host w' = nw_host w \<or> (\<exists>rq rc out. P rq \<and> hv_handler env rq (nw_host w) = (rc, out, nw_host w'))"
  proof (cases rule: nbindE)
    case (1 e)
    then show ?thesis using asksD [OF assms(1) 1(1)] by simp
  next
    case (2 x u)
    then show ?thesis using quietD [OF assms(2) 2(2)] asksD [OF assms(1) 2(1)] by simp
  qed
qed

lemma asks_ncatch:
  assumes "asks env P m" and "\<And>e. follows same_host (h e)" and "\<And>x. follows same_host (k x)"
  shows "asks env P (ncatch m h k)"
  unfolding asks_def
proof (intro allI impI)
  fix w r w' assume run: "ncatch m h k w = Some (r, w')"
  then obtain y u where y: "m w = Some (y, u)" by (auto simp: ncatch_def split: option.splits)
  then have "nw_host w' = nw_host u" using run assms(2,3) by (cases y) (auto simp: ncatch_def dest: quietD)
  then show "nw_host w' = nw_host w \<or> (\<exists>rq rc out. P rq \<and> hv_handler env rq (nw_host w) = (rc, out, nw_host w'))"
    using asksD [OF assms(1) y] by simp
qed

section \<open>Requests\<close>

text \<open>A request as the host may expect it from the header: C strings without line breaks, and lengths that are right.\<close>

definition word_ok :: "cword \<Rightarrow> bool" where
  "word_ok x \<longleftrightarrow> (case x of PtrTo z \<Rightarrow> z \<noteq> [] \<and> last z = 0 \<and> \<not> containsCrlf z | PlainWord n \<Rightarrow> True)"

definition fetch_ok :: "gengo_http_request_t \<Rightarrow> bool" where
  "fetch_ok rq \<longleftrightarrow> \<not> containsCrlf (rq_method rq) \<and> last (rq_method rq) = 0 \<and> last (rq_url rq) = 0
     \<and> rq_body_len rq = int (length (rq_body rq)) \<and> rq_body_len rq < 2 ^ 31 \<and> 0 \<le> hh_count (rq_headers rq) \<and> hh_count (rq_headers rq) \<le> 64
     \<and> (case hh_keys (rq_headers rq) of None \<Rightarrow> hh_count (rq_headers rq) = 0 | Some ks \<Rightarrow> hh_count (rq_headers rq) \<le> int (length ks) \<and> list_all word_ok ks)
     \<and> (case hh_values (rq_headers rq) of None \<Rightarrow> hh_count (rq_headers rq) = 0 | Some vs \<Rightarrow> hh_count (rq_headers rq) \<le> int (length vs) \<and> list_all word_ok vs)"

lemma copy_headers_le: "length acc \<le> 64 \<Longrightarrow> length (copy_headers alloc hs acc) \<le> 64"
  by (induction alloc hs acc rule: copy_headers.induct) auto

lemma copy_headers_in: "p \<in> set (copy_headers alloc hs acc) \<Longrightarrow> p \<in> set acc \<or> (\<exists>k v. (k, v) \<in> set hs \<and> p = (k @ [0], v @ [0]))"
  by (induction alloc hs acc rule: copy_headers.induct) (auto split: if_splits)

lemma containsCrlf_append [simp]: "containsCrlf (xs @ ys) \<longleftrightarrow> containsCrlf xs \<or> containsCrlf ys" "\<not> containsCrlf [0]"
  by (auto simp: containsCrlf_def indexOfScalar_None)

lemma slice_words_ok: "\<forall>z \<in> set zs. z \<noteq> [] \<and> last z = 0 \<and> \<not> containsCrlf z \<Longrightarrow> list_all word_ok (slice_words zs)"
  by (auto simp: slice_words_def list_all_iff word_ok_def)

lemma length_slice_words: "length (slice_words zs) = 2 * length zs"
  by (induction zs) (simp_all add: slice_words_def)

lemma http_request_ok:
  assumes "\<not> containsCrlf method" and "case maybe_body of Some b \<Rightarrow> length b \<le> i32_max | None \<Rightarrow> True"
    and "case maybe_headers of None \<Rightarrow> True | Some hs \<Rightarrow> list_all (\<lambda>(k, v). \<not> containsCrlf k \<and> \<not> containsCrlf v) (hv_iter env hs)"
  shows "fetch_ok (http_request env method url maybe_body maybe_headers timeout_ms)"
proof -
  define zs where "zs = (case maybe_headers of None \<Rightarrow> [] | Some hs \<Rightarrow> copy_headers (nv_alloc (hv_net env)) (hv_iter env hs) [])"
  have zs: "length zs \<le> 64" "\<forall>(k, v) \<in> set zs. k \<noteq> [] \<and> last k = 0 \<and> \<not> containsCrlf k \<and> v \<noteq> [] \<and> last v = 0 \<and> \<not> containsCrlf v"
    using assms(3) copy_headers_le [of "[]"] by (auto simp: zs_def list_all_iff split: option.splits dest!: copy_headers_in)
  have "list_all word_ok (slice_words (map fst zs))" "list_all word_ok (slice_words (map snd zs))"
    using zs(2) by (fastforce intro!: slice_words_ok)+
  then have "fetch_ok (http_request env method url maybe_body maybe_headers timeout_ms)" if "zs \<noteq> []"
    using that assms(1,2) zs(1) by (auto simp: fetch_ok_def http_request_def request_headers_def zs_def [symmetric] length_slice_words i32_max_def split: option.splits)
  moreover have "fetch_ok (http_request env method url maybe_body maybe_headers timeout_ms)" if "zs = []"
    using that assms(1,2) by (auto simp: fetch_ok_def http_request_def request_headers_def zs_def [symmetric] i32_max_def split: option.splits)
  ultimately show ?thesis by blast
qed

lemma asks_call: "P rq \<Longrightarrow> asks env P (nw_call (\<lambda>u. out3 (hv_handler env rq u)))"
  by (auto simp: asks_def net_cases out3_def split: prod.splits)

lemma asks_httpFetch: "asks env fetch_ok (httpFetch env method url b hs timeout)"
proof -
  have host: "asks env fetch_ok (httpFetchHost env method url b hs timeout)"
    if ok: "\<not> containsCrlf method" "case hs of None \<Rightarrow> True | Some hs \<Rightarrow> list_all (\<lambda>(k, v). \<not> containsCrlf k \<and> \<not> containsCrlf v) (hv_iter env hs)"
  proof (cases "case b of Some b \<Rightarrow> length b \<le> i32_max | None \<Rightarrow> True")
    case True
    show ?thesis unfolding httpFetchHost_def
      by (intro asks_after asks_before http_follows asks_call http_request_ok ok True) (auto intro!: http_follows split: prod.split)
  next
    case False
    then show ?thesis by (simp add: httpFetchHost_def native_simps asks_quiet http_follows)
  qed
  show ?thesis
  proof (cases "containsCrlf method \<or> (case hs of None \<Rightarrow> False | Some hs \<Rightarrow> list_ex (\<lambda>(k, v). containsCrlf k \<or> containsCrlf v) (hv_iter env hs))")
    case True
    then have "httpFetch env method url b hs timeout = nfail InvalidRequest" by (auto simp: httpFetch_def)
    then show ?thesis by (simp add: asks_quiet http_follows)
  next
    case False
    then have "asks env fetch_ok (httpFetchHost env method url b hs timeout)"
      by (intro host) (auto simp: list_all_iff list_ex_iff split: option.split)
    then show ?thesis using False by (simp add: httpFetch_def)
  qed
qed

lemma asks_fetch_result: "asks env fetch_ok m \<Longrightarrow> asks env fetch_ok (fetch_result env what m)"
  unfolding fetch_result_def by (rule asks_ncatch) (auto intro!: http_follows)

lemma asks_dispatch: "asks env fetch_ok (http_dispatch env f args)"
proof -
  have "asks env fetch_ok (fetch_result env what (httpFetch env meth url b hs timeout))" for what meth url b hs timeout
    by (rule asks_fetch_result) (rule asks_httpFetch)
  then show ?thesis
    unfolding http_dispatch_def
    by (cases f) (auto simp: http_get_def http_post_def http_fetch_def intro!: asks_after asks_quiet [OF hosts.pure(2)] http_follows split: nval.split)
qed

section \<open>Reading header arrays\<close>

lemma slice_words_nth:
  "i < 2 * length zs \<Longrightarrow> slice_words zs ! i = (if even i then PtrTo (zs ! (i div 2)) else PlainWord (length (zs ! (i div 2)) - 1))"
proof (induction zs arbitrary: i)
  case (Cons z zs)
  show ?case
  proof (cases "i < 2")
    case True
    then show ?thesis by (cases i) (auto simp: slice_words_def less_Suc_eq)
  next
    case False
    then obtain j where j: "i = j + 2" by (metis add.commute le_Suc_ex not_less)
    then show ?thesis using Cons by (simp add: slice_words_def)
  qed
qed simp

lemma span_nul: "0 \<notin> set k \<Longrightarrow> map_option (\<lambda>n. take n (k @ [0])) (indexOfScalar (k @ [0]) 0) = Some k"
  by (simp add: indexOfScalar_append)

lemma span_slice_words:
  assumes "i < 2 * length ks" and "\<forall>k \<in> set ks. 0 \<notin> set k"
  shows "span_at (slice_words (map (\<lambda>k. k @ [0]) ks)) i = (if even i then Some (ks ! (i div 2)) else None)"
  using assms span_nul [of "ks ! (i div 2)"] by (simp add: span_at_def length_slice_words slice_words_nth)

lemma copy_headers_all: "(\<And>n. alloc n) \<Longrightarrow> length acc \<le> 64
    \<Longrightarrow> copy_headers alloc hs acc = take 64 (acc @ map (\<lambda>(k, v). (k @ [0], v @ [0])) hs)"
proof (induction alloc hs acc rule: copy_headers.induct)
  case (2 alloc k v hs acc)
  then show ?case by (cases "length acc = 64") auto
qed simp

text \<open>The pointers of a list of strings in the C way.\<close>

definition c_words :: "byte list list \<Rightarrow> cword list" where
  "c_words ks = map (\<lambda>k. PtrTo (k @ [0])) ks"

lemma span_c_words: "i < length ks \<Longrightarrow> 0 \<notin> set (ks ! i) \<Longrightarrow> span_at (c_words ks) i = Some (ks ! i)"
  using span_nul [of "ks ! i"] by (simp add: span_at_def c_words_def)

lemma update_new: "k \<notin> fst ` set hm \<Longrightarrow> AList.update k v hm = hm @ [(k, v)]"
  by (induction hm) auto

lemma read_headers_all:
  assumes "\<And>n. room n" and "distinct (map fst hs)" and "\<forall>(k, v) \<in> set hs. 0 \<notin> set k \<and> 0 \<notin> set v"
  shows "i + n = length hs \<Longrightarrow> read_headers room (c_words (map fst hs)) (c_words (map snd hs)) n i (take i hs) = nret hs"
proof (induction n arbitrary: i)
  case (Suc n)
  then have i: "i < length hs" by simp
  have "0 \<notin> set (fst (hs ! i))" "0 \<notin> set (snd (hs ! i))" using bspec [OF assms(3) nth_mem [OF i]] by (simp_all add: case_prod_unfold)
  then have span: "span_at (c_words (map fst hs)) i = Some (fst (hs ! i))" "span_at (c_words (map snd hs)) i = Some (snd (hs ! i))"
    using i by (simp_all add: span_c_words)
  have "fst (hs ! i) \<notin> fst ` set (take i hs)"
  proof
    assume "fst (hs ! i) \<in> fst ` set (take i hs)"
    then obtain j where "j < i" "fst (hs ! j) = fst (hs ! i)" using i by (auto simp: in_set_conv_nth)
    then show False using assms(2) i by (auto simp: distinct_conv_nth)
  qed
  then have "AList.update (fst (hs ! i)) (snd (hs ! i)) (take i hs) = take (Suc i) hs"
    using i by (simp add: update_new take_Suc_conv_app_nth)
  then show ?case using Suc span by (simp add: assms(1) native_simps)
qed simp

lemma header_entries_all: "(\<And>n. gc n) \<Longrightarrow> header_entries gc hs = nret (map (\<lambda>(k, v). (NDyn k, NDyn v)) hs)"
  by (induction hs) (auto simp: makeDynString_def native_simps)

text \<open>An environment in which nothing runs out.\<close>

definition roomy :: "'u http_env \<Rightarrow> bool" where
  "roomy env \<longleftrightarrow> (\<forall>n. nv_gc (hv_net env) n \<and> nv_alloc (hv_net env) n \<and> hv_map_room env n \<and> hv_bump env n) \<and> hv_type env"

lemma internStr_room: "length (nw_slices w) < mx \<Longrightarrow>
    \<exists>k. internStr mx s w = Some (Inr k, w) \<or> internStr mx s w = Some (Inr k, w\<lparr>nw_slices := nw_slices w @ [s]\<rparr>)"
  unfolding internStr_def Let_def
  by (cases "if length (slice_text (nw_err_buf w) s) \<le> 32 then find_index (\<lambda>x. slice_text (nw_err_buf w) x = slice_text (nw_err_buf w) s) (nw_slices w) else None")
     (simp_all, blast+)

lemma intern_names_ok:
  "length (nw_slices w) + length ns \<le> mx \<Longrightarrow>
    \<exists>sl. intern_names mx ns w = Some (Inr (), w\<lparr>nw_slices := nw_slices w @ sl\<rparr>) \<and> length sl \<le> length ns"
proof (induction ns arbitrary: w)
  case Nil
  then show ?case by (simp add: native_eval)
next
  case (Cons n ns)
  obtain k where "internStr mx (Owned n) w = Some (Inr k, w) \<or> internStr mx (Owned n) w = Some (Inr k, w\<lparr>nw_slices := nw_slices w @ [Owned n]\<rparr>)"
    using internStr_room [of w mx "Owned n"] Cons(2) by auto
  then consider (old) "internStr mx (Owned n) w = Some (Inr k, w)"
    | (new) "internStr mx (Owned n) w = Some (Inr k, w\<lparr>nw_slices := nw_slices w @ [Owned n]\<rparr>)" by blast
  then show ?case
  proof cases
    case old
    then show ?thesis using Cons(1) [of w] Cons(2) by (fastforce simp: nbind_def)
  next
    case new
    then show ?thesis using Cons(1) [of "w\<lparr>nw_slices := nw_slices w @ [Owned n]\<rparr>"] Cons(2) by (fastforce simp: nbind_def)
  qed
qed

section \<open>Hosts for the statements\<close>

text \<open>A handler that keeps a log of its requests, and headers as a correct host returns them.\<close>

definition http_logged :: "'u gengo_http_fetch_fn_t \<Rightarrow> ('u \<times> gengo_http_request_t list) gengo_http_fetch_fn_t" where
  "http_logged h rq = (\<lambda>(u, t). case h rq u of (rc, out, u) \<Rightarrow> (rc, out, u, t @ [rq]))"

definition given_headers :: "header_map \<Rightarrow> gengo_http_headers_t" where
  "given_headers hs = \<lparr>hh_keys = Some (c_words (map fst hs)), hh_values = Some (c_words (map snd hs)), hh_count = int (length hs)\<rparr>"

definition demo_http :: "'u gengo_http_fetch_fn_t \<Rightarrow> 'u http_env" where
  "demo_http h = \<lparr>hv_net = \<lparr>nv_ip6 = \<lambda>_. None, nv_dial = [], nv_listen = [], nv_scope_dial = False, nv_scope_listen = False,
       nv_types = True, nv_max_slices = 100, nv_gc = \<lambda>_. True, nv_alloc = \<lambda>_. True, nv_usize_max = 2 ^ 64 - 1, nv_native = True,
       nv_handlers = \<lparr>nh_dial = None, nh_read = None, nh_write = None, nh_close = None, nh_local_addr = None, nh_remote_addr = None,
         nh_set_deadline = None, nh_set_read_deadline = None, nh_set_write_deadline = None, nh_listen = None, nh_accept = None,
         nh_listener_close = None, nh_listener_local_addr = None, nh_set_accept_deadline = None\<rparr>\<rparr>,
     hv_handler = h, hv_iter = rev, hv_map_room = \<lambda>_. True, hv_bump = \<lambda>_. True, hv_type = True\<rparr>"

definition demo_handler :: "nat gengo_http_fetch_fn_t" where
  "demo_handler rq u = (0, \<lparr>rs_status = 404, rs_body = Some [110, 111], rs_body_len = 2, rs_headers = given_headers [([97], [49]), ([98], [50])]\<rparr>, Suc u)"

lemma demo_http_roomy: "roomy (demo_http h)"
  by (simp add: roomy_def demo_http_def)

lemma httpFetchHost_run:
  assumes "roomy env" and "case body of Some b \<Rightarrow> length b \<le> i32_max | None \<Rightarrow> True"
    and "hv_handler env (http_request env method url body hs timeout) (nw_host w) =
      (rc, \<lparr>rs_status = st, rs_body = Some b, rs_body_len = int (length b), rs_headers = given_headers rhs\<rparr>, u)"
    and "0 \<le> rc" "distinct (map fst rhs)" "\<forall>(k, v) \<in> set rhs. 0 \<notin> set k \<and> 0 \<notin> set v"
  shows "httpFetchHost env method url body hs timeout w =
    Some (Inr \<lparr>hr_status = st, hr_body = b, hr_headers = rhs, hr_ok = (200 \<le> st \<and> st < 300)\<rparr>, w\<lparr>nw_host := u\<rparr>)"
proof -
  have "read_headers (hv_map_room env) (c_words (map fst rhs)) (c_words (map snd rhs)) (length rhs) 0 [] = nret rhs"
    using read_headers_all [of "hv_map_room env" rhs 0 "length rhs"] assms(1,5,6) by (simp add: roomy_def)
  then have "response_headers env (given_headers rhs) = nret rhs" by (cases "rhs = []") (simp_all add: response_headers_def given_headers_def)
  then show ?thesis
    using assms(1-4) by (simp add: httpFetchHost_def roomy_def nguard_simps nbind_nret)
      (simp add: nbind_def nw_call_def out3_def nret_apply read_body_def)
qed

lemma buildResponseStruct_run:
  assumes "roomy env" "length (nw_slices w) + 4 \<le> nv_max_slices (hv_net env)"
  shows "\<exists>w'. buildResponseStruct env r w = Some (Inr (NStruct response_type
        [(bytes_of ''status'', NInt (hr_status r)), (bytes_of ''body'', NDyn (hr_body r)),
         (bytes_of ''headers'', NMap (map (\<lambda>(k, v). (NDyn k, NDyn v)) (hv_iter env (hr_headers r)))), (bytes_of ''ok'', NBool (hr_ok r))]), w')
    \<and> nw_host w' = nw_host w"
proof -
  have "length (nw_slices w) + length [bytes_of ''status'', bytes_of ''body'', bytes_of ''headers'', bytes_of ''ok''] \<le> nv_max_slices (hv_net env)"
    using assms(2) by simp
  from intern_names_ok [OF this] obtain sl where
    sl: "intern_names (nv_max_slices (hv_net env)) [bytes_of ''status'', bytes_of ''body'', bytes_of ''headers'', bytes_of ''ok''] w =
      Some (Inr (), w\<lparr>nw_slices := nw_slices w @ sl\<rparr>)"
    by blast
  have gc: "nv_gc (hv_net env) n" "hv_type env" for n using assms(1) by (simp_all add: roomy_def)
  show ?thesis
    by (simp only: buildResponseStruct_def Let_def gc nguard_simps nbind_nret makeDynString_def header_entries_all if_True)
       (simp only: nbind_def sl option.case prod.case sum.case nret_apply, simp)
qed

text \<open>
  C32. A response survives the trip from the host to the script: when the host returns a status, a body and headers with distinct names and nothing runs
  out of room, \<open>http.get\<close> gives the script a pair of a response and null, with that status and body, with the same headers as a map
  (in the order of the hash map), and with \<open>ok\<close> exactly for the statuses 200 to 299.
\<close>

theorem http_response_roundtrip:
  assumes "roomy env" "asStringValue v = Some url" "length (nw_slices w) + 4 \<le> nv_max_slices (hv_net env)"
    and "hv_handler env (http_request env (bytes_of ''GET'') url None None 0) (nw_host w) =
      (rc, \<lparr>rs_status = st, rs_body = Some b, rs_body_len = int (length b), rs_headers = given_headers hs\<rparr>, u)"
    and "0 \<le> rc" "distinct (map fst hs)" "\<forall>(k, v) \<in> set hs. 0 \<notin> set k \<and> 0 \<notin> set v" "mset (hv_iter env hs) = mset hs"
  shows "\<exists>es w'. http_dispatch env cap_http_get [v] w = Some (Inr (NArray [NStruct response_type
        [(bytes_of ''status'', NInt st), (bytes_of ''body'', NDyn b), (bytes_of ''headers'', NMap es), (bytes_of ''ok'', NBool (200 \<le> st \<and> st < 300))], NNull]), w')
    \<and> mset es = mset (map (\<lambda>(k, v). (NDyn k, NDyn v)) hs) \<and> nw_host w' = u"
proof -
  let ?r = "\<lparr>hr_status = st, hr_body = b, hr_headers = hs, hr_ok = (200 \<le> st \<and> st < 300)\<rparr>"
  have clean: "\<not> containsCrlf (bytes_of ''GET'')" by (simp add: containsCrlf_def indexOfScalar_None bytes_of_def)
  have run: "httpFetchHost env (bytes_of ''GET'') url None None 0 w = Some (Inr ?r, w\<lparr>nw_host := u\<rparr>)"
    by (rule httpFetchHost_run [OF assms(1) _ assms(4-7)]) simp
  obtain w' where w': "buildResponseStruct env ?r (w\<lparr>nw_host := u\<rparr>) = Some (Inr (NStruct response_type
        [(bytes_of ''status'', NInt st), (bytes_of ''body'', NDyn b),
         (bytes_of ''headers'', NMap (map (\<lambda>(k, v). (NDyn k, NDyn v)) (hv_iter env hs))), (bytes_of ''ok'', NBool (200 \<le> st \<and> st < 300))]), w')"
      "nw_host w' = u"
    using buildResponseStruct_run [OF assms(1), of "w\<lparr>nw_host := u\<rparr>" ?r] assms(3) by auto
  have d: "http_dispatch env cap_http_get [v] w = fetch_result env (bytes_of ''http.get: '' @ url) (httpFetch env (bytes_of ''GET'') url None None 0) w"
    by (simp add: http_dispatch_def http_get_def str_arg_def assms(2) norelse_simps nbind_nret)
  have f: "httpFetch env (bytes_of ''GET'') url None None 0 = httpFetchHost env (bytes_of ''GET'') url None None 0"
    using clean by (simp add: httpFetch_def)
  have gc: "nv_gc (hv_net env) 2" using assms(1) by (simp add: roomy_def)
  have "http_dispatch env cap_http_get [v] w = Some (Inr (NArray [NStruct response_type
        [(bytes_of ''status'', NInt st), (bytes_of ''body'', NDyn b),
         (bytes_of ''headers'', NMap (map (\<lambda>(k, v). (NDyn k, NDyn v)) (hv_iter env hs))), (bytes_of ''ok'', NBool (200 \<le> st \<and> st < 300))], NNull]), w')"
    by (simp only: d fetch_result_def ncatch_def f run option.case prod.case sum.case nbind_def w'(1) ok_pair_def gc nguard_simps nret_apply)
  then show ?thesis using w'(2) assms(8) by (intro exI [of _ "map (\<lambda>(k, v). (NDyn k, NDyn v)) (hv_iter env hs)"] exI [of _ w']) simp
qed

theorem http_response_roundtrip_witness:
  "\<exists>es w'. http_dispatch (demo_http demo_handler) cap_http_get [NString [117]] (net_start 0) = Some (Inr (NArray [NStruct response_type
        [(bytes_of ''status'', NInt 404), (bytes_of ''body'', NDyn [110, 111]), (bytes_of ''headers'', NMap es), (bytes_of ''ok'', NBool (200 \<le> (404 :: int) \<and> (404 :: int) < 300))],
        NNull]), w')
    \<and> mset es = mset (map (\<lambda>(k, v). (NDyn k, NDyn v)) [([97], [49]), ([98], [50])]) \<and> nw_host w' = 1"
  by (rule http_response_roundtrip [where url = "[117]" and rc = 0])
     (simp_all add: demo_http_roomy, simp_all add: net_start_def demo_http_def demo_handler_def)

end
