(* ===== verification/CapHttpClaims.thy ===== *)
theory CapHttpClaims
  imports CapHttpProps
begin

text \<open>The claims on the requests and the results of the HTTP capability.\<close>

section \<open>Requests\<close>

text \<open>
  Whatever a script passes to the HTTP natives, each call asks the host at most once, and a request that reaches the host has no CR or LF in its
  method, its header names and its header values, ends its strings with NUL, and has a body length below \<open>2 ^ 31\<close> that is right and at most 64
  headers, so that a script cannot smuggle a second request or forge a header.
\<close>

theorem http_requests_clean:
  assumes "hv_handler env = http_logged h" "http_dispatch env f args w = Some (r, w')"
  shows "snd (nw_host w') = snd (nw_host w) \<or> (\<exists>rq. fetch_ok rq \<and> snd (nw_host w') = snd (nw_host w) @ [rq])"
proof -
  have "snd (nw_host w') = snd (nw_host w) @ [rq]" if "hv_handler env rq (nw_host w) = (rc, out, nw_host w')" for rq rc out
    using that assms(1) by (cases "nw_host w"; cases "nw_host w'") (auto simp: http_logged_def split: prod.splits)
  then show ?thesis using asksD [OF asks_dispatch assms(2)] by metis
qed

definition clean_host :: "(nat \<times> gengo_http_request_t list) http_env" where
  "clean_host = demo_http (http_logged demo_handler)"

lemma fetch_clean_host:
  assumes "\<not> containsCrlf method" "length (nw_slices w) + 4 \<le> 100"
  shows "\<exists>v w'. fetch_result clean_host what (httpFetch clean_host method url None None 0) w = Some (Inr v, w')
    \<and> snd (nw_host w') = snd (nw_host w) @ [http_request clean_host method url None None 0]"
proof -
  let ?r = "\<lparr>hr_status = 404, hr_body = [110, 111], hr_headers = [([97], [49]), ([98], [50])], hr_ok = (200 \<le> (404 :: int) \<and> (404 :: int) < 300)\<rparr>"
  obtain u t where h: "nw_host w = (u, t)" by (cases "nw_host w")
  let ?u = "(Suc u, t @ [http_request clean_host method url None None 0])"
  have roomy: "roomy clean_host" by (simp add: clean_host_def demo_http_roomy)
  have handler: "hv_handler clean_host (http_request clean_host method url None None 0) (nw_host w) =
      (0, \<lparr>rs_status = 404, rs_body = Some [110, 111], rs_body_len = int (length [110 :: byte, 111]), rs_headers = given_headers [([97], [49]), ([98], [50])]\<rparr>, ?u)"
    by (simp add: clean_host_def demo_http_def http_logged_def demo_handler_def h)
  have run: "httpFetchHost clean_host method url None None 0 w = Some (Inr ?r, w\<lparr>nw_host := ?u\<rparr>)"
    by (rule httpFetchHost_run [OF roomy _ handler]) simp_all
  have f: "httpFetch clean_host method url None None 0 = httpFetchHost clean_host method url None None 0"
    using assms(1) by (simp add: httpFetch_def)
  obtain v w' where w': "buildResponseStruct clean_host ?r (w\<lparr>nw_host := ?u\<rparr>) = Some (Inr v, w')" "nw_host w' = ?u"
    using buildResponseStruct_run [OF roomy, of "w\<lparr>nw_host := ?u\<rparr>" ?r] assms(2) by (auto simp: clean_host_def demo_http_def)
  have gc: "nv_gc (hv_net clean_host) 2" using roomy by (simp add: roomy_def)
  have "fetch_result clean_host what (httpFetch clean_host method url None None 0) w = Some (Inr (NArray [v, NNull]), w')"
    by (simp only: fetch_result_def ncatch_def f run option.case prod.case sum.case nbind_def w'(1) ok_pair_def gc nguard_simps nret_apply)
  then show ?thesis using w'(2) h by (intro exI [of _ "NArray [v, NNull]"] exI [of _ w']) simp
qed

theorem http_requests_clean_witness:
  "\<exists>r w' rq. http_dispatch clean_host cap_http_get [NString [117]] (net_start (0, [])) = Some (r, w') \<and> snd (nw_host w') = [rq] \<and> fetch_ok rq"
proof -
  have "http_dispatch clean_host cap_http_get [NString [117]] = fetch_result clean_host (bytes_of ''http.get: '' @ [117]) (httpFetch clean_host (bytes_of ''GET'') [117] None None 0)"
    by (simp add: fun_eq_iff http_dispatch_def http_get_def str_arg_def norelse_simps nbind_nret)
  moreover have "\<not> containsCrlf (bytes_of ''GET'')" by (simp add: containsCrlf_def indexOfScalar_None bytes_of_def)
  moreover have "length (nw_slices (net_start (0 :: nat, [] :: gengo_http_request_t list))) + 4 \<le> 100" "snd (nw_host (net_start (0 :: nat, []))) = []"
    by (simp_all add: net_start_def)
  ultimately obtain v w' where run: "http_dispatch clean_host cap_http_get [NString [117]] (net_start (0, [])) = Some (Inr v, w')"
      and w': "snd (nw_host w') = [http_request clean_host (bytes_of ''GET'') [117] None None 0]"
    using fetch_clean_host [of "bytes_of ''GET''" "net_start (0, [])" "bytes_of ''http.get: '' @ [117]" "[117]"] by (metis append_Nil)
  have "hv_handler clean_host = http_logged demo_handler" by (simp add: clean_host_def demo_http_def)
  from http_requests_clean [OF this run] w' show ?thesis using run by (auto simp: net_start_def)
qed

text \<open>
  The two arrays with the request headers are not arrays of C strings. They are built as arrays of slices, and a host that reads them as
  \<open>gengo-engine.h\<close> declares them finds at each even place \<open>2 j\<close> the header \<open>j\<close> and at each odd place the length of a header, which is no address: with two
  headers or more, reading what \<open>count\<close> promises is an access to unmapped memory.
\<close>

theorem http_header_arrays:
  assumes "\<And>n. nv_alloc (hv_net env) n" "0 < length (hv_iter env hs)" "\<forall>(k, v) \<in> set (hv_iter env hs). 0 \<notin> set k \<and> 0 \<notin> set v"
    and "h = rq_headers (http_request env method url b (Some hs) timeout)"
  shows "\<exists>ks vs. hh_keys h = Some ks \<and> hh_values h = Some vs \<and> hh_count h = int (min 64 (length (hv_iter env hs)))
    \<and> (\<forall>i. int i < hh_count h \<longrightarrow> span_at ks i = (if even i then Some (fst (hv_iter env hs ! (i div 2))) else None)
         \<and> span_at vs i = (if even i then Some (snd (hv_iter env hs ! (i div 2))) else None))"
proof -
  define js where "js = take 64 (hv_iter env hs)"
  have js: "js \<noteq> []" "length js = min 64 (length (hv_iter env hs))" "set js \<subseteq> set (hv_iter env hs)"
    using assms(2) set_take_subset [of 64 "hv_iter env hs"] by (auto simp: js_def)
  have nul: "\<forall>k \<in> set (map fst js). 0 \<notin> set k" "\<forall>v \<in> set (map snd js). 0 \<notin> set v" using assms(3) js(3) by (auto dest!: subsetD)
  have "copy_headers (nv_alloc (hv_net env)) (hv_iter env hs) [] = map (\<lambda>(k, v). (k @ [0], v @ [0])) js"
    using copy_headers_all [of "nv_alloc (hv_net env)" "[]"] assms(1) by (simp add: js_def take_map)
  then have h: "h = \<lparr>hh_keys = Some (slice_words (map (\<lambda>k. k @ [0]) (map fst js))), hh_values = Some (slice_words (map (\<lambda>v. v @ [0]) (map snd js))),
      hh_count = int (length js)\<rparr>"
    using js(1) by (simp add: assms(4) http_request_def request_headers_def o_def case_prod_unfold)
  have keys: "span_at (slice_words (map (\<lambda>k. k @ [0]) (map fst js))) i = (if even i then Some (fst (hv_iter env hs ! (i div 2))) else None)"
    if "i < length js" for i
  proof -
    have "i div 2 < length js" using that by simp
    then have "map fst js ! (i div 2) = fst (hv_iter env hs ! (i div 2))" by (simp add: js_def)
    then show ?thesis using that span_slice_words [OF _ nul(1), of i] by simp
  qed
  have vals: "span_at (slice_words (map (\<lambda>v. v @ [0]) (map snd js))) i = (if even i then Some (snd (hv_iter env hs ! (i div 2))) else None)"
    if "i < length js" for i
  proof -
    have "i div 2 < length js" using that by simp
    then have "map snd js ! (i div 2) = snd (hv_iter env hs ! (i div 2))" by (simp add: js_def)
    then show ?thesis using that span_slice_words [OF _ nul(2), of i] by simp
  qed
  show ?thesis using keys vals by (simp add: h js(2) [symmetric])
qed

theorem http_header_arrays_witness:
  "\<exists>ks. hh_keys (rq_headers (http_request clean_host [71] [117] None (Some [([97], [49]), ([98], [50])]) 0)) = Some ks
    \<and> span_at ks 0 = Some [98] \<and> span_at ks 1 = None"
proof -
  from http_header_arrays [of clean_host "[([97], [49]), ([98], [50])]" _ "[71]" "[117]" None 0, OF _ _ _ refl]
  obtain ks where "hh_keys (rq_headers (http_request clean_host [71] [117] None (Some [([97], [49]), ([98], [50])]) 0)) = Some ks"
    and "\<forall>i. int i < 2 \<longrightarrow> span_at ks i = (if even i then Some (fst ([([98 :: byte], [50 :: byte]), ([97], [49])] ! (i div 2))) else None)"
    by (auto simp: clean_host_def demo_http_def)
  then show ?thesis by (auto dest: spec [of _ 0] spec [of _ 1])
qed

text \<open>
  Header names and values that the script made at run time are not sent: \<open>http.fetch\<close> behaves as if the entries of the headers map whose name or
  value is not an interned string were not there, and reports nothing.
\<close>

theorem http_dyn_headers_dropped:
  "http_dispatch env cap_http_fetch [url, NMap [(NString (bytes_of ''headers''), NMap es)]] =
   http_dispatch env cap_http_fetch [url, NMap [(NString (bytes_of ''headers''),
     NMap (filter (\<lambda>(k, v). plain_string k \<noteq> None \<and> plain_string v \<noteq> None) es))]]"
proof -
  have "put_headers room es hm = (put_headers room (filter (\<lambda>(k, v). plain_string k \<noteq> None \<and> plain_string v \<noteq> None) es) hm :: (header_map, 'a) net)" for room hm
    by (induction room es hm rule: put_headers.induct) (auto simp: Let_def split: option.split)
  then show ?thesis by (simp add: http_dispatch_def http_fetch_def fetch_entry_def bytes_of_def)
qed

text \<open>
  A timeout that is not a number stops the engine: \<open>http.fetch\<close> with such a \<open>timeout_ms\<close> panics instead of raising a type error, and no other double
  does.
\<close>

theorem http_nan_timeout:
  "(f64_exp d = 2047 \<and> f64_frac d \<noteq> 0 \<longrightarrow> http_dispatch env cap_http_fetch [NString url, NMap [(NString (bytes_of ''timeout_ms''), NFloat d)]] w = None)
    \<and> (timeout_of (NFloat d) w = None \<longleftrightarrow> f64_exp d = 2047 \<and> f64_frac d \<noteq> 0)"
  by (auto simp: http_dispatch_def http_fetch_def fetch_entry_def bytes_of_def timeout_of_def native_eval str_arg_def split: option.split)

theorem http_nan_timeout_witness:
  "http_dispatch clean_host cap_http_fetch [NString [117], NMap [(NString (bytes_of ''timeout_ms''), NFloat 0x7FF8000000000000)]] (net_start (0, [])) = None"
  using http_nan_timeout [of "0x7FF8000000000000" clean_host "[117]" "net_start (0, [])"] by (simp add: f64_exp_def f64_frac_def)

end
