(* ===== verification/CapErrors.thy ===== *)
theory CapErrors
  imports CapHttpClaims
begin

text \<open>
  The two capabilities together: a script that uses both works on one table of interned strings. What the texts of their error values do afterwards,
  and the type of the results of the HTTP natives.
\<close>

section \<open>Scripts that use both capabilities\<close>

inductive cap_reach :: "'u http_env \<Rightarrow> 'u net_world \<Rightarrow> 'u net_world \<Rightarrow> bool" for env where
  start: "cap_reach env w w"
| net: "cap_reach env w w1 \<Longrightarrow> net_dispatch (hv_net env) f args w1 = Some (r, w2) \<Longrightarrow> cap_reach env w w2"
| http: "cap_reach env w w1 \<Longrightarrow> http_dispatch env g args w1 = Some (r, w2) \<Longrightarrow> cap_reach env w w2"
| reset: "cap_reach env w w1 \<Longrightarrow> cap_reach env w (netReset (hv_net env) w1)"

definition same_tables :: "'u net_world \<Rightarrow> 'u net_world \<Rightarrow> bool" where
  "same_tables w w' \<longleftrightarrow> nw_conns w' = nw_conns w \<and> nw_next_id w' = nw_next_id w \<and> nw_listeners w' = nw_listeners w
     \<and> nw_next_listener_id w' = nw_next_listener_id w \<and> nw_err_buf w' = nw_err_buf w \<and> nw_err_len w' = nw_err_len w"

interpretation tables: world_relation same_tables
  by unfold_locales (auto simp: same_tables_def)

lemma http_keeps_tables: "http_dispatch env g args w = Some (r, w') \<Longrightarrow> same_tables w w'"
  by (rule followsD [OF tables.dispatch]) (auto simp: same_tables_def)

lemma http_slices_grow: "http_dispatch env g args w = Some (r, w') \<Longrightarrow> slices_grow w w'"
  by (rule followsD [OF slices.dispatch]) (auto simp: slices_grow_def)

lemma micro_grow: "micro env w w' \<Longrightarrow> ids_small w \<Longrightarrow> ids_small w' \<and> slices_grow w w'"
  by (induction rule: micro.induct) (auto simp: slices_grow_def ids_small_def netReset_def Let_def)

lemma micros_grow: "(micro env)\<^sup>*\<^sup>* w w' \<Longrightarrow> ids_small w \<Longrightarrow> ids_small w' \<and> slices_grow w w'"
proof (induction rule: rtranclp_induct)
  case (step y z)
  then show ?case using micro_grow [of env y z] slices.R_trans by blast
qed (simp add: slices.R_refl)

lemma cap_grow: "cap_reach env w w' \<Longrightarrow> ids_small w \<Longrightarrow> ids_small w' \<and> slices_grow w w'"
proof (induction rule: cap_reach.induct)
  case (net w w1 f args r w2)
  then have small: "ids_small w1" and g: "slices_grow w w1" by simp_all
  have "(micro (hv_net env))\<^sup>*\<^sup>* w1 w2" using steps_dispatch [OF small] net(2) unfolding steps_at_def by blast
  then show ?case using micros_grow [OF _ small] slices.R_trans [OF g] by blast
next
  case (http w w1 g args r w2)
  then have "same_tables w1 w2" "slices_grow w1 w2" by (simp_all add: http_keeps_tables http_slices_grow)
  then show ?case using http slices.R_trans by (auto simp: same_tables_def ids_small_def)
next
  case (reset w w1)
  then show ?case using micro_grow [OF micro.net_reset, of w1 "hv_net env"] slices.R_trans by blast
qed (simp add: slices.R_refl)

lemma slices_grow_nth: "slices_grow w w' \<Longrightarrow> i < length (nw_slices w) \<Longrightarrow> i < length (nw_slices w') \<and> nw_slices w' ! i = nw_slices w ! i"
  by (auto simp: slices_grow_def nth_append)

section \<open>The results of the HTTP natives\<close>

lemma internStr_result: "internStr mx s w = Some (r, w') \<Longrightarrow> r = Inl TooManyConstants \<or> (\<exists>i. r = Inr i \<and> i < length (nw_slices w')
    \<and> (32 < length (slice_text (nw_err_buf w) s) \<longrightarrow> nw_slices w' ! i = s))"
  by (auto simp: internStr_def Let_def dest: find_index_Some split: option.splits if_splits)

lemma http_err_result:
  assumes "http_err_pair env b w = Some (r, w')"
  shows "(\<exists>e. r = Inl e) \<or> (\<exists>i. r = Inr (NArray [NNull, NErrorRef i]) \<and> i < length (nw_slices w')
    \<and> (32 < length (take 512 b) \<longrightarrow> nw_slices w' ! i = Owned (take 512 b)))"
  using assms internStr_result [of "nv_max_slices (hv_net env)" "Owned (take 512 b)"]
  by (fastforce simp: http_err_pair_def err_pair_def error_value_def Let_def native_cases split: if_splits)

definition response_shape :: "nval \<Rightarrow> bool" where
  "response_shape v \<longleftrightarrow> (\<exists>st b es ok. v = NStruct response_type [(bytes_of ''status'', NInt st), (bytes_of ''body'', NDyn b),
     (bytes_of ''headers'', NMap (map (\<lambda>(k, v). (NDyn k, NDyn v)) es)), (bytes_of ''ok'', NBool ok)])"

lemma header_entries_result: "header_entries gc hs w = Some (Inr es, w') \<Longrightarrow> es = map (\<lambda>(k, v). (NDyn k, NDyn v)) hs"
  by (induction hs arbitrary: es w w') (fastforce simp: native_cases split: if_splits)+

lemma buildResponseStruct_shape: "buildResponseStruct env r w = Some (Inr v, w') \<Longrightarrow> response_shape v"
  unfolding buildResponseStruct_def Let_def response_shape_def
  by (auto simp: native_cases split: if_splits dest!: header_entries_result)

lemma fetch_result_shape:
  assumes "fetch_result env what m w = Some (r, w')"
  shows "(\<exists>e. r = Inl e) \<or> (\<exists>v. r = Inr (NArray [v, NNull]) \<and> response_shape v)
    \<or> (\<exists>i. r = Inr (NArray [NNull, NErrorRef i]) \<and> i < length (nw_slices w') \<and> (22 < length what \<longrightarrow> (\<exists>b. nw_slices w' ! i = Owned b)))"
  using assms unfolding fetch_result_def
proof (cases rule: ncatchE)
  case (1 e u)
  have "8 \<le> length (errorName e)" by (cases e) simp_all
  then show ?thesis using 1(2) http_err_result [of env "what @ bytes_of '': '' @ errorName e" u r w']
    by (auto simp: nfail_def split: if_splits)
next
  case (2 x u)
  then show ?thesis by (fastforce simp: native_cases ok_pair_def dest: buildResponseStruct_shape split: if_splits)
qed

lemma http_dispatch_fetch:
  assumes "http_dispatch env f args w = Some (Inr v, w')"
  shows "\<exists>url what m w0. asStringValue (args ! 0) = Some url \<and> 10 + length url \<le> length what \<and> fetch_result env what m w0 = Some (Inr v, w')"
proof -
  obtain url where url: "asStringValue (args ! 0) = Some url"
    using assms by (cases f) (auto simp: http_dispatch_def http_get_def http_post_def http_fetch_def str_arg_def native_cases nfail_def split: if_splits option.splits)
  have "\<exists>what m w0. 10 + length url \<le> length what \<and> fetch_result env what m w0 = Some (Inr v, w')"
  proof (cases f)
    case cap_http_get
    then have "fetch_result env (bytes_of ''http.get: '' @ url) (httpFetch env (bytes_of ''GET'') url None None 0) w = Some (Inr v, w')"
      using assms url by (simp add: http_dispatch_def http_get_def str_arg_def native_simps split: if_splits)
    moreover have "10 + length url \<le> length (bytes_of ''http.get: '' @ url)" by simp
    ultimately show ?thesis by blast
  next
    case cap_http_post
    then obtain b where "fetch_result env (bytes_of ''http.post: '' @ url) (httpFetch env (bytes_of ''POST'') url (Some b) None 0) w = Some (Inr v, w')"
      using assms url by (auto simp: http_dispatch_def http_post_def str_arg_def native_cases nfail_def norelse_simps nbind_nret split: if_splits option.splits)
    moreover have "10 + length url \<le> length (bytes_of ''http.post: '' @ url)" by simp
    ultimately show ?thesis by blast
  next
    case cap_http_fetch
    then obtain es where "nbind (fetch_entries (hv_map_room env) es fetch_defaults) (\<lambda>fo.
         fetch_result env (bytes_of ''http.fetch: '' @ fo_method fo @ bytes_of '' '' @ url)
           (httpFetch env (fo_method fo) url (fo_body fo) (Some (fo_headers fo)) (fo_timeout fo))) w = Some (Inr v, w')"
      using assms url by (auto simp: http_dispatch_def http_fetch_def str_arg_def nfail_def norelse_simps nbind_nret split: if_splits nval.splits)
    then obtain fo :: fetch_opts and w0 where "fetch_result env (bytes_of ''http.fetch: '' @ fo_method fo @ bytes_of '' '' @ url)
           (httpFetch env (fo_method fo) url (fo_body fo) (Some (fo_headers fo)) (fo_timeout fo)) w0 = Some (Inr v, w')"
    proof (cases rule: nbindE)
      case (2 fo w0)
      show ?thesis by (rule that) (rule 2(2))
    qed simp
    moreover have "10 + length url \<le> length (bytes_of ''http.fetch: '' @ fo_method fo @ bytes_of '' '' @ url)" by simp
    ultimately show ?thesis by blast
  qed
  then show ?thesis using url by blast
qed

section \<open>Claims\<close>

text \<open>
  C33. The natives of the HTTP capability give what their type promises: when such a native returns at all, it gives a pair, either of a response with its
  four fields of their types and null, or of null and an error value whose text exists.
\<close>

theorem http_result_typed:
  assumes "http_dispatch env f args w = Some (Inr v, w')"
  shows "(\<exists>resp. v = NArray [resp, NNull] \<and> response_shape resp) \<or> (\<exists>i. v = NArray [NNull, NErrorRef i] \<and> i < length (nw_slices w'))"
proof -
  obtain what m w0 where "fetch_result env what m w0 = Some (Inr v, w')" using http_dispatch_fetch [OF assms] by blast
  from fetch_result_shape [OF this] show ?thesis by auto
qed

text \<open>
  The text of an error of the HTTP capability is kept: whatever the script does afterwards with either capability, and after the reset at the end, an
  error value that names a URL of at least 13 bytes shows the text it had.
\<close>

theorem http_error_text_kept:
  assumes "cap_reach env (net_start u) w" "http_dispatch env f args w = Some (Inr (NArray [NNull, NErrorRef i]), w1)"
    and "asStringValue (args ! 0) = Some url" "13 \<le> length url" "cap_reach env w1 w2"
  shows "error_text w2 i = error_text w1 i"
proof -
  have "ids_small (net_start u)" by (simp add: net_start_def ids_small_def)
  then have "ids_small w" using cap_grow [OF assms(1)] by blast
  then have small: "ids_small w1" using http_keeps_tables [OF assms(2)] by (auto simp: same_tables_def ids_small_def)
  obtain what m w0 where what: "10 + length url \<le> length what" "fetch_result env what m w0 = Some (Inr (NArray [NNull, NErrorRef i]), w1)"
    using http_dispatch_fetch [OF assms(2)] assms(3) by auto
  have "22 < length what" using what(1) assms(4) by simp
  then obtain b where "i < length (nw_slices w1)" "nw_slices w1 ! i = Owned b"
    using fetch_result_shape [OF what(2)] by (auto simp: response_shape_def)
  then show ?thesis using slices_grow_nth [of w1 w2 i] cap_grow [OF assms(5) small] by (simp add: error_text_def)
qed

definition refusing :: "int \<Rightarrow> 'u http_env" where
  "refusing rc = demo_http (\<lambda>rq u. (rc, \<lparr>rs_status = 0, rs_body = None, rs_body_len = 0, rs_headers = given_headers []\<rparr>, u))"

lemma refused_get:
  assumes "rc < 0" "nw_slices w = []"
  shows "\<exists>w'. http_dispatch (refusing rc) cap_http_get [NString url] w = Some (Inr (NArray [NNull, NErrorRef 0]), w')"
  using assms
  by (simp add: refusing_def demo_http_def http_dispatch_def http_get_def str_arg_def native_eval fetch_result_def ncatch_def httpFetch_def containsCrlf_def
      indexOfScalar_None httpFetchHost_def nw_call_def out3_def http_err_pair_def err_pair_def error_value_def internStr_def Let_def)

theorem http_error_text_kept_witness:
  "\<exists>w1. http_dispatch (refusing (-1)) cap_http_get [NString (bytes_of ''http://a.example'')] (net_start (0 :: nat)) = Some (Inr (NArray [NNull, NErrorRef 0]), w1)
    \<and> error_text (netReset (hv_net (refusing (-1))) w1) 0 = error_text w1 0"
proof -
  obtain w1 where w1: "http_dispatch (refusing (-1)) cap_http_get [NString (bytes_of ''http://a.example'')] (net_start (0 :: nat)) =
      Some (Inr (NArray [NNull, NErrorRef 0]), w1)"
    using refused_get [of "-1" "net_start (0 :: nat)" "bytes_of ''http://a.example''"] by (auto simp: net_start_def)
  have "cap_reach (refusing (-1)) w1 (netReset (hv_net (refusing (-1))) w1)" by (rule cap_reach.reset [OF cap_reach.start])
  from http_error_text_kept [OF cap_reach.start w1 _ _ this] w1 show ?thesis by simp
qed

theorem http_result_typed_witness:
  "\<exists>v w. http_dispatch (refusing (-1)) cap_http_get [NString (bytes_of ''http://a.example'')] (net_start (0 :: nat)) = Some (Inr v, w)
    \<and> ((\<exists>resp. v = NArray [resp, NNull] \<and> response_shape resp) \<or> (\<exists>i. v = NArray [NNull, NErrorRef i] \<and> i < length (nw_slices w)))"
proof -
  obtain v w1 where w1: "http_dispatch (refusing (-1)) cap_http_get [NString (bytes_of ''http://a.example'')] (net_start (0 :: nat)) = Some (Inr v, w1)"
    using refused_get [of "-1" "net_start (0 :: nat)" "bytes_of ''http://a.example''"] by (auto simp: net_start_def)
  from http_result_typed [OF w1] w1 show ?thesis by blast
qed

section \<open>Errors of the network capability\<close>

definition refused_text :: "int \<Rightarrow> byte list" where
  "refused_text rc = take 256 (bytes_of ''dial: host handler returned error '' @ dec_int rc)"

lemma refused_text_long: "32 < length (refused_text rc)" "length (refused_text rc) \<le> 256"
  by (simp_all add: refused_text_def)

lemma setNetErr_refused:
  "slice_text (nw_err_buf (setNetErr (bytes_of ''dial: host handler returned error '' @ dec_int rc) w)) (ErrBufView (length (refused_text rc))) = refused_text rc"
  by (simp add: setNetErr_def refused_text_def Let_def min_def)

lemma dial_refused:
  assumes "nh_dial (nv_handlers env) = Some f" "may_dial env a" "f n a (nw_host w) = (rc, out, u)" "rc < 0"
    and "length (nw_conns w) < MaxConns" "length (nw_slices w) < nv_max_slices env"
  shows "net_dispatch env cap_net_dial [NString n, NString a] w = Some (Inr (NErrorRef (length (nw_slices w))),
     (setNetErr (bytes_of ''dial: host handler returned error '' @ dec_int rc) (w\<lparr>nw_err_len := 0, nw_host := u\<rparr>))
       \<lparr>nw_slices := nw_slices w @ [ErrBufView (length (refused_text rc))]\<rparr>)"
proof -
  let ?msg = "bytes_of ''dial: host handler returned error '' @ dec_int rc"
  let ?w = "setNetErr ?msg (w\<lparr>nw_err_len := 0, nw_host := u\<rparr>)"
  have dial: "netDial env n a w = Some (Inl NetError, ?w)"
    using assms by (simp add: netDial_def clear_net_err_def nw_do_def nw_get_def or_msg_def nw_call_def out3_def net_fail_def native_eval)
  have view: "lastNetErr ?w = ErrBufView (length (refused_text rc))"
    using refused_text_long(1) [of rc] by (simp add: lastNetErr_def setNetErr_def refused_text_def Let_def)
  have "internStr (nv_max_slices env) (ErrBufView (length (refused_text rc))) ?w =
      Some (Inr (length (nw_slices w)), ?w\<lparr>nw_slices := nw_slices w @ [ErrBufView (length (refused_text rc))]\<rparr>)"
    using assms(6) refused_text_long(1) [of rc] unfolding internStr_def Let_def setNetErr_refused by simp
  then have "error_value env (lastNetErr ?w) ?w =
      Some (Inr (NErrorRef (length (nw_slices w))), ?w\<lparr>nw_slices := nw_slices w @ [ErrBufView (length (refused_text rc))]\<rparr>)"
    unfolding view error_value_def by (simp add: nbind_def nret_apply)
  then have "last_err_then (error_value env) ?w =
      Some (Inr (NErrorRef (length (nw_slices w))), ?w\<lparr>nw_slices := nw_slices w @ [ErrBufView (length (refused_text rc))]\<rparr>)"
    by (simp add: last_err_then_def nbind_def nw_get_def)
  then show ?thesis
    using assms(2) dial by (simp add: net_dispatch_def dialImpl_def str_arg_def norelse_simps nbind_nret may_dial_def ncatch_def)
qed

text \<open>
  The text of an error of the network capability changes under the script's eyes: when the host refuses two dials with codes whose numerals have the same
  length, the first error value shows the first code until the second dial, and the second code from then on; and each refusal takes another entry of
  the table of interned strings, which nothing gives back.
\<close>

theorem net_error_text_changes:
  assumes "nh_dial (nv_handlers env) = Some f" "may_dial env a" "f n a (nw_host w) = (rc1, o1, u1)" "f n a u1 = (rc2, o2, u2)" "rc1 < 0" "rc2 < 0"
    and "length (dec_int rc1) = length (dec_int rc2)" "length (nw_conns w) < MaxConns" "length (nw_slices w) + 1 < nv_max_slices env"
  shows "\<exists>i j w1 w2. net_dispatch env cap_net_dial [NString n, NString a] w = Some (Inr (NErrorRef i), w1)
    \<and> net_dispatch env cap_net_dial [NString n, NString a] w1 = Some (Inr (NErrorRef j), w2)
    \<and> error_text w1 i = refused_text rc1 \<and> error_text w2 i = refused_text rc2 \<and> length (nw_slices w2) = length (nw_slices w) + 2"
proof -
  let ?err = "\<lambda>rc u w. setNetErr (bytes_of ''dial: host handler returned error '' @ dec_int rc) (w\<lparr>nw_err_len := 0, nw_host := u\<rparr>)"
  let ?w1 = "(?err rc1 u1 w)\<lparr>nw_slices := nw_slices w @ [ErrBufView (length (refused_text rc1))]\<rparr>"
  let ?w2 = "(?err rc2 u2 ?w1)\<lparr>nw_slices := nw_slices ?w1 @ [ErrBufView (length (refused_text rc2))]\<rparr>"
  have first: "net_dispatch env cap_net_dial [NString n, NString a] w = Some (Inr (NErrorRef (length (nw_slices w))), ?w1)"
    using dial_refused [OF assms(1,2,3,5,8)] assms(9) by simp
  have second: "net_dispatch env cap_net_dial [NString n, NString a] ?w1 = Some (Inr (NErrorRef (length (nw_slices ?w1))), ?w2)"
    by (rule dial_refused [OF assms(1,2) _ assms(6)]) (use assms(4,8,9) in simp_all)
  have same: "length (refused_text rc2) = length (refused_text rc1)" using assms(7) by (simp add: refused_text_def)
  have "error_text ?w1 (length (nw_slices w)) = refused_text rc1" using setNetErr_refused [of rc1] by (simp add: error_text_def)
  moreover have "error_text ?w2 (length (nw_slices w)) = refused_text rc2"
    using setNetErr_refused [of rc2] by (simp add: error_text_def nth_append same [symmetric])
  moreover have "length (nw_slices ?w2) = length (nw_slices w) + 2" by simp
  ultimately show ?thesis using first second by blast
qed

definition refusing_net :: "int gengo_net_handlers_t" where
  "refusing_net = (nv_handlers (hv_net (demo_http (\<lambda>rq u. (0, \<lparr>rs_status = 0, rs_body = None, rs_body_len = 0, rs_headers = given_headers []\<rparr>, u)))))
     \<lparr>nh_dial := Some (\<lambda>n a u. (u, None, u - 1))\<rparr>"

definition refusing_env :: "int net_env" where
  "refusing_env = \<lparr>nv_ip6 = \<lambda>_. None, nv_dial = [mk_rule Allow 0 match_all [] 0], nv_listen = [], nv_scope_dial = True, nv_scope_listen = False,
     nv_types = True, nv_max_slices = 100, nv_gc = \<lambda>_. True, nv_alloc = \<lambda>_. True, nv_usize_max = 2 ^ 64 - 1, nv_native = True, nv_handlers = refusing_net\<rparr>"

theorem net_error_text_changes_witness:
  "\<exists>i j w1 w2. net_dispatch refusing_env cap_net_dial [NString [116], NString [97, 58, 56]] (net_start (- 1)) = Some (Inr (NErrorRef i), w1)
    \<and> net_dispatch refusing_env cap_net_dial [NString [116], NString [97, 58, 56]] w1 = Some (Inr (NErrorRef j), w2)
    \<and> error_text w1 i = refused_text (- 1) \<and> error_text w2 i = refused_text (- 2) \<and> length (nw_slices w2) = length (nw_slices (net_start (- 1 :: int))) + 2"
proof (rule net_error_text_changes [where f = "\<lambda>n a u. (u, None, u - 1)" and ?u1.0 = "- 2" and ?o1.0 = None and ?o2.0 = None and ?u2.0 = "- 3"])
  show "may_dial refusing_env [97, 58, 56]"
    by (simp add: may_dial_def refusing_env_def checkDialPolicy_def matchPolicy_unfold split_address_def parseUnsigned_def underscore_edge_def
        is_digit_def digit_val_def rule_matches_def mk_rule_def)
  show "length (dec_int (- 1)) = length (dec_int (- 2))" by (simp add: dec_int_def dec_nat.simps)
qed (simp_all add: refusing_env_def refusing_net_def net_start_def MaxConns_def)

end
