(* ===== verification/HostIo.thy ===== *)
theory HostIo
  imports NativeCall GengoWire
begin

text \<open>
  Input, output and tracing through the host (\<open>src/runtime/io.zig\<close>, the wrappers \<open>ReadImpl\<close>, \<open>WriteImpl\<close>, \<open>engineRead\<close> and
  \<open>engineWrite\<close> of \<open>src/engine.zig\<close>, and the natives \<open>io.read\<close>, \<open>io.read_all\<close> and \<open>io.readline\<close> of
  \<open>src/lang/native/io.zig\<close>). A callback is a function on the state \<open>'u\<close> of the host; standard input and the two output
  descriptors are parameters, as is the size limit of the build.
\<close>

section \<open>State\<close>

text \<open>
  The callback gets the size of the buffer and whether a line is asked for, and gives its result code and the bytes it stored at the
  start of the buffer. \<open>iv_read_override\<close> and \<open>iv_write_override\<close> tell whether the thread has the engine's wrappers installed, which the
  initialisation of an engine does.
\<close>

type_synonym 'u gengo_read_fn_t = "nat \<Rightarrow> bool \<Rightarrow> 'u \<Rightarrow> int \<times> byte list \<times> 'u"
type_synonym 'u gengo_write_fn_t = "byte list \<Rightarrow> bool \<Rightarrow> 'u \<Rightarrow> 'u"

record 'u io_view =
  iv_read_override :: bool
  iv_write_override :: bool
  iv_read_callback :: "'u gengo_read_fn_t option"
  iv_write_callback :: "'u gengo_write_fn_t option"
  iv_stdin :: "nat \<Rightarrow> 'u \<Rightarrow> byte list option \<times> 'u"
  iv_write_fd :: "bool \<Rightarrow> byte list \<Rightarrow> 'u \<Rightarrow> 'u"
  iv_allow_io :: bool
  iv_max_input :: nat
  iv_usize_max :: nat
  iv_alloc :: "nat \<Rightarrow> bool"
  iv_gc :: "nat \<Rightarrow> bool"

section \<open>Reading\<close>

text \<open>A read gives its result code and the bytes at the start of the buffer. \<open>read(2)\<close> at its end and its errors are \<open>-1\<close>.\<close>

definition readFd0 :: "'u io_view \<Rightarrow> nat \<Rightarrow> 'u \<Rightarrow> (int \<times> byte list) \<times> 'u" where
  "readFd0 env k u =
     (case iv_stdin env k u of
        (None, u) \<Rightarrow> ((-1, []), u)
      | (Some b, u) \<Rightarrow> if b = [] then ((-1, []), u) else ((int (length b), b), u))"

text \<open>Bytes one at a time up to a newline; the first argument counts the places left in the buffer.\<close>

fun read_line_loop :: "'u io_view \<Rightarrow> nat \<Rightarrow> byte list \<Rightarrow> 'u \<Rightarrow> (int \<times> byte list) \<times> 'u" where
  "read_line_loop env 0 acc u = ((int (length acc), acc), u)"
| "read_line_loop env (Suc k) acc u =
     (case readFd0 env 1 u of ((n, b), u) \<Rightarrow>
        if n \<le> 0 then (if acc \<noteq> [] then ((int (length acc), acc), u) else ((-1, []), u))
        else let acc' = acc @ take 1 b in
          if last acc' = 10 then ((int (length acc'), acc'), u) else read_line_loop env k acc' u)"

text \<open>
  \<open>readBytesRaw\<close> with \<open>engineRead\<close> and \<open>ReadImpl.read\<close> in place of the override: with no callback \<open>ReadImpl.read\<close> calls \<open>readBytesRaw\<close>.
\<close>

partial_function (option) readBytesRaw :: "'u io_view \<Rightarrow> nat \<Rightarrow> bool \<Rightarrow> 'u \<Rightarrow> ((int \<times> byte list) \<times> 'u) option" where
  "readBytesRaw env k is_line u =
     (if iv_read_override env then
        (case iv_read_callback env of
           Some cb \<Rightarrow> if 2 ^ 31 \<le> k then None else (case cb k is_line u of (n, stored, u) \<Rightarrow> Some ((n, stored), u))
         | None \<Rightarrow> readBytesRaw env k is_line u)
      else if k = 0 then Some ((0, []), u)
      else if \<not> is_line then Some (readFd0 env k u)
      else Some (read_line_loop env k [] u))"

definition engineRead :: "'u io_view \<Rightarrow> nat \<Rightarrow> bool \<Rightarrow> 'u \<Rightarrow> ((int \<times> byte list) \<times> 'u) option" where
  "engineRead env k is_line u =
     (case iv_read_callback env of
        Some cb \<Rightarrow> if 2 ^ 31 \<le> k then None else (case cb k is_line u of (n, stored, u) \<Rightarrow> Some ((n, stored), u))
      | None \<Rightarrow> readBytesRaw env k is_line u)"

lemma readBytesRaw_unfold:
  "readBytesRaw env k is_line u =
     (if iv_read_override env then engineRead env k is_line u
      else if k = 0 then Some ((0, []), u)
      else if \<not> is_line then Some (readFd0 env k u)
      else Some (read_line_loop env k [] u))"
  by (subst readBytesRaw.simps) (simp add: engineRead_def)

text \<open>
  The loop of \<open>readAllBytesRaw\<close>; a piece that is longer than the rest of the buffer, or than what was stored, makes the caller read past the
  buffer or bytes that nobody wrote: \<open>None\<close>.
\<close>

function read_all_loop :: "'u io_view \<Rightarrow> nat \<Rightarrow> byte list \<Rightarrow> 'u \<Rightarrow> (byte list \<times> 'u) option" where
  "read_all_loop env cap acc u =
     (if cap \<le> length acc then Some (acc, u)
      else let rest = cap - length acc in
        case (if iv_read_override env then engineRead env rest False u else Some (readFd0 env rest u)) of
          None \<Rightarrow> None
        | Some ((n, b), u) \<Rightarrow>
            if n \<le> 0 then Some (acc, u)
            else if int rest < n \<or> int (length b) < n then None
            else read_all_loop env cap (acc @ take (nat n) b) u)"
  by pat_completeness auto
termination
  by (relation "measure (\<lambda>(env, cap, acc, u). cap - length acc)") auto

declare read_all_loop.simps [simp del]

definition readAllBytesRaw :: "'u io_view \<Rightarrow> nat \<Rightarrow> 'u \<Rightarrow> ((int \<times> byte list) \<times> 'u) option" where
  "readAllBytesRaw env cap u =
     (case read_all_loop env cap [] u of None \<Rightarrow> None
      | Some (b, u) \<Rightarrow> Some (if b = [] then (-1, []) else (int (length b), b), u))"

section \<open>Writing\<close>

definition io_write :: "'u io_view \<Rightarrow> bool \<Rightarrow> byte list \<Rightarrow> 'u \<Rightarrow> 'u option" where
  "io_write env is_stderr s u =
     (if iv_write_override env then
        (if 2 ^ 31 \<le> length s then None
         else case iv_write_callback env of Some cb \<Rightarrow> Some (cb s is_stderr u) | None \<Rightarrow> Some (iv_write_fd env is_stderr s u))
      else Some (iv_write_fd env is_stderr s u))"

section \<open>The reading natives\<close>

definition io_lift :: "('u \<Rightarrow> ('a \<times> 'u) option) \<Rightarrow> ('a, 'u) native" where
  "io_lift f u = (case f u of None \<Rightarrow> None | Some (x, u) \<Rightarrow> Some (Inr x, u))"

definition bytesToValue :: "'u io_view \<Rightarrow> byte list \<Rightarrow> (nval, 'u) native" where
  "bytesToValue env b = nbind (nguard (iv_gc env 1) NativeOutOfMemory) (\<lambda>_. makeDynString (iv_gc env) b)"

text \<open>A result in a buffer of \<open>cap\<close> bytes: \<open>rbuf[0..n]\<close>.\<close>

definition filled :: "nat \<Rightarrow> int \<times> byte list \<Rightarrow> (byte list, 'u) native" where
  "filled cap r = (case r of (n, b) \<Rightarrow> if int cap < n \<or> int (length b) < n then npanic else nret (take (nat n) b))"

definition f64_not_positive :: "f64 \<Rightarrow> bool" where
  "f64_not_positive d \<longleftrightarrow> \<not> (f64_exp d = 2047 \<and> f64_frac d \<noteq> 0) \<and> (f64_neg d \<or> f64_exp d = 0 \<and> f64_frac d = 0)"

text \<open>The size that \<open>io.read\<close> asks for, \<open>None\<close> for none; converting a NaN or a double beyond \<open>usize\<close> panics.\<close>

definition read_size :: "'u io_view \<Rightarrow> nval \<Rightarrow> (nat option, 'u) native" where
  "read_size env v =
     (case v of
        NInt n \<Rightarrow> nret (if n \<le> 0 then None else Some (min (nat n) (iv_max_input env)))
      | NFloat d \<Rightarrow>
          if f64_not_positive d then nret None
          else if f64_exp d = 2047 \<or> iv_usize_max env < f64_trunc_mag (f64_exp d) (f64_frac d) then npanic
          else nret (Some (min (f64_trunc_mag (f64_exp d) (f64_frac d)) (iv_max_input env)))
      | _ \<Rightarrow> nfail TypeError)"

definition io_read :: "'u io_view \<Rightarrow> nval list \<Rightarrow> (nval, 'u) native" where
  "io_read env args =
     (if length args \<noteq> 1 then nfail ArityMismatch
      else nbind (nguard (iv_allow_io env) PermissionDenied) (\<lambda>_.
      nbind (read_size env (args ! 0)) (\<lambda>sz. case sz of None \<Rightarrow> nret NNull
      | Some max_bytes \<Rightarrow>
          nbind (nguard (iv_alloc env max_bytes) NativeOutOfMemory) (\<lambda>_.
          nbind (io_lift (readBytesRaw env max_bytes False)) (\<lambda>r.
          if 0 < fst r then nbind (filled max_bytes r) (bytesToValue env) else nret NNull)))))"

definition io_read_all :: "'u io_view \<Rightarrow> (nval, 'u) native" where
  "io_read_all env =
     nbind (nguard (iv_allow_io env) PermissionDenied) (\<lambda>_.
     nbind (nguard (iv_alloc env (iv_max_input env)) NativeOutOfMemory) (\<lambda>_.
     nbind (io_lift (readAllBytesRaw env (iv_max_input env))) (\<lambda>r.
     if 0 < fst r then nbind (filled (iv_max_input env) r) (bytesToValue env) else nret NNull)))"

definition line_text :: "byte list \<Rightarrow> byte list" where
  "line_text b =
     (let b1 = (if b \<noteq> [] \<and> last b = 10 then butlast b else b)
      in if b1 \<noteq> [] \<and> last b1 = 13 then butlast b1 else b1)"

definition io_readline :: "'u io_view \<Rightarrow> (nval, 'u) native" where
  "io_readline env =
     nbind (nguard (iv_allow_io env) PermissionDenied) (\<lambda>_.
     nbind (nguard (iv_alloc env (iv_max_input env)) NativeOutOfMemory) (\<lambda>_.
     nbind (io_lift (readBytesRaw env (iv_max_input env) True)) (\<lambda>r.
     if 0 < fst r then nbind (filled (iv_max_input env) r) (\<lambda>b. bytesToValue env (line_text b)) else nret NNull)))"

section \<open>Tracing\<close>

text \<open>The hook of the active engine with the line it saw last; an event is a line and a column.\<close>

record trace_state =
  tr_set :: bool
  tr_prev :: nat

definition no_line :: nat where "no_line = 2 ^ 32 - 1"

definition setTrace :: "bool \<Rightarrow> trace_state \<Rightarrow> trace_state" where
  "setTrace f s = s\<lparr>tr_set := f, tr_prev := no_line\<rparr>"

definition fireTrace :: "nat \<Rightarrow> nat \<Rightarrow> trace_state \<Rightarrow> ((nat \<times> nat) list \<times> trace_state) option" where
  "fireTrace line col s =
     (if \<not> tr_set s \<or> line = tr_prev s then Some ([], s)
      else if 2 ^ 31 \<le> line \<or> 2 ^ 31 \<le> col then None
      else Some ([(line, col)], s\<lparr>tr_prev := line\<rparr>))"

text \<open>The instructions of a run, each at a line and a column.\<close>

fun trace_run :: "(nat \<times> nat) list \<Rightarrow> trace_state \<Rightarrow> ((nat \<times> nat) list \<times> trace_state) option" where
  "trace_run [] s = Some ([], s)"
| "trace_run ((line, col) # rest) s =
     (case fireTrace line col s of None \<Rightarrow> None
      | Some (ev, s) \<Rightarrow> (case trace_run rest s of None \<Rightarrow> None | Some (evs, s) \<Rightarrow> Some (ev @ evs, s)))"

end
