(* ===== verification/HostIoProps.thy ===== *)
theory HostIoProps
  imports HostIo
begin

text \<open>
  What the reading natives and the trace hook promise: lines come back as they were written, everything a callback gives arrives in
  whatever pieces, and the hook fires when the line changes; and the case in which a read never returns.
\<close>

section \<open>A read without a callback\<close>

lemma readBytesRaw_loops:
  assumes "iv_read_override env" "iv_read_callback env = None"
  shows "readBytesRaw env k is_line u = None"
proof -
  have "iv_read_override env \<longrightarrow> iv_read_callback env = None \<longrightarrow> False" if "readBytesRaw env k is_line u = Some y" for y
    using that
  proof (induction rule: readBytesRaw.raw_induct [rotated, consumes 1, case_names step])
    case (step loop env k is_line u y)
    show ?case
    proof (intro impI)
      assume "iv_read_override env" "iv_read_callback env = None"
      then show False using step(1) [of env k is_line u y] step(2) by simp
    qed
  qed
  then show ?thesis using assms by (cases "readBytesRaw env k is_line u") auto
qed

text \<open>
  An engine that has no read callback cannot read: the header promises that reads fall through to standard input, but the wrapper that the
  initialisation installs and \<open>readBytesRaw\<close> call each other, so that \<open>io.readline\<close>, \<open>io.read\<close> of a positive size and \<open>io.read_all\<close> never
  return.
\<close>

theorem read_without_callback:
  assumes "iv_read_override env" "iv_read_callback env = None" "iv_allow_io env" "\<And>k. iv_alloc env k" "0 < iv_max_input env" "0 < n"
  shows "io_readline env u = None \<and> io_read env [NInt n] u = None \<and> io_read_all env u = None"
proof -
  have r: "readBytesRaw env k is_line v = None" for k is_line v by (rule readBytesRaw_loops [OF assms(1,2)])
  have "read_all_loop env (iv_max_input env) [] u = None"
    using assms by (simp add: read_all_loop.simps engineRead_def r)
  then show ?thesis
    using assms by (simp add: io_readline_def io_read_def io_read_all_def read_size_def readAllBytesRaw_def native_eval io_lift_def r)
qed

definition demo_io :: "bool \<Rightarrow> byte list io_view" where
  "demo_io override = \<lparr>iv_read_override = override, iv_write_override = override, iv_read_callback = None, iv_write_callback = None,
     iv_stdin = \<lambda>k u. (Some (take k u), drop k u), iv_write_fd = \<lambda>e s u. u, iv_allow_io = True, iv_max_input = 100, iv_usize_max = 2 ^ 64 - 1,
     iv_alloc = \<lambda>_. True, iv_gc = \<lambda>_. True\<rparr>"

theorem read_without_callback_witness: "io_readline (demo_io True) [104, 105, 10] = None"
  using read_without_callback [of "demo_io True" 1 "[104, 105, 10]"] by (simp add: demo_io_def)

section \<open>Lines\<close>

text \<open>Standard input as a list of bytes.\<close>

definition stdin_list :: "byte list io_view \<Rightarrow> bool" where
  "stdin_list env \<longleftrightarrow> \<not> iv_read_override env \<and> iv_allow_io env \<and> (\<forall>k. iv_alloc env k \<and> iv_gc env k)
     \<and> (\<forall>k u. iv_stdin env k u = (Some (take k u), drop k u))"

lemma read_line_loop_line:
  assumes "\<forall>k u. iv_stdin env k u = (Some (take k u), drop k u)"
  shows "10 \<notin> set l \<Longrightarrow> length l < k \<Longrightarrow> read_line_loop env k acc (l @ 10 # rest) = ((int (length (acc @ l @ [10])), acc @ l @ [10]), rest)"
proof (induction l arbitrary: k acc)
  case Nil
  then obtain j where "k = Suc j" using gr0_implies_Suc by auto
  then show ?case by (simp add: readFd0_def assms)
next
  case (Cons c l)
  then obtain j where "k = Suc j" by (cases k) auto
  then show ?case using Cons by (simp add: readFd0_def assms)
qed

fun read_lines :: "byte list io_view \<Rightarrow> nat \<Rightarrow> (nval list, byte list) native" where
  "read_lines env 0 = nret []"
| "read_lines env (Suc n) = nbind (io_readline env) (\<lambda>v. nbind (read_lines env n) (\<lambda>vs. nret (v # vs)))"

definition line_of :: "byte list \<times> bool \<Rightarrow> byte list" where
  "line_of p = fst p @ (if snd p then [13, 10] else [10])"

lemma readline_line:
  assumes "stdin_list env" "10 \<notin> set l" "crlf \<or> l = [] \<or> last l \<noteq> 13" "length l + 2 \<le> iv_max_input env"
  shows "io_readline env (line_of (l, crlf) @ rest) = Some (Inr (NDyn l), rest)"
proof -
  define b where "b = l @ (if crlf then [13] else [])"
  have line: "line_of (l, crlf) @ rest = b @ 10 # rest" by (simp add: line_of_def b_def)
  have "10 \<notin> set b" "length b < iv_max_input env" using assms(2,4) by (auto simp: b_def)
  then have loop: "read_line_loop env (iv_max_input env) [] (b @ 10 # rest) = ((int (length b + 1), b @ [10]), rest)"
    using read_line_loop_line [of env b "iv_max_input env" "[]"] assms(1) by (simp add: stdin_list_def)
  have strip: "line_text (b @ [10]) = l" using assms(3) by (auto simp: b_def line_text_def Let_def butlast_append)
  have "io_readline env (b @ 10 # rest) = Some (Inr (NDyn (line_text (b @ [10]))), rest)"
    using assms(1) \<open>length b < iv_max_input env\<close>
    by (simp add: io_readline_def io_lift_def stdin_list_def native_eval readBytesRaw_unfold loop filled_def bytesToValue_def)
  then show ?thesis by (simp only: line strip)
qed

text \<open>
  Reading lines undoes writing them: when standard input holds lines that end in a newline or in a carriage return and a newline, and each fits the
  input limit, calling \<open>io.readline\<close> as often gives exactly the lines, empty ones included, and leaves the rest of the input.
\<close>

theorem readline_roundtrip:
  assumes "stdin_list env" "\<forall>(l, crlf) \<in> set ls. 10 \<notin> set l \<and> (crlf \<or> l = [] \<or> last l \<noteq> 13) \<and> length l + 2 \<le> iv_max_input env"
  shows "read_lines env (length ls) (concat (map line_of ls) @ rest) = Some (Inr (map (NDyn \<circ> fst) ls), rest)"
  using assms(2)
proof (induction ls)
  case (Cons p ls)
  obtain l crlf where p: "p = (l, crlf)" by (cases p)
  have "io_readline env (line_of (l, crlf) @ concat (map line_of ls) @ rest) = Some (Inr (NDyn l), concat (map line_of ls) @ rest)"
    using Cons.prems by (intro readline_line [OF assms(1)]) (auto simp: p)
  then show ?case using Cons by (simp add: p nbind_def nret_def)
qed (simp add: nret_def)

theorem readline_roundtrip_witness:
  "read_lines (demo_io False) (length [([104 :: byte, 105], True), ([], False)]) (concat (map line_of [([104 :: byte, 105], True), ([], False)]) @ [7])
    = Some (Inr (map (NDyn \<circ> fst) [([104 :: byte, 105], True), ([], False)]), [7])"
  by (rule readline_roundtrip) (simp_all add: stdin_list_def demo_io_def)

section \<open>Everything a callback gives\<close>

text \<open>\<open>left u\<close>: the bytes the host still has. A callback hands out a non-empty piece of them that fits the buffer, and nothing at the end.\<close>

definition feeds :: "'u gengo_read_fn_t \<Rightarrow> ('u \<Rightarrow> byte list) \<Rightarrow> bool" where
  "feeds cb left \<longleftrightarrow> (\<forall>k u. 0 < k \<longrightarrow> (case cb k False u of (n, st, u') \<Rightarrow>
     if left u = [] then n \<le> 0 \<and> left u' = []
     else 0 < n \<and> n \<le> int k \<and> n \<le> int (length st) \<and> nat n \<le> length (left u) \<and> take (nat n) st = take (nat n) (left u) \<and> left u' = drop (nat n) (left u)))"

lemma read_all_loop_feeds:
  assumes "iv_read_override env" "iv_read_callback env = Some cb" "feeds cb left" "cap < 2 ^ 31"
  shows "length acc \<le> cap \<Longrightarrow> \<exists>u'. read_all_loop env cap acc u = Some (acc @ take (cap - length acc) (left u), u')
    \<and> left u' = drop (cap - length acc) (left u)"
proof (induction "cap - length acc" arbitrary: acc u rule: less_induct)
  case less
  show ?case
  proof (cases "length acc = cap")
    case True
    then show ?thesis by (simp add: read_all_loop.simps)
  next
    case False
    let ?rest = "cap - length acc"
    have rest: "0 < ?rest" "?rest < 2 ^ 31" using False less.prems assms(4) by auto
    obtain n st v where cb: "cb ?rest False u = (n, st, v)" by (cases "cb ?rest False u")
    have engine: "engineRead env ?rest False u = Some ((n, st), v)" using rest(2) by (simp add: engineRead_def assms(2) cb)
    have f: "if left u = [] then n \<le> 0 \<and> left v = []
       else 0 < n \<and> n \<le> int ?rest \<and> n \<le> int (length st) \<and> nat n \<le> length (left u) \<and> take (nat n) st = take (nat n) (left u) \<and> left v = drop (nat n) (left u)"
      using assms(3) [unfolded feeds_def, rule_format, OF rest(1), of u] by (simp add: cb)
    show ?thesis
    proof (cases "left u = []")
      case True
      then show ?thesis using f less.prems False by (subst read_all_loop.simps) (simp add: engine assms(1))
    next
      case nonempty: False
      let ?acc = "acc @ take (nat n) (left u)"
      have len: "length ?acc = length acc + nat n" "length ?acc \<le> cap" "cap - length ?acc < cap - length acc"
        using f nonempty less.prems rest(1) by auto
      obtain u' where u': "read_all_loop env cap ?acc v = Some (?acc @ take (cap - length ?acc) (left v), u')" "left u' = drop (cap - length ?acc) (left v)"
        using less.hyps [OF len(3,2)] by blast
      have "read_all_loop env cap acc u = read_all_loop env cap ?acc v"
        using f nonempty less.prems False by (subst read_all_loop.simps) (simp add: engine assms(1))
      moreover have "?acc @ take (cap - length ?acc) (left v) = acc @ take ?rest (left u)"
        using f nonempty take_add [of "nat n" "cap - length ?acc" "left u"] len by simp
      moreover have "left u' = drop ?rest (left u)" using u'(2) f nonempty len by simp
      ultimately show ?thesis using u'(1) by metis
    qed
  qed
qed

text \<open>
  \<open>io.read_all\<close> gives everything: in whatever pieces a callback hands its bytes over, as long as each piece fits the buffer, the script gets all of
  them up to the input limit of the build as one string, or null when there is none, and what is beyond the limit stays with the host.
\<close>

theorem read_all_collects:
  assumes "iv_read_override env" "iv_read_callback env = Some cb" "feeds cb left" "iv_max_input env < 2 ^ 31" "0 < iv_max_input env"
    and "iv_allow_io env" "\<And>k. iv_alloc env k" "\<And>k. iv_gc env k"
  shows "\<exists>u'. io_read_all env u = Some (Inr (if left u = [] then NNull else NDyn (take (iv_max_input env) (left u))), u')
    \<and> left u' = drop (iv_max_input env) (left u)"
proof -
  obtain u' where u': "read_all_loop env (iv_max_input env) [] u = Some (take (iv_max_input env) (left u), u')" "left u' = drop (iv_max_input env) (left u)"
    using read_all_loop_feeds [OF assms(1-4), of "[]" u] by auto
  have "io_read_all env u = Some (Inr (if left u = [] then NNull else NDyn (take (iv_max_input env) (left u))), u')"
    using assms(5-8) by (simp add: io_read_all_def readAllBytesRaw_def native_eval io_lift_def u'(1) filled_def bytesToValue_def) (auto simp: min_def)
  then show ?thesis using u'(2) by blast
qed

definition two_bytes :: "byte list gengo_read_fn_t" where
  "two_bytes k is_line u = (int (min k (min 2 (length u))), take (min k 2) u, drop (min k 2) u)"

lemma two_bytes_feeds: "feeds two_bytes (\<lambda>u. u)"
  by (auto simp: feeds_def two_bytes_def min_def)

theorem read_all_collects_witness:
  "\<exists>u'. io_read_all ((demo_io True)\<lparr>iv_read_callback := Some two_bytes\<rparr>) [1, 2, 3, 4, 5] = Some (Inr (NDyn [1, 2, 3, 4, 5]), u')"
  using read_all_collects [OF _ _ two_bytes_feeds, of "(demo_io True)\<lparr>iv_read_callback := Some two_bytes\<rparr>" "[1, 2, 3, 4, 5]"]
  by (auto simp: demo_io_def)

section \<open>Tracing\<close>

lemma trace_run_from:
  assumes "tr_set s" "\<forall>(line, col) \<in> set js. line < 2 ^ 31 \<and> col < 2 ^ 31"
  shows "\<exists>evs s'. trace_run js s = Some (evs, s') \<and> tr_prev s # map fst evs = remdups_adj (tr_prev s # map fst js)"
  using assms
proof (induction js arbitrary: s)
  case (Cons j js)
  obtain line col where j: "j = (line, col)" by (cases j)
  show ?case
  proof (cases "line = tr_prev s")
    case True
    obtain evs s' where "trace_run js s = Some (evs, s')" "tr_prev s # map fst evs = remdups_adj (tr_prev s # map fst js)"
      using Cons.IH [OF Cons.prems(1)] Cons.prems(2) by auto
    then show ?thesis using True by (simp add: j fireTrace_def)
  next
    case False
    let ?s = "s\<lparr>tr_prev := line\<rparr>"
    obtain evs s' where "trace_run js ?s = Some (evs, s')" "line # map fst evs = remdups_adj (line # map fst js)"
      using Cons.IH [of ?s] Cons.prems by auto
    then show ?thesis using False Cons.prems by (simp add: j fireTrace_def)
  qed
qed simp

text \<open>
  The trace hook fires when the line changes: for the instructions a run executes, the lines of its events are the lines of the instructions with
  repetitions in a row removed. So a loop over two lines fires for each of them in every round, where the header promises at most one event
  per source line and invocation.
\<close>

theorem trace_fires_on_change:
  assumes "\<forall>(line, col) \<in> set js. line < 2 ^ 31 \<and> col < 2 ^ 31"
  shows "\<exists>evs s'. trace_run js (setTrace True s) = Some (evs, s') \<and> map fst evs = remdups_adj (map fst js)"
proof -
  obtain evs s' where run: "trace_run js (setTrace True s) = Some (evs, s')" "no_line # map fst evs = remdups_adj (no_line # map fst js)"
    using trace_run_from [of "setTrace True s" js] assms by (auto simp: setTrace_def)
  have "map fst js = [] \<or> hd (map fst js) \<noteq> no_line" using assms by (cases js) (auto simp: no_line_def)
  then have "remdups_adj (no_line # map fst js) = no_line # remdups_adj (map fst js)" by (cases "map fst js") auto
  then show ?thesis using run by auto
qed

theorem trace_fires_on_change_witness:
  "\<exists>evs s'. trace_run [(1, 0), (1, 4), (2, 0), (1, 0), (2, 0)] (setTrace True \<lparr>tr_set = False, tr_prev = 0\<rparr>) = Some (evs, s') \<and> map fst evs = [1, 2, 1, 2]"
  using trace_fires_on_change [of "[(1, 0), (1, 4), (2, 0), (1, 0), (2, 0)]"] by simp

end
