(* ===== verification/HostModule.thy ===== *)
theory HostModule
  imports ValueCodec NativeCall
begin

text \<open>
  Calls of host modules (\<open>callHostModule\<close> of \<open>src/lang/native/main.zig\<close>, \<open>src/lang/native/host_abi.zig\<close> and
  \<open>src/runtime/host_abi.zig\<close>): the version handshake, the arguments as wires, the host's callback with its status codes, and its reply as a
  value. The codec is a second one beside that of \<open>engine.zig\<close>, with the same wires and other errors. A callback is a function on the state
  \<open>'u\<close> of the host that may write C memory. As in the other codec, a conversion that fails is not charged to the bump allocator.
\<close>

section \<open>Status codes and errors\<close>

datatype CallStatus = CallOk | CallUnsupported | CallDenied | CallBadArgs | CallFailed

datatype host_error =
    HostArityMismatch | HostNativeUnsupported | HostPermissionDenied | HostNativeBadArgs | HostNativeFailed
  | HostNativeBadReturnType | HostNativeBadReturnValue | HostAbiVersionMismatch | HostWire wire_error

definition call_status :: "int \<Rightarrow> CallStatus" where
  "call_status rc = (if rc = 0 then CallOk else if rc = 1 then CallUnsupported else if rc = 2 then CallDenied
     else if rc = 3 then CallBadArgs else CallFailed)"

fun checkCallStatus :: "CallStatus \<Rightarrow> host_error option" where
  "checkCallStatus CallOk = None"
| "checkCallStatus CallUnsupported = Some HostNativeUnsupported"
| "checkCallStatus CallDenied = Some HostPermissionDenied"
| "checkCallStatus CallBadArgs = Some HostNativeBadArgs"
| "checkCallStatus CallFailed = Some HostNativeFailed"

section \<open>Arguments to wires\<close>

text \<open>A container from the bump allocator; without room the conversion fails.\<close>

definition bumped_or_fail :: "gengo_wire_tag_t \<Rightarrow> nat \<Rightarrow> nat \<Rightarrow> (wire_heap \<Rightarrow> wire_error + (gengo_value_wire_t list \<times> wire_heap)) \<Rightarrow> wire_heap \<Rightarrow> enc_result" where
  "bumped_or_fail t n k fill s = (case bump k s of None \<Rightarrow> Inl ValueCodec.OutOfMemory | Some (p, s) \<Rightarrow> close_wires t n p (fill s))"

text \<open>Structs, named values and enum members are not sent; of a variant the tag and the payload are.\<close>

fun wireFromValueDepth :: "hval \<Rightarrow> nat \<Rightarrow> wire_heap \<Rightarrow> enc_result" where
  "wireFromValueDepth VNull depth s = too_deep depth (Inr (null_wire, s))"
| "wireFromValueDepth (VBool b) depth s = too_deep depth (Inr (makeWire GENGO_WIRE_BOOLEAN (if b then 1 else 0) 0, s))"
| "wireFromValueDepth (VInt n) depth s = too_deep depth (Inr (number_wire GENGO_WIRE_FLAG_INTEGER n, s))"
| "wireFromValueDepth (VFloat n) depth s = too_deep depth (Inr (number_wire 0 n, s))"
| "wireFromValueDepth (VRune r) depth s = too_deep depth (Inr (number_wire GENGO_WIRE_FLAG_RUNE (of_nat r), s))"
| "wireFromValueDepth (VDecimal d) depth s = too_deep depth (Inr (number_wire GENGO_WIRE_FLAG_DECIMAL d, s))"
| "wireFromValueDepth (VString b) depth s = too_deep depth (string_wire GENGO_WIRE_STRING b s)"
| "wireFromValueDepth (VError b) depth s = too_deep depth (string_wire GENGO_WIRE_ERROR b s)"
| "wireFromValueDepth (VArray items) depth s = too_deep depth
     (bumped_or_fail GENGO_WIRE_ARRAY (length items) (length items) (fillArrayWires (\<lambda>v s. wireFromValueDepth v (depth + 1) s) items) s)"
| "wireFromValueDepth (VMap entries) depth s = too_deep depth
     (bumped_or_fail GENGO_WIRE_MAP (length entries) (length entries * 2) (fillMapWires (\<lambda>v s. wireFromValueDepth v (depth + 1) s) entries) s)"
| "wireFromValueDepth (VVariant ktag tag kvalue payload fs) depth s = too_deep depth
     (bumped_or_fail GENGO_WIRE_MAP 2 4
       (\<lambda>s. then_wire (too_deep (depth + 1) (string_wire GENGO_WIRE_STRING ktag s))
         (\<lambda>s. then_wire (too_deep (depth + 1) (string_wire GENGO_WIRE_STRING tag s))
           (\<lambda>s. then_wire (too_deep (depth + 1) (string_wire GENGO_WIRE_STRING kvalue s))
             (\<lambda>s. then_wire (wireFromValueDepth payload (depth + 1) s) (\<lambda>s. Inr ([], s)))))) s)"
| "wireFromValueDepth (VStruct fs) depth s = too_deep depth (Inl UnsupportedHostValueType)"
| "wireFromValueDepth (VNamed v) depth s = too_deep depth (Inl UnsupportedHostValueType)"
| "wireFromValueDepth (VEnum name) depth s = too_deep depth (Inl UnsupportedHostValueType)"
| "wireFromValueDepth VUnsupported depth s = too_deep depth (Inl UnsupportedHostValueType)"

definition wireFromValue :: "hval \<Rightarrow> wire_heap \<Rightarrow> enc_result" where
  "wireFromValue v s = wireFromValueDepth v 0 s"

section \<open>The reply to a value\<close>

text \<open>A tag beyond 6 is no member of the enumeration and panics.\<close>

definition known_tag :: "gengo_value_wire_t \<Rightarrow> bool" where
  "known_tag w \<longleftrightarrow> w_tag w \<le> 6"

function valueFromWireDepth :: "(nat \<Rightarrow> bool) \<Rightarrow> cmem \<Rightarrow> gengo_value_wire_t \<Rightarrow> nat \<Rightarrow> byte list Value dec" where
  "valueFromWireDepth gc_ok m w depth =
     (if MaxWireDepth \<le> depth then Some (Inl HostValueTooDeep)
      else if \<not> known_tag w then None
      else if w_tag w = tag_code GENGO_WIRE_NULL then Some (Inr VNull)
      else if w_tag w = tag_code GENGO_WIRE_BOOLEAN then Some (Inr (VBool (w_payload w \<noteq> 0)))
      else if w_tag w = tag_code GENGO_WIRE_NUMBER then
        (if w_flags w AND GENGO_WIRE_FLAG_DECIMAL \<noteq> 0 then Some (Inr (VDecimal (w_payload w)))
         else if w_flags w AND GENGO_WIRE_FLAG_RUNE \<noteq> 0 then
           (if 2 ^ 21 \<le> unat (w_payload w) then None else Some (Inr (VRune (unat (w_payload w)))))
         else if w_flags w AND GENGO_WIRE_FLAG_INTEGER \<noteq> 0 then Some (Inr (VInt (w_payload w)))
         else Some (Inr (VFloat (w_payload w))))
      else if w_tag w = tag_code GENGO_WIRE_ERROR then dec_then (wire_text gc_ok m w) (\<lambda>b. Some (Inr (VError b)))
      else if w_tag w = tag_code GENGO_WIRE_STRING then dec_then (wire_text gc_ok m w) (\<lambda>b. Some (Inr (VString b)))
      else if w_tag w = tag_code GENGO_WIRE_ARRAY then
        dec_then (wire_elems gc_ok m w (unat (w_len w)))
          (\<lambda>ws. dec_then (dec_all (\<lambda>e. valueFromWireDepth gc_ok m e (depth + 1)) ws) (\<lambda>vs. Some (Inr (VArray vs))))
      else
        dec_then (wire_elems gc_ok m w (unat (w_len w) * 2))
          (\<lambda>ws. dec_then (dec_all (\<lambda>e. valueFromWireDepth gc_ok m e (depth + 1)) ws) (\<lambda>vs. Some (Inr (VMap (pair_up vs))))))"
  by pat_completeness auto
termination by (relation "measure (\<lambda>(gc_ok, m, w, depth). MaxWireDepth - depth)") (auto simp: MaxWireDepth_def)

declare valueFromWireDepth.simps [simp del]

definition valueFromWire :: "(nat \<Rightarrow> bool) \<Rightarrow> cmem \<Rightarrow> gengo_value_wire_t \<Rightarrow> byte list Value dec" where
  "valueFromWire gc_ok m w = valueFromWireDepth gc_ok m w 0"

section \<open>The version number\<close>

definition ABI_VERSION :: nat where "ABI_VERSION = 2"

text \<open>
  Doubles: a NaN differs from its truncation; the bound \<open>maxInt(u64)\<close> is \<open>2 ^ 64\<close> as a double, which passes the test and does not fit.
\<close>

definition wireNumberToU64 :: "gengo_value_wire_t \<Rightarrow> (host_error + nat) option" where
  "wireNumberToU64 w =
     (let d = w_payload w; m = f64_trunc_mag (f64_exp d) (f64_frac d);
          sc = (if f64_exp d = 0 then 1 else f64_exp d); mant = (if f64_exp d = 0 then f64_frac d else 2 ^ 52 + f64_frac d)
      in if \<not> known_tag w then None
         else if w_tag w \<noteq> tag_code GENGO_WIRE_NUMBER then Some (Inl HostNativeBadReturnType)
         else if w_flags w AND GENGO_WIRE_FLAG_INTEGER \<noteq> 0 then
           (if sint d < 0 then Some (Inl HostNativeBadReturnValue) else Some (Inr (unat d)))
         else if f64_exp d = 2047 then Some (Inl HostNativeBadReturnValue)
         else if f64_neg d \<and> mant \<noteq> 0 then Some (Inl HostNativeBadReturnValue)
         else if \<not> (1075 \<le> sc \<or> mant mod 2 ^ (1075 - sc) = 0) then Some (Inl HostNativeBadReturnValue)
         else if 2 ^ 64 < m then Some (Inl HostNativeBadReturnValue)
         else if m = 2 ^ 64 then None
         else Some (Inr m))"

section \<open>Calls\<close>

type_synonym 'u gengo_host_call_fn =
  "nat \<Rightarrow> gengo_value_wire_t list \<Rightarrow> gengo_value_wire_t \<Rightarrow> cmem \<Rightarrow> 'u \<Rightarrow> int \<times> gengo_value_wire_t \<times> cmem \<times> 'u"

record 'u host_world =
  hw_host :: 'u
  hw_heap :: wire_heap
  hw_checked :: bool

record 'u host_env =
  he_callback :: "'u gengo_host_call_fn option"
  he_host_backend :: bool
  he_gc :: "nat \<Rightarrow> bool"

definition nativeCallRaw ::
    "'u host_env \<Rightarrow> nat \<Rightarrow> gengo_value_wire_t list \<Rightarrow> 'u host_world \<Rightarrow> CallStatus \<times> gengo_value_wire_t \<times> 'u host_world" where
  "nativeCallRaw env call_id args w =
     (case he_callback env of None \<Rightarrow> (CallUnsupported, null_wire, w)
      | Some cb \<Rightarrow>
          (case cb call_id args null_wire (bh_mem (hw_heap w)) (hw_host w) of
             (rc, out, m, u) \<Rightarrow> (call_status rc, out, w\<lparr>hw_host := u, hw_heap := (hw_heap w)\<lparr>bh_mem := m\<rparr>\<rparr>)))"

type_synonym ('a, 'u) host_run = "((host_error + 'a) \<times> 'u host_world) option"

text \<open>The handshake: call 0 without arguments, once per engine; a host that does not support it is taken as it is.\<close>

definition ensureHostReady :: "'u host_env \<Rightarrow> 'u host_world \<Rightarrow> (unit, 'u) host_run" where
  "ensureHostReady env w =
     (if \<not> he_host_backend env \<or> hw_checked w then Some (Inr (), w)
      else case nativeCallRaw env 0 [] w of (st, out, w) \<Rightarrow>
        if st = CallUnsupported then Some (Inr (), w\<lparr>hw_checked := True\<rparr>)
        else (case checkCallStatus st of Some e \<Rightarrow> Some (Inl e, w)
          | None \<Rightarrow> (case wireNumberToU64 out of None \<Rightarrow> None
              | Some (Inl e) \<Rightarrow> Some (Inl e, w)
              | Some (Inr version) \<Rightarrow> if version \<noteq> ABI_VERSION then Some (Inl HostAbiVersionMismatch, w) else Some (Inr (), w\<lparr>hw_checked := True\<rparr>))))"

definition MaxNativeArgs :: nat where "MaxNativeArgs = 255"

text \<open>The call itself once the host is ready.\<close>

definition call_host :: "'u host_env \<Rightarrow> nat \<Rightarrow> hval list \<Rightarrow> 'u host_world \<Rightarrow> (byte list Value, 'u) host_run" where
  "call_host env call_id args w =
     (case fillArrayWires wireFromValue args (hw_heap w) of
        Inl e \<Rightarrow> Some (Inl (HostWire e), w)
      | Inr (wires, heap) \<Rightarrow>
          (case nativeCallRaw env call_id wires (w\<lparr>hw_heap := heap\<rparr>) of (st, out, w) \<Rightarrow>
             case checkCallStatus st of Some e \<Rightarrow> Some (Inl e, w)
             | None \<Rightarrow> (case valueFromWire (he_gc env) (bh_mem (hw_heap w)) out of None \<Rightarrow> None
                 | Some (Inl e) \<Rightarrow> Some (Inl (HostWire e), w)
                 | Some (Inr v) \<Rightarrow> Some (Inr v, w))))"

definition callHostModule :: "'u host_env \<Rightarrow> nat \<Rightarrow> nat \<Rightarrow> hval list \<Rightarrow> 'u host_world \<Rightarrow> (byte list Value, 'u) host_run" where
  "callHostModule env arity call_id args w =
     (if arity \<noteq> 255 \<and> arity \<noteq> length args then Some (Inl HostArityMismatch, w)
      else if MaxNativeArgs < length args then Some (Inl HostArityMismatch, w)
      else if \<not> he_host_backend env then Some (Inl HostNativeUnsupported, w)
      else case ensureHostReady env w of None \<Rightarrow> None
        | Some (Inl e, w) \<Rightarrow> Some (Inl e, w)
        | Some (Inr _, w) \<Rightarrow> call_host env call_id args w)"

text \<open>The host-module calls of a script, one after the other; the ids given to registered functions are not 0.\<close>

inductive host_reach :: "'u host_env \<Rightarrow> 'u host_world \<Rightarrow> 'u host_world \<Rightarrow> bool" for env where
  start: "host_reach env w w"
| call: "host_reach env w w1 \<Longrightarrow> 0 < call_id \<Longrightarrow> callHostModule env arity call_id args w1 = Some (r, w2) \<Longrightarrow> host_reach env w w2"

end
