(* ===== verification/HostModuleProps.thy ===== *)
theory HostModuleProps
  imports HostModule ValueCodecProps
begin

text \<open>
  The calls of host modules: the arguments arrive as they are, once, and the answer is the decoded reply or the error of the status code;
  the decoder agrees with that of \<open>engine.zig\<close> on every reply it survives; and the version handshake stands before the first call.
\<close>

section \<open>What the host sees of a value\<close>

text \<open>A variant arrives as its tag and its payload; structs, named values and enum members are refused.\<close>

fun host_view :: "hval \<Rightarrow> hval" where
  "host_view (VArray vs) = VArray (map host_view vs)"
| "host_view (VMap kvs) = VMap (map (\<lambda>(k, v). (host_view k, host_view v)) kvs)"
| "host_view (VVariant kt t kv p fs) = VVariant kt t kv (host_view p) []"
| "host_view v = v"

fun host_sends :: "hval \<Rightarrow> bool" where
  "host_sends (VArray vs) = (\<forall>v \<in> set vs. host_sends v)"
| "host_sends (VMap kvs) = (\<forall>(k, v) \<in> set kvs. host_sends k \<and> host_sends v)"
| "host_sends (VVariant kt t kv p fs) = host_sends p"
| "host_sends (VStruct fs) = False"
| "host_sends (VNamed v) = False"
| "host_sends (VEnum b) = False"
| "host_sends VUnsupported = False"
| "host_sends v = True"

lemma encodes_bumped_or_fail:
  assumes "encodes B gc_ok d v (bumped t n k fill)" and "k \<le> cells v"
  shows "encodes B gc_ok d v (bumped_or_fail t n k fill)"
  unfolding encodes_def
proof (intro allI impI)
  fix s assume s: "fits B (cells v) s"
  then have "bh_floor s + 24 * k \<le> bh_top s" using assms(2) by (auto simp: fits_def)
  then have "bumped_or_fail t n k fill s = bumped t n k fill s"
    using s by (simp add: fits_def bumped_def bumped_or_fail_def bump_exact)
  then show "\<exists>w u. bumped_or_fail t n k fill s = Inr (w, u) \<and> sent gc_ok d s [v] [w] u"
    using assms(1) s by (simp add: encodes_def)
qed

lemma map_flat: "map g (flat kvs) = flat (map (\<lambda>(k, v). (g k, g v)) kvs)"
  by (induction kvs) auto

lemma encodes_host_map:
  assumes enc: "\<forall>v \<in> set (flat kvs). encodes B gc_ok (d + 1) (g v) (enc v)"
    and k: "length kvs * 2 < 2 ^ 32" and gc: "\<forall>n. gc_ok n" and d: "d < MaxWireDepth"
    and v: "cells v = length kvs * 2 + sum_list (map (\<lambda>(k, v). cells k + cells v) (map (\<lambda>(k, v). (g k, g v)) kvs))"
      "contents v = VMap (map (\<lambda>(k, v). (contents k, contents v)) (map (\<lambda>(k, v). (g k, g v)) kvs))"
  shows "encodes B gc_ok d v (bumped_or_fail GENGO_WIRE_MAP (length kvs) (length kvs * 2) (fillMapWires enc kvs))"
proof (rule encodes_bumped_or_fail)
  show "encodes B gc_ok d v (bumped GENGO_WIRE_MAP (length kvs) (length kvs * 2) (fillMapWires enc kvs))"
    using k gc d v fillMap_encodes_view [OF enc]
    by (intro encodes_bumped [where vs = "map g (flat kvs)"]) (simp_all add: map_flat length_flat cells_flat pair_up_flat)
  show "length kvs * 2 \<le> cells v" using v(1) by simp
qed

lemma fillMap_Nil: "fillMapWires enc [] = (\<lambda>s. Inr ([], s))"
  by (rule ext) simp

lemma encodes_host_value:
  assumes mem: "mem_bytes m = B" and "host_sends v" and "sendable m d (host_view v)"
  shows "encodes B (\<lambda>_. True) d (host_view v) (\<lambda>s. wireFromValueDepth v d s)"
  using assms(2,3)
proof (induction v arbitrary: d)
  case (VArray vs)
  have "\<forall>v \<in> set vs. encodes B (\<lambda>_. True) (d + 1) (host_view v) (\<lambda>s. wireFromValueDepth v (d + 1) s)"
    using VArray by simp
  then have "encodes B (\<lambda>_. True) d (VArray (map host_view vs))
      (bumped_or_fail GENGO_WIRE_ARRAY (length vs) (length vs) (fillArrayWires (\<lambda>v s. wireFromValueDepth v (d + 1) s) vs))"
    using VArray.prems
    by (intro encodes_bumped_or_fail encodes_bumped [where vs = "map host_view vs"] fillArray_encodes_view) simp_all
  then show ?case using VArray.prems by (simp add: encodes_def)
next
  case (VMap kvs)
  have "encodes B (\<lambda>_. True) (d + 1) (host_view v) (\<lambda>s. wireFromValueDepth v (d + 1) s)" if w: "v \<in> set (flat kvs)" for v
  proof -
    obtain a b where p: "(a, b) \<in> set kvs" "v = a \<or> v = b" using w unfolding flat_def by auto
    moreover have "host_sends a \<and> host_sends b \<and> sendable m (d + 1) (host_view a) \<and> sendable m (d + 1) (host_view b)"
      using VMap.prems p(1) by fastforce
    ultimately show ?thesis using VMap.IH(1) [of "(a, b)" a "d + 1"] VMap.IH(2) [of "(a, b)" b "d + 1"] by auto
  qed
  then have "encodes B (\<lambda>_. True) d (host_view (VMap kvs))
      (bumped_or_fail GENGO_WIRE_MAP (length kvs) (length kvs * 2) (fillMapWires (\<lambda>v s. wireFromValueDepth v (d + 1) s) kvs))"
    using VMap.prems by (intro encodes_host_map [where g = host_view] ballI) (simp_all)
  then show ?case using VMap.prems by (simp add: encodes_def)
next
  case (VVariant kt t kv p fs)
  let ?v = "VVariant kt t kv (host_view p) []" and ?kvs = "[(VString kt, VString t), (VString kv, p)]"
  let ?enc = "\<lambda>v s. wireFromValueDepth v (d + 1) s"
  have d: "d + 1 < MaxWireDepth" using VVariant.prems by simp
  have leaf: "encodes B (\<lambda>_. True) (d + 1) (VString b) (?enc (VString b))" if "readable m b" for b
    using encodes_string [OF that mem d] d by (simp add: encodes_def)
  have "encodes B (\<lambda>_. True) (d + 1) (host_view p) (?enc p)" using VVariant by simp
  then have "encodes B (\<lambda>_. True) d ?v (bumped_or_fail GENGO_WIRE_MAP (length ?kvs) (length ?kvs * 2) (fillMapWires ?enc ?kvs))"
    using VVariant.prems leaf
    by (intro encodes_host_map [where g = host_view]) (auto simp del: wireFromValueDepth.simps)
  moreover have "wireFromValueDepth (VVariant kt t kv p fs) d s
      = bumped_or_fail GENGO_WIRE_MAP (length ?kvs) (length ?kvs * 2) (fillMapWires ?enc ?kvs) s" for s
    using d by (simp add: fillMap_Cons [abs_def] fillMap_Nil eval_nat_numeral)
  ultimately show ?case by simp
next
  case (VString b)
  then show ?case using encodes_string [OF _ mem, of b d] by (simp add: encodes_def)
next
  case (VError b)
  then show ?case using encodes_string [OF _ mem, of b d] by (simp add: encodes_def)
qed (auto intro!: encodes_leaf leaf_sent simp: leaf_dec)

section \<open>One call\<close>

text \<open>What the engine makes of the host's answer: the reply of status 0, and the error of every other status.\<close>

definition host_answer :: "(nat \<Rightarrow> bool) \<Rightarrow> int \<Rightarrow> gengo_value_wire_t \<Rightarrow> 'u host_world \<Rightarrow> (byte list Value, 'u) host_run" where
  "host_answer gc_ok rc out w =
     (if rc = 1 then Some (Inl HostNativeUnsupported, w) else if rc = 2 then Some (Inl HostPermissionDenied, w)
      else if rc = 3 then Some (Inl HostNativeBadArgs, w) else if rc \<noteq> 0 then Some (Inl HostNativeFailed, w)
      else map_option (\<lambda>r. (map_sum HostWire id r, w)) (valueFromWire gc_ok (bh_mem (hw_heap w)) out))"

lemma call_host_answer:
  assumes "he_callback env = Some cb" and "fillArrayWires wireFromValue args (hw_heap w) = Inr (ws, h)"
    and "cb call_id ws null_wire (bh_mem h) (hw_host w) = (rc, out, m, u)"
  shows "call_host env call_id args w = host_answer (he_gc env) rc out (w\<lparr>hw_host := u, hw_heap := h\<lparr>bh_mem := m\<rparr>\<rparr>)"
  using assms by (auto simp: call_host_def nativeCallRaw_def host_answer_def call_status_def split: option.splits sum.splits)

lemma ready [simp]: "hw_checked w \<Longrightarrow> ensureHostReady env w = Some (Inr (), w)"
  by (simp add: ensureHostReady_def)


lemma dec_all_length: "dec_all f xs = Some (Inr ys) \<Longrightarrow> length ys = length xs"
  by (induction xs arbitrary: ys) (auto simp: dec_then_Inr)

definition sample_env :: "nat host_env" where
  "sample_env = \<lparr>he_callback = Some (\<lambda>id args out m n. (0, makeWire GENGO_WIRE_BOOLEAN (of_nat (length args)) 0, m, n + 1)),
     he_host_backend = True, he_gc = \<lambda>_. True\<rparr>"

definition sample_host_world :: "nat host_world" where
  "sample_host_world = \<lparr>hw_host = 0, hw_heap = sample_heap, hw_checked = True\<rparr>"


section \<open>The two decoders\<close>

lemma dec_all_mono:
  "\<forall>x \<in> set xs. \<forall>r. f x = Some r \<longrightarrow> g x = Some r \<Longrightarrow> dec_all f xs = Some r \<Longrightarrow> dec_all g xs = Some r"
proof (induction xs arbitrary: r)
  case (Cons x xs)
  obtain a where a: "f x = Some a" using Cons.prems(2) by (auto simp: dec_then_def split: option.splits)
  then have g: "g x = Some a" using Cons.prems(1) by simp
  show ?case
  proof (cases a)
    case (Inr y)
    then obtain b where b: "dec_all f xs = Some b" using Cons.prems(2) a by (auto simp: dec_then_def split: option.splits)
    then have "dec_all g xs = Some b" using Cons by simp
    then show ?thesis using Cons.prems(2) a b g Inr by simp
  qed (use Cons.prems(2) a g in \<open>simp add: dec_then_def\<close>)
qed simp

lemma dec_then_mono:
  "dec_then r k = Some y \<Longrightarrow> (\<And>x z. r = Some (Inr x) \<Longrightarrow> k x = Some z \<Longrightarrow> k' x = Some z) \<Longrightarrow> dec_then r k' = Some y"
  by (auto simp: dec_then_def split: option.splits sum.splits)

lemma dec_then_mono_left:
  "dec_then r k = Some y \<Longrightarrow> (\<And>z. r = Some z \<Longrightarrow> r' = Some z) \<Longrightarrow> dec_then r' k = Some y"
  by (auto simp: dec_then_def split: option.splits sum.splits)

lemma unknown_tag: "\<not> known_tag w \<Longrightarrow> w_tag w \<noteq> tag_code t"
  by (cases t) (auto simp: known_tag_def)

lemma known_tag_cases:
  "known_tag w \<Longrightarrow> w_tag w \<in> {tag_code GENGO_WIRE_NULL, tag_code GENGO_WIRE_BOOLEAN, tag_code GENGO_WIRE_NUMBER, tag_code GENGO_WIRE_STRING,
     tag_code GENGO_WIRE_ARRAY, tag_code GENGO_WIRE_MAP, tag_code GENGO_WIRE_ERROR}"
proof -
  have "b \<le> 6 \<Longrightarrow> b = 0 \<or> b = 1 \<or> b = 2 \<or> b = 3 \<or> b = 4 \<or> b = 5 \<or> b = 6" for b :: byte by unat_arith
  then show "known_tag w \<Longrightarrow> ?thesis" unfolding known_tag_def by fastforce
qed

lemma decoders_agree: "valueFromWireDepth gc_ok m w d = Some r \<Longrightarrow> wireToValueDepth gc_ok m w d = Some r"
proof (induction gc_ok m w d arbitrary: r rule: valueFromWireDepth.induct)
  case (1 gc_ok m w d)
  show ?case
  proof (cases "MaxWireDepth \<le> d")
    case False
    then have k: "known_tag w" using 1(3) by (subst (asm) valueFromWireDepth.simps) (auto split: if_splits)
    have elems: "dec_then (wire_elems gc_ok m w n) (\<lambda>ws. dec_then (dec_all (\<lambda>e. wireToValueDepth gc_ok m e (d + 1)) ws) h) = Some r"
      if el: "dec_then (wire_elems gc_ok m w n) (\<lambda>ws. dec_then (dec_all (\<lambda>e. valueFromWireDepth gc_ok m e (d + 1)) ws) h) = Some r"
        and rec: "\<And>xs e z. e \<in> set xs \<Longrightarrow> valueFromWireDepth gc_ok m e (d + 1) = Some z \<Longrightarrow> wireToValueDepth gc_ok m e (d + 1) = Some z" for n h
      using el by (rule dec_then_mono) (erule dec_then_mono_left, erule dec_all_mono [rotated], use rec in blast)
    consider (array) "w_tag w = tag_code GENGO_WIRE_ARRAY" | (map) "w_tag w = tag_code GENGO_WIRE_MAP"
      | (leaf) "w_tag w \<notin> {tag_code GENGO_WIRE_ARRAY, tag_code GENGO_WIRE_MAP}" by blast
    then show ?thesis
    proof cases
      case array
      have "wireToValueDepth gc_ok m e (d + 1) = Some z" if "e \<in> set xs" "valueFromWireDepth gc_ok m e (d + 1) = Some z" for xs e z
        using 1(1) that array False k by auto
      note rec = this
      have "dec_then (wire_elems gc_ok m w (unat (w_len w))) (\<lambda>ws. dec_then (dec_all (\<lambda>e. valueFromWireDepth gc_ok m e (d + 1)) ws) (\<lambda>vs. Some (Inr (VArray vs)))) = Some r"
        using 1(3) array False k by (subst (asm) valueFromWireDepth.simps) simp
      from elems [OF this rec] show ?thesis using array False by (subst wireToValueDepth.simps) simp
    next
      case map
      have "wireToValueDepth gc_ok m e (d + 1) = Some z" if "e \<in> set xs" "valueFromWireDepth gc_ok m e (d + 1) = Some z" for xs e z
        using 1(2) that map False k by auto
      note rec = this
      have "dec_then (wire_elems gc_ok m w (unat (w_len w) * 2)) (\<lambda>ws. dec_then (dec_all (\<lambda>e. valueFromWireDepth gc_ok m e (d + 1)) ws) (\<lambda>vs. Some (Inr (VMap (pair_up vs))))) = Some r"
        using 1(3) map False k by (subst (asm) valueFromWireDepth.simps) simp
      from elems [OF this rec] show ?thesis using map False by (subst wireToValueDepth.simps) simp
    next
      case leaf
      then show ?thesis using 1(3) False k known_tag_cases [OF k]
        by (subst wireToValueDepth.simps, subst (asm) valueFromWireDepth.simps) (auto split: if_splits)
    qed
  qed (use 1(3) in \<open>simp add: valueFromWireDepth.simps [of _ _ _ d] wireToValueDepth.simps [of _ _ _ d]\<close>)
qed

text \<open>
  On every reply of the host that does not panic the decoder for host calls and the one for call arguments and results agree, in the value
  as in the error; but a tag beyond 6, which the one reads as null, makes the other panic.
\<close>

theorem host_reply_decoded:
  "(case valueFromWire gc_ok m w of None \<Rightarrow> True | Some r \<Rightarrow> wireToValue gc_ok m w = Some r)
   \<and> (6 < w_tag w \<longrightarrow> valueFromWire gc_ok m w = None \<and> wireToValue gc_ok m w = Some (Inr VNull))"
proof
  show "case valueFromWire gc_ok m w of None \<Rightarrow> True | Some r \<Rightarrow> wireToValue gc_ok m w = Some r"
    by (simp add: valueFromWire_def wireToValue_def decoders_agree split: option.split)
  have "6 < w_tag w \<Longrightarrow> \<not> known_tag w" by (simp add: known_tag_def)
  then show "6 < w_tag w \<longrightarrow> valueFromWire gc_ok m w = None \<and> wireToValue gc_ok m w = Some (Inr VNull)"
    using unknown_tag [of w]
    by (auto simp: valueFromWire_def wireToValue_def valueFromWireDepth.simps [of _ _ _ 0] wireToValueDepth.simps [of _ _ _ 0] MaxWireDepth_def
        simp del: tag_code.simps)
qed

definition no_mem :: cmem where "no_mem = \<lparr>mem_bytes = Map.empty, mem_wires = Map.empty\<rparr>"

theorem host_reply_decoded_witness:
  "valueFromWire (\<lambda>_. True) no_mem (null_wire\<lparr>w_tag := 7\<rparr>) = None \<and> wireToValue (\<lambda>_. True) no_mem (null_wire\<lparr>w_tag := 7\<rparr>) = Some (Inr VNull)"
  using host_reply_decoded [of "\<lambda>_. True" no_mem "null_wire\<lparr>w_tag := 7\<rparr>"] by simp

section \<open>Depth\<close>

lemma fillArray_Inr: "fillArrayWires enc vs s = Inr r \<Longrightarrow> v \<in> set vs \<Longrightarrow> \<exists>s' r'. enc v s' = Inr r'"
  by (induction vs arbitrary: s r) (fastforce simp: then_wire_def split: sum.splits)+

lemma fillMap_Inr: "fillMapWires enc kvs s = Inr r \<Longrightarrow> v \<in> set (flat kvs) \<Longrightarrow> \<exists>s' r'. enc v s' = Inr r'"
proof (induction kvs arbitrary: s r)
  case (Cons p kvs)
  then show ?case by (cases p) (fastforce simp: then_wire_def split: sum.splits)
qed simp

lemma bumped_or_fail_Inr: "bumped_or_fail t n k fill s = Inr r \<Longrightarrow> \<exists>s' r'. fill s' = Inr r'"
  by (fastforce simp: bumped_or_fail_def close_wires_def split: option.splits sum.splits)

lemma too_deep_result [simp]: "too_deep d r = Inr x \<longleftrightarrow> d < MaxWireDepth \<and> r = Inr x"
  by (auto simp: too_deep_def)

lemma encoded_height: "wireFromValueDepth v d s = Inr r \<Longrightarrow> height v + d \<le> MaxWireDepth"
proof (induction v arbitrary: d s r)
  case (VArray vs)
  then obtain s' r' where f: "fillArrayWires (\<lambda>v s. wireFromValueDepth v (d + 1) s) vs s' = Inr r'" and d: "d < MaxWireDepth"
    by (auto dest!: bumped_or_fail_Inr)
  have "height v + (d + 1) \<le> MaxWireDepth" if "v \<in> set vs" for v
    using fillArray_Inr [OF f that] VArray.IH [OF that, of "d + 1"] by auto
  then have "fold max (map height vs) 0 \<le> MaxWireDepth - d - 1" by (fastforce simp: fold_max_le)
  then show ?case using d by simp
next
  case (VMap kvs)
  then obtain s' r' where f: "fillMapWires (\<lambda>v s. wireFromValueDepth v (d + 1) s) kvs s' = Inr r'" and d: "d < MaxWireDepth"
    by (auto dest!: bumped_or_fail_Inr)
  have "height a + (d + 1) \<le> MaxWireDepth \<and> height b + (d + 1) \<le> MaxWireDepth" if p: "(a, b) \<in> set kvs" for a b
  proof -
    have "a \<in> set (flat kvs)" "b \<in> set (flat kvs)" using p by (auto simp: flat_def)
    then show ?thesis using fillMap_Inr [OF f] VMap.IH(1) [OF p, of a "d + 1"] VMap.IH(2) [OF p, of b "d + 1"] by fastforce
  qed
  then have "fold max (map (\<lambda>(k, v). max (height k) (height v)) kvs) 0 \<le> MaxWireDepth - d - 1"
    by (fastforce simp: fold_max_le)
  then show ?case using d by simp
qed auto

lemma fillArray_height:
  assumes "fillArrayWires wireFromValue args s = Inr r" and "v \<in> set args" shows "height v \<le> MaxWireDepth"
  using fillArray_Inr [OF assms] encoded_height [of v 0] by (auto simp: wireFromValue_def)

lemma call_value:
  assumes "call_host env call_id args w = Some (Inr r, w')"
  shows "height r \<le> MaxWireDepth \<and> (\<forall>v \<in> set args. height v \<le> MaxWireDepth)"
  using assms decoded_height [OF decoders_agree, of "he_gc env" _ _ 0 r] fillArray_height [of args "hw_heap w"]
  unfolding call_host_def valueFromWire_def by (fastforce split: sum.splits option.splits prod.splits)

lemma callHostModule_cases:
  assumes "callHostModule env arity call_id args w = Some (r, w')"
  obtains (refused) e where "r = Inl e" "w' = w"
  | (not_ready) e where "r = Inl e" "he_host_backend env" "ensureHostReady env w = Some (Inl e, w')"
  | (called) w1 where "he_host_backend env" "length args \<le> MaxNativeArgs" "ensureHostReady env w = Some (Inr (), w1)" "call_host env call_id args w1 = Some (r, w')"
  using assms unfolding callHostModule_def by (auto split: if_splits option.splits sum.splits prod.splits)

text \<open>
  A call that returns a value had at most 255 arguments, and neither they nor the value nest deeper than 64 levels, whatever the script
  and the host build.
\<close>

theorem host_values_bounded:
  assumes "callHostModule env arity call_id args w = Some (Inr r, w')"
  shows "height r \<le> MaxWireDepth \<and> length args \<le> MaxNativeArgs \<and> (\<forall>v \<in> set args. height v \<le> MaxWireDepth)"
  using assms by (cases rule: callHostModule_cases) (simp_all add: call_value)

section \<open>The handshake\<close>

text \<open>A host that writes down the calls it gets.\<close>

definition recording :: "'u gengo_host_call_fn \<Rightarrow> ((nat \<times> gengo_value_wire_t list) list \<times> 'u) gengo_host_call_fn" where
  "recording cb call_id args out m s = (case cb call_id args out m (snd s) of (rc, out, m, u) \<Rightarrow> (rc, out, m, (fst s @ [(call_id, args)], u)))"

lemma ensure_logged:
  assumes "ensureHostReady env w = Some (r, w')" and "he_callback env = Some (recording cb)" and "he_host_backend env"
  shows "if hw_checked w then w' = w
    else fst (hw_host w') = fst (hw_host w) @ [(0, [])] \<and> (hw_checked w' \<longleftrightarrow> r = Inr ())"
  using assms unfolding ensureHostReady_def nativeCallRaw_def recording_def
  by (auto split: if_splits option.splits sum.splits prod.splits)

lemma call_logged:
  assumes "call_host env call_id args w = Some (r, w')" and "he_callback env = Some (recording cb)"
  shows "w' = w \<or> (\<exists>ws. fst (hw_host w') = fst (hw_host w) @ [(call_id, ws)] \<and> hw_checked w' = hw_checked w)"
  using assms unfolding call_host_def nativeCallRaw_def recording_def
  by (auto split: if_splits option.splits sum.splits prod.splits)

definition shaken :: "((nat \<times> gengo_value_wire_t list) list \<times> 'u) host_world \<Rightarrow> bool" where
  "shaken w \<longleftrightarrow> (\<exists>k calls. fst (hw_host w) = replicate k (0, []) @ calls \<and> (\<forall>c \<in> set calls. 0 < fst c) \<and> (if hw_checked w then 0 < k else calls = []))"

lemma shaken_ensure:
  assumes "shaken w" and "ensureHostReady env w = Some (r, w')" and "he_callback env = Some (recording cb)" and "he_host_backend env"
  shows "shaken w' \<and> (r = Inr () \<longrightarrow> hw_checked w')"
proof (cases "hw_checked w")
  case True
  then show ?thesis using assms(1) ensure_logged [OF assms(2-4)] by simp
next
  case False
  then obtain k where "fst (hw_host w) = replicate k (0, [])" using assms(1) by (auto simp: shaken_def)
  then have "fst (hw_host w') = replicate (Suc k) (0, [])" "hw_checked w' \<longleftrightarrow> r = Inr ()"
    using ensure_logged [OF assms(2-4)] False by (simp_all add: replicate_append_same)
  then show ?thesis unfolding shaken_def by (metis append_Nil2 empty_iff list.set(1) zero_less_Suc)
qed

lemma shaken_call:
  assumes "shaken w" and "hw_checked w" and "call_host env call_id args w = Some (r, w')" and "he_callback env = Some (recording cb)" and "0 < call_id"
  shows "shaken w'"
  using call_logged [OF assms(3,4)]
proof (elim disjE exE conjE)
  fix ws assume ws: "fst (hw_host w') = fst (hw_host w) @ [(call_id, ws)]" "hw_checked w' = hw_checked w"
  obtain k calls where "fst (hw_host w) = replicate k (0, []) @ calls" "\<forall>c \<in> set calls. 0 < fst c" "0 < k"
    using assms(1,2) by (auto simp: shaken_def)
  then show ?thesis using ws assms(2,5) unfolding shaken_def
    by (intro exI [of _ k] exI [of _ "calls @ [(call_id, ws)]"]) auto
qed (use assms(1) in simp)

lemma shaken_reach:
  "host_reach env w w' \<Longrightarrow> he_callback env = Some (recording cb) \<Longrightarrow> shaken w \<Longrightarrow> shaken w'"
proof (induction rule: host_reach.induct)
  case (call w w1 call_id arity args r w2)
  then have "shaken w1" by simp
  from call(3) show ?case
  proof (cases rule: callHostModule_cases)
    case (called w3)
    have "shaken w3 \<and> hw_checked w3" using shaken_ensure [OF \<open>shaken w1\<close> called(3) call.prems(1) called(1)] by simp
    then show ?thesis using shaken_call [OF _ _ called(4) call.prems(1) call(2)] by simp
  qed (use \<open>shaken w1\<close> shaken_ensure [OF \<open>shaken w1\<close> _ call.prems(1)] in auto)
qed

text \<open>
  Along every sequence of host-module calls of a script the host's callback sees first the handshakes, calls of id 0 without arguments, and
  then only calls of registered functions; the first of these comes after a handshake that the host passed, and no handshake follows it.
\<close>

theorem host_handshake:
  assumes "host_reach env w w'" and "he_callback env = Some (recording cb)" and "fst (hw_host w) = []" and "\<not> hw_checked w"
  shows "\<exists>k calls. fst (hw_host w') = replicate k (0, []) @ calls \<and> (\<forall>c \<in> set calls. 0 < fst c) \<and> (if hw_checked w' then 0 < k else calls = [])"
proof -
  have "shaken w" using assms(3,4) by (simp add: shaken_def)
  with assms(1,2) show ?thesis using shaken_reach unfolding shaken_def by blast
qed

definition shake_cb :: "nat gengo_host_call_fn" where
  "shake_cb call_id args out m n = (if call_id = 0 then (0, number_wire GENGO_WIRE_FLAG_INTEGER 2, m, n) else (0, null_wire, m, n + 1))"

definition shake_env :: "(nat \<Rightarrow> cmem \<Rightarrow> nat \<Rightarrow> int \<times> gengo_value_wire_t \<times> cmem \<times> nat) \<Rightarrow> ((nat \<times> gengo_value_wire_t list) list \<times> nat) host_env" where
  "shake_env f = \<lparr>he_callback = Some (recording (\<lambda>call_id args out m n. f call_id m n)), he_host_backend = True, he_gc = \<lambda>_. True\<rparr>"

definition shake_start :: "((nat \<times> gengo_value_wire_t list) list \<times> nat) host_world" where
  "shake_start = \<lparr>hw_host = ([], 0), hw_heap = sample_heap, hw_checked = False\<rparr>"

definition passes :: "nat \<Rightarrow> cmem \<Rightarrow> nat \<Rightarrow> int \<times> gengo_value_wire_t \<times> cmem \<times> nat" where
  "passes call_id m n = shake_cb call_id [] null_wire m n"

definition refuses :: "nat \<Rightarrow> cmem \<Rightarrow> nat \<Rightarrow> int \<times> gengo_value_wire_t \<times> cmem \<times> nat" where
  "refuses call_id m n = (if call_id = 1000 then 0 else 4, null_wire, m, n)"

lemma shake_call:
  "callHostModule (shake_env passes) 0 1000 [] shake_start =
     Some (Inr VNull, shake_start\<lparr>hw_host := ([(0, []), (1000, [])], 1), hw_checked := True\<rparr>)"
  by (simp add: callHostModule_def shake_env_def MaxNativeArgs_def ensureHostReady_def shake_start_def nativeCallRaw_def recording_def passes_def
      shake_cb_def call_status_def wireNumberToU64_def known_tag_def number_wire_def null_wire_def makeWire_def ABI_VERSION_def call_host_def
      valueFromWire_def valueFromWireDepth.simps [of _ _ _ 0] MaxWireDepth_def Let_def)

theorem host_handshake_witness:
  "\<exists>w' k calls. host_reach (shake_env passes) shake_start w' \<and> hw_checked w' \<and> fst (hw_host w') = [(0, []), (1000, [])]
     \<and> fst (hw_host w') = replicate k (0, []) @ calls \<and> list_all (\<lambda>c. 0 < fst c) calls"
proof -
  let ?w = "shake_start\<lparr>hw_host := ([(0, []), (1000, [])], 1), hw_checked := True\<rparr>"
  have r: "host_reach (shake_env passes) shake_start ?w" by (rule host_reach.call [OF host_reach.start _ shake_call]) simp
  have "\<exists>k calls. fst (hw_host ?w) = replicate k (0, []) @ calls \<and> (\<forall>c \<in> set calls. 0 < fst c) \<and> (if hw_checked ?w then 0 < k else calls = [])"
    by (rule host_handshake [OF r]) (simp_all add: shake_env_def shake_start_def)
  then obtain k calls where "fst (hw_host ?w) = replicate k (0, []) @ calls" "\<forall>c \<in> set calls. 0 < fst c" by auto
  then show ?thesis using r by (intro exI [of _ ?w] exI [of _ k] exI [of _ calls]) (simp add: list_all_iff)
qed

lemma refused_ensure:
  assumes "\<forall>m u. fst (cb 0 [] null_wire m u) \<notin> {0, 1}" and "he_callback env = Some (recording cb)" and "he_host_backend env" and "\<not> hw_checked w"
  shows "\<exists>e w'. ensureHostReady env w = Some (Inl e, w') \<and> \<not> hw_checked w'"
proof -
  obtain rc out m u where cb: "cb 0 [] null_wire (bh_mem (hw_heap w)) (snd (hw_host w)) = (rc, out, m, u)" by (metis prod_cases4)
  then have "rc \<noteq> 0" "rc \<noteq> 1" using assms(1) by (metis fst_conv insertCI)+
  then show ?thesis using assms(2-4) cb
    by (simp add: ensureHostReady_def nativeCallRaw_def recording_def call_status_def)
qed

lemma refused_step:
  assumes "\<forall>m u. fst (cb 0 [] null_wire m u) \<notin> {0, 1}" and "he_callback env = Some (recording cb)" and "\<not> hw_checked w"
    and "callHostModule env arity call_id args w = Some (r, w')"
  shows "(\<exists>e. r = Inl e) \<and> \<not> hw_checked w'"
  using assms(4)
proof (cases rule: callHostModule_cases)
  case (called w1)
  then show ?thesis using refused_ensure [OF assms(1,2) _ assms(3)] by auto
next
  case not_ready
  then show ?thesis using refused_ensure [OF assms(1,2) _ assms(3)] by auto
qed (use assms(3) in simp)

lemma refused_reach:
  "host_reach env w w' \<Longrightarrow> he_callback env = Some (recording cb) \<Longrightarrow> \<forall>m u. fst (cb 0 [] null_wire m u) \<notin> {0, 1} \<Longrightarrow> \<not> hw_checked w \<Longrightarrow> \<not> hw_checked w'"
proof (induction rule: host_reach.induct)
  case (call w w1 call_id arity args r w2)
  then show ?case using refused_step [OF call.prems(2,1)] by blast
qed

text \<open>
  A host whose callback answers call 0 with a status other than 0 and 1, as one that fails for every id it does not know, is never asked
  for the functions it registered: every call of the script is an error, and all that the callback sees is call 0 again and again.
\<close>

theorem host_handshake_refused:
  assumes "host_reach env w w1" and "he_callback env = Some (recording cb)" and "fst (hw_host w) = []" and "\<not> hw_checked w"
    and "\<forall>m u. fst (cb 0 [] null_wire m u) \<notin> {0, 1}" and "callHostModule env arity call_id args w1 = Some (r, w2)" and "0 < call_id"
  shows "(\<exists>e. r = Inl e) \<and> (\<exists>k. fst (hw_host w2) = replicate k (0, []))"
proof -
  have "\<not> hw_checked w1" by (rule refused_reach [OF assms(1,2,5,4)])
  then have r: "(\<exists>e. r = Inl e) \<and> \<not> hw_checked w2" by (rule refused_step [OF assms(5,2) _ assms(6)])
  have "shaken w" using assms(3,4) by (simp add: shaken_def)
  then have "shaken w2" by (rule shaken_reach [OF host_reach.call [OF assms(1,7,6)] assms(2)])
  then show ?thesis using r by (auto simp: shaken_def)
qed

theorem host_handshake_refused_witness:
  "\<exists>r w2 e k. callHostModule (shake_env refuses) 0 1000 [] shake_start = Some (r, w2) \<and> r = Inl e \<and> fst (hw_host w2) = replicate k (0, [])"
proof -
  have c: "callHostModule (shake_env refuses) 0 1000 [] shake_start = Some (Inl HostNativeFailed, shake_start\<lparr>hw_host := ([(0, [])], 0)\<rparr>)"
    by (simp add: callHostModule_def shake_env_def MaxNativeArgs_def ensureHostReady_def shake_start_def nativeCallRaw_def recording_def refuses_def call_status_def)
  have "(\<exists>e. Inl HostNativeFailed = (Inl e :: host_error + byte list Value)) \<and> (\<exists>k. fst (hw_host (shake_start\<lparr>hw_host := ([(0, [])], 0)\<rparr>)) = replicate k (0, []))"
    by (rule host_handshake_refused [where cb = "\<lambda>call_id args out m n. refuses call_id m n", OF host_reach.start _ _ _ _ c])
       (simp_all add: shake_env_def shake_start_def refuses_def)
  then show ?thesis using c by blast
qed

theorem host_values_bounded_witness:
  "\<exists>r w'. callHostModule (shake_env passes) 0 1000 [] shake_start = Some (Inr r, w') \<and> height r \<le> MaxWireDepth"
  using host_values_bounded [OF shake_call] shake_call by blast

end
