(* ===== verification/ScriptAccess.thy ===== *)
theory ScriptAccess
  imports EngineAbiProps CapFsProps CapNetTrace
begin

text \<open>
  From the embedding interface to the natives: what a host sets up on an engine is what a script of that engine meets. The natives of a
  script work on the mount table and on the rules of its engine, \<open>e_mounts\<close> and \<open>e_dial\<close>.
\<close>

section \<open>Mounted drivers\<close>

lemma mounted_driver:
  assumes ok: "world_ok w" and mount: "engine_mount_driver h nm (Some d) w = (0, w')" and e: "getEngine h w' = Some e"
  shows "view (e_mounts e) (wasmSlice nm) = Some (driver_mount (wasmSlice nm) d)"
proof -
  obtain e0 where e0: "getEngine h w = Some e0" using mount by (auto simp: engine_mount_driver_def split: option.splits)
  have slots: "length (ew_slots w) = MaxEngines" using ok by (simp add: world_ok_def idle_def)
  then have "fs_ok (e_mounts e0)" using ok getEngine_in [OF e0] by (auto simp: world_ok_def engine_inv_def)
  note look = drivers.add_look [OF this, of "wasmSlice nm" d]
  have "fst (addDriverMountToState (e_mounts e0) (wasmSlice nm) d) = Inr () \<and> e = e0\<lparr>e_mounts := snd (addDriverMountToState (e_mounts e0) (wasmSlice nm) d)\<rparr>"
    using mount e e0 slots by (auto simp: engine_mount_driver_def Let_def split: prod.splits sum.splits if_splits)
  then show ?thesis using look by simp
qed



section \<open>Denied addresses\<close>

lemma added_rule:
  assumes "addRuleTo ip p a pat port = (0, q)"
  shows "\<exists>r. buildPolicyRule ip a pat port = Inr r \<and> q = p @ [r]"
  using assms buildPolicyRule_err [of ip a pat port] by (auto simp: addRuleTo_def split: if_splits sum.splits)

lemma built_action: "buildPolicyRule ip a pat port = Inr r \<Longrightarrow> r_action r = a"
  by (auto simp: buildPolicyRule_def mk_rule_def Let_def split: if_splits option.splits)

text \<open>
  C17. A rule that the host adds binds its scripts: after \<open>engine_net_policy_add\<close> returned 0 for a deny rule, no script of the engine ever makes the
  host dial an address that the rule's pattern and port match, whatever rules stood before and whatever the script does.
\<close>

theorem denied_address_never_dialled:
  assumes "world_ok w" "engine_net_policy_add h 0 pattern port w = (0, w')" "getEngine h w' = Some e"
    and "nv_dial env = e_dial e" "nv_ip6 env = en_ip6 (ew_env w)" "nv_handlers env = net_logged d" "net_reach env (net_start (u, [])) nw"
  shows "\<exists>r. buildPolicyRule (nv_ip6 env) Deny (wasmSlice pattern) (policy_port port) = Inr r
    \<and> (\<forall>a rc out. EvDial a rc out \<in> set (snd (nw_host nw)) \<longrightarrow> \<not> rule_applies (nv_ip6 env) r a)"
proof -
  obtain e0 where e0: "getEngine h w = Some e0" using assms(2) by (auto simp: engine_net_policy_add_def split: option.splits)
  have slots: "length (ew_slots w) = MaxEngines" using assms(1) by (simp add: world_ok_def idle_def)
  obtain rc p where add: "addRuleTo (nv_ip6 env) (e_dial e0) Deny (wasmSlice pattern) (policy_port port) = (rc, p)" by fastforce
  then have "rc = 0" "e_dial e = p"
    using assms(2,3,5) e0 slots by (auto simp: engine_net_policy_add_def policy_code_def Let_def split: if_splits)
  then obtain r where r: "buildPolicyRule (nv_ip6 env) Deny (wasmSlice pattern) (policy_port port) = Inr r" "nv_dial env = e_dial e0 @ [r]"
    using added_rule [of "nv_ip6 env" "e_dial e0" Deny "wasmSlice pattern" "policy_port port" p] add assms(4) by auto
  have "\<not> rule_applies (nv_ip6 env) r a" if "EvDial a rc out \<in> set (snd (nw_host nw))" for a rc out
  proof -
    have "permitted env (EvDial a rc out)"
      using reach_log_ok [OF assms(7,6)] that by (auto simp: log_ok_def list_all_iff)
    then have "matchPolicy (nv_ip6 env) (e_dial e0 @ [r]) a False"
      using r(2) by (simp add: permitted_def may_dial_def checkDialPolicy_def)
    then show ?thesis using built_action [OF r(1)] by (simp add: matchPolicy_append split: if_splits)
  qed
  then show ?thesis using r(1) by blast
qed

lemma demo_denied: "engine_net_policy_add 1 0 (slice_of [42]) 0 demo_world = (0, put_engine 1 (demo_engine\<lparr>e_dial := [mk_rule Deny 0 match_all [] 0]\<rparr>) demo_world)"
proof -
  have "e_dial demo_engine = []" by (simp add: demo_engine_def initScalars_def)
  then show ?thesis
    by (simp add: engine_net_policy_add_def demo_engines addRuleTo_def buildPolicyRule_def policy_port_def policy_code_def MaxPolicyRules_def)
qed

definition denied_env :: "(int \<times> net_event list) net_env" where
  "denied_env = (demo_net_env (net_logged demo_net))\<lparr>nv_dial := [mk_rule Deny 0 match_all [] 0], nv_ip6 := en_ip6 demo_env\<rparr>"

lemma denied_env_simps: "nv_dial denied_env = [mk_rule Deny 0 match_all [] 0]" "nv_ip6 denied_env = en_ip6 demo_env"
  "nv_handlers denied_env = net_logged demo_net" "nv_scope_dial denied_env" "nv_max_slices denied_env = 100"
  by (simp_all add: denied_env_def demo_net_env_def)

lemma denied_policy: "\<not> checkDialPolicy (nv_ip6 denied_env) (nv_dial denied_env) [97, 58, 56]"
  by (simp add: denied_env_simps checkDialPolicy_def matchPolicy_unfold split_address_def parseUnsigned_def underscore_edge_def
        is_digit_def digit_val_def rule_matches_def mk_rule_def)

definition denied_run :: "(int \<times> net_event list) net_world" where
  "denied_run = (net_start (0, []))\<lparr>nw_slices := [Owned (bytes_of ''net.dial: refused by policy'')]\<rparr>"

lemma demo_refused:
  "net_dispatch denied_env cap_net_dial [NString [116], NString [97, 58, 56]] (net_start (0, [])) = Some (Inr (NErrorRef 0), denied_run)"
  by (simp add: net_dispatch_def dialImpl_def str_arg_def native_eval denied_policy denied_env_simps(4,5) error_value_def internStr_def Let_def
      denied_run_def net_start_def del: bytes_of_Cons)

theorem denied_address_never_dialled_witness:
  "\<exists>r. buildPolicyRule (en_ip6 demo_env) Deny [42] 0 = Inr r \<and> net_reach denied_env (net_start (0, [])) denied_run"
proof -
  have slots: "length (ew_slots demo_world) = MaxEngines" using demo_world_ok by (simp add: world_ok_def idle_def)
  have r: "net_reach denied_env (net_start (0, [])) denied_run" by (rule net_reach.native [OF net_reach.start demo_refused])
  have "\<exists>r. buildPolicyRule (nv_ip6 denied_env) Deny (wasmSlice (slice_of [42])) (policy_port 0) = Inr r
    \<and> (\<forall>a rc out. EvDial a rc out \<in> set (snd (nw_host denied_run)) \<longrightarrow> \<not> rule_applies (nv_ip6 denied_env) r a)"
    by (rule denied_address_never_dialled [OF demo_world_ok demo_denied getEngine_put [OF demo_engines(1) slots] _ _ denied_env_simps(3) r])
       (simp_all add: demo_engines denied_env_simps)
  then show ?thesis using r by (auto simp: policy_port_def denied_env_simps)
qed

end
