(* ===== verification/SlotLock.thy ===== *)
theory SlotLock
  imports EngineAbiProps
begin

text \<open>
  Several threads on the table of engine slots (\<open>src/engine.zig\<close>). The table is shared by the process and guarded by a spin lock; the
  work on an engine is done outside of the lock through the pointer that \<open>getEngine\<close> returned. Each step of a thread makes one access
  to shared memory, and \<open>thread_step\<close> is the code between two of them. An atomic object, in which a whole call of \<open>EngineAbi\<close> takes effect
  in one step between its invocation and its return, is the specification: the simulation into it justifies that \<open>EngineAbi\<close> models
  the calls one after the other.
\<close>

section \<open>State\<close>

text \<open>
  A slot has its flag and the memory of its engine, which is \<open>None\<close> when it holds no usable engine. The write and read overrides of
  \<open>src/runtime/io.zig\<close> are thread-local.
\<close>

record 'r slot =
  es_active :: bool
  es_engine :: "'r engine option"

text \<open>
  The calls that touch the table. \<open>EngineOp h f\<close> is any call that looks a handle up and works on its engine, and \<open>InitErrorText n\<close> is
  \<open>engine_last_error\<close> with handle 0.
\<close>

datatype 'r call =
    EngineInit
  | EngineInitConfig "gengo_instance_config_t option"
  | EngineDestroy int
  | EngineOp int "'r engine \<Rightarrow> int \<times> 'r engine"
  | InitErrorText int

datatype outcome = Code int | Text int "byte list"

text \<open>
  Where a thread is in its call: before the lock (\<open>Await\<close>), inside it (from \<open>ScanFree\<close> to \<open>Leave\<close>, which is before the store that
  releases the lock), or outside with the pointer to an engine (\<open>ReadEngine\<close>, \<open>WriteEngine\<close>). \<open>Fault\<close> is an access to an engine that is gone.
\<close>

datatype 'r pc =
    Ready
  | Begun
  | Validate
  | AwaitInit
  | ScanFree nat
  | Publish nat
  | AwaitDestroy nat
  | TestDestroy nat
  | ClearFlag nat
  | ScanLive nat
  | AwaitGet nat
  | TestGet nat
  | LeaveGet nat
  | ReadEngine nat
  | WriteEngine nat "'r engine"
  | Leave outcome
  | Finished outcome
  | Fault

text \<open>A thread with the calls it has still to make, the current one first, and the results of the earlier ones.\<close>

record 'r thread =
  th_todo :: "'r call list"
  th_pc :: "'r pc"
  th_results :: "outcome list"
  th_overrides :: bool

record 'r process =
  ps_env :: "'r engine_env"
  ps_lock :: bool
  ps_slots :: "'r slot list"
  ps_init_error :: "byte list"
  ps_threads :: "'r thread list"

definition start_thread :: "'r call list \<Rightarrow> 'r thread" where
  "start_thread p = \<lparr>th_todo = p, th_pc = Ready, th_results = [], th_overrides = False\<rparr>"

definition start_process :: "'r engine_env \<Rightarrow> 'r call list list \<Rightarrow> 'r process" where
  "start_process env ps = \<lparr>ps_env = env, ps_lock = False, ps_slots = replicate MaxEngines \<lparr>es_active = False, es_engine = None\<rparr>,
     ps_init_error = [], ps_threads = map start_thread ps\<rparr>"

definition set_pc :: "nat \<Rightarrow> 'r pc \<Rightarrow> 'r process \<Rightarrow> 'r process" where
  "set_pc t pc c = c\<lparr>ps_threads := (ps_threads c)[t := (ps_threads c ! t)\<lparr>th_pc := pc\<rparr>]\<rparr>"

definition set_overrides :: "nat \<Rightarrow> bool \<Rightarrow> 'r process \<Rightarrow> 'r process" where
  "set_overrides t b c = c\<lparr>ps_threads := (ps_threads c)[t := (ps_threads c ! t)\<lparr>th_overrides := b\<rparr>]\<rparr>"

definition set_flag :: "nat \<Rightarrow> bool \<Rightarrow> 'r process \<Rightarrow> 'r process" where
  "set_flag i b c = c\<lparr>ps_slots := (ps_slots c)[i := (ps_slots c ! i)\<lparr>es_active := b\<rparr>]\<rparr>"

definition set_engine :: "nat \<Rightarrow> 'r engine option \<Rightarrow> 'r process \<Rightarrow> 'r process" where
  "set_engine i e c = c\<lparr>ps_slots := (ps_slots c)[i := (ps_slots c ! i)\<lparr>es_engine := e\<rparr>]\<rparr>"

section \<open>Steps\<close>

text \<open>One round of the loop around \<open>cmpxchgWeak\<close>; a failing exchange, for whatever reason, changes nothing.\<close>

definition lockEngineSlots :: "nat \<Rightarrow> 'r pc \<Rightarrow> 'r process \<Rightarrow> 'r process" where
  "lockEngineSlots t pc c = (if ps_lock c then c else set_pc t pc (c\<lparr>ps_lock := True\<rparr>))"

definition unlockEngineSlots :: "nat \<Rightarrow> 'r pc \<Rightarrow> 'r process \<Rightarrow> 'r process" where
  "unlockEngineSlots t pc c = set_pc t pc (c\<lparr>ps_lock := False\<rparr>)"

text \<open>The engine that an initialising call builds in its slot, if the allocations succeed, and the text of a failure.\<close>

fun built :: "'r engine_env \<Rightarrow> 'r call \<Rightarrow> 'r engine option" where
  "built env EngineInit = initInPlaceDefault env"
| "built env (EngineInitConfig (Some c)) = initInPlaceWithConfig env c"
| "built env call = None"

fun failed_text :: "'r call \<Rightarrow> byte list" where
  "failed_text EngineInit = bytes_of ''engine_init: allocation failed''"
| "failed_text call = bytes_of ''engine_init_with_config: allocation failed''"

text \<open>The checks of \<open>engine_init_with_config\<close>, which come before the lock: the text of the first one that fails.\<close>

definition over_ceiling :: "string \<Rightarrow> nat \<Rightarrow> nat \<Rightarrow> byte list option" where
  "over_ceiling name requested ceiling = (if ceiling < requested then Some (exceeds name requested ceiling) else None)"

fun first_error :: "byte list option list \<Rightarrow> byte list option" where
  "first_error [] = None"
| "first_error (None # es) = first_error es"
| "first_error (Some e # es) = Some e"

definition check_config :: "'r engine_env \<Rightarrow> gengo_instance_config_t option \<Rightarrow> byte list option" where
  "check_config env config =
     (let top = en_ceiling env in
      case config of
        None \<Rightarrow> Some (take MaxErrorLen (bytes_of ''engine_init_with_config: config pointer is null''))
      | Some c \<Rightarrow> first_error
          [over_ceiling ''heap_size_bytes'' (heap_size_bytes c) (heap_size_bytes top),
           over_ceiling ''max_objects'' (max_objects c) (max_objects top),
           over_ceiling ''max_stack'' (max_stack c) (max_stack top),
           over_ceiling ''max_frames'' (max_frames c) (max_frames top),
           over_ceiling ''max_defers'' (max_defers c) (max_defers top)])"

text \<open>The slot of a handle, when it is in range.\<close>

definition slot_of :: "int \<Rightarrow> nat option" where
  "slot_of h = (if 0 < h \<and> h \<le> int MaxEngines then Some (nat (h - 1)) else None)"

text \<open>What a call does before it needs the lock. The reset of the initialisation error is a store to unguarded shared memory.\<close>

fun begin_call :: "nat \<Rightarrow> 'r call \<Rightarrow> 'r process \<Rightarrow> 'r process" where
  "begin_call t EngineInit c = set_pc t AwaitInit (c\<lparr>ps_init_error := []\<rparr>)"
| "begin_call t (EngineInitConfig config) c = set_pc t Validate (c\<lparr>ps_init_error := []\<rparr>)"
| "begin_call t (EngineDestroy h) c = (case slot_of h of None \<Rightarrow> set_pc t (Finished (Code 0)) c | Some i \<Rightarrow> set_pc t (AwaitDestroy i) c)"
| "begin_call t (EngineOp h f) c = (case slot_of h of None \<Rightarrow> set_pc t (Finished (Code (-1))) c | Some i \<Rightarrow> set_pc t (AwaitGet i) c)"
| "begin_call t (InitErrorText n) c =
     (let b = ps_init_error c in set_pc t (Finished (Text (int (length b)) (take (min (length b) (nat (max n 0))) b))) c)"

definition validate_config :: "nat \<Rightarrow> 'r call \<Rightarrow> 'r process \<Rightarrow> 'r process" where
  "validate_config t call c =
     (case call of
        EngineInitConfig config \<Rightarrow>
          (case check_config (ps_env c) config of
             Some msg \<Rightarrow> set_pc t (Finished (Code (-3))) (c\<lparr>ps_init_error := msg\<rparr>)
           | None \<Rightarrow> set_pc t AwaitInit c)
      | _ \<Rightarrow> c)"

text \<open>One round of the search for a free slot, with the construction of the engine in it.\<close>

definition scan_free :: "nat \<Rightarrow> 'r call \<Rightarrow> nat \<Rightarrow> 'r process \<Rightarrow> 'r process" where
  "scan_free t call k c =
     (if MaxEngines \<le> k then set_pc t (Leave (Code 0)) c
      else if es_active (ps_slots c ! k) then set_pc t (ScanFree (Suc k)) c
      else case built (ps_env c) call of
        None \<Rightarrow> set_pc t (Leave (Code (-4))) (set_engine k None (c\<lparr>ps_init_error := take MaxErrorLen (failed_text call)\<rparr>))
      | Some e \<Rightarrow> set_pc t (Publish k) (set_engine k (Some e) c))"

text \<open>The store to the flag, together with the installation of the overrides, which no other thread sees.\<close>

definition publish :: "nat \<Rightarrow> nat \<Rightarrow> 'r process \<Rightarrow> 'r process" where
  "publish t k c = set_pc t (Leave (Code (int k + 1))) (set_overrides t True (set_flag k True c))"

definition test_destroy :: "nat \<Rightarrow> nat \<Rightarrow> 'r process \<Rightarrow> 'r process" where
  "test_destroy t i c =
     (if \<not> es_active (ps_slots c ! i) then set_pc t (Leave (Code 0)) c
      else set_pc t (ClearFlag i) (set_engine i None c))"

definition scan_live :: "nat \<Rightarrow> nat \<Rightarrow> 'r process \<Rightarrow> 'r process" where
  "scan_live t k c =
     (if MaxEngines \<le> k then set_pc t (Leave (Code 0)) (set_overrides t False c)
      else if es_active (ps_slots c ! k) then set_pc t (Leave (Code 0)) c
      else set_pc t (ScanLive (Suc k)) c)"

text \<open>The work of a call on its engine reads the engine and stores it back; without the engine it faults.\<close>

definition read_engine :: "nat \<Rightarrow> nat \<Rightarrow> 'r process \<Rightarrow> 'r process" where
  "read_engine t i c = (case es_engine (ps_slots c ! i) of None \<Rightarrow> set_pc t Fault c | Some e \<Rightarrow> set_pc t (WriteEngine i e) c)"

definition write_engine :: "nat \<Rightarrow> 'r call \<Rightarrow> nat \<Rightarrow> 'r engine \<Rightarrow> 'r process \<Rightarrow> 'r process" where
  "write_engine t call i e c =
     (case call of
        EngineOp h f \<Rightarrow> (case f e of (rc, e') \<Rightarrow> set_pc t (Finished (Code rc)) (set_engine i (Some e') c))
      | _ \<Rightarrow> c)"

fun run_pc :: "nat \<Rightarrow> 'r call \<Rightarrow> 'r pc \<Rightarrow> 'r process \<Rightarrow> 'r process option" where
  "run_pc t call Ready c = Some (set_pc t Begun c)"
| "run_pc t call Begun c = Some (begin_call t call c)"
| "run_pc t call Validate c = Some (validate_config t call c)"
| "run_pc t call AwaitInit c = Some (lockEngineSlots t (ScanFree 0) c)"
| "run_pc t call (ScanFree k) c = Some (scan_free t call k c)"
| "run_pc t call (Publish k) c = Some (publish t k c)"
| "run_pc t call (AwaitDestroy i) c = Some (lockEngineSlots t (TestDestroy i) c)"
| "run_pc t call (TestDestroy i) c = Some (test_destroy t i c)"
| "run_pc t call (ClearFlag i) c = Some (set_pc t (ScanLive 0) (set_flag i False c))"
| "run_pc t call (ScanLive k) c = Some (scan_live t k c)"
| "run_pc t call (AwaitGet i) c = Some (lockEngineSlots t (TestGet i) c)"
| "run_pc t call (TestGet i) c =
     Some (if es_active (ps_slots c ! i) then set_pc t (LeaveGet i) c else set_pc t (Leave (Code (-1))) c)"
| "run_pc t call (LeaveGet i) c = Some (unlockEngineSlots t (ReadEngine i) c)"
| "run_pc t call (ReadEngine i) c = Some (read_engine t i c)"
| "run_pc t call (WriteEngine i e) c = Some (write_engine t call i e c)"
| "run_pc t call (Leave r) c = Some (unlockEngineSlots t (Finished r) c)"
| "run_pc t call (Finished r) c =
     Some (c\<lparr>ps_threads := (ps_threads c)[t := (ps_threads c ! t)
        \<lparr>th_pc := Ready, th_todo := tl (th_todo (ps_threads c ! t)), th_results := th_results (ps_threads c ! t) @ [r]\<rparr>]\<rparr>)"
| "run_pc t call Fault c = None"

text \<open>
  The rule of the comment on \<open>getEngine\<close>, that no handle is destroyed or used by two threads at once: a call on a handle starts only
  when no other thread is in a call on it. With \<open>disc\<close> false threads do as they like.
\<close>

fun call_slot :: "'r call \<Rightarrow> nat option" where
  "call_slot (EngineDestroy h) = slot_of h"
| "call_slot (EngineOp h f) = slot_of h"
| "call_slot call = None"

fun is_ready :: "'r pc \<Rightarrow> bool" where
  "is_ready Ready = True"
| "is_ready pc = False"

lemma is_ready_iff [simp]: "is_ready pc \<longleftrightarrow> pc = Ready"
  by (cases pc) simp_all

definition busy_with :: "nat \<Rightarrow> 'r thread \<Rightarrow> bool" where
  "busy_with i th \<longleftrightarrow> (case th_todo th of [] \<Rightarrow> False | call # rest \<Rightarrow> \<not> is_ready (th_pc th) \<and> call_slot call = Some i)"

definition may_start :: "'r call \<Rightarrow> 'r process \<Rightarrow> bool" where
  "may_start call c = (case call_slot call of None \<Rightarrow> True | Some i \<Rightarrow> \<not> list_ex (busy_with i) (ps_threads c))"

definition thread_step :: "bool \<Rightarrow> nat \<Rightarrow> 'r process \<Rightarrow> 'r process option" where
  "thread_step disc t c =
     (if length (ps_threads c) \<le> t then None
      else case th_todo (ps_threads c ! t) of
        [] \<Rightarrow> None
      | call # rest \<Rightarrow>
          if disc \<and> is_ready (th_pc (ps_threads c ! t)) \<and> \<not> may_start call c then None
          else run_pc t call (th_pc (ps_threads c ! t)) c)"

inductive process_step :: "bool \<Rightarrow> 'r process \<Rightarrow> 'r process \<Rightarrow> bool" for disc where
  step_thread: "thread_step disc t c = Some c' \<Longrightarrow> process_step disc c c'"

inductive_cases process_stepE: "process_step disc c c'"

text \<open>A schedule names the thread of each step.\<close>

fun schedule :: "bool \<Rightarrow> nat list \<Rightarrow> 'r process \<Rightarrow> 'r process option" where
  "schedule disc [] c = Some c"
| "schedule disc (t # ts) c = (case thread_step disc t c of None \<Rightarrow> None | Some c' \<Rightarrow> schedule disc ts c')"

lemma schedule_steps: "schedule disc ts c = Some c' \<Longrightarrow> (process_step disc)\<^sup>*\<^sup>* c c'"
  by (induction ts arbitrary: c) (auto split: option.splits intro: converse_rtranclp_into_rtranclp step_thread)

section \<open>Mutual exclusion\<close>

text \<open>The part of a call between the exchange that takes the lock and the store that releases it.\<close>

fun inside :: "'r pc \<Rightarrow> bool" where
  "inside (ScanFree k) = True"
| "inside (Publish k) = True"
| "inside (TestDestroy i) = True"
| "inside (ClearFlag i) = True"
| "inside (ScanLive k) = True"
| "inside (TestGet i) = True"
| "inside (LeaveGet i) = True"
| "inside (Leave r) = True"
| "inside pc = False"

definition pc_at :: "'r process \<Rightarrow> nat \<Rightarrow> 'r pc" where
  "pc_at c t = th_pc (ps_threads c ! t)"

definition lock_ok :: "'r process \<Rightarrow> bool" where
  "lock_ok c \<longleftrightarrow> (\<forall>t < length (ps_threads c). inside (pc_at c t) \<longrightarrow> ps_lock c \<and> (\<forall>t' < length (ps_threads c). inside (pc_at c t') \<longrightarrow> t' = t))
     \<and> (ps_lock c \<longrightarrow> (\<exists>t < length (ps_threads c). inside (pc_at c t)))
     \<and> (\<forall>t < length (ps_threads c). pc_at c t \<noteq> Ready \<longrightarrow> th_todo (ps_threads c ! t) \<noteq> [])"

lemmas step_defs = lockEngineSlots_def unlockEngineSlots_def validate_config_def scan_free_def publish_def test_destroy_def scan_live_def
  read_engine_def write_engine_def set_pc_def set_overrides_def set_flag_def set_engine_def Let_def

lemma thread_stepD:
  assumes "thread_step disc t c = Some c'"
  obtains call rest where "t < length (ps_threads c)" "th_todo (ps_threads c ! t) = call # rest"
    "run_pc t call (pc_at c t) c = Some c'" "disc \<Longrightarrow> pc_at c t = Ready \<Longrightarrow> may_start call c"
  using assms by (auto simp: thread_step_def pc_at_def split: if_splits list.splits)

text \<open>A step is one of its thread: it changes no other thread, and the number of slots and the environment stay.\<close>

lemma begin_call_frame:
  "length (ps_threads (begin_call t call c)) = length (ps_threads c)" "length (ps_slots (begin_call t call c)) = length (ps_slots c)"
  "ps_env (begin_call t call c) = ps_env c" "t' \<noteq> t \<Longrightarrow> ps_threads (begin_call t call c) ! t' = ps_threads c ! t'"
  "ps_lock (begin_call t call c) = ps_lock c" "ps_slots (begin_call t call c) = ps_slots c"
  by (cases call; simp add: step_defs split: option.split)+

lemma run_pc_frame:
  assumes "run_pc t call pc c = Some c'"
  shows "length (ps_threads c') = length (ps_threads c)" "length (ps_slots c') = length (ps_slots c)" "ps_env c' = ps_env c"
    "t' \<noteq> t \<Longrightarrow> ps_threads c' ! t' = ps_threads c ! t'"
  using assms by (cases pc; auto simp: step_defs begin_call_frame split: call.splits option.splits if_splits prod.splits)+

text \<open>How a step moves its thread across the lock.\<close>

lemma begin_call_outside: "t < length (ps_threads c) \<Longrightarrow> \<not> inside (pc_at (begin_call t call c) t)"
  by (cases call) (auto simp: step_defs pc_at_def split: option.split)

lemma lock_transition:
  assumes "run_pc t call (pc_at c t) c = Some c'" "t < length (ps_threads c)"
  shows "if inside (pc_at c t) then (if inside (pc_at c' t) then ps_lock c' = ps_lock c else \<not> ps_lock c')
    else (if inside (pc_at c' t) then \<not> ps_lock c \<and> ps_lock c' else ps_lock c' = ps_lock c)"
proof (cases "pc_at c t = Begun")
  case True
  then show ?thesis using assms begin_call_outside [of t c call] by (auto simp: begin_call_frame)
next
  case False
  then show ?thesis
    using assms by (cases "pc_at c t"; auto simp: pc_at_def step_defs split: call.splits option.splits if_splits prod.splits)
qed

lemma begin_call_todo:
  "t < length (ps_threads c) \<Longrightarrow> th_todo (ps_threads (begin_call t call c) ! t) = th_todo (ps_threads c ! t)"
  "t < length (ps_threads c) \<Longrightarrow> pc_at (begin_call t call c) t \<noteq> Ready"
  by (cases call; simp add: step_defs pc_at_def split: option.split)+

lemma run_pc_todo:
  assumes "run_pc t call (pc_at c t) c = Some c'" "t < length (ps_threads c)"
  shows "(if \<exists>r. pc_at c t = Finished r then th_todo (ps_threads c' ! t) = tl (th_todo (ps_threads c ! t)) \<and> pc_at c' t = Ready
     else th_todo (ps_threads c' ! t) = th_todo (ps_threads c ! t) \<and> (pc_at c t \<noteq> Ready \<longrightarrow> pc_at c' t \<noteq> Ready))"
proof (cases "pc_at c t = Begun")
  case True
  then show ?thesis using assms begin_call_todo [OF assms(2), of call] by auto
next
  case False
  then show ?thesis
    using assms by (cases "pc_at c t"; auto simp: step_defs pc_at_def split: call.splits option.splits if_splits prod.splits)
qed

lemma lock_ok_step: "lock_ok c \<Longrightarrow> thread_step disc t c = Some c' \<Longrightarrow> lock_ok c'"
proof (elim thread_stepD)
  fix call rest
  assume ok: "lock_ok c" and t: "t < length (ps_threads c)" and run: "run_pc t call (pc_at c t) c = Some c'"
    and todo: "th_todo (ps_threads c ! t) = call # rest"
  have others: "pc_at c' t' = pc_at c t'" if "t' \<noteq> t" for t' using run_pc_frame(4) [OF run that] by (simp add: pc_at_def)
  have n: "length (ps_threads c') = length (ps_threads c)" by (rule run_pc_frame(1) [OF run])
  note move = lock_transition [OF run t]
  have "th_todo (ps_threads c' ! t') \<noteq> []" if "t' < length (ps_threads c)" "pc_at c' t' \<noteq> Ready" for t'
    using run_pc_todo [OF run t] run_pc_frame(4) [OF run, of t'] others [of t'] ok that todo unfolding lock_ok_def
    by (cases "t' = t") (auto split: if_splits)
  moreover have "ps_lock c' \<and> (\<forall>t2 < length (ps_threads c). inside (pc_at c' t2) \<longrightarrow> t2 = t1)"
    if "t1 < length (ps_threads c)" "inside (pc_at c' t1)" for t1
    using ok move others t that unfolding lock_ok_def by (metis (full_types))
  moreover have "\<exists>t1 < length (ps_threads c). inside (pc_at c' t1)" if "ps_lock c'"
    using ok move others t that unfolding lock_ok_def by (metis (full_types))
  ultimately show "lock_ok c'" unfolding lock_ok_def n by blast
qed

lemma lock_ok_start: "lock_ok (start_process env ps)"
  by (simp add: lock_ok_def start_process_def start_thread_def pc_at_def)

lemma lock_ok_reachable: "(process_step disc)\<^sup>*\<^sup>* (start_process env ps) c \<Longrightarrow> lock_ok c"
  by (induction rule: rtranclp_induct) (auto simp: lock_ok_start elim!: process_stepE intro: lock_ok_step)

section \<open>The atomic object\<close>

text \<open>
  The specification: a client invokes a call, the call takes effect at once by the function of \<open>EngineAbi\<close>, and it returns its result. What
  a reader of the initialisation error sees is left open.
\<close>

datatype status = Idle | Pending | Done outcome

record 'r client =
  cl_todo :: "'r call list"
  cl_status :: status
  cl_results :: "outcome list"
  cl_overrides :: bool

record 'r atomic =
  at_slots :: "'r engine option list"
  at_clients :: "'r client list"

definition thread_world :: "'r engine_env \<Rightarrow> 'r engine option list \<Rightarrow> bool \<Rightarrow> 'r world" where
  "thread_world env slots ov = (boot env)\<lparr>ew_slots := slots, ew_overrides := ov\<rparr>"

fun atomic_op :: "'r call \<Rightarrow> 'r world \<Rightarrow> outcome \<times> 'r world" where
  "atomic_op EngineInit w = (case engine_init w of (rc, w) \<Rightarrow> (Code rc, w))"
| "atomic_op (EngineInitConfig config) w = (case engine_init_with_config config w of (rc, w) \<Rightarrow> (Code rc, w))"
| "atomic_op (EngineDestroy h) w = (Code 0, engine_destroy h w)"
| "atomic_op (EngineOp h f) w = (case getEngine h w of None \<Rightarrow> (Code (-1), w) | Some e \<Rightarrow> (case f e of (rc, e) \<Rightarrow> (Code rc, put_engine h e w)))"
| "atomic_op (InitErrorText n) w = (case engine_last_error 0 n w of (l, b) \<Rightarrow> (Text l b, w))"

definition put_client :: "nat \<Rightarrow> 'r client \<Rightarrow> 'r atomic \<Rightarrow> 'r atomic" where
  "put_client t cl a = a\<lparr>at_clients := (at_clients a)[t := cl]\<rparr>"

inductive atomic_step :: "'r engine_env \<Rightarrow> 'r atomic \<Rightarrow> 'r atomic \<Rightarrow> bool" for env where
  invoke: "t < length (at_clients a) \<Longrightarrow> at_clients a ! t = cl \<Longrightarrow> cl_status cl = Idle \<Longrightarrow> cl_todo cl \<noteq> [] \<Longrightarrow>
     atomic_step env a (put_client t (cl\<lparr>cl_status := Pending\<rparr>) a)"
| take_effect: "t < length (at_clients a) \<Longrightarrow> at_clients a ! t = cl \<Longrightarrow> cl_status cl = Pending \<Longrightarrow> cl_todo cl = call # rest \<Longrightarrow>
     atomic_op call (thread_world env (at_slots a) (cl_overrides cl)) = (r, w) \<Longrightarrow>
     atomic_step env a (put_client t (cl\<lparr>cl_status := Done r, cl_overrides := ew_overrides w\<rparr>) (a\<lparr>at_slots := ew_slots w\<rparr>))"
| read_text: "t < length (at_clients a) \<Longrightarrow> at_clients a ! t = cl \<Longrightarrow> cl_status cl = Pending \<Longrightarrow> cl_todo cl = InitErrorText n # rest \<Longrightarrow>
     atomic_step env a (put_client t (cl\<lparr>cl_status := Done (Text l b)\<rparr>) a)"
| return: "t < length (at_clients a) \<Longrightarrow> at_clients a ! t = cl \<Longrightarrow> cl_status cl = Done r \<Longrightarrow> cl_todo cl = call # rest \<Longrightarrow>
     atomic_step env a (put_client t (cl\<lparr>cl_status := Idle, cl_todo := rest, cl_results := cl_results cl @ [r]\<rparr>) a)"

text \<open>
  The abstraction. An initialising call takes effect with the store that sets the flag (or when it finds no slot), a destruction when it
  releases the engine, a call on an engine when it stores the engine back.
\<close>

definition view_slot :: "'r slot \<Rightarrow> 'r engine option" where
  "view_slot s = (if es_active s then es_engine s else None)"

fun status_of :: "'r pc \<Rightarrow> status" where
  "status_of Ready = Idle"
| "status_of (ClearFlag i) = Done (Code 0)"
| "status_of (ScanLive k) = Done (Code 0)"
| "status_of (Leave r) = Done r"
| "status_of (Finished r) = Done r"
| "status_of pc = Pending"

definition any_live :: "'r slot list \<Rightarrow> bool" where
  "any_live ss = list_ex (\<lambda>s. view_slot s \<noteq> None) ss"

definition view_overrides :: "'r slot list \<Rightarrow> 'r thread \<Rightarrow> bool" where
  "view_overrides ss th =
     (case th_pc th of ClearFlag i \<Rightarrow> th_overrides th \<and> any_live ss | ScanLive k \<Rightarrow> th_overrides th \<and> any_live ss | _ \<Rightarrow> th_overrides th)"

definition view_thread :: "'r slot list \<Rightarrow> 'r thread \<Rightarrow> 'r client" where
  "view_thread ss th = \<lparr>cl_todo = th_todo th, cl_status = status_of (th_pc th), cl_results = th_results th, cl_overrides = view_overrides ss th\<rparr>"

definition view_process :: "'r process \<Rightarrow> 'r atomic" where
  "view_process c = \<lparr>at_slots = map view_slot (ps_slots c), at_clients = map (view_thread (ps_slots c)) (ps_threads c)\<rparr>"

section \<open>The invariant\<close>

definition usable :: "'r process \<Rightarrow> nat \<Rightarrow> bool" where
  "usable c i \<longleftrightarrow> es_active (ps_slots c ! i) \<and> es_engine (ps_slots c ! i) \<noteq> None"

definition all_taken :: "'r process \<Rightarrow> nat \<Rightarrow> bool" where
  "all_taken c k \<longleftrightarrow> (\<forall>j < k. es_active (ps_slots c ! j))"

text \<open>A call that initialises, past its checks.\<close>

fun checked_init :: "'r engine_env \<Rightarrow> 'r call \<Rightarrow> bool" where
  "checked_init env EngineInit = True"
| "checked_init env (EngineInitConfig config) = (check_config env config = None)"
| "checked_init env call = False"

fun destroys :: "'r call \<Rightarrow> nat \<Rightarrow> bool" where
  "destroys (EngineDestroy h) i = (slot_of h = Some i)"
| "destroys call i = False"

fun operates :: "'r call \<Rightarrow> nat \<Rightarrow> bool" where
  "operates (EngineOp h f) i = (slot_of h = Some i)"
| "operates call i = False"

fun pc_ok :: "'r process \<Rightarrow> 'r call \<Rightarrow> 'r pc \<Rightarrow> bool" where
  "pc_ok c call Validate = (\<exists>config. call = EngineInitConfig config)"
| "pc_ok c call AwaitInit = checked_init (ps_env c) call"
| "pc_ok c call (ScanFree k) = (checked_init (ps_env c) call \<and> k \<le> MaxEngines \<and> all_taken c k)"
| "pc_ok c call (Publish k) = (checked_init (ps_env c) call \<and> k < MaxEngines \<and> all_taken c k \<and> \<not> es_active (ps_slots c ! k)
     \<and> es_engine (ps_slots c ! k) = built (ps_env c) call \<and> built (ps_env c) call \<noteq> None)"
| "pc_ok c call (AwaitDestroy i) = destroys call i"
| "pc_ok c call (TestDestroy i) = destroys call i"
| "pc_ok c call (ClearFlag i) = (destroys call i \<and> es_active (ps_slots c ! i) \<and> es_engine (ps_slots c ! i) = None)"
| "pc_ok c call (ScanLive k) = (k \<le> MaxEngines \<and> (\<forall>j < k. \<not> es_active (ps_slots c ! j)))"
| "pc_ok c call (AwaitGet i) = operates call i"
| "pc_ok c call (TestGet i) = operates call i"
| "pc_ok c call (LeaveGet i) = (operates call i \<and> usable c i)"
| "pc_ok c call (ReadEngine i) = (operates call i \<and> usable c i)"
| "pc_ok c call (WriteEngine i e) = (operates call i \<and> usable c i \<and> es_engine (ps_slots c ! i) = Some e)"
| "pc_ok c call Fault = False"
| "pc_ok c call pc = True"

definition half_destroyed :: "'r process \<Rightarrow> nat \<Rightarrow> bool" where
  "half_destroyed c i \<longleftrightarrow> es_active (ps_slots c ! i) \<and> es_engine (ps_slots c ! i) = None"

definition thread_ok :: "'r process \<Rightarrow> 'r thread \<Rightarrow> bool" where
  "thread_ok c th \<longleftrightarrow> (case th_todo th of [] \<Rightarrow> th_pc th = Ready | call # rest \<Rightarrow> pc_ok c call (th_pc th))"

definition process_ok :: "'r process \<Rightarrow> bool" where
  "process_ok c \<longleftrightarrow> lock_ok c \<and> length (ps_slots c) = MaxEngines
     \<and> (\<forall>t < length (ps_threads c). thread_ok c (ps_threads c ! t))
     \<and> (\<forall>i < MaxEngines. half_destroyed c i \<longrightarrow> (\<exists>t < length (ps_threads c). pc_at c t = ClearFlag i))
     \<and> (\<forall>t < length (ps_threads c). \<forall>t' < length (ps_threads c). \<forall>i.
          busy_with i (ps_threads c ! t) \<longrightarrow> busy_with i (ps_threads c ! t') \<longrightarrow> t' = t)"

end
