(* ===== verification/SlotLockProps.thy ===== *)
theory SlotLockProps
  imports SlotLock
begin

text \<open>
  The invariant of the threads on the slot table, and the simulation of their steps by the atomic object.
\<close>

section \<open>Steps and slots\<close>

lemma nth_update_if: "xs[k := v] ! i = (if k = i \<and> i < length xs then v else xs ! i)"
  by (cases "k = i"; cases "i < length xs") (simp_all add: not_less list_update_beyond)

text \<open>What a step can do to a slot, by the place of its thread.\<close>

lemma run_pc_slots:
  assumes "run_pc t call pc c = Some c'" "ps_slots c' ! i \<noteq> ps_slots c ! i" "t < length (ps_threads c)"
  shows "(pc = ScanFree i \<and> \<not> es_active (ps_slots c ! i) \<and> \<not> es_active (ps_slots c' ! i))
    \<or> (pc = Publish i \<and> es_active (ps_slots c' ! i) \<and> es_engine (ps_slots c' ! i) = es_engine (ps_slots c ! i))
    \<or> (pc = TestDestroy i \<and> es_active (ps_slots c ! i) \<and> ps_slots c' ! i = (ps_slots c ! i)\<lparr>es_engine := None\<rparr> \<and> pc_at c' t = ClearFlag i)
    \<or> (pc = ClearFlag i \<and> \<not> es_active (ps_slots c' ! i))
    \<or> (\<exists>e e'. pc = WriteEngine i e \<and> ps_slots c' ! i = (ps_slots c ! i)\<lparr>es_engine := Some e'\<rparr>)"
  using assms
  by (cases pc) (auto simp: step_defs pc_at_def begin_call_frame nth_update_if split: call.splits option.splits if_splits prod.splits)

section \<open>The invariant is kept\<close>

lemma pc_at_other: "run_pc t call pc c = Some c' \<Longrightarrow> t' \<noteq> t \<Longrightarrow> pc_at c' t' = pc_at c t'"
  by (simp add: pc_at_def run_pc_frame(4))

lemma usable_cong: "ps_slots c' ! i = ps_slots c ! i \<Longrightarrow> usable c' i = usable c i"
  by (simp add: usable_def)

lemma destroys_slot: "destroys call i \<Longrightarrow> call_slot call = Some i"
  by (cases call) auto

lemma operates_slot: "operates call i \<Longrightarrow> call_slot call = Some i"
  by (cases call) auto

text \<open>The step of the thread itself.\<close>

lemma own_thread_ok:
  assumes "run_pc t call pc c = Some c'" "t < length (ps_threads c)" "pc_at c t = pc" "length (ps_slots c) = MaxEngines"
    and "pc_ok c call pc" and whole: "\<And>i. inside pc \<Longrightarrow> i < MaxEngines \<Longrightarrow> half_destroyed c i \<Longrightarrow> pc = ClearFlag i"
    and "pc \<noteq> Ready" "\<And>r. pc \<noteq> Finished r"
  shows "pc_ok c' call (pc_at c' t)"
proof (cases pc)
  case Begun
  then show ?thesis
    using assms by (cases call) (auto simp: step_defs pc_at_def split: option.splits)
next
  case (ScanFree k)
  then show ?thesis
    using assms by (auto simp: step_defs pc_at_def all_taken_def less_Suc_eq split: option.splits if_splits)
next
  case (TestGet i)
  have "i < MaxEngines" if "operates call i" using that by (cases call) (auto simp: slot_of_def split: if_splits)
  then show ?thesis
    using assms(1-5) TestGet whole [of i] by (cases "es_engine (ps_slots c ! i)") (auto simp: step_defs pc_at_def usable_def half_destroyed_def split: if_splits)
next
  case (TestDestroy i)
  have "i < MaxEngines" if "destroys call i" using that by (cases call) (auto simp: slot_of_def split: if_splits)
  then show ?thesis
    using assms TestDestroy by (auto simp: step_defs pc_at_def split: if_splits)
next
  case (WriteEngine i e)
  then show ?thesis using assms by (cases call) (auto simp: step_defs pc_at_def split: prod.splits)
qed (use assms in \<open>auto simp: step_defs pc_at_def usable_def all_taken_def less_Suc_eq split: call.splits option.splits if_splits\<close>)

text \<open>What the step of one thread leaves of the facts about another.\<close>

lemma other_thread_ok:
  assumes run: "run_pc t call pc c = Some c'" and t: "t < length (ps_threads c)" "pc_at c t = pc" "pc_ok c call pc"
    and ok: "pc_ok c call' pc'" and excl: "inside pc' \<Longrightarrow> \<not> inside pc"
    and disj: "\<And>i. call_slot call = Some i \<Longrightarrow> pc \<noteq> Ready \<Longrightarrow> call_slot call' = Some i \<Longrightarrow> pc' \<noteq> Ready \<Longrightarrow> False"
  shows "pc_ok c' call' pc'"
proof -
  have env: "ps_env c' = ps_env c" by (rule run_pc_frame(3) [OF run])
  have same: "ps_slots c' ! i = ps_slots c ! i" if "call_slot call' = Some i" "pc' \<noteq> Ready" "usable c i" for i
  proof (rule ccontr)
    assume "ps_slots c' ! i \<noteq> ps_slots c ! i"
    from run_pc_slots [OF run this t(1)] show False
      using t(3) disj [OF _ _ that(1,2)] that(3) by (auto simp: usable_def destroys_slot operates_slot)
  qed
  have flag: "es_active (ps_slots c' ! i) = es_active (ps_slots c ! i)" if "\<not> inside pc" for i
    using run_pc_slots [OF run _ t(1), of i] that by (cases "ps_slots c' ! i = ps_slots c ! i") auto
  have engine: "ps_slots c' ! i = ps_slots c ! i" if "\<not> inside pc" "\<not> usable c i" for i
    using run_pc_slots [OF run _ t(1), of i] that t(3) by (cases "ps_slots c' ! i = ps_slots c ! i") auto
  show ?thesis
    using ok excl same flag engine
    by (cases pc') (auto simp: env all_taken_def usable_def dest: operates_slot)
qed

lemma half_destroyed_step:
  assumes run: "run_pc t call (pc_at c t) c = Some c'" and t: "t < length (ps_threads c)" "pc_ok c call (pc_at c t)"
    and old: "half_destroyed c i \<Longrightarrow> \<exists>t' < length (ps_threads c). pc_at c t' = ClearFlag i" and half: "half_destroyed c' i"
    and i: "i < length (ps_slots c)"
  shows "\<exists>t' < length (ps_threads c'). pc_at c' t' = ClearFlag i"
proof (cases "ps_slots c' ! i = ps_slots c ! i")
  case True
  with half old obtain t' where t': "t' < length (ps_threads c)" "pc_at c t' = ClearFlag i" by (auto simp: half_destroyed_def)
  have "t' \<noteq> t"
  proof
    assume "t' = t"
    then have "\<not> es_active (ps_slots c' ! i)" using run t' i by (auto simp: step_defs)
    then show False using half by (simp add: half_destroyed_def)
  qed
  then show ?thesis using t' by (auto simp: run_pc_frame(1) [OF run] pc_at_other [OF run])
next
  case False
  from run_pc_slots [OF run this t(1)] show ?thesis
    using half t by (auto simp: half_destroyed_def run_pc_frame(1) [OF run])
qed

lemma busy_step:
  assumes run: "run_pc t call (pc_at c t) c = Some c'" and t: "t < length (ps_threads c)" "th_todo (ps_threads c ! t) = call # rest"
    and busy: "busy_with i (ps_threads c' ! t)"
  shows "busy_with i (ps_threads c ! t) \<or> (pc_at c t = Ready \<and> call_slot call = Some i)"
  using run_pc_todo [OF run t(1)] busy t(2) by (auto simp: busy_with_def pc_at_def split: if_splits list.splits)

lemma process_ok_step:
  assumes ok: "process_ok c" and step: "thread_step True t c = Some c'"
  shows "process_ok c'"
proof -
  obtain call rest where t: "t < length (ps_threads c)" "th_todo (ps_threads c ! t) = call # rest"
    and run: "run_pc t call (pc_at c t) c = Some c'" and start: "pc_at c t = Ready \<Longrightarrow> may_start call c"
    using step by (auto elim: thread_stepD)
  note n = run_pc_frame(1-3) [OF run] and others = run_pc_frame(4) [OF run]
  have lock: "lock_ok c" and slots: "length (ps_slots c) = MaxEngines" using ok by (simp_all add: process_ok_def)
  have threads: "thread_ok c (ps_threads c ! t')" if "t' < length (ps_threads c)" for t' using ok that by (simp add: process_ok_def)
  have half: "\<exists>t' < length (ps_threads c). pc_at c t' = ClearFlag i" if "half_destroyed c i" "i < MaxEngines" for i
    using ok that by (simp add: process_ok_def)
  have disj: "t2 = t1" if "busy_with i (ps_threads c ! t1)" "busy_with i (ps_threads c ! t2)" "t1 < length (ps_threads c)" "t2 < length (ps_threads c)"
    for i t1 t2 using ok that unfolding process_ok_def by metis
  have mine: "pc_ok c call (pc_at c t)" using threads [OF t(1)] t(2) by (simp add: thread_ok_def pc_at_def)
  have alone: "t' = t" if "inside (pc_at c t)" "inside (pc_at c t')" "t' < length (ps_threads c)" for t'
    using lock that t(1) by (simp add: lock_ok_def)
  have "thread_ok c' (ps_threads c' ! t)"
  proof (cases "pc_at c t = Ready \<or> (\<exists>r. pc_at c t = Finished r)")
    case True
    then show ?thesis using run t by (auto simp: thread_ok_def step_defs split: list.split)
  next
    case False
    have "pc_ok c' call (pc_at c' t)"
    proof (rule own_thread_ok [OF run t(1) refl slots mine])
      fix i assume "inside (pc_at c t)" "i < MaxEngines" "half_destroyed c i"
      then obtain t' where "t' < length (ps_threads c)" "pc_at c t' = ClearFlag i" using half by blast
      then show "pc_at c t = ClearFlag i" using alone [of t'] \<open>inside (pc_at c t)\<close> by auto
    qed (use False in auto)
    then show ?thesis using run_pc_todo [OF run t(1)] t(2) False by (simp add: thread_ok_def pc_at_def)
  qed
  moreover have "thread_ok c' (ps_threads c' ! t')" if t': "t' < length (ps_threads c)" "t' \<noteq> t" for t'
  proof (cases "th_todo (ps_threads c ! t')")
    case Nil
    then show ?thesis using threads [OF t'(1)] others [OF t'(2)] by (simp add: thread_ok_def)
  next
    case (Cons call' rest')
    have "pc_ok c' call' (pc_at c t')"
    proof (rule other_thread_ok [OF run t(1) refl mine])
      show "pc_ok c call' (pc_at c t')" using threads [OF t'(1)] Cons by (simp add: thread_ok_def pc_at_def)
      show "\<not> inside (pc_at c t)" if "inside (pc_at c t')" using alone [OF _ that t'(1)] t'(2) by blast
      show False if "call_slot call = Some i" "pc_at c t \<noteq> Ready" "call_slot call' = Some i" "pc_at c t' \<noteq> Ready" for i
        using disj [of i t t'] that t t' Cons by (simp add: busy_with_def pc_at_def)
    qed
    then show ?thesis using others [OF t'(2)] Cons by (simp add: thread_ok_def pc_at_def)
  qed
  moreover have "t2 = t1" if b: "busy_with i (ps_threads c' ! t1)" "busy_with i (ps_threads c' ! t2)"
    and lt: "t1 < length (ps_threads c)" "t2 < length (ps_threads c)" for i t1 t2
  proof -
    have fresh: "\<not> busy_with i (ps_threads c ! t')" if "pc_at c t = Ready" "call_slot call = Some i" "t' < length (ps_threads c)" for t'
      using start [OF that(1)] that(2,3) by (auto simp: may_start_def list_ex_iff)
    have old: "busy_with i (ps_threads c ! t') \<or> (t' = t \<and> pc_at c t = Ready \<and> call_slot call = Some i)" if "busy_with i (ps_threads c' ! t')" for t'
      using busy_step [OF run t] others [of t'] that by (cases "t' = t") auto
    show ?thesis using old [OF b(1)] old [OF b(2)] disj [OF _ _ lt] fresh lt by blast
  qed
  moreover have "\<exists>t' < length (ps_threads c'). pc_at c' t' = ClearFlag i" if "half_destroyed c' i" "i < MaxEngines" for i
    using half_destroyed_step [OF run t(1) mine half that(1)] that(2) slots by simp
  moreover have "lock_ok c'" by (rule lock_ok_step [OF lock step])
  ultimately show ?thesis unfolding process_ok_def n slots by (metis (no_types))
qed

lemma process_ok_start: "process_ok (start_process env ps)"
  using lock_ok_start [of env ps] by (auto simp: process_ok_def start_process_def start_thread_def thread_ok_def half_destroyed_def busy_with_def split: list.split)

lemma process_ok_reachable: "(process_step True)\<^sup>*\<^sup>* (start_process env ps) c \<Longrightarrow> process_ok c"
  by (induction rule: rtranclp_induct) (auto simp: process_ok_start elim!: process_stepE intro: process_ok_step)

end
