(* ===== verification/SlotLockSim.thy ===== *)
theory SlotLockSim
  imports SlotLockProps
begin

text \<open>
  The threads on the slot table implement the atomic object: every step is one of the object or changes nothing that it shows.
\<close>

section \<open>The calls on the table\<close>

lemma free_slot_eq: "free_slot ss = Some k \<longleftrightarrow> k < length ss \<and> ss ! k = None \<and> (\<forall>j < k. ss ! j \<noteq> None)"
proof (induction ss arbitrary: k)
  case (Cons s ss)
  show ?case by (cases k; cases s) (auto simp: Cons.IH less_Suc_eq_0_disj)
qed simp

lemma thread_world_simps [simp]:
  "ew_slots (thread_world env ss ov) = ss" "ew_overrides (thread_world env ss ov) = ov" "ew_env (thread_world env ss ov) = env"
  by (simp_all add: thread_world_def boot_def)

lemma getEngine_slot_of: "getEngine h w = (case slot_of h of None \<Rightarrow> None | Some i \<Rightarrow> ew_slots w ! i)"
  by (auto simp: getEngine_def slot_of_def)

lemma slot_ofD: "slot_of h = Some i \<Longrightarrow> i < MaxEngines \<and> i = nat (h - 1)"
  by (auto simp: slot_of_def split: if_splits)

lemma first_error_simps [simp]:
  "first_error (over_ceiling nm r c # es) = (if c < r then Some (exceeds nm r c) else first_error es)"
  by (simp add: over_ceiling_def)

lemma config_rejected:
  "check_config (ew_env w) config = Some msg \<Longrightarrow> engine_init_with_config config w = (-3, w\<lparr>ew_init_error := msg\<rparr>)"
  by (cases config) (auto simp: check_config_def engine_init_with_config_def validateCeiling_def setInitError_def Let_def split: if_splits)

lemma config_accepted:
  "check_config (ew_env w) (Some c) = None \<Longrightarrow> engine_init_with_config (Some c) w =
     claim_slot ''engine_init_with_config: allocation failed'' (initInPlaceWithConfig (ew_env w) c) (w\<lparr>ew_init_error := []\<rparr>)"
  by (auto simp: check_config_def engine_init_with_config_def validateCeiling_def Let_def split: if_splits)

text \<open>A checked initialising call claims a slot.\<close>

lemma init_claims:
  assumes "checked_init env call"
  obtains nm where "atomic_op call (thread_world env ss ov) =
    (case claim_slot nm (built env call) ((thread_world env ss ov)\<lparr>ew_init_error := []\<rparr>) of (rc, w) \<Rightarrow> (Code rc, w))"
proof (cases call)
  case EngineInit
  then show thesis by (intro that) (simp add: engine_init_def)
next
  case (EngineInitConfig config)
  then obtain c where "config = Some c" using assms by (cases config) (simp_all add: check_config_def)
  then show thesis using assms EngineInitConfig by (intro that) (simp add: config_accepted)
qed (use assms in simp_all)

lemma effect_publish:
  assumes "checked_init env call" "built env call = Some e" "free_slot ss = Some k"
  shows "\<exists>w. atomic_op call (thread_world env ss ov) = (Code (int k + 1), w) \<and> ew_slots w = ss[k := Some e] \<and> ew_overrides w"
  by (rule init_claims [OF assms(1), of ss ov]) (use assms in \<open>simp add: claim_slot_def\<close>)

lemma effect_full:
  assumes "checked_init env call" "free_slot ss = None"
  shows "\<exists>w. atomic_op call (thread_world env ss ov) = (Code 0, w) \<and> ew_slots w = ss \<and> ew_overrides w = ov"
  by (rule init_claims [OF assms(1), of ss ov]) (use assms in \<open>simp add: claim_slot_def\<close>)

lemma effect_failed:
  assumes "checked_init env call" "built env call = None" "free_slot ss = Some k"
  shows "\<exists>w. atomic_op call (thread_world env ss ov) = (Code (-4), w) \<and> ew_slots w = ss \<and> ew_overrides w = ov"
  by (rule init_claims [OF assms(1), of ss ov]) (use assms in \<open>simp add: claim_slot_def setInitError_def\<close>)

lemma effect_rejected:
  assumes "check_config env config = Some msg"
  shows "\<exists>w. atomic_op (EngineInitConfig config) (thread_world env ss ov) = (Code (-3), w) \<and> ew_slots w = ss \<and> ew_overrides w = ov"
  using config_rejected [of "thread_world env ss ov" config msg] assms by simp

lemma effect_no_engine:
  assumes "case slot_of h of None \<Rightarrow> True | Some i \<Rightarrow> ss ! i = None"
  shows "\<exists>w. atomic_op (EngineDestroy h) (thread_world env ss ov) = (Code 0, w) \<and> ew_slots w = ss \<and> ew_overrides w = ov"
    "\<exists>w. atomic_op (EngineOp h f) (thread_world env ss ov) = (Code (-1), w) \<and> ew_slots w = ss \<and> ew_overrides w = ov"
  using assms by (auto simp: getEngine_slot_of engine_destroy_def split: option.splits)

lemma effect_destroy:
  assumes "slot_of h = Some i" "ss ! i = Some e"
  shows "\<exists>w. atomic_op (EngineDestroy h) (thread_world env ss ov) = (Code 0, w) \<and> ew_slots w = ss[i := None]
    \<and> ew_overrides w = (ov \<and> list_ex (\<lambda>s. s \<noteq> None) (ss[i := None]))"
  using assms slot_ofD [OF assms(1)] by (auto simp: getEngine_slot_of engine_destroy_def Let_def)

lemma effect_op:
  assumes "slot_of h = Some i" "ss ! i = Some e" "f e = (rc, e')"
  shows "\<exists>w. atomic_op (EngineOp h f) (thread_world env ss ov) = (Code rc, w) \<and> ew_slots w = ss[i := Some e'] \<and> ew_overrides w = ov"
  using assms slot_ofD [OF assms(1)] by (auto simp: getEngine_slot_of put_engine_def)

section \<open>The simulation\<close>

text \<open>The steps of the atomic object, in the form in which the simulation meets them.\<close>

definition moves :: "'r engine_env \<Rightarrow> nat \<Rightarrow> 'r atomic \<Rightarrow> 'r engine option list \<Rightarrow> 'r client \<Rightarrow> bool" where
  "moves env t a ss cl \<longleftrightarrow> (ss = at_slots a \<and> cl = at_clients a ! t) \<or> atomic_step env a (put_client t cl (a\<lparr>at_slots := ss\<rparr>))"

lemma moves_invoke:
  assumes "t < length (at_clients a)" "cl_status (at_clients a ! t) = Idle" "cl_todo (at_clients a ! t) \<noteq> []"
    and "ss = at_slots a" "cl = (at_clients a ! t)\<lparr>cl_status := Pending\<rparr>"
  shows "moves env t a ss cl"
  using atomic_step.invoke [OF assms(1) refl assms(2,3)] assms(4,5) by (simp add: moves_def)

lemma moves_effect:
  assumes "\<exists>w. atomic_op call (thread_world env (at_slots a) (cl_overrides (at_clients a ! t))) = (r, w) \<and> ew_slots w = ss \<and> ew_overrides w = ov"
    and "t < length (at_clients a)" "cl_status (at_clients a ! t) = Pending" "cl_todo (at_clients a ! t) = call # rest"
    and "cl = (at_clients a ! t)\<lparr>cl_status := Done r, cl_overrides := ov\<rparr>"
  shows "moves env t a ss cl"
  using assms(1) atomic_step.take_effect [OF assms(2) refl assms(3,4)] assms(5) by (auto simp: moves_def)

lemma moves_text:
  assumes "t < length (at_clients a)" "cl_status (at_clients a ! t) = Pending" "cl_todo (at_clients a ! t) = InitErrorText n # rest"
    and "ss = at_slots a" "cl = (at_clients a ! t)\<lparr>cl_status := Done (Text l b)\<rparr>"
  shows "moves env t a ss cl"
  using atomic_step.read_text [OF assms(1) refl assms(2,3)] assms(4,5) by (simp add: moves_def)

lemma moves_return:
  assumes "t < length (at_clients a)" "cl_status (at_clients a ! t) = Done r" "cl_todo (at_clients a ! t) = call # rest"
    and "ss = at_slots a" "cl = (at_clients a ! t)\<lparr>cl_status := Idle, cl_todo := rest, cl_results := cl_results (at_clients a ! t) @ [r]\<rparr>"
  shows "moves env t a ss cl"
  using atomic_step.return [OF assms(1) refl assms(2,3)] assms(4,5) by (simp add: moves_def)

lemma moves_stay: "ss = at_slots a \<Longrightarrow> cl = at_clients a ! t \<Longrightarrow> moves env t a ss cl"
  by (simp add: moves_def)

text \<open>What the step of a thread changes in the view of the others: nothing.\<close>

lemma view_slots_changed:
  assumes "run_pc t call (pc_at c t) c = Some c'" "t < length (ps_threads c)" "\<not> inside (pc_at c t)" "pc_ok c call (pc_at c t)"
  shows "view_slot (ps_slots c' ! i) = None \<longleftrightarrow> view_slot (ps_slots c ! i) = None"
  using run_pc_slots [OF assms(1) _ assms(2), of i] assms(3,4)
  by (cases "ps_slots c' ! i = ps_slots c ! i") (auto simp: view_slot_def usable_def)

lemma any_live_nth: "any_live ss \<longleftrightarrow> (\<exists>i < length ss. view_slot (ss ! i) \<noteq> None)"
  unfolding any_live_def list_ex_iff by (metis in_set_conv_nth)

lemma view_other:
  assumes "lock_ok c" "run_pc t call (pc_at c t) c = Some c'" "t < length (ps_threads c)" "pc_ok c call (pc_at c t)"
    and "t' < length (ps_threads c)" "t' \<noteq> t"
  shows "view_thread (ps_slots c') (ps_threads c' ! t') = view_thread (ps_slots c) (ps_threads c ! t')"
proof -
  have same: "ps_threads c' ! t' = ps_threads c ! t'" by (rule run_pc_frame(4) [OF assms(2,6)])
  show ?thesis
  proof (cases "inside (pc_at c t')")
    case True
    then have "\<not> inside (pc_at c t)" using assms(1,3,5,6) unfolding lock_ok_def by blast
    then have "any_live (ps_slots c') = any_live (ps_slots c)"
      using view_slots_changed [OF assms(2,3) _ assms(4)] by (simp add: any_live_nth run_pc_frame(2) [OF assms(2)])
    then show ?thesis by (simp add: view_thread_def view_overrides_def same split: pc.split)
  next
    case False
    then show ?thesis by (cases "th_pc (ps_threads c ! t')") (auto simp: view_thread_def view_overrides_def same pc_at_def)
  qed
qed

lemma view_step:
  assumes "lock_ok c" "run_pc t call (pc_at c t) c = Some c'" "t < length (ps_threads c)" "pc_ok c call (pc_at c t)"
  shows "view_process c' = put_client t (view_thread (ps_slots c') (ps_threads c' ! t)) ((view_process c)\<lparr>at_slots := map view_slot (ps_slots c')\<rparr>)"
proof -
  have "map (view_thread (ps_slots c')) (ps_threads c')
      = (map (view_thread (ps_slots c)) (ps_threads c))[t := view_thread (ps_slots c') (ps_threads c' ! t)]"
    using view_other [OF assms] by (intro nth_equalityI) (auto simp: run_pc_frame(1) [OF assms(2)] nth_update_if)
  then show ?thesis by (simp add: view_process_def put_client_def)
qed

lemma view_slots_same: "(\<And>i. view_slot (ps_slots c' ! i) = view_slot (ps_slots c ! i)) \<Longrightarrow> length (ps_slots c') = length (ps_slots c) \<Longrightarrow>
    map view_slot (ps_slots c') = map view_slot (ps_slots c)"
  by (intro nth_equalityI) auto

lemma free_slot_view:
  assumes "length (ps_slots c) = MaxEngines" "all_taken c k" "k \<le> MaxEngines" "\<And>i. i < MaxEngines \<Longrightarrow> \<not> half_destroyed c i"
  shows "k < MaxEngines \<Longrightarrow> \<not> es_active (ps_slots c ! k) \<Longrightarrow> free_slot (map view_slot (ps_slots c)) = Some k"
    "k = MaxEngines \<Longrightarrow> free_slot (map view_slot (ps_slots c)) = None"
proof -
  have taken: "view_slot (ps_slots c ! j) \<noteq> None" if "j < k" for j
    using assms(2,3) assms(4) [of j] that by (auto simp: view_slot_def all_taken_def half_destroyed_def)
  show "k < MaxEngines \<Longrightarrow> \<not> es_active (ps_slots c ! k) \<Longrightarrow> free_slot (map view_slot (ps_slots c)) = Some k"
    using taken assms(1) by (auto simp: free_slot_eq view_slot_def [of "ps_slots c ! k"])
  show "k = MaxEngines \<Longrightarrow> free_slot (map view_slot (ps_slots c)) = None"
    using taken assms(1) unfolding free_slot_None in_set_conv_nth by (metis length_map nth_map)
qed

text \<open>A step of thread \<open>t\<close>, which is at \<open>pc\<close> of its call, and what the atomic object sees of it.\<close>

definition at_step :: "'r process \<Rightarrow> nat \<Rightarrow> 'r call \<Rightarrow> 'r pc \<Rightarrow> 'r process \<Rightarrow> bool" where
  "at_step c t call pc c' \<longleftrightarrow> run_pc t call pc c = Some c' \<and> t < length (ps_threads c) \<and> th_pc (ps_threads c ! t) = pc \<and> pc_ok c call pc
     \<and> (\<exists>rest. th_todo (ps_threads c ! t) = call # rest) \<and> length (ps_slots c) = MaxEngines
     \<and> (\<forall>i < MaxEngines. inside pc \<longrightarrow> half_destroyed c i \<longrightarrow> pc = ClearFlag i)"

definition seen :: "nat \<Rightarrow> 'r process \<Rightarrow> 'r process \<Rightarrow> bool" where
  "seen t c c' \<longleftrightarrow> moves (ps_env c) t (view_process c) (map view_slot (ps_slots c')) (view_thread (ps_slots c') (ps_threads c' ! t))"

lemma view_client:
  "t < length (ps_threads c) \<Longrightarrow> at_clients (view_process c) ! t = view_thread (ps_slots c) (ps_threads c ! t)"
  "at_slots (view_process c) = map view_slot (ps_slots c)" "length (at_clients (view_process c)) = length (ps_threads c)"
  by (simp_all add: view_process_def)

lemmas view_defs = view_thread_def view_overrides_def

lemma seen_stay:
  assumes "t < length (ps_threads c)" "map view_slot (ps_slots c') = map view_slot (ps_slots c)"
    and "view_thread (ps_slots c') (ps_threads c' ! t) = view_thread (ps_slots c) (ps_threads c ! t)"
  shows "seen t c c'"
  using assms by (simp add: seen_def moves_stay view_client)

lemma seen_effect:
  assumes "\<exists>w. atomic_op call (thread_world (ps_env c) (map view_slot (ps_slots c)) (th_overrides (ps_threads c ! t))) = (r, w)
      \<and> ew_slots w = map view_slot (ps_slots c') \<and> ew_overrides w = ov"
    and "at_step c t call pc c'" "status_of pc = Pending" "th_todo (ps_threads c' ! t) = th_todo (ps_threads c ! t)"
    and "th_results (ps_threads c' ! t) = th_results (ps_threads c ! t)" "status_of (th_pc (ps_threads c' ! t)) = Done r"
    and "view_overrides (ps_slots c') (ps_threads c' ! t) = ov"
  shows "seen t c c'"
proof -
  obtain rest where rest: "th_todo (ps_threads c ! t) = call # rest" using assms(2) by (auto simp: at_step_def)
  show ?thesis
    unfolding seen_def
  proof (rule moves_effect [where rest = rest])
    show "\<exists>w. atomic_op call (thread_world (ps_env c) (at_slots (view_process c)) (cl_overrides (at_clients (view_process c) ! t))) = (r, w)
        \<and> ew_slots w = map view_slot (ps_slots c') \<and> ew_overrides w = ov"
      using assms(1-3) by (cases pc) (simp_all add: view_client view_defs at_step_def)
  qed (use assms(2-7) rest in \<open>simp_all add: view_client view_thread_def at_step_def\<close>)
qed

lemma at_stepD:
  assumes "at_step c t call pc c'"
  shows "run_pc t call pc c = Some c'" "t < length (ps_threads c)" "th_pc (ps_threads c ! t) = pc" "pc_ok c call pc"
    "length (ps_slots c) = MaxEngines" "inside pc \<Longrightarrow> i < MaxEngines \<Longrightarrow> half_destroyed c i \<Longrightarrow> pc = ClearFlag i"
    "length (ps_slots c') = length (ps_slots c)"
  using assms run_pc_frame(2) [of t call pc c c'] by (auto simp: at_step_def)

lemma seen_begin:
  assumes "at_step c t call Begun c'"
  shows "seen t c c'"
proof (cases call)
  case (InitErrorText n)
  obtain rest where "th_todo (ps_threads c ! t) = call # rest" using assms by (auto simp: at_step_def)
  then show ?thesis
    unfolding seen_def using at_stepD(1-3) [OF assms] InitErrorText
    by (intro moves_text [where n = n and rest = rest]) (auto simp: view_client view_defs step_defs)
next
  case (EngineDestroy h)
  show ?thesis
  proof (cases "slot_of h")
    case None
    then show ?thesis
      using at_stepD(1-3) [OF assms] EngineDestroy effect_no_engine(1) [where h = h and ss = "map view_slot (ps_slots c)"]
      by (intro seen_effect [OF _ assms]) (auto simp: view_defs step_defs)
  qed (use at_stepD(1-3) [OF assms] EngineDestroy in \<open>auto intro!: seen_stay simp: view_defs step_defs\<close>)
next
  case (EngineOp h f)
  show ?thesis
  proof (cases "slot_of h")
    case None
    then show ?thesis
      using at_stepD(1-3) [OF assms] EngineOp effect_no_engine(2) [where h = h and ss = "map view_slot (ps_slots c)"]
      by (intro seen_effect [OF _ assms]) (auto simp: view_defs step_defs)
  qed (use at_stepD(1-3) [OF assms] EngineOp in \<open>auto intro!: seen_stay simp: view_defs step_defs\<close>)
qed (use at_stepD(1-3) [OF assms] in \<open>auto intro!: seen_stay simp: view_defs step_defs\<close>)

lemma seen_validate:
  assumes "at_step c t call Validate c'"
  shows "seen t c c'"
proof -
  obtain config where c: "call = EngineInitConfig config" using at_stepD(4) [OF assms] by auto
  show ?thesis
  proof (cases "check_config (ps_env c) config")
    case None
    then show ?thesis using at_stepD(1-3) [OF assms] c by (intro seen_stay) (auto simp: view_defs step_defs)
  next
    case (Some msg)
    then show ?thesis
      using at_stepD(1-3) [OF assms] c effect_rejected [OF Some, of "map view_slot (ps_slots c)"]
      by (intro seen_effect [OF _ assms]) (auto simp: view_defs step_defs)
  qed
qed

lemma seen_lock:
  assumes "at_step c t call pc c'" "c' = lockEngineSlots t q c" "q = ScanFree 0 \<or> q = TestDestroy i \<or> q = TestGet i" "status_of pc = Pending"
  shows "seen t c c'"
proof (cases "ps_lock c")
  case False
  then show ?thesis using at_stepD(2,3) [OF assms(1)] assms(2-4) by (intro seen_stay; cases pc) (auto simp: view_defs step_defs)
qed (use assms(1,2) in \<open>auto intro: seen_stay simp: lockEngineSlots_def at_step_def\<close>)

lemma seen_scan_free:
  assumes "at_step c t call (ScanFree k) c'"
  shows "seen t c c'"
proof -
  note run = at_stepD(1-3) [OF assms]
  have k: "checked_init (ps_env c) call" "k \<le> MaxEngines" "all_taken c k" using at_stepD(4) [OF assms] by auto
  note free = free_slot_view [OF at_stepD(5) [OF assms] k(3,2)]
  have clean: "\<not> half_destroyed c i" if "i < MaxEngines" for i using at_stepD(6) [OF assms _ that] by auto
  have "view_slot (ps_slots c' ! i) = view_slot (ps_slots c ! i)" for i
    using run(1) by (auto simp: step_defs view_slot_def nth_update_if split: if_splits option.splits)
  then have ss: "map view_slot (ps_slots c') = map view_slot (ps_slots c)" by (rule view_slots_same) (rule at_stepD(7) [OF assms])
  show ?thesis
  proof (cases "k < MaxEngines \<and> (es_active (ps_slots c ! k) \<or> built (ps_env c) call \<noteq> None)")
    case True
    then show ?thesis using run by (intro seen_stay) (auto simp: view_defs ss step_defs split: if_splits)
  next
    case False
    have "\<exists>w. atomic_op call (thread_world (ps_env c) (map view_slot (ps_slots c)) ov) = (Code (if k < MaxEngines then -4 else 0), w)
        \<and> ew_slots w = map view_slot (ps_slots c') \<and> ew_overrides w = ov" for ov
      unfolding ss using effect_full [OF k(1) free(2)] effect_failed [OF k(1) _ free(1)] clean False k(2) by (cases "k < MaxEngines") auto
    moreover have "ps_threads c' ! t = (ps_threads c ! t)\<lparr>th_pc := Leave (Code (if k < MaxEngines then -4 else 0))\<rparr>"
      using run False by (auto simp: step_defs)
    ultimately show ?thesis by (intro seen_effect [OF _ assms]) (auto simp: view_defs)
  qed
qed

lemma seen_publish:
  assumes "at_step c t call (Publish k) c'"
  shows "seen t c c'"
proof -
  have k: "checked_init (ps_env c) call" "k < MaxEngines" "all_taken c k" "\<not> es_active (ps_slots c ! k)"
    "es_engine (ps_slots c ! k) = built (ps_env c) call" "built (ps_env c) call \<noteq> None" using at_stepD(4) [OF assms] by auto
  then obtain e where e: "built (ps_env c) call = Some e" by auto
  have free: "free_slot (map view_slot (ps_slots c)) = Some k"
    by (rule free_slot_view(1) [OF at_stepD(5) [OF assms] k(3)]) (use k at_stepD(6) [OF assms] in auto)
  have "map view_slot (ps_slots c') = (map view_slot (ps_slots c))[k := Some e]"
    using at_stepD(1,5) [OF assms] k e by (auto simp: step_defs map_update view_slot_def)
  then show ?thesis
    using effect_publish [OF k(1) e free, of "th_overrides (ps_threads c ! t)"]
    by (intro seen_effect [OF _ assms, where r = "Code (int k + 1)" and ov = True])
      (use at_stepD(1-3) [OF assms] in \<open>auto simp: view_defs step_defs\<close>)
qed

lemma seen_test_destroy:
  assumes "at_step c t call (TestDestroy i) c'"
  shows "seen t c c'"
proof -
  note run = at_stepD(1-3) [OF assms]
  obtain h where c: "call = EngineDestroy h" "slot_of h = Some i" using at_stepD(4) [OF assms] by (cases call) auto
  have i: "i < length (ps_slots c)" using slot_ofD [OF c(2)] at_stepD(5) [OF assms] by simp
  show ?thesis
  proof (cases "view_slot (ps_slots c ! i)")
    case None
    then have "\<not> es_active (ps_slots c ! i)"
      using at_stepD(6) [OF assms, of i] i at_stepD(5) [OF assms] by (auto simp: view_slot_def half_destroyed_def)
    then show ?thesis
      using run c i None effect_no_engine(1) [where h = h and ss = "map view_slot (ps_slots c)"]
      by (intro seen_effect [OF _ assms]) (auto simp: view_defs step_defs)
  next
    case (Some e)
    then have act: "es_active (ps_slots c ! i)" by (auto simp: view_slot_def split: if_splits)
    have ss: "map view_slot (ps_slots c') = (map view_slot (ps_slots c))[i := None]"
      using run act by (auto simp: step_defs map_update view_slot_def)
    have live: "list_ex (\<lambda>s. s \<noteq> None) ((map view_slot (ps_slots c))[i := None]) = any_live (ps_slots c')"
      by (simp add: any_live_def list_ex_iff flip: ss)
    have "ps_threads c' ! t = (ps_threads c ! t)\<lparr>th_pc := ClearFlag i\<rparr>" using run act by (auto simp: step_defs)
    then show ?thesis
      using i Some effect_destroy [OF c(2), of "map view_slot (ps_slots c)" e "ps_env c" "th_overrides (ps_threads c ! t)"] unfolding c(1) live
      by (intro seen_effect [OF _ assms [unfolded c(1)]]) (auto simp: view_defs ss)
  qed
qed

lemma any_live_view: "map view_slot ss' = map view_slot ss \<Longrightarrow> any_live ss' = any_live ss"
  by (metis any_live_nth length_map nth_map)

lemma seen_clear_flag:
  assumes "at_step c t call (ClearFlag i) c'"
  shows "seen t c c'"
proof -
  have "view_slot (ps_slots c' ! j) = view_slot (ps_slots c ! j)" for j
    using at_stepD(1,4) [OF assms] by (cases "i = j") (auto simp: step_defs view_slot_def nth_update_if)
  then have ss: "map view_slot (ps_slots c') = map view_slot (ps_slots c)" by (rule view_slots_same) (rule at_stepD(7) [OF assms])
  have "ps_threads c' ! t = (ps_threads c ! t)\<lparr>th_pc := ScanLive 0\<rparr>" using at_stepD(1-3) [OF assms] by (auto simp: step_defs)
  then show ?thesis using at_stepD(1-3) [OF assms] ss any_live_view [OF ss] by (intro seen_stay) (simp_all add: view_defs)
qed

lemma seen_scan_live:
  assumes "at_step c t call (ScanLive k) c'"
  shows "seen t c c'"
proof -
  note run = at_stepD(1-3) [OF assms]
  have k: "k \<le> MaxEngines" "\<And>j. j < k \<Longrightarrow> \<not> es_active (ps_slots c ! j)" using at_stepD(4) [OF assms] by auto
  have ss: "ps_slots c' = ps_slots c" using run(1) by (auto simp: step_defs)
  have none: "\<not> any_live (ps_slots c)" if "k = MaxEngines"
    using k(2) that at_stepD(5) [OF assms] by (auto simp: any_live_nth view_slot_def)
  have some: "any_live (ps_slots c)" if "k < MaxEngines" "es_active (ps_slots c ! k)"
    using that at_stepD(5) [OF assms] at_stepD(6) [OF assms, of k]
    unfolding any_live_nth by (intro exI [of _ k]) (auto simp: view_slot_def half_destroyed_def)
  consider "k = MaxEngines" | "k < MaxEngines" "es_active (ps_slots c ! k)" | "k < MaxEngines" "\<not> es_active (ps_slots c ! k)" using k(1) by linarith
  then show ?thesis
  proof cases
    case 1
    then show ?thesis using run none by (intro seen_stay) (auto simp: view_defs step_defs)
  next
    case 2
    then show ?thesis using run some by (intro seen_stay) (auto simp: view_defs step_defs)
  next
    case 3
    then show ?thesis using run by (intro seen_stay) (auto simp: view_defs step_defs)
  qed
qed

lemma seen_test_get:
  assumes "at_step c t call (TestGet i) c'"
  shows "seen t c c'"
proof -
  note run = at_stepD(1-3) [OF assms]
  obtain h f where c: "call = EngineOp h f" "slot_of h = Some i" using at_stepD(4) [OF assms] by (cases call) auto
  show ?thesis
  proof (cases "es_active (ps_slots c ! i)")
    case True
    then show ?thesis using run by (intro seen_stay) (auto simp: view_defs step_defs)
  next
    case False
    then show ?thesis
      using run c slot_ofD [OF c(2)] at_stepD(5) [OF assms] effect_no_engine(2) [where h = h and f = f and ss = "map view_slot (ps_slots c)"]
      by (intro seen_effect [OF _ assms]) (auto simp: view_defs step_defs view_slot_def)
  qed
qed

lemma seen_write_engine:
  assumes "at_step c t call (WriteEngine i e) c'"
  shows "seen t c c'"
proof -
  note run = at_stepD(1-3) [OF assms]
  obtain h f where c: "call = EngineOp h f" "slot_of h = Some i" using at_stepD(4) [OF assms] by (cases call) auto
  obtain rc e' where f: "f e = (rc, e')" by fastforce
  have i: "i < length (ps_slots c)" using slot_ofD [OF c(2)] at_stepD(5) [OF assms] by simp
  have e: "es_active (ps_slots c ! i)" "es_engine (ps_slots c ! i) = Some e" using at_stepD(4) [OF assms] by (auto simp: usable_def)
  have ss: "map view_slot (ps_slots c') = (map view_slot (ps_slots c))[i := Some e']"
    using run c f e by (auto simp: step_defs map_update view_slot_def)
  have "ps_threads c' ! t = (ps_threads c ! t)\<lparr>th_pc := Finished (Code rc)\<rparr>" using run c f by (auto simp: step_defs)
  then show ?thesis
    using i e effect_op [where f = f, OF c(2) _ f, of "map view_slot (ps_slots c)" "ps_env c" "th_overrides (ps_threads c ! t)"] unfolding c(1)
    by (intro seen_effect [OF _ assms [unfolded c(1)]]) (auto simp: view_defs view_slot_def ss)
qed

lemma seen_step:
  assumes "at_step c t call pc c'"
  shows "seen t c c'"
proof (cases pc)
  case Ready
  then show ?thesis
    unfolding seen_def using at_stepD(1-3) [OF assms] assms
    by (intro moves_invoke) (auto simp: view_client view_defs step_defs at_step_def)
next
  case (Finished r)
  obtain rest where "th_todo (ps_threads c ! t) = call # rest" using assms by (auto simp: at_step_def)
  then show ?thesis
    unfolding seen_def using at_stepD(1-3) [OF assms] Finished
    by (intro moves_return [where call = call and rest = rest and r = r]) (auto simp: view_client view_defs step_defs)
next
  case AwaitInit
  then show ?thesis using at_stepD(1) [OF assms] by (intro seen_lock [OF assms, of "ScanFree 0" 0]) auto
next
  case (AwaitDestroy i)
  then show ?thesis using at_stepD(1) [OF assms] by (intro seen_lock [OF assms, of "TestDestroy i" i]) auto
next
  case (AwaitGet i)
  then show ?thesis using at_stepD(1) [OF assms] by (intro seen_lock [OF assms, of "TestGet i" i]) auto
next
  case (ReadEngine i)
  then show ?thesis
    using at_stepD(1-4) [OF assms] by (intro seen_stay) (auto simp: view_defs step_defs usable_def split: option.splits)
next
  case Fault
  then show ?thesis using at_stepD(4) [OF assms] by simp
qed (use assms at_stepD(1-3) [OF assms] in \<open>auto intro: seen_begin seen_validate seen_scan_free seen_publish seen_test_destroy seen_clear_flag
    seen_scan_live seen_test_get seen_write_engine seen_stay simp: view_defs step_defs\<close>)

theorem process_step_simulated:
  assumes "process_ok c" "process_step True c c'"
  shows "view_process c' = view_process c \<or> atomic_step (ps_env c) (view_process c) (view_process c')"
proof -
  obtain t where step: "thread_step True t c = Some c'" using assms(2) by (auto elim: process_stepE)
  then obtain call rest where t: "t < length (ps_threads c)" "th_todo (ps_threads c ! t) = call # rest"
    and run: "run_pc t call (pc_at c t) c = Some c'" by (auto elim: thread_stepD)
  have ok: "lock_ok c" "pc_ok c call (pc_at c t)" "length (ps_slots c) = MaxEngines"
    using assms(1) t by (auto simp: process_ok_def thread_ok_def pc_at_def)
  have "pc_at c t = ClearFlag i" if half: "inside (pc_at c t)" "half_destroyed c i" "i < MaxEngines" for i
  proof -
    obtain t' where t': "t' < length (ps_threads c)" "pc_at c t' = ClearFlag i" using assms(1) half(2,3) unfolding process_ok_def by blast
    then have "t' = t" using ok(1) half(1) t(1) by (auto simp: lock_ok_def)
    then show ?thesis using t' by simp
  qed
  then have "at_step c t call (pc_at c t) c'" using t run ok(2,3) by (auto simp: at_step_def pc_at_def)
  from seen_step [OF this] show ?thesis
    unfolding seen_def moves_def view_step [OF ok(1) run t(1) ok(2)]
    by (auto simp: put_client_def view_process_def t simp flip: map_update)
qed

lemma process_steps_simulated:
  assumes "(process_step True)\<^sup>*\<^sup>* c c'" "process_ok c"
  shows "(atomic_step (ps_env c))\<^sup>*\<^sup>* (view_process c) (view_process c') \<and> process_ok c' \<and> ps_env c' = ps_env c"
  using assms
proof (induction rule: rtranclp_induct)
  case (step c1 c2)
  obtain t where t: "thread_step True t c1 = Some c2" using step.hyps(2) by (auto elim: process_stepE)
  then have "ps_env c2 = ps_env c1" by (auto elim!: thread_stepD simp: run_pc_frame)
  then show ?case
    using step process_step_simulated [OF _ step.hyps(2)] process_ok_step [OF _ t] by (auto intro: rtranclp.rtrancl_into_rtrancl)
qed simp

end
