(* ===== verification/SlotLockClaims.thy ===== *)
theory SlotLockClaims
  imports SlotLockSim
begin

text \<open>
  What the threads on the slot table are promised: one at a time in the table, a lock that is always given back, calls that are those of
  \<open>EngineAbi\<close> one after the other, handles that are given out once; and the error text of a failed initialisation, which is not guarded.
\<close>

section \<open>Mutual exclusion and progress\<close>

lemma filter_upt_eq: "t1 < n \<Longrightarrow> filter (\<lambda>t. t = t1) [0..<n] = [t1]"
  by (induction n) (auto simp: less_Suc_eq filter_empty_conv)

text \<open>At most one thread is between the exchange that takes the lock and the store that releases it, and the lock is taken exactly then.\<close>

theorem slots_mutual_exclusion:
  assumes "(process_step disc)\<^sup>*\<^sup>* (start_process env ps) c" "t1 < length (ps_threads c)" "inside (pc_at c t1)"
  shows "ps_lock c \<and> filter (\<lambda>t. inside (pc_at c t)) [0..<length (ps_threads c)] = [t1]"
proof -
  have ok: "lock_ok c" by (rule lock_ok_reachable [OF assms(1)])
  have "filter (\<lambda>t. inside (pc_at c t)) [0..<length (ps_threads c)] = filter (\<lambda>t. t = t1) [0..<length (ps_threads c)]"
    by (rule filter_cong) (use ok assms(2,3) in \<open>auto simp: lock_ok_def\<close>)
  also have "\<dots> = [t1]"
    by (rule filter_upt_eq [OF assms(2)])
  finally show ?thesis using ok assms(2,3) by (simp add: lock_ok_def)
qed

text \<open>How many steps the holder of the lock has still to make.\<close>

fun steps_left :: "'r pc \<Rightarrow> nat" where
  "steps_left (ScanFree k) = (MaxEngines - k) + 3"
| "steps_left (Publish k) = 2"
| "steps_left (TestDestroy i) = MaxEngines + 4"
| "steps_left (ClearFlag i) = MaxEngines + 3"
| "steps_left (ScanLive k) = (MaxEngines - k) + 2"
| "steps_left (TestGet i) = 2"
| "steps_left (LeaveGet i) = 1"
| "steps_left (Leave r) = 1"
| "steps_left pc = 0"

lemma inside_steps:
  assumes "inside (pc_at c t)" "t < length (ps_threads c)" "th_todo (ps_threads c ! t) = call # rest"
  shows "\<exists>c'. thread_step disc t c = Some c' \<and> (\<not> ps_lock c' \<or> (inside (pc_at c' t) \<and> steps_left (pc_at c' t) < steps_left (pc_at c t)
    \<and> t < length (ps_threads c') \<and> th_todo (ps_threads c' ! t) = call # rest))"
  using assms
  by (cases "pc_at c t") (auto simp: thread_step_def pc_at_def step_defs split: option.split)

lemma lock_given_back:
  assumes "inside (pc_at c t)" "t < length (ps_threads c)" "th_todo (ps_threads c ! t) = call # rest"
  shows "\<exists>n c'. n \<le> steps_left (pc_at c t) \<and> schedule disc (replicate n t) c = Some c' \<and> \<not> ps_lock c'"
  using assms
proof (induction "steps_left (pc_at c t)" arbitrary: c rule: less_induct)
  case less
  obtain c1 where c1: "thread_step disc t c = Some c1" and or: "\<not> ps_lock c1 \<or> (inside (pc_at c1 t) \<and> steps_left (pc_at c1 t) < steps_left (pc_at c t)
    \<and> t < length (ps_threads c1) \<and> th_todo (ps_threads c1 ! t) = call # rest)"
    using inside_steps [OF less.prems, of disc] by blast
  have pos: "0 < steps_left (pc_at c t)" using less.prems(1) by (cases "pc_at c t") auto
  from or show ?case
  proof
    assume "\<not> ps_lock c1"
    then show ?thesis using c1 pos by (intro exI [of _ 1] exI [of _ c1]) auto
  next
    assume in1: "inside (pc_at c1 t) \<and> steps_left (pc_at c1 t) < steps_left (pc_at c t)
      \<and> t < length (ps_threads c1) \<and> th_todo (ps_threads c1 ! t) = call # rest"
    obtain n c' where "n \<le> steps_left (pc_at c1 t)" "schedule disc (replicate n t) c1 = Some c'" "\<not> ps_lock c'"
      using less.hyps [of c1] in1 by blast
    then show ?thesis using c1 in1 by (intro exI [of _ "Suc n"] exI [of _ c']) auto
  qed
qed

text \<open>
  C27. No call keeps the lock: whenever it is taken, one thread can release it by at most 68 steps of its own, whatever the other threads wait for.
\<close>

theorem slots_lock_released:
  assumes "(process_step disc)\<^sup>*\<^sup>* (start_process env ps) c" "ps_lock c"
  shows "\<exists>t n c'. t < length (ps_threads c) \<and> n \<le> MaxEngines + 4 \<and> schedule disc (replicate n t) c = Some c' \<and> \<not> ps_lock c'"
proof -
  have ok: "lock_ok c" by (rule lock_ok_reachable [OF assms(1)])
  obtain t where t: "t < length (ps_threads c)" "inside (pc_at c t)" using ok assms(2) by (auto simp: lock_ok_def)
  then have "th_todo (ps_threads c ! t) \<noteq> []" using ok by (force simp: lock_ok_def)
  then obtain call rest where "th_todo (ps_threads c ! t) = call # rest" by (auto simp: neq_Nil_conv)
  from lock_given_back [OF t(2,1) this, of disc] obtain n c' where
    "n \<le> steps_left (pc_at c t)" "schedule disc (replicate n t) c = Some c'" "\<not> ps_lock c'" by blast
  moreover have "steps_left (pc_at c t) \<le> MaxEngines + 4" by (cases "pc_at c t") auto
  ultimately show ?thesis using t(1) by (meson le_trans)
qed

section \<open>The calls are those of the sequential model\<close>

definition start_atomic :: "'r call list list \<Rightarrow> 'r atomic" where
  "start_atomic ps = \<lparr>at_slots = replicate MaxEngines None,
     at_clients = map (\<lambda>p. \<lparr>cl_todo = p, cl_status = Idle, cl_results = [], cl_overrides = False\<rparr>) ps\<rparr>"

lemma view_start: "view_process (start_process env ps) = start_atomic ps"
  by (simp add: view_process_def start_process_def start_atomic_def view_slot_def start_thread_def view_thread_def view_overrides_def)

lemma thread_ok_no_fault: "thread_ok c th \<Longrightarrow> th_pc th \<noteq> Fault"
  by (auto simp: thread_ok_def split: list.splits)

lemma start_env [simp]: "ps_env (start_process env ps) = env"
  by (simp add: start_process_def)

text \<open>
  C11. Every run of threads that do not share a handle is one of the atomic object: the slots and the results are those of some order of whole
  calls of the sequential interface, each between its invocation and its return, and no thread touches an engine that is gone.
\<close>

theorem slots_linearizable:
  assumes "(process_step True)\<^sup>*\<^sup>* (start_process env ps) c"
  shows "(atomic_step env)\<^sup>*\<^sup>* (start_atomic ps) (view_process c) \<and> list_all (\<lambda>th. th_pc th \<noteq> Fault) (ps_threads c)"
proof
  have sim: "(atomic_step env)\<^sup>*\<^sup>* (start_atomic ps) (view_process c)" and ok: "process_ok c"
    using process_steps_simulated [OF assms process_ok_start] by (simp_all add: view_start)
  show "(atomic_step env)\<^sup>*\<^sup>* (start_atomic ps) (view_process c)" by (rule sim)
  show "list_all (\<lambda>th. th_pc th \<noteq> Fault) (ps_threads c)"
    using ok by (auto simp: process_ok_def list_all_length dest: thread_ok_no_fault)
qed

section \<open>Handles are given out once\<close>

text \<open>The calls that initialise engines and read the error text, and the positive codes a client has been given or is about to be given.\<close>

fun only_init :: "'r call \<Rightarrow> bool" where
  "only_init EngineInit = True"
| "only_init (EngineInitConfig config) = True"
| "only_init (InitErrorText n) = True"
| "only_init call = False"

fun handle_codes :: "outcome list \<Rightarrow> int list" where
  "handle_codes [] = []"
| "handle_codes (Code rc # rs) = (if 0 < rc then rc # handle_codes rs else handle_codes rs)"
| "handle_codes (Text l b # rs) = handle_codes rs"

fun due :: "status \<Rightarrow> outcome list" where
  "due (Done r) = [r]"
| "due st = []"

definition client_handles :: "'r client \<Rightarrow> int list" where
  "client_handles cl = handle_codes (cl_results cl @ due (cl_status cl))"

definition given :: "'r atomic \<Rightarrow> int list" where
  "given a = concat (map client_handles (at_clients a))"

definition given_ok :: "'r atomic \<Rightarrow> bool" where
  "given_ok a \<longleftrightarrow> distinct (given a) \<and> (\<forall>h \<in> set (given a). valid h \<and> at_slots a ! nat (h - 1) \<noteq> None)
     \<and> length (at_slots a) = MaxEngines \<and> (\<forall>cl \<in> set (at_clients a). list_all only_init (cl_todo cl))"

lemma handle_codes_append [simp]: "handle_codes (rs @ rs') = handle_codes rs @ handle_codes rs'"
  by (induction rs rule: handle_codes.induct) auto

lemma concat_update:
  assumes "t < length xs"
  obtains as bs where "concat (map f xs) = as @ f (xs ! t) @ bs" "concat (map f (xs[t := y])) = as @ f y @ bs"
proof (rule that [of "concat (map f (take t xs))" "concat (map f (drop (Suc t) xs))"])
  show "concat (map f xs) = concat (map f (take t xs)) @ f (xs ! t) @ concat (map f (drop (Suc t) xs))"
    by (subst id_take_nth_drop [OF assms]) simp
  show "concat (map f (xs[t := y])) = concat (map f (take t xs)) @ f y @ concat (map f (drop (Suc t) xs))"
    by (subst upd_conv_take_nth_drop [OF assms]) simp
qed

lemma claim_effect:
  assumes "claim_slot nm e0 w = (rc, w')" "length (ew_slots w) = MaxEngines"
  shows "if 0 < rc then valid rc \<and> ew_slots w ! nat (rc - 1) = None \<and> (\<exists>e. ew_slots w' = (ew_slots w)[nat (rc - 1) := Some e])
    else ew_slots w' = ew_slots w"
  using assms free_slot_Some [of "ew_slots w"]
  by (auto simp: claim_slot_def setInitError_def valid_def split: option.splits)

lemma init_effect:
  assumes "atomic_op call (thread_world env ss ov) = (r, w)" "only_init call" "length ss = MaxEngines"
  shows "(handle_codes [r] = [] \<and> ew_slots w = ss)
    \<or> (\<exists>h e. handle_codes [r] = [h] \<and> valid h \<and> ss ! nat (h - 1) = None \<and> ew_slots w = ss[nat (h - 1) := Some e])"
proof (cases "checked_init env call")
  case True
  from init_claims [OF this, of ss ov] obtain nm where
    "atomic_op call (thread_world env ss ov)
      = (case claim_slot nm (built env call) ((thread_world env ss ov)\<lparr>ew_init_error := []\<rparr>) of (rc, w) \<Rightarrow> (Code rc, w))" by blast
  then obtain rc where rc: "claim_slot nm (built env call) ((thread_world env ss ov)\<lparr>ew_init_error := []\<rparr>) = (rc, w)" "r = Code rc"
    using assms(1) by (auto split: prod.splits)
  show ?thesis using claim_effect [OF rc(1)] assms(3) rc(2) by (auto split: if_splits)
next
  case False
  show ?thesis
  proof (cases call)
    case (EngineInitConfig config)
    then obtain msg where "check_config env config = Some msg" using False by auto
    then show ?thesis using effect_rejected [of env config msg ss ov] assms(1) EngineInitConfig by auto
  qed (use assms False in \<open>auto split: prod.splits\<close>)
qed

lemma given_put:
  assumes "t < length (at_clients a)" "client_handles cl = client_handles (at_clients a ! t) @ hs"
  obtains as bs where "given a = as @ bs" "given (put_client t cl (a\<lparr>at_slots := ss\<rparr>)) = as @ hs @ bs"
proof -
  obtain xs ys where "given a = xs @ client_handles (at_clients a ! t) @ ys" "concat (map client_handles ((at_clients a)[t := cl])) = xs @ client_handles cl @ ys"
    using concat_update [OF assms(1), of client_handles cl] by (auto simp: given_def)
  then show thesis using that [of "xs @ client_handles (at_clients a ! t)" ys] assms(2) by (simp add: given_def put_client_def)
qed

lemma clients_put:
  "(\<forall>cl \<in> set (at_clients a). P cl) \<Longrightarrow> P cl' \<Longrightarrow> \<forall>cl \<in> set (at_clients (put_client t cl' (a\<lparr>at_slots := ss\<rparr>))). P cl"
  by (auto simp: put_client_def dest: set_update_subset_insert [THEN subsetD])

lemma given_ok_put:
  assumes ok: "given_ok a" and t: "t < length (at_clients a)" and todo: "list_all only_init (cl_todo cl)"
    and hs: "client_handles cl = client_handles (at_clients a ! t) @ hs"
    and "(hs = [] \<and> ss = at_slots a) \<or> (\<exists>h e. hs = [h] \<and> valid h \<and> at_slots a ! nat (h - 1) = None \<and> ss = (at_slots a)[nat (h - 1) := Some e])"
  shows "given_ok (put_client t cl (a\<lparr>at_slots := ss\<rparr>))"
proof -
  obtain as bs where g: "given a = as @ bs" "given (put_client t cl (a\<lparr>at_slots := ss\<rparr>)) = as @ hs @ bs" by (rule given_put [OF t hs])
  have todos: "\<forall>cl \<in> set (at_clients (put_client t cl (a\<lparr>at_slots := ss\<rparr>))). list_all only_init (cl_todo cl)"
    using ok todo by (intro clients_put) (auto simp: given_ok_def)
  have slots: "at_slots (put_client t cl (a\<lparr>at_slots := x\<rparr>)) = x" for x by (simp add: put_client_def)
  from assms(5) show ?thesis
  proof
    assume "hs = [] \<and> ss = at_slots a"
    then show ?thesis using ok todos g slots unfolding given_ok_def by (metis append_Nil)
  next
    assume "\<exists>h e. hs = [h] \<and> valid h \<and> at_slots a ! nat (h - 1) = None \<and> ss = (at_slots a)[nat (h - 1) := Some e]"
    then obtain h e where h: "hs = [h]" "valid h" "at_slots a ! nat (h - 1) = None" "ss = (at_slots a)[nat (h - 1) := Some e]" by blast
    have n: "length (at_slots a) = MaxEngines" using ok by (simp add: given_ok_def)
    have old: "valid h' \<and> at_slots a ! nat (h' - 1) \<noteq> None" if "h' \<in> set as \<union> set bs" for h' using ok that g(1) by (auto simp: given_ok_def)
    then have "h \<notin> set as \<union> set bs" using h(3) by blast
    moreover have "ss ! nat (h' - 1) \<noteq> None" if "h' \<in> set as \<union> set bs" for h' using old [OF that] by (auto simp: h(4) nth_update_if)
    moreover have "ss ! nat (h - 1) = Some e" using h(2) n by (auto simp: h(4) valid_def)
    ultimately show ?thesis
      using ok todos g h(1,2,4) n old by (auto simp: given_ok_def slots)
  qed
qed

lemma given_ok_todo: "given_ok a \<Longrightarrow> t < length (at_clients a) \<Longrightarrow> list_all only_init (cl_todo (at_clients a ! t))"
  by (simp add: given_ok_def)

lemma given_ok_step: "atomic_step env a a' \<Longrightarrow> given_ok a \<Longrightarrow> given_ok a'"
proof (induction rule: atomic_step.induct)
  case (invoke t a cl)
  have "given_ok (put_client t (cl\<lparr>cl_status := Pending\<rparr>) (a\<lparr>at_slots := at_slots a\<rparr>))"
    using invoke given_ok_todo [of a t] by (intro given_ok_put [where hs = "[]"]) (auto simp: client_handles_def)
  then show ?case by simp
next
  case (take_effect t a cl call rest r w)
  have todo: "list_all only_init (cl_todo cl)" using given_ok_todo [of a t] take_effect by simp
  then have "only_init call" using take_effect by simp
  moreover have "length (at_slots a) = MaxEngines" using take_effect by (simp add: given_ok_def)
  ultimately show ?case
    using init_effect [OF take_effect(5)] take_effect todo
    by (intro given_ok_put [where hs = "handle_codes [r]"]) (simp_all add: client_handles_def)
next
  case (read_text t a cl n rest l b)
  have "given_ok (put_client t (cl\<lparr>cl_status := Done (Text l b)\<rparr>) (a\<lparr>at_slots := at_slots a\<rparr>))"
    using read_text given_ok_todo [of a t] by (intro given_ok_put [where hs = "[]"]) (auto simp: client_handles_def)
  then show ?case by simp
next
  case (return t a cl r call rest)
  have "list_all only_init (cl_todo cl)" using given_ok_todo [of a t] return by simp
  then have "given_ok (put_client t (cl\<lparr>cl_status := Idle, cl_todo := rest, cl_results := cl_results cl @ [r]\<rparr>) (a\<lparr>at_slots := at_slots a\<rparr>))"
    using return by (intro given_ok_put [where hs = "[]"]) (auto simp: client_handles_def)
  then show ?case by simp
qed

lemma concat_halves:
  "set (concat (map f xs)) \<subseteq> set (concat (map (\<lambda>x. f x @ g x) xs))"
  "distinct (concat (map (\<lambda>x. f x @ g x) xs)) \<Longrightarrow> distinct (concat (map f xs))"
  by (induction xs) auto

lemma given_ok_start: "\<forall>p \<in> set ps. list_all only_init p \<Longrightarrow> given_ok (start_atomic ps)"
  by (auto simp: given_ok_def start_atomic_def given_def client_handles_def concat_eq_Nil_conv [THEN iffD2] comp_def)

text \<open>
  C26. Threads that create engines, however they are interleaved and with whatever configurations, never get the same handle twice, and every
  handle they hold names a slot that is taken.
\<close>

theorem slots_handles_unique:
  assumes "(process_step True)\<^sup>*\<^sup>* (start_process env ps) c" "\<forall>p \<in> set ps. list_all only_init p"
  shows "distinct (concat (map (\<lambda>th. handle_codes (th_results th)) (ps_threads c)))
    \<and> list_all (\<lambda>h. view_slot (ps_slots c ! nat (h - 1)) \<noteq> None) (concat (map (\<lambda>th. handle_codes (th_results th)) (ps_threads c)))"
proof -
  have "(atomic_step env)\<^sup>*\<^sup>* (start_atomic ps) (view_process c)" and slots: "length (ps_slots c) = MaxEngines"
    using process_steps_simulated [OF assms(1) process_ok_start] by (simp_all add: view_start process_ok_def)
  then have "given_ok (view_process c)"
    by (induction rule: rtranclp_induct) (use given_ok_start [OF assms(2)] given_ok_step in auto)
  moreover have "given (view_process c) = concat (map (\<lambda>th. handle_codes (th_results th) @ handle_codes (due (status_of (th_pc th)))) (ps_threads c))"
    by (simp add: given_def view_process_def client_handles_def view_thread_def comp_def)
  ultimately have all: "distinct (concat (map (\<lambda>th. handle_codes (th_results th) @ handle_codes (due (status_of (th_pc th)))) (ps_threads c)))"
    "\<forall>h \<in> set (concat (map (\<lambda>th. handle_codes (th_results th) @ handle_codes (due (status_of (th_pc th)))) (ps_threads c))).
       valid h \<and> map view_slot (ps_slots c) ! nat (h - 1) \<noteq> None"
    by (simp_all add: given_ok_def view_process_def)
  have "view_slot (ps_slots c ! nat (h - 1)) \<noteq> None" if "h \<in> set (concat (map (\<lambda>th. handle_codes (th_results th)) (ps_threads c)))" for h
    using subsetD [OF concat_halves(1) that] all(2) slots by (fastforce simp: valid_def)
  then show ?thesis using concat_halves(2) [OF all(1)] by (simp add: list_all_iff)
qed

section \<open>Runs\<close>

text \<open>
  Two threads that create an engine: \<open>racing\<close> is the state after six steps, in which the first thread searches for a slot and the second waits for the lock,
  and \<open>raced\<close> the state at the end.
\<close>

definition two_inits :: "unit process" where
  "two_inits = start_process demo_env [[EngineInit], [EngineInit]]"

definition racing :: "unit process" where
  "racing = the (schedule True [0, 0, 0, 1, 1, 1] two_inits)"

definition raced :: "unit process" where
  "raced = the (schedule True [0, 0, 0, 1, 1, 1, 0, 0, 0, 1, 1, 1, 1, 0, 1, 1] two_inits)"

lemmas run_simps = start_process_def start_thread_def thread_step_def may_start_def step_defs

lemma demo_built: "initInPlaceDefault demo_env = Some demo_engine"
  by (simp add: initInPlaceDefault_def demo_env_def demo_vm_def demo_engine_def)

lemma racing_run: "schedule True [0, 0, 0, 1, 1, 1] two_inits = Some racing"
  "length (ps_threads racing) = 2" "pc_at racing 0 = ScanFree 0" "ps_lock racing"
  by (simp_all add: racing_def two_inits_def run_simps pc_at_def)

lemma raced_run: "schedule True [0, 0, 0, 1, 1, 1, 0, 0, 0, 1, 1, 1, 1, 0, 1, 1] two_inits = Some raced"
  "map th_results (ps_threads raced) = [[Code 1], [Code 2]]"
  by (simp_all add: raced_def two_inits_def run_simps demo_built MaxEngines_def)

lemmas racing_steps = schedule_steps [OF racing_run(1), unfolded two_inits_def]
lemmas raced_steps = schedule_steps [OF raced_run(1), unfolded two_inits_def]

theorem slots_mutual_exclusion_witness:
  "ps_lock racing \<and> filter (\<lambda>t. inside (pc_at racing t)) [0..<length (ps_threads racing)] = [0]"
  by (rule slots_mutual_exclusion [OF racing_steps]) (simp_all add: racing_run)

theorem slots_lock_released_witness:
  "\<exists>t n c'. t < length (ps_threads racing) \<and> n \<le> MaxEngines + 4 \<and> schedule True (replicate n t) racing = Some c' \<and> \<not> ps_lock c'"
  by (rule slots_lock_released [OF racing_steps]) (rule racing_run)

theorem slots_linearizable_witness:
  "(atomic_step demo_env)\<^sup>*\<^sup>* (start_atomic [[EngineInit], [EngineInit]]) (view_process racing) \<and> list_all (\<lambda>th. th_pc th \<noteq> Fault) (ps_threads racing)"
  by (rule slots_linearizable [OF racing_steps])

theorem slots_handles_unique_witness:
  "distinct (concat (map (\<lambda>th. handle_codes (th_results th)) (ps_threads raced))) \<and> map th_results (ps_threads raced) = [[Code 1], [Code 2]]"
  by (rule conjI [OF slots_handles_unique [OF raced_steps, THEN conjunct1] raced_run(2)]) simp

text \<open>
  The rule on handles is needed: a thread that has looked an engine up faults when another one destroys it before it goes on.
\<close>

lemma destroy_race_faults:
  "\<exists>c. (process_step False)\<^sup>*\<^sup>* (start_process demo_env [[EngineInit, EngineOp 1 f], [EngineDestroy 1]]) c \<and> pc_at c 0 = Fault"
proof -
  let ?c0 = "start_process demo_env [[EngineInit, EngineOp 1 f], [EngineDestroy 1]]"
  let ?run = "schedule False [0, 0, 0, 0, 0, 0, 0, 0, 0, 0, 0, 0, 1, 1, 1, 1, 0] ?c0"
  have run: "\<exists>c. ?run = Some c \<and> pc_at c 0 = Fault"
    by (simp add: run_simps demo_built MaxEngines_def slot_of_def pc_at_def)
  then show ?thesis using schedule_steps by blast
qed

section \<open>The initialisation error\<close>

text \<open>A thread creates an engine without a configuration and asks for the reason, while another thread creates one.\<close>

definition config_process :: "'r engine_env \<Rightarrow> 'r process" where
  "config_process env = start_process env [[EngineInitConfig None, InitErrorText 512], [EngineInit]]"

definition no_config :: "byte list" where
  "no_config = take MaxErrorLen (bytes_of ''engine_init_with_config: config pointer is null'')"

lemma check_no_config: "check_config env None = Some no_config"
  by (simp add: check_config_def no_config_def)

text \<open>
  The text that explains a rejected configuration is shared by the process and not guarded by the lock: left alone the thread gets it, but when
  the other thread starts its call between the rejection and the question, it gets the empty text.
\<close>

theorem init_error_lost:
  "(\<exists>c. (process_step True)\<^sup>*\<^sup>* (config_process env) c \<and> th_results (ps_threads c ! 0) = [Code (-3), Text 47 no_config])
   \<and> (\<exists>c. (process_step True)\<^sup>*\<^sup>* (config_process env) c \<and> th_results (ps_threads c ! 0) = [Code (-3), Text 0 []])"
proof
  have len: "length no_config = 47" "take 512 no_config = no_config" by (simp_all add: no_config_def MaxErrorLen_def)
  have "\<exists>c. schedule True [0, 0, 0, 0, 0, 0, 0] (config_process env) = Some c \<and> th_results (ps_threads c ! 0) = [Code (-3), Text 47 no_config]"
    by (simp add: config_process_def run_simps check_no_config len)
  then show "\<exists>c. (process_step True)\<^sup>*\<^sup>* (config_process env) c \<and> th_results (ps_threads c ! 0) = [Code (-3), Text 47 no_config]"
    using schedule_steps by blast
  have "\<exists>c. schedule True [1, 0, 0, 0, 1, 0, 0, 0, 0] (config_process env) = Some c \<and> th_results (ps_threads c ! 0) = [Code (-3), Text 0 []]"
    by (simp add: config_process_def run_simps check_no_config)
  then show "\<exists>c. (process_step True)\<^sup>*\<^sup>* (config_process env) c \<and> th_results (ps_threads c ! 0) = [Code (-3), Text 0 []]"
    using schedule_steps by blast
qed

end
