(* ===== verification/EngineViews.thy ===== *)
theory EngineViews
  imports EngineAbiProps HostIo
begin

text \<open>
  Calls of the interface from within callbacks, and from several threads. Which engine the capabilities and the memory of a running script
  belong to is kept in thread-local variables: \<open>g_active_engine\<close> with the callbacks (\<open>src/engine.zig\<close>), the \<open>g_state\<close> pointers that
  \<open>activate\<close> of \<open>src/runtime/runtime.zig\<close> sets, and the overrides of \<open>src/runtime/io.zig\<close>. \<open>pushEngineState\<close> and \<open>popEngineState\<close> bracket
  a call; a callback is what happens between them.
\<close>

section \<open>State\<close>

text \<open>
  \<open>tv_runtime\<close> stands for the pointers to code, globals, heap, stack and tasks, \<open>tv_caps\<close> for those to the mounts and the network and HTTP state; \<open>None\<close> is the
  default state of the process. \<open>tv_frames\<close> is the part of the C stack with the interface's calls: the engine that runs and the one to return to.
\<close>

record thread_vars =
  tv_view :: active_view
  tv_runtime :: "int option"
  tv_caps :: "int option"
  tv_overrides :: bool
  tv_frames :: "(int \<times> int option) list"

record 'r threads =
  tp_world :: "'r world"
  tp_vars :: "thread_vars list"

definition fresh_vars :: thread_vars where
  "fresh_vars = \<lparr>tv_view = no_view, tv_runtime = None, tv_caps = None, tv_overrides = False, tv_frames = []\<rparr>"

definition start_threads :: "'r engine_env \<Rightarrow> nat \<Rightarrow> 'r threads" where
  "start_threads env n = \<lparr>tp_world = boot env, tp_vars = replicate n fresh_vars\<rparr>"

section \<open>Operations\<close>

text \<open>
  \<open>Enter\<close> is the beginning of a call that runs an engine and \<open>Return\<close> its end; the others are whole calls, and may come between the two. \<open>Create\<close> is
  \<open>engine_init\<close> or, with a configuration, \<open>engine_init_with_config\<close>; a creation that fails half-way is left out. \<open>Change\<close> is any other update of an engine.
\<close>

datatype 'r host_op =
    Enter int
  | Return
  | Create "gengo_instance_config_t option"
  | Destroy int
  | SetWrite int bool
  | SetRead int bool
  | AddDialRule int int cslice int
  | Change int "'r engine \<Rightarrow> 'r engine"

text \<open>The library as a thread sees it.\<close>

definition seen_by :: "thread_vars \<Rightarrow> 'r world \<Rightarrow> 'r world" where
  "seen_by v w = w\<lparr>ew_view := tv_view v, ew_overrides := tv_overrides v\<rparr>"

definition create_engine :: "gengo_instance_config_t option \<Rightarrow> 'r world \<Rightarrow> int \<times> 'r world" where
  "create_engine config w = (case config of None \<Rightarrow> engine_init w | Some c \<Rightarrow> engine_init_with_config (Some c) w)"

text \<open>\<open>activate\<close> of the engine's runtime.\<close>

definition activate :: "int \<Rightarrow> thread_vars \<Rightarrow> thread_vars" where
  "activate h v = v\<lparr>tv_runtime := Some h, tv_caps := Some h\<rparr>"

fun vars_op :: "'r host_op \<Rightarrow> thread_vars \<Rightarrow> 'r world \<Rightarrow> (thread_vars \<times> 'r world) option" where
  "vars_op (Enter h) v w =
     (case getEngine h w of
        None \<Rightarrow> Some (v, w)
      | Some e \<Rightarrow> (case pushEngineState h e w of (prev, w) \<Rightarrow>
          Some ((activate h v)\<lparr>tv_view := ew_view w, tv_frames := (h, prev) # tv_frames v\<rparr>, w)))"
| "vars_op Return v w =
     (case tv_frames v of
        [] \<Rightarrow> None
      | (h, prev) # fs \<Rightarrow>
          let w = popEngineState prev w; v = v\<lparr>tv_view := ew_view w, tv_frames := fs\<rparr>
          in Some (case prev of None \<Rightarrow> v\<lparr>tv_caps := None\<rparr> | Some p \<Rightarrow> activate p v, w))"
| "vars_op (Create config) v w =
     (case create_engine config w of (rc, w) \<Rightarrow>
        if 0 < rc then Some ((activate rc v)\<lparr>tv_overrides := ew_overrides w\<rparr>, w) else if rc = -4 then None else Some (v, w))"
| "vars_op (Destroy h) v w = (let w = engine_destroy h w in Some (v\<lparr>tv_overrides := ew_overrides w\<rparr>, w))"
| "vars_op (SetWrite h b) v w = Some (v, engine_set_write_fn h b w)"
| "vars_op (SetRead h b) v w = Some (v, engine_set_read_fn h b w)"
| "vars_op (AddDialRule h action pattern port) v w = Some (v, snd (engine_net_policy_add h action pattern port w))"
| "vars_op (Change h f) v w = Some (v, upd_engine h f w)"

text \<open>
  The rules under which the bracketing is sound: engines are created outside of callbacks, and destroyed when no call on them is in progress.
\<close>

definition in_progress :: "int \<Rightarrow> thread_vars list \<Rightarrow> bool" where
  "in_progress h vs \<longleftrightarrow> list_ex (\<lambda>v. list_ex (\<lambda>f. fst f = h) (tv_frames v)) vs"

fun orderly :: "'r host_op \<Rightarrow> thread_vars \<Rightarrow> thread_vars list \<Rightarrow> bool" where
  "orderly (Create config) v vs = (tv_frames v = [])"
| "orderly (Destroy h) v vs = (\<not> in_progress h vs)"
| "orderly op v vs = True"

definition thread_op :: "bool \<Rightarrow> nat \<Rightarrow> 'r host_op \<Rightarrow> 'r threads \<Rightarrow> 'r threads option" where
  "thread_op strict t op p =
     (if length (tp_vars p) \<le> t then None
      else let v = tp_vars p ! t in
        if strict \<and> \<not> orderly op v (tp_vars p) then None
        else case vars_op op v (seen_by v (tp_world p)) of
          None \<Rightarrow> None
        | Some (v, w) \<Rightarrow> Some \<lparr>tp_world = w, tp_vars = (tp_vars p)[t := v]\<rparr>)"

fun run_ops :: "bool \<Rightarrow> (nat \<times> 'r host_op) list \<Rightarrow> 'r threads \<Rightarrow> 'r threads option" where
  "run_ops strict [] p = Some p"
| "run_ops strict ((t, op) # ops) p = (case thread_op strict t op p of None \<Rightarrow> None | Some p \<Rightarrow> run_ops strict ops p)"

section \<open>What a running script reaches\<close>

text \<open>The rules that \<open>checkDialPolicy\<close> of the network capability reads.\<close>

definition policy_in_force :: "thread_vars \<Rightarrow> 'r world \<Rightarrow> PolicyState" where
  "policy_in_force v w = (case tv_caps v of None \<Rightarrow> [] | Some h \<Rightarrow> (case getEngine h w of None \<Rightarrow> [] | Some e \<Rightarrow> e_dial e))"

text \<open>The input and output of the thread, in terms of \<open>HostIo\<close>: the overrides and the callbacks of the active view.\<close>

definition thread_io :: "thread_vars \<Rightarrow> 'u gengo_write_fn_t \<Rightarrow> 'u gengo_read_fn_t \<Rightarrow> 'u io_view \<Rightarrow> 'u io_view" where
  "thread_io v wcb rcb env = env\<lparr>iv_read_override := tv_overrides v, iv_write_override := tv_overrides v,
     iv_read_callback := (if av_read (tv_view v) then Some rcb else None), iv_write_callback := (if av_write (tv_view v) then Some wcb else None)\<rparr>"

section \<open>The bracketing\<close>

text \<open>The frames of a thread are linked: each returns to the engine below it, the last to none.\<close>

fun linked :: "(int \<times> int option) list \<Rightarrow> bool" where
  "linked [] = True"
| "linked [(h, prev)] = (prev = None)"
| "linked ((h, prev) # (h', prev') # fs) = (prev = Some h' \<and> linked ((h', prev') # fs))"

definition running :: "thread_vars \<Rightarrow> int option" where
  "running v = (case tv_frames v of [] \<Rightarrow> None | (h, prev) # fs \<Rightarrow> Some h)"

definition vars_ok :: "'r world \<Rightarrow> thread_vars \<Rightarrow> bool" where
  "vars_ok w v \<longleftrightarrow> linked (tv_frames v) \<and> av_engine (tv_view v) = running v
     \<and> (tv_frames v \<noteq> [] \<longrightarrow> tv_runtime v = running v \<and> tv_caps v = running v)
     \<and> (\<forall>f \<in> set (tv_frames v). getEngine (fst f) w \<noteq> None)"

definition threads_ok :: "'r threads \<Rightarrow> bool" where
  "threads_ok p \<longleftrightarrow> length (ew_slots (tp_world p)) = MaxEngines \<and> (\<forall>v \<in> set (tp_vars p). vars_ok (tp_world p) v)"

lemma seen_by_simps [simp]:
  "getEngine h (seen_by v w) = getEngine h w" "ew_slots (seen_by v w) = ew_slots w" "ew_env (seen_by v w) = ew_env w"
  "ew_view (seen_by v w) = tv_view v" "ew_overrides (seen_by v w) = tv_overrides v"
  by (simp_all add: seen_by_def)

lemma slots_upd: "length (ew_slots (upd_engine h f w)) = length (ew_slots w)"
  by (simp add: upd_engine_def split: option.split)

lemma engine_stays_upd: "length (ew_slots w) = MaxEngines \<Longrightarrow> getEngine k w \<noteq> None \<Longrightarrow> getEngine k (upd_engine h f w) \<noteq> None"
  by (cases "k = h") (auto simp: upd_engine_def getEngine_put_other [OF _ getEngine_valid] split: option.split)

lemma policy_add_upd: "snd (engine_net_policy_add h a pat port w) = upd_engine h
    (\<lambda>e. e\<lparr>e_dial := snd (addRuleTo (en_ip6 (ew_env w)) (e_dial e) (if a = 0 then Deny else Allow) (wasmSlice pat) (policy_port port))\<rparr>) w"
  by (simp add: engine_net_policy_add_def upd_engine_def Let_def split: option.split prod.split)

lemma claim_frame:
  assumes "claim_slot nm e w = (rc, w')"
  shows "length (ew_slots w') = length (ew_slots w)" "ew_view w' = ew_view w"
  using assms by (auto simp: claim_slot_def setInitError_def split: option.splits)

lemma create_frame:
  assumes "create_engine config w = (rc, w')" "length (ew_slots w) = MaxEngines"
  shows "length (ew_slots w') = MaxEngines" "getEngine k w \<noteq> None \<Longrightarrow> getEngine k w' \<noteq> None" "ew_view w' = ew_view w"
proof -
  have "length (ew_slots w') = MaxEngines \<and> ew_view w' = ew_view w"
  proof (cases config)
    case None
    then show ?thesis using assms claim_frame by (fastforce simp: create_engine_def engine_init_def)
  next
    case (Some c)
    then have "engine_init_with_config config w = (rc, w')" using assms(1) by (simp add: create_engine_def)
    then show ?thesis
      by (cases rule: engine_init_with_config_cases [of config w]) (use assms(2) claim_frame in \<open>fastforce\<close>)+
  qed
  then show "length (ew_slots w') = MaxEngines" "ew_view w' = ew_view w" by simp_all
  show "getEngine k w' \<noteq> None" if "getEngine k w \<noteq> None"
  proof -
    from that obtain e where "getEngine k w = Some e" by auto
    note init = init_keeps [OF this assms(2)]
    show ?thesis using assms(1) init(1) init(2) [of config] by (cases config) (auto simp: create_engine_def)
  qed
qed

text \<open>A host operation keeps the number of slots and every engine that it does not destroy.\<close>

lemma vars_op_engines:
  assumes "vars_op op v w = Some (v', w')" "length (ew_slots w) = MaxEngines"
  shows "length (ew_slots w') = MaxEngines" "getEngine k w \<noteq> None \<Longrightarrow> op \<noteq> Destroy k \<Longrightarrow> getEngine k w' \<noteq> None"
proof -
  show "length (ew_slots w') = MaxEngines"
  proof (cases op)
    case (Create config)
    then show ?thesis using assms create_frame(1) [OF _ assms(2)] by (auto split: prod.splits if_splits)
  qed (use assms in \<open>auto simp: pushEngineState_def popEngineState_def engine_destroy_def engine_set_write_fn_def engine_set_read_fn_def
      policy_add_upd slots_upd Let_def split: option.splits list.splits prod.splits\<close>)
  show "getEngine k w' \<noteq> None" if "getEngine k w \<noteq> None" "op \<noteq> Destroy k"
  proof (cases op)
    case (Create config)
    then show ?thesis using assms(1) create_frame(2) [OF _ assms(2) that(1)] by (auto split: prod.splits if_splits)
  next
    case (Destroy h)
    then show ?thesis using assms(1) that by (auto simp: Let_def destroy_other)
  qed (use assms(1) that engine_stays_upd [OF assms(2) that(1)] in \<open>auto simp: pushEngineState_def popEngineState_def engine_set_write_fn_def
      engine_set_read_fn_def policy_add_upd Let_def split: option.splits list.splits prod.splits\<close>)
qed

lemma linked_Cons: "linked (f # fs) \<longleftrightarrow> snd f = (case fs of [] \<Rightarrow> None | g # gs \<Rightarrow> Some (fst g)) \<and> linked fs"
  by (cases f; cases fs) auto

text \<open>The variables of the thread that acts.\<close>

lemma vars_op_ok:
  assumes "vars_op op v w = Some (v', w')" "length (ew_slots w) = MaxEngines" "vars_ok w v" "orderly op v vs" "v \<in> set vs" "ew_view w = tv_view v"
  shows "vars_ok w' v'"
proof -
  have live: "\<forall>f \<in> set (tv_frames v). getEngine (fst f) w' \<noteq> None"
    using vars_op_engines(2) [OF assms(1,2)] assms(3-5) by (fastforce simp: vars_ok_def in_progress_def list_ex_iff)
  show ?thesis
  proof (cases op)
    case (Enter h)
    show ?thesis
    proof (cases "getEngine h w")
      case None
      then show ?thesis using assms(1,3) Enter by simp
    next
      case (Some e)
      then have v': "v' = (activate h v)\<lparr>tv_view := view_of h e, tv_frames := (h, av_engine (tv_view v)) # tv_frames v\<rparr>"
        and g: "getEngine k w' = getEngine k w" for k
        using assms(1,6) Enter by (auto simp: pushEngineState_def)
      have "av_engine (tv_view v) = running v" "linked (tv_frames v)" using assms(3) by (simp_all add: vars_ok_def)
      then show ?thesis
        using live Some unfolding vars_ok_def v' linked_Cons
        by (cases "tv_frames v") (simp_all add: g running_def activate_def view_of_def case_prod_beta linked_Cons)
    qed
  next
    case Return
    then obtain h prev fs where f: "tv_frames v = (h, prev) # fs" using assms(1) by (auto split: list.splits)
    have prev: "prev = (case fs of [] \<Rightarrow> None | g # gs \<Rightarrow> Some (fst g))" "linked fs" using assms(3) f by (auto simp: vars_ok_def linked_Cons)
    show ?thesis
    proof (cases fs)
      case Nil
      then show ?thesis using assms(1) Return f prev by (auto simp: vars_ok_def popEngineState_def no_view_def running_def Let_def)
    next
      case (Cons g gs)
      then obtain e where e: "getEngine (fst g) w = Some e" using assms(3) f by (auto simp: vars_ok_def)
      then show ?thesis
        using assms(1) Return f prev live Cons
        by (auto simp: vars_ok_def popEngineState_def view_of_def running_def activate_def Let_def case_prod_beta)
    qed
  next
    case (Create config)
    then show ?thesis using assms(1,3,4) by (auto simp: vars_ok_def running_def activate_def split: prod.splits if_splits)
  qed (use assms(1,3) live in \<open>auto simp: vars_ok_def running_def Let_def split: option.splits\<close>)
qed

lemma thread_op_ok:
  assumes "thread_op True t op p = Some p'" "threads_ok p"
  shows "threads_ok p'"
proof -
  let ?v = "tp_vars p ! t" let ?w = "seen_by ?v (tp_world p)"
  have t: "t < length (tp_vars p)" and ord: "orderly op ?v (tp_vars p)" using assms(1) by (auto simp: thread_op_def Let_def split: if_splits)
  obtain v w where run: "vars_op op ?v ?w = Some (v, w)" and p': "p' = \<lparr>tp_world = w, tp_vars = (tp_vars p)[t := v]\<rparr>"
    using assms(1) t ord by (auto simp: thread_op_def Let_def split: option.splits)
  have len: "length (ew_slots ?w) = MaxEngines" using assms(2) by (simp add: threads_ok_def)
  have vs: "vars_ok (tp_world p) u" if "u \<in> set (tp_vars p)" for u using assms(2) that by (simp add: threads_ok_def)
  have "vars_ok w v"
  proof (rule vars_op_ok [OF run len _ ord])
    show "vars_ok ?w ?v" using vs [of ?v] t by (simp add: vars_ok_def)
  qed (use t in simp_all)
  moreover have "vars_ok w u" if u: "u \<in> set (tp_vars p)" for u
    using vs [OF u] vars_op_engines(2) [OF run len] ord u
    by (fastforce simp: vars_ok_def in_progress_def list_ex_iff)
  ultimately show ?thesis
    using vars_op_engines(1) [OF run len] set_update_subset_insert [of "tp_vars p" t v] by (auto simp: threads_ok_def p')
qed

lemma run_ops_ok: "run_ops True ops p = Some p' \<Longrightarrow> threads_ok p \<Longrightarrow> threads_ok p'"
  by (induction True ops p rule: run_ops.induct) (auto split: option.splits intro: thread_op_ok)

lemma start_threads_ok: "threads_ok (start_threads env n)"
  by (auto simp: threads_ok_def start_threads_def boot_def vars_ok_def fresh_vars_def no_view_def running_def)

section \<open>Claims\<close>

text \<open>
  C12. As long as no engine is created within a callback and none destroyed while a call on it is in progress, a running script works on its own engine: on
  every thread, at any depth of nested callbacks, the active engine, the runtime and the capabilities are those of the innermost call, and
  this engine exists; and a thread outside of all calls has no active engine.
\<close>

theorem callbacks_keep_their_engine:
  assumes "run_ops True ops (start_threads env n) = Some p" "v \<in> set (tp_vars p)"
  shows "case tv_frames v of [] \<Rightarrow> av_engine (tv_view v) = None
    | (h, prev) # fs \<Rightarrow> av_engine (tv_view v) = Some h \<and> tv_runtime v = Some h \<and> tv_caps v = Some h \<and> getEngine h (tp_world p) \<noteq> None"
proof -
  have "vars_ok (tp_world p) v"
    using run_ops_ok [OF assms(1) start_threads_ok] assms(2) by (simp add: threads_ok_def)
  then show ?thesis by (auto simp: vars_ok_def running_def split: list.split)
qed

text \<open>A thread that never created an engine has no overrides.\<close>

fun is_create :: "'r host_op \<Rightarrow> bool" where
  "is_create (Create config) = True"
| "is_create op = False"

lemma no_create_no_overrides:
  assumes "vars_op op v w = Some (v', w')" "\<not> is_create op" "\<not> tv_overrides v" "ew_overrides w = tv_overrides v"
  shows "\<not> tv_overrides v'"
  using assms
  by (cases op) (auto simp: engine_destroy_def activate_def Let_def pushEngineState_def split: option.splits list.splits prod.splits if_splits)

lemma run_ops_no_overrides:
  assumes "run_ops strict ops p = Some p'" "list_all (\<lambda>(t', op). t' = t \<longrightarrow> \<not> is_create op) ops" "t < length (tp_vars p)"
    "\<not> tv_overrides (tp_vars p ! t)"
  shows "t < length (tp_vars p') \<and> \<not> tv_overrides (tp_vars p' ! t)"
  using assms
proof (induction strict ops p rule: run_ops.induct)
  case (2 strict t1 op ops p)
  obtain p1 where p1: "thread_op strict t1 op p = Some p1" "run_ops strict ops p1 = Some p'" using "2.prems"(1) by (auto split: option.splits)
  obtain v w where v: "vars_op op (tp_vars p ! t1) (seen_by (tp_vars p ! t1) (tp_world p)) = Some (v, w)" "p1 = \<lparr>tp_world = w, tp_vars = (tp_vars p)[t1 := v]\<rparr>"
    using p1(1) by (auto simp: thread_op_def Let_def split: if_splits option.splits)
  have "\<not> tv_overrides (tp_vars p1 ! t)"
    using v "2.prems"(2-4) no_create_no_overrides [OF v(1)] by (cases "t1 = t") auto
  then show ?case using "2.IH" [OF p1] "2.prems"(2,3) v(2) by simp
qed simp

text \<open>
  C28. The overrides that route a script's input and output to the callbacks are thread-local and installed by the creation of an engine only: on a thread that has not
  created one, output goes to the file descriptors and input comes from standard input, whatever callbacks the running engine has.
\<close>

theorem other_thread_bypasses_callbacks:
  assumes "run_ops strict ops (start_threads env n) = Some p" "list_all (\<lambda>(t', op). t' = t \<longrightarrow> \<not> is_create op) ops" "t < n"
  shows "io_write (thread_io (tp_vars p ! t) wcb rcb ev) is_err s u = Some (iv_write_fd ev is_err s u)
    \<and> readBytesRaw (thread_io (tp_vars p ! t) wcb rcb ev) (Suc k) False u = Some (readFd0 (thread_io (tp_vars p ! t) wcb rcb ev) (Suc k) u)"
proof -
  have "\<not> tv_overrides (tp_vars p ! t)"
    using run_ops_no_overrides [OF assms(1,2)] assms(3) by (simp add: start_threads_def fresh_vars_def)
  then show ?thesis by (simp add: thread_io_def io_write_def readBytesRaw_unfold)
qed

section \<open>Runs\<close>

definition one_engine :: "unit engine option list" where
  "one_engine = (replicate MaxEngines None)[0 := Some demo_engine]"

definition two_engines :: "unit engine option list" where
  "two_engines = one_engine[1 := Some demo_engine]"

lemma demo_creates:
  "ew_env w = demo_env \<Longrightarrow> ew_slots w = replicate MaxEngines None \<Longrightarrow>
     vars_op (Create None) v w = Some ((activate 1 v)\<lparr>tv_overrides := True\<rparr>, w\<lparr>ew_init_error := [], ew_slots := one_engine, ew_overrides := True\<rparr>)"
  "ew_env w = demo_env \<Longrightarrow> ew_slots w = one_engine \<Longrightarrow>
     vars_op (Create None) v w = Some ((activate 2 v)\<lparr>tv_overrides := True\<rparr>, w\<lparr>ew_init_error := [], ew_slots := two_engines, ew_overrides := True\<rparr>)"
proof -
  have new: "initInPlaceDefault demo_env = Some demo_engine"
    by (simp add: initInPlaceDefault_def demo_env_def demo_vm_def demo_engine_def)
  have "free_slot one_engine = Some 1" by (simp add: one_engine_def MaxEngines_def numeral_eq_Suc)
  then show "ew_env w = demo_env \<Longrightarrow> ew_slots w = one_engine \<Longrightarrow>
     vars_op (Create None) v w = Some ((activate 2 v)\<lparr>tv_overrides := True\<rparr>, w\<lparr>ew_init_error := [], ew_slots := two_engines, ew_overrides := True\<rparr>)"
    by (simp add: create_engine_def engine_init_def claim_slot_def new two_engines_def)
  show "ew_env w = demo_env \<Longrightarrow> ew_slots w = replicate MaxEngines None \<Longrightarrow>
     vars_op (Create None) v w = Some ((activate 1 v)\<lparr>tv_overrides := True\<rparr>, w\<lparr>ew_init_error := [], ew_slots := one_engine, ew_overrides := True\<rparr>)"
    by (simp add: create_engine_def engine_init_def claim_slot_def new one_engine_def free_slot_replicate MaxEngines_def)
qed

lemma demo_slots [simp]:
  "one_engine ! 0 = Some demo_engine" "two_engines ! 0 = Some demo_engine" "two_engines ! Suc 0 = Some demo_engine"
  "length one_engine = MaxEngines" "length two_engines = MaxEngines"
  by (simp_all add: one_engine_def two_engines_def MaxEngines_def)

lemma demo_bounds [simp]: "0 < MaxEngines" "MaxEngines \<noteq> 0" "\<not> MaxEngines < 2" "Suc 0 < MaxEngines"
  by (simp_all add: MaxEngines_def)

lemmas op_simps = start_threads_def fresh_vars_def thread_op_def Let_def boot_def seen_by_def activate_def pushEngineState_def popEngineState_def
  getEngine_def demo_creates engine_set_write_fn_def engine_set_read_fn_def upd_engine_def put_engine_def view_of_def no_view_def

definition nested_run :: "unit threads" where
  "nested_run = the (run_ops True [(0, Create None), (0, Create None), (0, Enter 1), (1, Enter 2), (0, Enter 2), (0, Return)] (start_threads demo_env 2))"

lemma nested_steps: "run_ops True [(0, Create None), (0, Create None), (0, Enter 1), (1, Enter 2), (0, Enter 2), (0, Return)] (start_threads demo_env 2)
    = Some nested_run" "tv_frames (tp_vars nested_run ! 0) = [(1, None)]" "length (tp_vars nested_run) = 2"
  by (simp_all add: nested_run_def op_simps del: vars_op.simps(3))

theorem callbacks_keep_their_engine_witness:
  "getEngine 1 (tp_world nested_run) \<noteq> None \<and> av_engine (tv_view (tp_vars nested_run ! 0)) = Some 1 \<and> tv_caps (tp_vars nested_run ! 0) = Some 1"
proof -
  have "tp_vars nested_run ! 0 \<in> set (tp_vars nested_run)"
    by (rule nth_mem) (simp add: nested_steps(3))
  from callbacks_keep_their_engine [OF nested_steps(1) this] show ?thesis by (simp add: nested_steps(2))
qed

text \<open>The first thread creates an engine and registers its write callback; the second thread runs it.\<close>

definition other_thread_run :: "unit threads" where
  "other_thread_run = the (run_ops True [(0, Create None), (0, SetWrite 1 True), (1, Enter 1)] (start_threads demo_env 2))"

lemma other_thread_steps: "run_ops True [(0, Create None), (0, SetWrite 1 True), (1, Enter 1)] (start_threads demo_env 2) = Some other_thread_run"
  "av_write (tv_view (tp_vars other_thread_run ! 1))" "running (tp_vars other_thread_run ! 1) = Some 1"
  by (simp_all add: other_thread_run_def op_simps running_def del: vars_op.simps(3))

definition demo_io :: "byte list io_view" where
  "demo_io = \<lparr>iv_read_override = False, iv_write_override = False, iv_read_callback = None, iv_write_callback = None, iv_stdin = \<lambda>n u. (None, u),
     iv_write_fd = \<lambda>err b u. u @ b, iv_allow_io = True, iv_max_input = 65536, iv_usize_max = 65536, iv_alloc = \<lambda>n. True, iv_gc = \<lambda>n. True\<rparr>"

theorem other_thread_bypasses_callbacks_witness:
  "av_write (tv_view (tp_vars other_thread_run ! 1))
   \<and> io_write (thread_io (tp_vars other_thread_run ! 1) (\<lambda>b err u. []) (\<lambda>n l u. (0, [], u)) demo_io) False [72] [1] = Some [1, 72]"
  using other_thread_bypasses_callbacks [OF other_thread_steps(1), of 1 "\<lambda>b err u. []" "\<lambda>n l u. (0, [], u)" demo_io False "[72]" "[1]"] other_thread_steps(2)
  by (simp add: demo_io_def)


end
