(* ===== verification/ValuePrint.thy ===== *)
theory ValuePrint
  imports HostIo Ieee
begin

text \<open>
  The text of values, \<open>src/runtime/io.zig\<close> (\<open>formatUint\<close>, \<open>formatInt\<close>, \<open>writeF64\<close>, \<open>printValue\<close>) with \<open>formatDecimalString\<close> and the inline
  variants of \<open>src/lang/value.zig\<close>, and \<open>io.print\<close> and \<open>io.println\<close> of \<open>src/lang/native/io.zig\<close> on top. A text is the list of the pieces written
  one after the other; \<open>None\<close> is a panic or a read of wild memory.
\<close>

section \<open>Integers\<close>

definition digit_byte :: "nat \<Rightarrow> byte" where
  "digit_byte d = 48 + of_nat d"

text \<open>The loop of \<open>formatUint\<close> fills its buffer from the last digit on and then swaps it around in place.\<close>

fun uint_loop :: "nat \<Rightarrow> byte list" where
  "uint_loop n = (if n = 0 then [] else digit_byte (n mod 10) # uint_loop (n div 10))"

declare uint_loop.simps [simp del]

definition swap_ends :: "nat \<Rightarrow> 'a list \<Rightarrow> 'a list" where
  "swap_ends i b = b[i := b ! (length b - 1 - i), length b - 1 - i := b ! i]"

definition reverse_in_place :: "'a list \<Rightarrow> 'a list" where
  "reverse_in_place b = fold swap_ends [0..<length b div 2] b"

text \<open>The buffer has 24 bytes.\<close>

definition formatUint :: "nat \<Rightarrow> byte list option" where
  "formatUint v =
     (if v = 0 then Some (bytes_of ''0'')
      else let b = uint_loop v in if 24 < length b then None else Some (reverse_in_place b))"

definition formatInt :: "int \<Rightarrow> byte list list option" where
  "formatInt v =
     (if v < 0 then map_option (\<lambda>s. [bytes_of ''-'', s]) (formatUint (nat (- v)))
      else map_option (\<lambda>s. [s]) (formatUint (nat v)))"

section \<open>Decimals\<close>

definition strip_end :: "byte \<Rightarrow> byte list \<Rightarrow> byte list" where
  "strip_end c s = rev (dropWhile (\<lambda>x. x = c) (rev s))"

definition bufPrint_d :: "int \<Rightarrow> byte list option" where
  "bufPrint_d n = map_option concat (formatInt n)"

text \<open>
  The arithmetic is on \<open>i128\<close>, the two casts are to \<open>i64\<close> and the buffer has 64 bytes; \<open>bufPrint\<close> with \<open>{d}\<close> writes an integer as \<open>formatInt\<close> does.
\<close>

definition formatDecimalString :: "int \<Rightarrow> nat \<Rightarrow> byte list option" where
  "formatDecimalString raw scale =
     (if scale = 0 then bufPrint_d raw
      else if 2 ^ 127 \<le> (10::int) ^ scale then None
      else let ip = \<bar>raw\<bar> div 10 ^ scale; fr = \<bar>raw\<bar> mod 10 ^ scale in
        if 2 ^ 63 \<le> ip \<or> 2 ^ 63 \<le> fr then None
        else case (bufPrint_d ip, bufPrint_d fr) of
          (Some int_str, Some frac_digits) \<Rightarrow>
            if scale < length frac_digits then None
            else let buf = (if raw < 0 then bytes_of ''-'' else []) @ int_str @ bytes_of ''.''
                           @ replicate (scale - length frac_digits) 48 @ frac_digits;
                     buf' = strip_end 48 buf in
              if 64 < length buf then None
              else Some (if buf' \<noteq> [] \<and> last buf' = 46 then butlast buf' else buf')
        | _ \<Rightarrow> None)"

section \<open>Floats\<close>

definition f64_is_nan :: "f64 \<Rightarrow> bool" where
  "f64_is_nan d \<longleftrightarrow> f64_exp d = 2047 \<and> f64_frac d \<noteq> 0"

definition f64_is_zero :: "f64 \<Rightarrow> bool" where
  "f64_is_zero d \<longleftrightarrow> f64_exp d = 0 \<and> f64_frac d = 0"

text \<open>\<open>@trunc\<close> clears the bits of the significand behind the point; below one only the sign stays.\<close>

definition f64_trunc :: "f64 \<Rightarrow> f64" where
  "f64_trunc d =
     (if f64_exp d < 1023 then of_nat (if f64_neg d then 2 ^ 63 else 0)
      else if 1075 \<le> f64_exp d then d
      else of_nat (unat d - unat d mod 2 ^ (1075 - f64_exp d)))"

definition f64_ten :: f64 where "f64_ten = 0x4024000000000000"

text \<open>Negation flips the sign bit, which adding it does.\<close>

definition f64_negate :: "f64 \<Rightarrow> f64" where
  "f64_negate d = d + 2 ^ 63"

text \<open>The six digits behind the point; a digit that does not fit its byte panics.\<close>

fun frac_digits :: "nat \<Rightarrow> f64 \<Rightarrow> byte list option" where
  "frac_digits 0 fr = Some []"
| "frac_digits (Suc k) fr =
     (let fr = f64_mul fr f64_ten; d = f64_trunc fr; n = f64_trunc_mag (f64_exp d) (f64_frac d) in
      if f64_exp d = 2047 \<or> 256 \<le> n + 48 then None
      else map_option (\<lambda>ds. digit_byte n # ds) (frac_digits k (f64_sub fr d)))"

text \<open>\<open>while (dlen > 1 and digits[dlen - 1] == '0') dlen -= 1\<close>\<close>

definition drop_zeros :: "byte list \<Rightarrow> byte list" where
  "drop_zeros ds = (if ds = [] then [] else hd ds # strip_end 48 (tl ds))"

definition writeF64 :: "f64 \<Rightarrow> byte list list option" where
  "writeF64 v =
     (if f64_is_nan v then Some [bytes_of ''NaN'']
      else if f64_exp v = 2047 then Some [if f64_neg v then bytes_of ''-Inf'' else bytes_of ''Inf'']
      else let below = f64_neg v \<and> \<not> f64_is_zero v;
               sign = (if below then [bytes_of ''-''] else []);
               n = (if below then f64_negate v else v);
               ip = f64_trunc n in
        if 1087 \<le> f64_exp ip then Some (sign @ [bytes_of ''?''])
        else case formatUint (f64_trunc_mag (f64_exp ip) (f64_frac ip)) of None \<Rightarrow> None
        | Some s \<Rightarrow>
            if ip = n \<or> f64_is_zero ip \<and> f64_is_zero n then Some (sign @ [s])
            else map_option (\<lambda>ds. sign @ [s, bytes_of ''.'', drop_zeros ds]) (frac_digits 6 (f64_sub n ip)))"

section \<open>Values and objects\<close>

record InlineVariantValue =
  iv_payload :: "36 word"
  iv_ordinal :: "12 word"
  iv_kind :: "4 word"
  iv_typ_idx :: "12 word"

text \<open>An object is named by its index in the object pool.\<close>

datatype pvalue =
    PInt int
  | PFloat f64
  | PDecimal int
  | PRune nat
  | PBool bool
  | PString "byte list"
  | PErrorValue "byte list"
  | PObject nat
  | PNull
  | PInlineVariant InlineVariantValue
  | PActorRef u32 u32

datatype NamedTypeBase =
  BaseInt | BaseFloat | BaseDecimal | BaseString | BaseBool | BaseRune | BaseArray | BaseMap | BaseEnum

text \<open>The objects with the parts that printing reads: a type has its name and the names of its fields or arms.\<close>

datatype Object =
    OArray "pvalue list"
  | OArrayManaged "pvalue list"
  | OArrayView "pvalue list"
  | OArrayCapacity nat nat
  | OMap "(pvalue \<times> pvalue) list"
  | OMapManaged "(pvalue \<times> pvalue) list"
  | OMapHashed "(pvalue \<times> pvalue) list" nat
  | ODynString "byte list"
  | OFunction
  | OClosure
  | OCell
  | ONativeFunction
  | OHostModuleFunction
  | OStructType "byte list" "byte list list"
  | OInterfaceType "byte list"
  | ONamedType "byte list" NamedTypeBase nat
  | ONamedValue nat pvalue
  | OEnumType "byte list"
  | OEnumValue "byte list"
  | OEnumTypeFn
  | OStructInstance nat "(pvalue \<times> pvalue) list"
  | OSmallStructInstance nat "pvalue list"
  | OIterator
  | OVariantType "byte list" "byte list list"
  | OVariantValue nat "byte list" pvalue "pvalue list"
  | OVariantCtor nat "byte list"
  | ONamedTypeFn
  | OStringBuilder
  | OStringView "byte list"
  | OBigint int
  | ONamedErrorType "byte list"
  | ONamedErrorValue nat "byte list"
  | OTaskType "byte list"

type_synonym obj_heap = "nat \<Rightarrow> Object option"

definition inlineVariantPayload :: "InlineVariantValue \<Rightarrow> pvalue" where
  "inlineVariantPayload iv =
     (let raw = iv_payload iv; wide = ucast raw :: u64;
          ext = (if raw AND push_bit 35 1 \<noteq> 0 then wide OR 0xFFFFFFF000000000 else wide) in
      if iv_kind iv = 0 then PNull
      else if iv_kind iv = 1 then PInt (sint ext)
      else if iv_kind iv = 2 then PBool (raw \<noteq> 0)
      else if iv_kind iv = 3 then PRune (unat (ucast raw :: 21 word))
      else if iv_kind iv = 4 then PDecimal (sint ext)
      else PNull)"

definition tryMakeInlineVariant :: "12 word \<Rightarrow> nat \<Rightarrow> pvalue \<Rightarrow> pvalue option" where
  "tryMakeInlineVariant typ_idx ordinal payload =
     (let make = (\<lambda>k p. PInlineVariant \<lparr>iv_payload = p, iv_ordinal = of_nat ordinal, iv_kind = k, iv_typ_idx = typ_idx\<rparr>) in
      if 0xFFF < ordinal then None
      else case payload of
        PNull \<Rightarrow> Some (make 0 0)
      | PBool b \<Rightarrow> Some (make 2 (if b then 1 else 0))
      | PRune r \<Rightarrow> Some (make 3 (of_nat r))
      | PInt n \<Rightarrow> if n < - (2 ^ 35) \<or> 2 ^ 35 - 1 < n then None else Some (make 1 (of_int n))
      | PDecimal n \<Rightarrow> if n < - (2 ^ 35) \<or> 2 ^ 35 - 1 < n then None else Some (make 4 (of_int n))
      | _ \<Rightarrow> None)"

text \<open>A decimal, or named values around one; the scale is the one of the type that holds it.\<close>

definition named_decimal :: "Object \<Rightarrow> pvalue \<Rightarrow> (int \<times> nat) option" where
  "named_decimal ty x =
     (case ty of
        ONamedType _ base scale \<Rightarrow> (case x of PDecimal d \<Rightarrow> if base = BaseDecimal then Some (d, scale) else None | _ \<Rightarrow> None)
      | _ \<Rightarrow> None)"

definition decimal_step :: "obj_heap \<Rightarrow> pvalue \<Rightarrow> ((int \<times> nat) option + pvalue) option" where
  "decimal_step h v =
     (case v of
        PDecimal d \<Rightarrow> Some (Inl (Some (d, 0)))
      | PObject a \<Rightarrow>
          (case h a of
             None \<Rightarrow> None
           | Some (ONamedValue t x) \<Rightarrow>
               (case h t of None \<Rightarrow> None
                | Some ty \<Rightarrow> (case named_decimal ty x of Some r \<Rightarrow> Some (Inl (Some r)) | None \<Rightarrow> Some (Inr x)))
           | Some _ \<Rightarrow> Some (Inl None))
      | _ \<Rightarrow> Some (Inl None))"

partial_function (option) decimalRawAndScale :: "obj_heap \<Rightarrow> pvalue \<Rightarrow> (int \<times> nat) option option" where
  "decimalRawAndScale h v =
     (case decimal_step h v of None \<Rightarrow> None | Some (Inl r) \<Rightarrow> Some r | Some (Inr x) \<Rightarrow> decimalRawAndScale h x)"

section \<open>Printing\<close>

text \<open>The decimal digits of an integer of any size (\<open>toStringAlloc\<close> with base ten).\<close>

definition big_text :: "int \<Rightarrow> byte list" where
  "big_text n =
     (if n = 0 then bytes_of ''0''
      else (if n < 0 then bytes_of ''-'' else []) @ rev (uint_loop (nat \<bar>n\<bar>)))"


text \<open>What the writes and the recursive calls of one level do, in their order: a text to write or a value to print.\<close>

datatype piece = Write "byte list" | Print pvalue

fun separated :: "piece list list \<Rightarrow> piece list" where
  "separated [] = []"
| "separated [ps] = ps"
| "separated (ps # qs # rest) = ps @ Write (bytes_of '', '') # separated (qs # rest)"

definition angled :: "string \<Rightarrow> byte list \<Rightarrow> piece list" where
  "angled kind name = [Write (bytes_of ''<'' @ bytes_of kind @ bytes_of '' ''), Write name, Write (bytes_of ''>'')]"

definition items_pieces :: "pvalue list \<Rightarrow> piece list" where
  "items_pieces items = Write (bytes_of ''['') # separated (map (\<lambda>v. [Print v]) items) @ [Write (bytes_of '']'')]"

definition key_piece :: "pvalue \<Rightarrow> piece" where
  "key_piece k = (case k of PString s \<Rightarrow> Write s | _ \<Rightarrow> Print k)"

definition entries_pieces :: "(pvalue \<times> pvalue) list \<Rightarrow> piece list" where
  "entries_pieces es =
     Write (bytes_of ''{'') # separated (map (\<lambda>(k, v). [key_piece k, Write (bytes_of '': ''), Print v]) es) @ [Write (bytes_of ''}'')]"

definition in_parens :: "piece list \<Rightarrow> piece list" where
  "in_parens ps = Write (bytes_of ''('') # ps @ [Write (bytes_of '')'')]"

definition struct_type_at :: "obj_heap \<Rightarrow> nat \<Rightarrow> (byte list \<times> byte list list) option" where
  "struct_type_at h t = (case h t of Some (OStructType n fs) \<Rightarrow> Some (n, fs) | _ \<Rightarrow> None)"

definition variant_type_at :: "obj_heap \<Rightarrow> nat \<Rightarrow> (byte list \<times> byte list list) option" where
  "variant_type_at h t = (case h t of Some (OVariantType n as) \<Rightarrow> Some (n, as) | _ \<Rightarrow> None)"

text \<open>
  The pieces of an object, a big integer apart. A small struct has room for four values; \<open>None\<close> is the access to a wrong kind of object or
  behind the end of an array.
\<close>

definition object_pieces :: "obj_heap \<Rightarrow> Object \<Rightarrow> piece list option" where
  "object_pieces h ob = (case ob of
     ODynString s \<Rightarrow> Some [Write s]
   | OStringView s \<Rightarrow> Some [Write s]
   | OArray items \<Rightarrow> Some (items_pieces items)
   | OArrayManaged items \<Rightarrow> Some (items_pieces items)
   | OArrayView items \<Rightarrow> Some (items_pieces items)
   | OArrayCapacity b n \<Rightarrow>
       (case h b of Some (OArrayManaged items) \<Rightarrow> if n \<le> length items then Some (items_pieces (take n items)) else None | _ \<Rightarrow> None)
   | OMap es \<Rightarrow> Some (entries_pieces es)
   | OMapManaged es \<Rightarrow> Some (entries_pieces es)
   | OMapHashed es n \<Rightarrow> if n \<le> length es then Some (entries_pieces (take n es)) else None
   | OFunction \<Rightarrow> Some [Write (bytes_of ''<func>'')]
   | OClosure \<Rightarrow> Some [Write (bytes_of ''<closure>'')]
   | OCell \<Rightarrow> Some [Write (bytes_of ''<cell>'')]
   | ONativeFunction \<Rightarrow> Some [Write (bytes_of ''<native-func>'')]
   | OHostModuleFunction \<Rightarrow> Some [Write (bytes_of ''<host-func>'')]
   | OStructType n _ \<Rightarrow> Some (angled ''struct'' n)
   | OTaskType n \<Rightarrow> Some (angled ''task'' n)
   | OInterfaceType n \<Rightarrow> Some (angled ''interface'' n)
   | ONamedType n _ _ \<Rightarrow> Some (angled ''type'' n)
   | ONamedValue _ v \<Rightarrow> Some [Print v]
   | OEnumType n \<Rightarrow> Some (angled ''enum'' n)
   | OEnumValue n \<Rightarrow> Some [Write n]
   | OStructInstance t es \<Rightarrow> map_option (\<lambda>(n, _). Write n # entries_pieces es) (struct_type_at h t)
   | OSmallStructInstance t vs \<Rightarrow>
       (case struct_type_at h t of None \<Rightarrow> None
        | Some (n, fs) \<Rightarrow>
            if 4 < length vs \<or> length fs < length vs then None
            else Some (Write n # Write (bytes_of ''{'') #
              separated (map (\<lambda>(f, v). [Write f, Write (bytes_of '': ''), Print v]) (zip fs vs)) @ [Write (bytes_of ''}'')]))
   | OIterator \<Rightarrow> Some [Write (bytes_of ''<iter>'')]
   | OVariantType n _ \<Rightarrow> Some (angled ''variant'' n)
   | OVariantCtor t tag \<Rightarrow> map_option (\<lambda>(n, _). [Write n, Write (bytes_of ''.''), Write tag]) (variant_type_at h t)
   | OVariantValue t tag payload arm_fields \<Rightarrow>
       map_option (\<lambda>(n, _). [Write n, Write (bytes_of ''.''), Write tag]
         @ (if arm_fields \<noteq> [] then in_parens (separated (map (\<lambda>v. [Print v]) arm_fields))
            else if payload \<noteq> PNull then in_parens [Print payload] else [])) (variant_type_at h t)
   | ONamedTypeFn \<Rightarrow> Some [Write (bytes_of ''<func>'')]
   | OEnumTypeFn \<Rightarrow> Some [Write (bytes_of ''<func>'')]
   | OStringBuilder \<Rightarrow> Some [Write (bytes_of ''<builder>'')]
   | ONamedErrorType n \<Rightarrow> Some (angled ''error type'' n)
   | ONamedErrorValue t m \<Rightarrow>
       (case h t of Some (ONamedErrorType n) \<Rightarrow> Some [Write n, Write (bytes_of ''(''), Write m, Write (bytes_of '')'')] | _ \<Rightarrow> None)
   | OBigint _ \<Rightarrow> None)"

text \<open>The pieces of a value that is neither a decimal nor an object.\<close>

definition value_pieces :: "obj_heap \<Rightarrow> pvalue \<Rightarrow> piece list option" where
  "value_pieces h v = (case v of
     PInt n \<Rightarrow> map_option (map Write) (formatInt n)
   | PFloat d \<Rightarrow> map_option (map Write) (writeF64 d)
   | PRune r \<Rightarrow> map_option (\<lambda>s. [Write s]) (formatUint r)
   | PBool b \<Rightarrow> Some [Write (bytes_of (if b then ''true'' else ''false''))]
   | PString s \<Rightarrow> Some [Write s]
   | PErrorValue s \<Rightarrow> Some [Write (bytes_of ''error(''), Write s, Write (bytes_of '')'')]
   | PNull \<Rightarrow> Some [Write (bytes_of ''null'')]
   | PInlineVariant iv \<Rightarrow>
       (case variant_type_at h (unat (iv_typ_idx iv)) of None \<Rightarrow> None
        | Some (n, arms) \<Rightarrow>
            if length arms \<le> unat (iv_ordinal iv) then None
            else let payload = inlineVariantPayload iv in
              Some ([Write n, Write (bytes_of ''.''), Write (arms ! unat (iv_ordinal iv))]
                @ (if payload \<noteq> PNull then in_parens [Print payload] else [])))
   | PActorRef i g \<Rightarrow>
       (case (formatUint (unat i), formatUint (unat g)) of
          (Some si, Some sg) \<Rightarrow> Some [Write (bytes_of ''actor<''), Write si, Write (bytes_of '':''), Write sg, Write (bytes_of ''>'')]
        | _ \<Rightarrow> None)
   | PDecimal _ \<Rightarrow> None
   | PObject _ \<Rightarrow> None)"

definition PrintMaxDepth :: nat where "PrintMaxDepth = 64"

text \<open>
  The heap, and for which big integers the page allocator has room for the digits. The state is the chain of ancestors, the first
  \<open>anc_count\<close> entries of the array; a write behind its 64 entries is out of bounds.
\<close>

record print_env =
  pe_heap :: obj_heap
  pe_alloc :: "int \<Rightarrow> bool"

type_synonym printer = "nat list \<Rightarrow> (byte list list \<times> nat list) option"

fun print_pieces :: "(pvalue \<Rightarrow> printer) \<Rightarrow> piece list \<Rightarrow> printer" where
  "print_pieces go [] anc = Some ([], anc)"
| "print_pieces go (Write s # ps) anc = map_option (\<lambda>(out, anc). (s # out, anc)) (print_pieces go ps anc)"
| "print_pieces go (Print v # ps) anc =
     (case go v anc of None \<Rightarrow> None
      | Some (o1, anc) \<Rightarrow> map_option (\<lambda>(o2, anc). (o1 @ o2, anc)) (print_pieces go ps anc))"

text \<open>\<open>anc_count.* -= 1\<close> at the end of an object.\<close>

definition popping :: "(byte list list \<times> nat list) option \<Rightarrow> (byte list list \<times> nat list) option" where
  "popping r = (case r of None \<Rightarrow> None | Some (out, anc) \<Rightarrow> if anc = [] then None else Some (out, butlast anc))"

definition print_object :: "print_env \<Rightarrow> (pvalue \<Rightarrow> printer) \<Rightarrow> Object \<Rightarrow> printer" where
  "print_object env go ob anc =
     (case ob of
        OBigint n \<Rightarrow>
          if pe_alloc env n then popping (Some ([big_text n], anc))
          else Some ([bytes_of ''<bigint>''], anc)
      | _ \<Rightarrow> (case object_pieces (pe_heap env) ob of None \<Rightarrow> None | Some ps \<Rightarrow> popping (print_pieces go ps anc)))"

text \<open>One level of \<open>printValueDepth\<close> over the next one.\<close>

definition print_level :: "print_env \<Rightarrow> (pvalue \<Rightarrow> printer) \<Rightarrow> pvalue \<Rightarrow> printer" where
  "print_level env go v anc =
     (case decimalRawAndScale (pe_heap env) v of
        None \<Rightarrow> None
      | Some (Some (raw, scale)) \<Rightarrow> map_option (\<lambda>s. ([s], anc)) (formatDecimalString raw scale)
      | Some None \<Rightarrow>
          (case v of
             PObject a \<Rightarrow>
               if a \<in> set anc then Some ([bytes_of ''<cycle>''], anc)
               else if PrintMaxDepth \<le> length anc then None
               else (case pe_heap env a of None \<Rightarrow> None | Some ob \<Rightarrow> print_object env go ob (anc @ [a]))
           | _ \<Rightarrow> (case value_pieces (pe_heap env) v of None \<Rightarrow> None | Some ps \<Rightarrow> print_pieces go ps anc)))"

text \<open>The first argument counts the levels that are left: \<open>PrintMaxDepth - depth\<close>.\<close>

primrec printValueDepth :: "nat \<Rightarrow> print_env \<Rightarrow> pvalue \<Rightarrow> printer" where
  "printValueDepth 0 env v anc = Some ([bytes_of ''...''], anc)"
| "printValueDepth (Suc n) env v anc = print_level env (printValueDepth n env) v anc"

definition printValue :: "print_env \<Rightarrow> pvalue \<Rightarrow> byte list list option" where
  "printValue env v = map_option fst (printValueDepth PrintMaxDepth env v [])"

section \<open>The natives that print\<close>

fun write_pieces :: "'u io_view \<Rightarrow> byte list list \<Rightarrow> 'u \<Rightarrow> 'u option" where
  "write_pieces view [] u = Some u"
| "write_pieces view (s # ss) u = (case io_write view False s u of None \<Rightarrow> None | Some u \<Rightarrow> write_pieces view ss u)"

fun print_args :: "'u io_view \<Rightarrow> print_env \<Rightarrow> pvalue list \<Rightarrow> 'u \<Rightarrow> 'u option" where
  "print_args view env [] u = Some u"
| "print_args view env (v # vs) u =
     (case printValue env v of None \<Rightarrow> None
      | Some out \<Rightarrow> (case write_pieces view out u of None \<Rightarrow> None | Some u \<Rightarrow> print_args view env vs u))"

definition io_print :: "'u io_view \<Rightarrow> print_env \<Rightarrow> pvalue list \<Rightarrow> (pvalue, 'u) native" where
  "io_print view env args =
     nbind (nguard (iv_allow_io view) PermissionDenied) (\<lambda>_.
     nbind (io_lift (\<lambda>u. map_option (Pair ()) (print_args view env args u))) (\<lambda>_. nret PNull))"

definition io_println :: "'u io_view \<Rightarrow> print_env \<Rightarrow> pvalue list \<Rightarrow> (pvalue, 'u) native" where
  "io_println view env args =
     nbind (nguard (iv_allow_io view) PermissionDenied) (\<lambda>_.
     nbind (io_lift (\<lambda>u. map_option (Pair ()) (print_args view env args u))) (\<lambda>_.
     nbind (io_lift (\<lambda>u. map_option (Pair ()) (io_write view False [10] u))) (\<lambda>_. nret PNull)))"

end
