(* ===== verification/ValuePrintProps.thy ===== *)
theory ValuePrintProps
  imports ValuePrint ZigStd
begin

text \<open>
  What the printing of values promises: integers and decimals can be read back, floats that hold integers are printed as integers, printing ends on
  every heap, cyclic ones included, and leaves the chain of ancestors as it found it, and a value without cycles is printed as its unfolding.
\<close>

section \<open>Digits\<close>

lemma length_swap_ends [simp]: "length (swap_ends i b) = length b"
  by (simp add: swap_ends_def)

lemma length_fold_swap [simp]: "length (fold swap_ends is b) = length b"
  by (induction "is" arbitrary: b) simp_all

lemma nth_fold_swap:
  assumes "m \<le> length b div 2" and "j < length b"
  shows "fold swap_ends [0..<m] b ! j = (if j < m \<or> length b - 1 - j < m then b ! (length b - 1 - j) else b ! j)"
  using assms
proof (induction m arbitrary: j)
  case (Suc m)
  let ?c = "fold swap_ends [0..<m] b" and ?l = "length b - 1 - m"
  have m: "m < length b" "?l < length b" "m < ?l \<or> m = ?l" using Suc.prems by auto
  have c: "?c ! i = (if i < m \<or> length b - 1 - i < m then b ! (length b - 1 - i) else b ! i)" if "i < length b" for i
    using Suc.IH [of i] Suc.prems that by simp
  have "fold swap_ends [0..<Suc m] b ! j = (if j = ?l then ?c ! m else if j = m then ?c ! ?l else ?c ! j)"
    using Suc.prems m by (simp add: swap_ends_def nth_list_update)
  then show ?case using c Suc.prems m by auto
qed simp

lemma reverse_in_place_rev: "reverse_in_place b = rev b"
proof (rule nth_equalityI)
  fix j assume "j < length (reverse_in_place b)"
  then have j: "j < length b" by (simp add: reverse_in_place_def)
  have "\<not> (j < length b div 2 \<or> length b - 1 - j < length b div 2) \<Longrightarrow> length b - 1 - j = j" using j by linarith
  then show "reverse_in_place b ! j = rev b ! j"
    using j by (auto simp: reverse_in_place_def nth_fold_swap rev_nth)
qed (simp add: reverse_in_place_def)

lemma length_uint_loop: "n < 10 ^ k \<Longrightarrow> length (uint_loop n) \<le> k"
proof (induction k arbitrary: n)
  case (Suc k)
  then have "n div 10 < 10 ^ k" by (simp add: less_mult_imp_div_less mult.commute)
  then show ?case using Suc.IH by (subst uint_loop.simps) simp
qed (simp add: uint_loop.simps)

definition uint_text :: "nat \<Rightarrow> byte list" where
  "uint_text n = (if n = 0 then [48] else rev (uint_loop n))"

lemma zero_text: "bytes_of ''0'' = [48]"
  by (simp add: bytes_of_def)

lemma formatUint_text: "v < 2 ^ 64 \<Longrightarrow> formatUint v = Some (uint_text v)"
  using length_uint_loop [of v 20] by (simp add: formatUint_def uint_text_def reverse_in_place_rev zero_text Let_def)

lemma digit_byte_facts:
  assumes "d < 10"
  shows "is_digit (digit_byte d)" and "digit_val (digit_byte d) = d"
proof -
  have u: "unat (digit_byte d) = 48 + d" using assms by (simp add: digit_byte_def unat_word_ariths unat_of_nat)
  then show "digit_val (digit_byte d) = d" by (simp add: digit_val_def)
  show "is_digit (digit_byte d)" using u assms by (simp add: is_digit_def word_le_nat_alt)
qed

definition digits_nat :: "nat \<Rightarrow> byte list \<Rightarrow> nat" where
  "digits_nat acc s = foldl (\<lambda>a c. a * 10 + digit_val c) acc s"

lemma digits_nat_simps [simp]:
  "digits_nat acc [] = acc" "digits_nat acc (c # s) = digits_nat (acc * 10 + digit_val c) s"
  "digits_nat acc (s @ t) = digits_nat (digits_nat acc s) t"
  by (simp_all add: digits_nat_def)

lemma digits_nat_shift: "digits_nat acc s = acc * 10 ^ length s + digits_nat 0 s"
proof (induction s arbitrary: acc)
  case (Cons c s)
  show ?case using Cons [of "acc * 10 + digit_val c"] Cons [of "digit_val c"] by (simp add: algebra_simps)
qed simp

lemma digits_nat_zeros: "digits_nat acc (replicate k 48) = acc * 10 ^ k"
  by (induction k arbitrary: acc) (simp_all add: digit_val_def)

lemma parse_digits_nat: "list_all is_digit s \<Longrightarrow> digits_nat acc s \<le> mx \<Longrightarrow> parse_digits mx acc s = Some (digits_nat acc s)"
proof (induction s arbitrary: acc)
  case (Cons c s)
  have "c \<noteq> 95" using Cons.prems(1) by (auto simp: is_digit_def)
  moreover have "acc * 10 + digit_val c \<le> digits_nat acc (c # s)"
    using digits_nat_shift [of "acc * 10 + digit_val c" s] by (simp add: trans_le_add1)
  ultimately show ?case using Cons by simp
qed simp

lemma zeros_digits: "list_all is_digit (replicate k 48)"
  by (simp add: list_all_length is_digit_def)

lemma uint_text_digits: "uint_text n \<noteq> [] \<and> list_all is_digit (uint_text n) \<and> digits_nat 0 (uint_text n) = n"
proof -
  have "list_all is_digit (rev (uint_loop n)) \<and> digits_nat 0 (rev (uint_loop n)) = n"
  proof (induction n rule: uint_loop.induct)
    case (1 n)
    then show ?case
      by (cases "n = 0") (simp_all add: uint_loop.simps [of n] uint_loop.simps [of 0] digit_byte_facts)
  qed
  moreover have "n \<noteq> 0 \<Longrightarrow> uint_loop n \<noteq> []" by (simp add: uint_loop.simps)
  ultimately show ?thesis by (simp add: uint_text_def is_digit_def digit_val_def)
qed

lemma formatInt_text:
  assumes "- (2 ^ 63) \<le> v" and "v < 2 ^ 63"
  shows "formatInt v = Some (if v < 0 then [[45], uint_text (nat (- v))] else [uint_text (nat v)])"
proof -
  have "nat (- v) < 2 ^ 64" "nat v < 2 ^ 64" using assms by simp_all
  then show ?thesis by (simp add: formatInt_def formatUint_text bytes_of_def)
qed

section \<open>Decimals can be read back\<close>

text \<open>Reading a decimal at a scale: the missing digits behind the point are zeros.\<close>

definition read_decimal :: "nat \<Rightarrow> byte list \<Rightarrow> int option" where
  "read_decimal scale s =
     (let neg = (s \<noteq> [] \<and> hd s = 45); t = (if neg then tl s else s); ip = takeWhile is_digit t; fr = drop (length ip + 1) t in
      map_option (\<lambda>n. if neg then - int n else int n) (parse_digits (2 ^ 63) 0 (ip @ fr @ replicate (scale - length fr) 48)))"

lemma strip_end_append: "strip_end c (s @ d # t) = (if strip_end c t = [] then strip_end c (s @ [d]) else s @ d # strip_end c t)"
  by (auto simp: strip_end_def dropWhile_append)

lemma strip_end_same: "d \<noteq> c \<Longrightarrow> strip_end c (s @ d # t) = s @ d # strip_end c t"
  by (subst strip_end_append) (simp add: strip_end_def)

lemma strip_end_restore: "strip_end c s @ replicate (length s - length (strip_end c s)) c = s"
proof (induction s rule: rev_induct)
  case (snoc x s)
  have le: "length (strip_end c s) \<le> length s" by (metis length_dropWhile_le length_rev strip_end_def)
  show ?case
  proof (cases "x = c")
    case True
    then have "strip_end c (s @ [x]) = strip_end c s" by (simp add: strip_end_def)
    moreover have "strip_end c s @ replicate (Suc (length s - length (strip_end c s))) c = s @ [c]"
    proof -
      have "strip_end c s @ replicate (Suc (length s - length (strip_end c s))) c
          = (strip_end c s @ replicate (length s - length (strip_end c s)) c) @ [c]" by (simp add: replicate_append_same)
      then show ?thesis unfolding snoc .
    qed
    ultimately show ?thesis using True le by (simp add: Suc_diff_le)
  qed (simp add: strip_end_def)
qed (simp add: strip_end_def)

lemma strip_end_last: "strip_end c s \<noteq> [] \<Longrightarrow> last (strip_end c s) \<noteq> c"
  using hd_dropWhile [of "\<lambda>x. x = c" "rev s"] by (auto simp: strip_end_def last_rev simp del: dropWhile_eq_Nil_conv)

lemma strip_end_set: "set (strip_end c s) \<subseteq> set s"
  by (auto simp: strip_end_def dest: set_dropWhileD)

lemma read_decimal_text:
  assumes s: "s = (if neg then [45] else []) @ ip @ rest" and ip: "list_all is_digit ip" "ip \<noteq> []"
    and rest: "rest = (if fr = [] then [] else 46 # fr)" and fr: "list_all is_digit fr" "length fr \<le> scale"
    and n: "digits_nat 0 (ip @ fr @ replicate (scale - length fr) 48) = n" "n \<le> 2 ^ 63"
  shows "read_decimal scale s = Some (if neg then - int n else int n)"
proof -
  obtain c cs where c: "ip = c # cs" using ip(2) by (cases ip) auto
  then have hd45: "c \<noteq> 45" using ip(1) by (auto simp: is_digit_def)
  have ng: "(s \<noteq> [] \<and> hd s = 45) = neg" using hd45 by (simp add: s c)
  have t: "(if neg then tl s else s) = ip @ rest" by (simp add: s)
  have tw: "takeWhile is_digit (ip @ rest) = ip"
    using ip(1) by (simp add: takeWhile_append list_all_iff rest is_digit_def)
  have dr: "drop (length ip + 1) (ip @ rest) = fr" by (simp add: rest)
  have z: "is_digit 48" by (simp add: is_digit_def)
  have "parse_digits (2 ^ 63) 0 (ip @ fr @ replicate (scale - length fr) 48) = Some n"
    using parse_digits_nat [of "ip @ fr @ replicate (scale - length fr) 48" 0 "2 ^ 63"] ip(1) fr(1) n z
    by (simp add: list_all_append zeros_digits)
  then show ?thesis by (simp only: read_decimal_def Let_def ng t tw dr option.map)
qed

lemma decimal_reads:
  assumes raw: "- (2 ^ 63) \<le> raw" "raw < 2 ^ 63" and scale: "scale \<le> 18"
  shows "\<exists>s. formatDecimalString raw scale = Some s \<and> read_decimal scale s = Some raw"
proof -
  define a where "a = nat \<bar>raw\<bar>"
  have a: "int a = \<bar>raw\<bar>" "a \<le> 2 ^ 63" using raw by (auto simp: a_def)
  have sg: "(if raw < 0 then - int a else int a) = raw" using a(1) by auto
  show ?thesis
  proof (cases "scale = 0")
    case True
    have f: "formatDecimalString raw scale = Some ((if raw < 0 then [45] else []) @ uint_text a @ [])"
      using True formatInt_text [OF raw] by (auto simp: formatDecimalString_def bufPrint_d_def a_def)
    show ?thesis
      using read_decimal_text [of _ "raw < 0" "uint_text a" "[]" "[]" scale a] uint_text_digits [of a] a(2) sg True
      unfolding f by simp
  next
    case False
    define F where "F = (10::nat) ^ scale"
    have F: "int F = 10 ^ scale" "F \<le> 10 ^ 18" "0 < F"
      using power_increasing [OF scale, of "10::nat"] by (simp_all add: F_def)
    have F10: "10 \<le> F" using False power_increasing [of 1 scale "10::nat"] by (simp add: F_def)
    define ip fr where "ip = a div F" and "fr = a mod F"
    have qr: "\<bar>raw\<bar> div 10 ^ scale = int ip" "\<bar>raw\<bar> mod 10 ^ scale = int fr"
      by (simp_all add: ip_def fr_def zdiv_int zmod_int F(1) flip: a(1))
    have small: "ip < 2 ^ 63" "fr < 2 ^ 63" "fr < F"
    proof -
      have "ip * 10 \<le> a" using F10 unfolding ip_def by (metis div_times_less_eq_dividend le_trans mult_le_mono2)
      then show "ip < 2 ^ 63" using a(2) by simp
      show "fr < F" using F(3) by (simp add: fr_def)
      then show "fr < 2 ^ 63" using F(2) by (simp add: less_le_trans)
    qed
    have i63: "int ip < 2 ^ 63" "int fr < 2 ^ 63" using small(1,2) by (simp_all add: nat_less_iff [symmetric])
    have p: "bufPrint_d (int ip) = Some (uint_text ip)" "bufPrint_d (int fr) = Some (uint_text fr)"
      using i63 formatInt_text [of "int ip"] formatInt_text [of "int fr"] by (simp_all add: bufPrint_d_def)
    have len: "length (uint_text n) \<le> k" if "n < 10 ^ k" "0 < k" for n k
      using length_uint_loop [OF that(1)] that(2) by (simp add: uint_text_def)
    have lf: "length (uint_text fr) \<le> scale" using small(3) False unfolding F_def by (intro len) auto
    have li: "length (uint_text ip) \<le> 19" using small(1) by (intro len) auto
    define P where "P = replicate (scale - length (uint_text fr)) 48 @ uint_text fr"
    have P: "length P = scale" "digits_nat 0 P = fr" "list_all is_digit P"
      using lf uint_text_digits [of fr] by (simp_all add: P_def digits_nat_zeros list_all_append zeros_digits is_digit_def)
    define S where "S = strip_end 48 P"
    have S: "S @ replicate (scale - length S) 48 = P" using strip_end_restore [of 48 P] P(1) by (simp add: S_def)
    have Sd: "list_all is_digit S" "length S \<le> scale"
      using P(3) strip_end_set [of 48 P] S P(1) by (auto simp: S_def list_all_iff) (metis le_add1 length_append)
    let ?s = "(if raw < 0 then [45] else []) @ uint_text ip @ (if S = [] then [] else 46 # S)"
    let ?A = "(if raw < 0 then [45] else []) @ uint_text ip"
    have cut: "strip_end 48 (?A @ 46 # P) = ?A @ 46 # S" by (simp add: strip_end_same S_def del: append_assoc)
    have "\<not> is_digit 46" by (simp add: is_digit_def)
    then have lastS: "S \<noteq> [] \<Longrightarrow> last S \<noteq> 46" using Sd(1) last_in_set by (metis list_all_iff)
    have fmt: "formatDecimalString raw scale = Some ?s"
    proof -
      have "(10::int) ^ scale \<le> 10 ^ 18" using scale by (intro power_increasing) auto
      then have ten: "\<not> 2 ^ 127 \<le> (10::int) ^ scale" by simp
      have buf: "(if raw < 0 then bytes_of ''-'' else []) @ uint_text ip @ bytes_of ''.'' @ replicate (scale - length (uint_text fr)) 48 @ uint_text fr
          = ?A @ 46 # P" by (simp add: P_def bytes_of_def)
      have "length (?A @ 46 # P) \<le> 64" using li P(1) scale by simp
      then show ?thesis
        unfolding formatDecimalString_def qr Let_def p prod.case option.case buf cut
        using False ten i63 lf lastS by (simp add: butlast_append)
    qed
    have "digits_nat 0 (uint_text ip @ S @ replicate (scale - length S) 48) = ip * 10 ^ scale + fr"
      unfolding S using uint_text_digits [of ip] digits_nat_shift [of ip P] P by simp
    also have "\<dots> = a" by (simp add: ip_def fr_def flip: F_def)
    finally have "read_decimal scale ?s = Some raw"
      using read_decimal_text [of ?s "raw < 0" "uint_text ip" _ S scale a] uint_text_digits [of ip] Sd a(2) sg by simp
    then show ?thesis using fmt by blast
  qed
qed

section \<open>Floats\<close>

abbreviation f64_mag :: "f64 \<Rightarrow> nat" where
  "f64_mag d \<equiv> f64_trunc_mag (f64_exp d) (f64_frac d)"

lemma unat_f64_less: "unat (d :: f64) < 2 ^ 64"
proof -
  have "unat d < 2 ^ LENGTH(64)" by (rule unsigned_less)
  then show ?thesis by simp
qed

lemma f64_split: "unat d = (unat d div 2 ^ 52) * 2 ^ 52 + f64_frac d"
  by (simp only: f64_frac_def div_mult_mod_eq)

lemma f64_fields_of_nat:
  assumes "u < 2 ^ 64"
  shows "f64_exp (of_nat u) = u div 2 ^ 52 mod 2 ^ 11" and "f64_frac (of_nat u) = u mod 2 ^ 52"
    and "f64_neg (of_nat u) \<longleftrightarrow> 2 ^ 63 \<le> u"
  using assms by (simp_all add: f64_exp_def f64_frac_def f64_neg_def unat_of_nat)

lemma f64_fields_inject:
  assumes "f64_exp d = f64_exp e" and "f64_frac d = f64_frac e" and "f64_neg d = f64_neg e"
  shows "d = e"
proof -
  have q: "unat x div 2 ^ 52 = (if f64_neg x then 2048 else 0) + f64_exp x" for x :: f64
  proof -
    define q where "q = unat x div 2 ^ 52"
    have "q < 4096" using unat_f64_less [of x] by (simp add: q_def less_mult_imp_div_less)
    moreover have "2048 \<le> q \<longleftrightarrow> f64_neg x" by (simp add: q_def f64_neg_def less_eq_div_iff_mult_less_eq)
    ultimately show ?thesis unfolding f64_exp_def q_def [symmetric] by (auto simp: mod_if le_mod_geq)
  qed
  have "unat d = unat e" using f64_split [of d] f64_split [of e] assms unfolding q by simp
  then show ?thesis by (simp only: word_unat_eq_iff)
qed

lemma f64_fields_bound: "f64_frac d < 2 ^ 52" "f64_exp d < 2 ^ 11"
  by (simp_all add: f64_frac_def f64_exp_def)

lemma f64_value_parts:
  assumes "f64_exp d \<noteq> 2047"
  shows "f64_value d = Some ((if f64_neg d then - 1 else 1) * real (if f64_exp d = 0 then f64_frac d else 2 ^ 52 + f64_frac d)
    * 2 powi (int (if f64_exp d = 0 then 1 else f64_exp d) - 1075))"
  using assms by (simp add: f64_value_def f64_decode_fields fp_value_def algebra_simps)

lemma f64_trunc_small:
  assumes "f64_exp d < 1023"
  shows "f64_mag d = 0" and "f64_exp (f64_trunc d) = 0" and "f64_frac (f64_trunc d) = 0"
proof -
  have "(if f64_exp d = 0 then f64_frac d else 2 ^ 52 + f64_frac d) < 2 ^ 53" using f64_fields_bound(1) [of d] by simp
  also have "(2::nat) ^ 53 \<le> 2 ^ (1075 - (if f64_exp d = 0 then 1 else f64_exp d))" using assms by (intro power_increasing) auto
  finally show "f64_mag d = 0" using assms by (simp add: f64_trunc_mag_def Let_def)
  show "f64_exp (f64_trunc d) = 0" "f64_frac (f64_trunc d) = 0"
    using assms f64_fields_of_nat(1,2) [of "2 ^ 63"] f64_fields_of_nat(1,2) [of 0] by (simp_all add: f64_trunc_def)
qed

lemma f64_trunc_middle:
  assumes e: "1023 \<le> f64_exp d" "f64_exp d < 1075"
  shows "f64_exp (f64_trunc d) = f64_exp d" and "f64_neg (f64_trunc d) = f64_neg d"
    and "2 ^ 52 + f64_frac (f64_trunc d) = f64_mag d * 2 ^ (1075 - f64_exp d)"
    and "(2 ^ 52 + f64_frac d) mod 2 ^ (1075 - f64_exp d) = f64_frac d - f64_frac (f64_trunc d)" and "f64_frac (f64_trunc d) \<le> f64_frac d"
proof -
  define k where "k = 1075 - f64_exp d"
  define q fr where "q = unat d div 2 ^ 52" and "fr = f64_frac d"
  have k: "k \<le> 52" using e by (simp add: k_def)
  have fr: "fr < 2 ^ 52" unfolding fr_def by (rule f64_fields_bound)
  have u: "unat d = q * 2 ^ 52 + fr" unfolding q_def fr_def by (rule f64_split)
  have p: "(2::nat) ^ 52 = 2 ^ (52 - k) * 2 ^ k" using k by (simp flip: power_add)
  have r: "unat d mod 2 ^ k = fr mod 2 ^ k" unfolding u p by (simp flip: mult.assoc)
  define s where "s = fr - fr mod 2 ^ k"
  have sub: "unat d - unat d mod 2 ^ k = q * 2 ^ 52 + s"
    unfolding r s_def using u mod_less_eq_dividend [of fr "2 ^ k"] by linarith
  have lt: "unat d - unat d mod 2 ^ k < 2 ^ 64" using unat_f64_less [of d] by (simp add: less_imp_diff_less)
  have fr': "s < 2 ^ 52" using fr by (simp add: s_def)
  have tr: "f64_trunc d = of_nat (q * 2 ^ 52 + s)" using e sub by (simp add: f64_trunc_def k_def)
  note f = f64_fields_of_nat [OF lt [unfolded sub], folded tr]
  show "f64_exp (f64_trunc d) = f64_exp d"
  proof -
    have "(q * 2 ^ 52 + s) div 2 ^ 52 mod 2 ^ 11 = q mod 2 ^ 11" if "s < 2 ^ 52" for s :: nat using that by simp
    then show ?thesis unfolding f(1) by (simp only: fr' f64_exp_def q_def)
  qed
  have nf: "f64_frac (f64_trunc d) = s" unfolding f(2) using fr' by simp
  show "f64_neg (f64_trunc d) = f64_neg d" 
  proof -
    have "2 ^ 63 \<le> q * 2 ^ 52 + x \<longleftrightarrow> 2 ^ 11 \<le> q" if "x < 2 ^ 52" for x :: nat
      using that by (intro iffI; simp; linarith)
    then show ?thesis unfolding f(3) using fr fr' by (simp add: f64_neg_def u)
  qed
  show "f64_frac (f64_trunc d) \<le> f64_frac d" by (simp add: nf s_def fr_def)
  have m: "(2 ^ 52 + fr) mod 2 ^ k = fr mod 2 ^ k" unfolding p by simp
  show "(2 ^ 52 + f64_frac d) mod 2 ^ (1075 - f64_exp d) = f64_frac d - f64_frac (f64_trunc d)"
    using m by (simp add: nf s_def fr_def k_def)
  have "f64_mag d = (2 ^ 52 + fr) div 2 ^ k" using e by (simp add: f64_trunc_mag_def Let_def k_def fr_def)
  then have "f64_mag d * 2 ^ k = 2 ^ 52 + fr - fr mod 2 ^ k" by (simp only: m [symmetric] minus_mod_eq_div_mult)
  then show "2 ^ 52 + f64_frac (f64_trunc d) = f64_mag d * 2 ^ (1075 - f64_exp d)" by (simp add: nf s_def k_def)
qed

lemma f64_trunc_value:
  assumes ne: "f64_exp d \<noteq> 2047"
  shows "f64_value (f64_trunc d) = Some (if f64_neg d then - real (f64_mag d) else real (f64_mag d))"
    and "f64_mag (f64_trunc d) = f64_mag d" and "f64_exp (f64_trunc d) \<noteq> 2047"
proof -
  consider "f64_exp d < 1023" | "1023 \<le> f64_exp d" "f64_exp d < 1075" | "1075 \<le> f64_exp d" by linarith
  then have "f64_value (f64_trunc d) = Some (if f64_neg d then - real (f64_mag d) else real (f64_mag d))
    \<and> f64_mag (f64_trunc d) = f64_mag d \<and> f64_exp (f64_trunc d) \<noteq> 2047"
  proof cases
    case 1
    note s = f64_trunc_small [OF this]
    have "f64_mag (f64_trunc d) = 0" by (simp add: s(2,3) f64_trunc_mag_def)
    then show ?thesis using f64_value_parts [of "f64_trunc d"] by (simp add: s)
  next
    case 2
    note t = f64_trunc_middle [OF this]
    have "(2::real) powi (int (f64_exp d) - 1075) = 1 / 2 ^ (1075 - f64_exp d)"
      using 2 by (simp add: power_int_def nat_diff_distrib' field_simps)
    then have "real (2 ^ 52 + f64_frac (f64_trunc d)) * 2 powi (int (f64_exp d) - 1075) = real (f64_mag d)" unfolding t(3) by simp
    moreover have "f64_mag (f64_trunc d) = (2 ^ 52 + f64_frac (f64_trunc d)) div 2 ^ (1075 - f64_exp d)"
      unfolding t(1) using 2 by (simp add: f64_trunc_mag_def Let_def)
    then have "f64_mag (f64_trunc d) = f64_mag d" unfolding t(3) by simp
    ultimately show ?thesis using f64_value_parts [of "f64_trunc d"] 2 by (simp add: t(1,2) mult.assoc)
  next
    case 3
    have "(2::real) powi (int (f64_exp d) - 1075) = 2 ^ (f64_exp d - 1075)"
      using 3 by (simp add: power_int_def nat_diff_distrib')
    then show ?thesis using 3 ne f64_value_parts [OF ne] by (simp add: f64_trunc_def f64_trunc_mag_def Let_def algebra_simps)
  qed
  then show "f64_value (f64_trunc d) = Some (if f64_neg d then - real (f64_mag d) else real (f64_mag d))"
    and "f64_mag (f64_trunc d) = f64_mag d" and "f64_exp (f64_trunc d) \<noteq> 2047" by auto
qed

lemma f64_negate_fields:
  assumes "f64_neg d"
  shows "f64_exp (f64_negate d) = f64_exp d" and "f64_frac (f64_negate d) = f64_frac d" and "\<not> f64_neg (f64_negate d)"
proof -
  have lo: "2 ^ 63 \<le> unat d" using assms by (simp add: f64_neg_def)
  have u: "unat (f64_negate d) = unat d - 2 ^ 63"
  proof -
    have "unat (f64_negate d) = (unat d + 2 ^ 63) mod 2 ^ 64" by (simp add: f64_negate_def unat_word_ariths)
    also have "unat d + 2 ^ 63 = (unat d - 2 ^ 63) + 2 ^ 64" using lo by simp
    also have "\<dots> mod 2 ^ 64 = unat d - 2 ^ 63" using unat_f64_less [of d] by (simp only: mod_add_self2) (simp add: less_imp_diff_less)
    finally show ?thesis .
  qed
  define w where "w = unat d - 2 ^ 63"
  have d: "unat d = w + 2 ^ 11 * 2 ^ 52" using lo by (simp add: w_def)
  have f: "f64_frac (f64_negate d) = w mod 2 ^ 52" "f64_exp (f64_negate d) = w div 2 ^ 52 mod 2 ^ 11"
    by (simp_all add: f64_frac_def f64_exp_def u w_def)
  have "f64_exp d = w div 2 ^ 52 mod 2 ^ 11" unfolding f64_exp_def d by (simp only: div_mult_self1 mod_add_self1 mod_add_self2 zero_neq_numeral power_not_zero simp_thms)
  then show "f64_exp (f64_negate d) = f64_exp d" by (simp only: f)
  have "f64_frac d = w mod 2 ^ 52" unfolding f64_frac_def d by (simp only: mod_mult_self1)
  then show "f64_frac (f64_negate d) = f64_frac d" by (simp only: f)
  show "\<not> f64_neg (f64_negate d)" using unat_f64_less [of d] by (simp add: f64_neg_def u)
qed

lemma f64_ten_value: "f64_value f64_ten = Some 10"
proof -
  have "f64_exp f64_ten = 1026" "f64_frac f64_ten = 2 ^ 50" "\<not> f64_neg f64_ten"
    by (simp_all add: f64_exp_def f64_frac_def f64_neg_def f64_ten_def)
  then show ?thesis by (simp add: f64_value_parts power_int_def power_one_over)
qed

lemma f64_trunc_nonneg:
  assumes "f64_value d = Some x" and "0 \<le> x"
  shows "f64_value (f64_trunc d) = Some (real (f64_mag d))" and "real (f64_mag d) \<le> x" and "x - real (f64_mag d) \<le> real (1::nat)"
proof -
  note t = f64_value_trunc [OF assms(1)]
  have "f64_neg d \<Longrightarrow> f64_mag d = 0" using t(2,4) assms(2) by simp
  then show "f64_value (f64_trunc d) = Some (real (f64_mag d))" using f64_trunc_value(1) [OF t(1)] by auto
  show "real (f64_mag d) \<le> x" "x - real (f64_mag d) \<le> real (1::nat)" using t(2,3) assms(2) by auto
qed

lemma frac_digits_ok:
  assumes "f64_value fr = Some x" and "0 \<le> x" and "x \<le> 1"
  shows "\<exists>ds. frac_digits k fr = Some ds \<and> length ds = k"
  using assms
proof (induction k arbitrary: fr x)
  case (Suc k)
  let ?m = "f64_mul fr f64_ten"
  obtain z where z: "f64_value ?m = Some z" "0 \<le> z" "z \<le> real (10::nat)"
    using f64_mul_le [OF Suc.prems(1,2) f64_ten_value, of 10] Suc.prems(3) by auto
  note t = f64_trunc_nonneg [OF z(1,2)]
  have ne: "f64_exp ?m \<noteq> 2047" using f64_value_trunc(1) [OF z(1)] .
  have ten: "f64_mag ?m \<le> 10" using t(2) z(3) by simp
  obtain y where "f64_value (f64_sub ?m (f64_trunc ?m)) = Some y" "0 \<le> y" "y \<le> real (1::nat)"
    using f64_sub_le [OF z(1) t] by auto
  then obtain ds where "frac_digits k (f64_sub ?m (f64_trunc ?m)) = Some ds" "length ds = k" using Suc.IH by force
  then show ?case using f64_trunc_value(2,3) [OF ne] ten by (simp add: Let_def)
qed simp

lemma f64_mag_bound: "f64_exp d < 1087 \<Longrightarrow> f64_mag d < 2 ^ 64"
proof -
  assume e: "f64_exp d < 1087"
  define m where "m = (if f64_exp d = 0 then f64_frac d else 2 ^ 52 + f64_frac d)"
  define sc where "sc = (if f64_exp d = 0 then 1 else f64_exp d)"
  have m: "m < 2 ^ 53" using f64_fields_bound(1) [of d] by (simp add: m_def)
  have t: "f64_mag d = (if 1075 \<le> sc then m * 2 ^ (sc - 1075) else m div 2 ^ (1075 - sc))"
    unfolding f64_trunc_mag_def Let_def m_def sc_def by (rule refl)
  show ?thesis
  proof (cases "1075 \<le> sc")
    case True
    have "(2::nat) ^ (sc - 1075) \<le> 2 ^ 11" using e by (intro power_increasing) (auto simp: sc_def)
    then have "m * 2 ^ (sc - 1075) < 2 ^ 53 * 2 ^ 11" using m by (intro mult_less_le_imp_less) auto
    then show ?thesis using True t by simp
  next
    case False
    then have "f64_mag d \<le> m" using t by simp
    then show ?thesis using m by simp
  qed
qed

definition f64_magnitude :: "f64 \<Rightarrow> f64" where
  "f64_magnitude v = (if f64_neg v \<and> \<not> f64_is_zero v then f64_negate v else v)"

definition f64_abs :: "nat \<Rightarrow> nat \<Rightarrow> real" where
  "f64_abs e f = real (if e = 0 then f else 2 ^ 52 + f) * 2 powi (int (if e = 0 then 1 else e) - 1075)"

lemma f64_value_abs:
  assumes "f64_exp d \<noteq> 2047"
  shows "f64_value d = Some (if f64_neg d then - f64_abs (f64_exp d) (f64_frac d) else f64_abs (f64_exp d) (f64_frac d))"
  unfolding f64_value_parts [OF assms] f64_abs_def by (simp only: mult.assoc mult_1 mult_minus1 split: if_split) simp

lemma f64_abs_facts: "0 \<le> f64_abs e f" "f64_abs e f = 0 \<longleftrightarrow> e = 0 \<and> f = 0"
  by (auto simp: f64_abs_def)

lemma f64_abs_of_value: "f64_value d = Some x \<Longrightarrow> f64_abs (f64_exp d) (f64_frac d) = \<bar>x\<bar>"
  using f64_value_abs [of d] f64_value_trunc(1) [of d x] f64_abs_facts(1) [of "f64_exp d" "f64_frac d"] by (auto split: if_splits)

lemma f64_abs_inject: "f64_abs e f = f64_abs e g \<longleftrightarrow> f = g"
  by (simp add: f64_abs_def)

lemma f64_magnitude_props:
  assumes "f64_value v = Some x"
  shows "f64_value (f64_magnitude v) = Some \<bar>x\<bar>" and "f64_exp (f64_magnitude v) = f64_exp v"
    and "f64_neg v \<and> \<not> f64_is_zero v \<longleftrightarrow> x < 0"
proof -
  note t = f64_value_trunc [OF assms]
  let ?m = "f64_abs (f64_exp v) (f64_frac v)"
  have x: "x = (if f64_neg v then - ?m else ?m)" using assms f64_value_abs [OF t(1)] by simp
  have z: "f64_is_zero v \<longleftrightarrow> ?m = 0" by (simp add: f64_is_zero_def f64_abs_facts)
  have m: "0 \<le> ?m" by (rule f64_abs_facts)
  show "f64_neg v \<and> \<not> f64_is_zero v \<longleftrightarrow> x < 0" using m unfolding z x by auto
  show e: "f64_exp (f64_magnitude v) = f64_exp v" by (simp add: f64_magnitude_def f64_negate_fields)
  have fr: "f64_frac (f64_magnitude v) = f64_frac v" by (simp add: f64_magnitude_def f64_negate_fields)
  have "f64_neg (f64_magnitude v) \<Longrightarrow> ?m = 0" using z f64_negate_fields(3) [of v] by (auto simp: f64_magnitude_def split: if_splits)
  then have "f64_value (f64_magnitude v) = Some ?m" using f64_value_abs [of "f64_magnitude v"] t(1) by (auto simp: e fr)
  moreover have "\<bar>x\<bar> = ?m" using m unfolding x by simp
  ultimately show "f64_value (f64_magnitude v) = Some \<bar>x\<bar>" by simp
qed

lemma writeF64_finite:
  assumes v: "f64_value v = Some x"
  shows "writeF64 v =
    (let sign = (if x < 0 then [bytes_of ''-''] else []); n = f64_magnitude v; ip = f64_trunc n in
     if 1087 \<le> f64_exp ip then Some (sign @ [bytes_of ''?''])
     else case formatUint (f64_mag ip) of None \<Rightarrow> None
     | Some s \<Rightarrow> if ip = n \<or> f64_is_zero ip \<and> f64_is_zero n then Some (sign @ [s])
         else map_option (\<lambda>ds. sign @ [s, bytes_of ''.'', drop_zeros ds]) (frac_digits 6 (f64_sub n ip)))"
  using f64_value_trunc(1) [OF v] f64_magnitude_props(3) [OF v]
  by (simp add: writeF64_def f64_is_nan_def Let_def f64_magnitude_def)

lemma f64_exp_trunc: "f64_exp (f64_trunc d) \<le> f64_exp d"
  using f64_trunc_small(2) [of d] f64_trunc_middle(1) [of d] by (cases "f64_exp d < 1023"; cases "f64_exp d < 1075") (auto simp: f64_trunc_def)

lemma writeF64_ok: "\<exists>out. writeF64 v = Some out"
proof (cases "f64_exp v = 2047")
  case True
  then show ?thesis by (simp add: writeF64_def)
next
  case False
  then obtain x where v: "f64_value v = Some x" using f64_value_parts by blast
  let ?n = "f64_magnitude v" and ?ip = "f64_trunc (f64_magnitude v)"
  note n = f64_magnitude_props(1) [OF v]
  have ax: "0 \<le> \<bar>x\<bar>" by simp
  note t = f64_trunc_nonneg [OF n ax]
  obtain z where z: "f64_value (f64_sub ?n ?ip) = Some z" "0 \<le> z" "z \<le> real (1::nat)"
    using f64_sub_le [OF n t] by auto
  obtain ds where "frac_digits 6 (f64_sub ?n ?ip) = Some ds" using frac_digits_ok [OF z(1,2)] z(3) by auto
  moreover have "f64_exp ?ip < 1087 \<Longrightarrow> formatUint (f64_mag ?ip) = Some (uint_text (f64_mag ?ip))"
    by (intro formatUint_text f64_mag_bound)
  ultimately show ?thesis by (auto simp: writeF64_finite [OF v] Let_def)
qed

lemma float_int_text:
  assumes v: "f64_value v = Some (real_of_int n)" and n: "\<bar>n\<bar> < 2 ^ 64"
  shows "writeF64 v = Some (if n < 0 then [[45], uint_text (nat (- n))] else [uint_text (nat n)])"
proof -
  let ?m = "f64_magnitude v" and ?ip = "f64_trunc (f64_magnitude v)"
  note m = f64_magnitude_props(1) [OF v]
  have ax: "0 \<le> \<bar>real_of_int n\<bar>" by simp
  note t = f64_trunc_nonneg [OF m ax]
  have "\<bar>real_of_int n\<bar> = real (nat \<bar>n\<bar>)" by simp
  then have "real (f64_mag ?m) \<le> real (nat \<bar>n\<bar>)" "real (nat \<bar>n\<bar>) < real (f64_mag ?m + 1)" using t(2) f64_value_trunc(3) [OF m] by auto
  then have mag: "f64_mag ?m = nat \<bar>n\<bar>" by (simp only: of_nat_le_iff of_nat_less_iff)
  have ne: "f64_exp ?m \<noteq> 2047" by (rule f64_value_trunc(1) [OF m])
  note tr = f64_trunc_value(2) [OF ne]
  have same: "?ip = ?m \<or> f64_is_zero ?ip \<and> f64_is_zero ?m" and exp: "f64_exp ?ip < 1087"
  proof -
    consider "f64_exp ?m < 1023" | "1023 \<le> f64_exp ?m" "f64_exp ?m < 1075" | "1075 \<le> f64_exp ?m" by linarith
    then have "(?ip = ?m \<or> f64_is_zero ?ip \<and> f64_is_zero ?m) \<and> f64_exp ?ip < 1087"
    proof cases
      case 1
      note s = f64_trunc_small [OF 1]
      have "n = 0" using mag s(1) by simp
      then have "f64_value ?m = Some 0" using m by simp
      then have "f64_is_zero ?m" using f64_value_parts [OF ne] by (auto simp: f64_is_zero_def split: if_splits)
      then show ?thesis using s by (simp add: f64_is_zero_def)
    next
      case 2
      note s = f64_trunc_middle [OF 2]
      have "f64_abs (f64_exp ?m) (f64_frac ?ip) = f64_abs (f64_exp ?m) (f64_frac ?m)"
        using f64_abs_of_value [OF m] f64_abs_of_value [OF t(1)] mag unfolding s(1) by simp
      then have "f64_frac ?ip = f64_frac ?m" by (simp only: f64_abs_inject)
      then show ?thesis using f64_fields_inject [OF s(1) _ s(2)] s(1) 2 by auto
    next
      case 3
      then have "?ip = ?m" by (simp add: f64_trunc_def)
      moreover have "f64_exp ?m < 1087"
      proof (rule ccontr)
        assume big: "\<not> f64_exp ?m < 1087"
        have "(2::nat) ^ 12 \<le> 2 ^ (f64_exp ?m - 1075)" using big by (intro power_increasing) auto
        then have "2 ^ 52 * 2 ^ 12 \<le> (2 ^ 52 + f64_frac ?m) * 2 ^ (f64_exp ?m - 1075)" by (intro mult_le_mono) auto
        then have "2 ^ 64 \<le> f64_mag ?m" using big 3 by (simp add: f64_trunc_mag_def Let_def)
        then show False using mag n by simp
      qed
      ultimately show ?thesis by simp
    qed
    then show "?ip = ?m \<or> f64_is_zero ?ip \<and> f64_is_zero ?m" "f64_exp ?ip < 1087" by auto
  qed
  have "formatUint (f64_mag ?ip) = Some (uint_text (nat \<bar>n\<bar>))"
    using n by (subst formatUint_text) (auto simp: tr mag)
  then show ?thesis using same exp by (simp add: writeF64_finite [OF v] Let_def bytes_of_def)
qed

lemmas fp_eval = fp_decode_def double_format_facts fp_make_def fp_round_def fp_sign_def fp_exponent_def fp_significand_def flog2_def scale2_def
  round_even_def fin_add_def signed_mant_def ilog2.simps Let_def

lemma frac_step:
  assumes "f64_mul fr f64_ten = p" and "f64_exp p \<noteq> 2047" and "f64_mag p = n" and "f64_trunc p = d" and "f64_sub p d = fr'" and "n < 208"
  shows "frac_digits (Suc k) fr = map_option (\<lambda>ds. digit_byte n # ds) (frac_digits k fr')"
proof -
  have "f64_mag d = n" using f64_trunc_value(2) [OF assms(2)] assms(3,4) by simp
  then show ?thesis using assms f64_trunc_value(3) [OF assms(2)] by (simp add: Let_def)
qed

text \<open>The digits behind the point are cut, not rounded, after multiplications by ten that are rounded themselves: the double nearest to 2.3 is
  printed as 2.299999.\<close>

theorem float_text_truncates: "map_option concat (writeF64 0x4002666666666666) = Some (bytes_of ''2.299999'')"
proof -
  have mul: "f64_mul 0x3FD3333333333330 f64_ten = 0x4007FFFFFFFFFFFC" "f64_mul 0x3FEFFFFFFFFFFFF0 f64_ten = 0x4023FFFFFFFFFFF6"
    "f64_mul 0x3FEFFFFFFFFFFF60 f64_ten = 0x4023FFFFFFFFFF9C" "f64_mul 0x3FEFFFFFFFFFF9C0 f64_ten = 0x4023FFFFFFFFFC18"
    "f64_mul 0x3FEFFFFFFFFFC180 f64_ten = 0x4023FFFFFFFFD8F0" "f64_mul 0x3FEFFFFFFFFD8F00 f64_ten = 0x4023FFFFFFFE7960"
    by (simp_all add: f64_mul_def f64_ten_def fp_eval)
  have sub: "f64_sub 0x4002666666666666 0x4000000000000000 = 0x3FD3333333333330" "f64_sub 0x4007FFFFFFFFFFFC 0x4000000000000000 = 0x3FEFFFFFFFFFFFF0"
    "f64_sub 0x4023FFFFFFFFFFF6 0x4022000000000000 = 0x3FEFFFFFFFFFFF60" "f64_sub 0x4023FFFFFFFFFF9C 0x4022000000000000 = 0x3FEFFFFFFFFFF9C0"
    "f64_sub 0x4023FFFFFFFFFC18 0x4022000000000000 = 0x3FEFFFFFFFFFC180" "f64_sub 0x4023FFFFFFFFD8F0 0x4022000000000000 = 0x3FEFFFFFFFFD8F00"
    "f64_sub 0x4023FFFFFFFE7960 0x4022000000000000 = 0x3FEFFFFFFFE79600"
    by (simp_all add: f64_sub_def fp_eval)
  note fields = f64_exp_def f64_frac_def f64_neg_def f64_trunc_mag_def f64_trunc_def Let_def
  have six: "(6::nat) = Suc (Suc (Suc (Suc (Suc (Suc 0)))))" by simp
  have s1: "frac_digits (Suc k) 0x3FD3333333333330 = map_option (\<lambda>ds. digit_byte 2 # ds) (frac_digits k 0x3FEFFFFFFFFFFFF0)" for k
    by (rule frac_step, rule mul, simp add: fields, simp add: fields, simp add: fields, rule sub, simp)
  have s2: "frac_digits (Suc k) 0x3FEFFFFFFFFFFFF0 = map_option (\<lambda>ds. digit_byte 9 # ds) (frac_digits k 0x3FEFFFFFFFFFFF60)" for k
    by (rule frac_step, rule mul, simp add: fields, simp add: fields, simp add: fields, rule sub, simp)
  have s3: "frac_digits (Suc k) 0x3FEFFFFFFFFFFF60 = map_option (\<lambda>ds. digit_byte 9 # ds) (frac_digits k 0x3FEFFFFFFFFFF9C0)" for k
    by (rule frac_step, rule mul, simp add: fields, simp add: fields, simp add: fields, rule sub, simp)
  have s4: "frac_digits (Suc k) 0x3FEFFFFFFFFFF9C0 = map_option (\<lambda>ds. digit_byte 9 # ds) (frac_digits k 0x3FEFFFFFFFFFC180)" for k
    by (rule frac_step, rule mul, simp add: fields, simp add: fields, simp add: fields, rule sub, simp)
  have s5: "frac_digits (Suc k) 0x3FEFFFFFFFFFC180 = map_option (\<lambda>ds. digit_byte 9 # ds) (frac_digits k 0x3FEFFFFFFFFD8F00)" for k
    by (rule frac_step, rule mul, simp add: fields, simp add: fields, simp add: fields, rule sub, simp)
  have s6: "frac_digits (Suc k) 0x3FEFFFFFFFFD8F00 = map_option (\<lambda>ds. digit_byte 9 # ds) (frac_digits k 0x3FEFFFFFFFE79600)" for k
    by (rule frac_step, rule mul, simp add: fields, simp add: fields, simp add: fields, rule sub, simp)
  have "frac_digits (Suc (Suc (Suc (Suc (Suc (Suc 0)))))) 0x3FD3333333333330 = Some (map digit_byte [2, 9, 9, 9, 9, 9])"
    by (simp only: s1 s2 s3 s4 s5 s6 frac_digits.simps(1) option.map list.map)
  then have "frac_digits 6 0x3FD3333333333330 = Some (map digit_byte [2, 9, 9, 9, 9, 9])" by (simp only: six)
  note digits = this
  define v ip where "v = (0x4002666666666666 :: f64)" and "ip = (0x4000000000000000 :: f64)"
  have v: "\<not> f64_is_nan v" "f64_exp v \<noteq> 2047" "\<not> f64_neg v" "\<not> f64_is_zero v" "ip \<noteq> v"
    by (simp_all add: v_def ip_def f64_is_nan_def f64_is_zero_def fields)
  have ip: "f64_trunc v = ip" "\<not> 1087 \<le> f64_exp ip" "f64_mag ip = 2" by (simp_all add: v_def ip_def fields)
  have two: "formatUint 2 = Some [50]" using formatUint_text [of 2] by (simp add: uint_text_def uint_loop.simps digit_byte_def)
  have "frac_digits 6 (f64_sub v ip) = Some (map digit_byte [2, 9, 9, 9, 9, 9])" unfolding v_def ip_def sub(1) by (rule digits)
  then have "writeF64 v = Some [[50], bytes_of ''.'', drop_zeros (map digit_byte [2, 9, 9, 9, 9, 9])]"
    using v ip two by (simp add: writeF64_def Let_def)
  then show ?thesis unfolding v_def by (simp add: drop_zeros_def strip_end_def digit_byte_def bytes_of_def)
qed

end
