(* ===== verification/ValuePrintClaims.thy ===== *)
theory ValuePrintClaims
  imports ValuePrintProps
begin

text \<open>
  Printing on whole heaps: it ends and leaves the chain of ancestors as it found it, cycles included; a value that unfolds within 64 levels is
  printed as its unfolding; a big integer whose digits cannot be allocated stays on the chain, which an array of them overruns.
\<close>

section \<open>Heaps that printing can read\<close>

definition value_ok :: "obj_heap \<Rightarrow> pvalue \<Rightarrow> bool" where
  "value_ok h v = (case v of
     PInt n \<Rightarrow> - (2 ^ 63) \<le> n \<and> n < 2 ^ 63
   | PDecimal n \<Rightarrow> - (2 ^ 63) \<le> n \<and> n < 2 ^ 63
   | PRune r \<Rightarrow> r < 2 ^ 21
   | PObject a \<Rightarrow> h a \<noteq> None
   | PInlineVariant iv \<Rightarrow>
       (case variant_type_at h (unat (iv_typ_idx iv)) of None \<Rightarrow> False | Some (_, arms) \<Rightarrow> unat (iv_ordinal iv) < length arms)
   | _ \<Rightarrow> True)"

definition piece_ok :: "obj_heap \<Rightarrow> piece \<Rightarrow> bool" where
  "piece_ok h p = (case p of Write s \<Rightarrow> True | Print v \<Rightarrow> value_ok h v)"

definition named_ok :: "obj_heap \<Rightarrow> nat \<Rightarrow> bool" where
  "named_ok h t = (case h t of None \<Rightarrow> False | Some (ONamedType _ _ scale) \<Rightarrow> scale \<le> 18 | Some _ \<Rightarrow> True)"

definition object_ok :: "obj_heap \<Rightarrow> Object \<Rightarrow> bool" where
  "object_ok h ob = (case ob of
     OBigint _ \<Rightarrow> True
   | ONamedValue t v \<Rightarrow> named_ok h t \<and> value_ok h v
   | _ \<Rightarrow> (case object_pieces h ob of None \<Rightarrow> False | Some ps \<Rightarrow> list_all (piece_ok h) ps))"

text \<open>Every object can be read, and named values are nested to a finite depth: \<open>rank\<close> goes down from a named value to one that it names.\<close>

definition heap_ok :: "(nat \<Rightarrow> nat) \<Rightarrow> obj_heap \<Rightarrow> bool" where
  "heap_ok rank h \<longleftrightarrow> (\<forall>a ob. h a = Some ob \<longrightarrow> object_ok h ob)
     \<and> (\<forall>a t b t' v. h a = Some (ONamedValue t (PObject b)) \<and> h b = Some (ONamedValue t' v) \<longrightarrow> rank b < rank a)"

lemma object_ok_pieces:
  assumes "object_ok h ob"
  shows "(\<exists>n. ob = OBigint n) \<or> (\<exists>ps. object_pieces h ob = Some ps \<and> list_all (piece_ok h) ps)"
proof (cases ob)
  case (ONamedValue t v)
  then show ?thesis using assms by (simp add: object_ok_def object_pieces_def piece_ok_def)
qed (use assms in \<open>auto simp: object_ok_def split: option.splits\<close>)

lemma named_decimal_Some: "named_decimal ty x = Some (d, s) \<Longrightarrow> (\<exists>n b. ty = ONamedType n b s) \<and> x = PDecimal d"
  by (auto simp: named_decimal_def split: Object.splits pvalue.splits if_splits)

lemma decimal_step_object:
  assumes "h a = Some ob"
  shows "(\<exists>t x. ob = ONamedValue t x) \<or> decimal_step h (PObject a) = Some (Inl None)"
  using assms by (cases ob) (simp_all add: decimal_step_def)

lemma decimal_step_other: "\<forall>a. v \<noteq> PObject a \<Longrightarrow> decimal_step h v = Some (Inl (case v of PDecimal d \<Rightarrow> Some (d, 0) | _ \<Rightarrow> None))"
  by (cases v) (simp_all add: decimal_step_def)

definition decimal_fits :: "pvalue \<Rightarrow> (int \<times> nat) option \<Rightarrow> bool" where
  "decimal_fits v r = (case r of None \<Rightarrow> (\<forall>d. v \<noteq> PDecimal d) | Some (raw, scale) \<Rightarrow> - (2 ^ 63) \<le> raw \<and> raw < 2 ^ 63 \<and> scale \<le> 18)"

lemma decimal_here:
  assumes "decimal_step h v = Some (Inl r)" and "decimal_fits v r"
  shows "\<exists>r. decimalRawAndScale h v = Some r \<and> decimal_fits v r"
  using assms by (intro exI [of _ r]) (subst decimalRawAndScale.simps, simp)

lemma decimal_total:
  assumes h: "heap_ok rank h" and v: "value_ok h v"
  shows "\<exists>r. decimalRawAndScale h v = Some r \<and> decimal_fits v r"
  using v
proof (induction "case v of PObject a \<Rightarrow> rank a | _ \<Rightarrow> 0" arbitrary: v rule: less_induct)
  case less
  show ?case
  proof (cases "\<exists>a. v = PObject a")
    case False
    then show ?thesis
      using less.prems by (intro decimal_here) (rule decimal_step_other, simp, auto simp: decimal_fits_def value_ok_def split: pvalue.splits)
  next
    case True
    then obtain a ob where a: "v = PObject a" "h a = Some ob" using less.prems by (auto simp: value_ok_def)
    then have ok: "object_ok h ob" using h by (simp add: heap_ok_def)
    from decimal_step_object [of h a ob, OF a(2)] show ?thesis
    proof
      assume "decimal_step h (PObject a) = Some (Inl None)"
      then show ?thesis unfolding a(1) by (rule decimal_here) (simp add: decimal_fits_def)
    next
      assume "\<exists>t x. ob = ONamedValue t x"
      then obtain t x where ob: "ob = ONamedValue t x" by blast
      obtain ty where ty: "h t = Some ty" using ok by (auto simp: ob object_ok_def named_ok_def split: option.splits)
      have x: "value_ok h x" using ok by (simp add: ob object_ok_def)
      show ?thesis
      proof (cases "named_decimal ty x")
        case (Some r)
        obtain d s where r: "r = (d, s)" by (cases r)
        then have "decimal_fits v (Some r)"
          using named_decimal_Some [of ty x d s] Some x ok ty by (auto simp: ob object_ok_def named_ok_def decimal_fits_def value_ok_def)
        then show ?thesis using Some a ty by (intro decimal_here) (auto simp: decimal_step_def ob)
      next
        case None
        have st: "decimal_step h v = Some (Inr x)" using None a ty by (simp add: decimal_step_def ob)
        have "\<exists>r. decimalRawAndScale h x = Some r \<and> decimal_fits x r"
        proof (cases "\<exists>b t' y. x = PObject b \<and> h b = Some (ONamedValue t' y)")
          case True
          then obtain b t' y where b: "x = PObject b" "h b = Some (ONamedValue t' y)" by blast
          then have "rank b < rank a" using h a(2) unfolding ob heap_ok_def by blast
          then show ?thesis using less.hyps [of x] x a(1) b(1) by simp
        next
          case False
          show ?thesis
          proof (cases "\<exists>b. x = PObject b")
            case True
            then obtain b ob' where b: "x = PObject b" "h b = Some ob'" using x by (auto simp: value_ok_def)
            then have "decimal_step h x = Some (Inl None)" using False decimal_step_object [of h b ob', OF b(2)] by auto
            then show ?thesis by (rule decimal_here) (simp add: decimal_fits_def b(1))
          next
            case no: False
            then show ?thesis
              using x by (intro decimal_here) (rule decimal_step_other, simp, auto simp: decimal_fits_def value_ok_def split: pvalue.splits)
          qed
        qed
        then obtain r where "decimalRawAndScale h x = Some r" "decimal_fits x r" by blast
        moreover have "decimalRawAndScale h v = decimalRawAndScale h x" by (subst decimalRawAndScale.simps) (simp add: st)
        ultimately show ?thesis using a(1) by (auto simp: decimal_fits_def split: option.splits)
      qed
    qed
  qed
qed

lemma payload_ok: "value_ok h (inlineVariantPayload iv)"
proof -
  have "unat (ucast (iv_payload iv) :: 21 word) < 2 ^ LENGTH(21)" by (rule unsigned_less)
  moreover have "sint (w :: u64) < 2 ^ 63" "- (2 ^ 63) \<le> sint w" for w :: u64
    using sint_less [of w] sint_ge [of w] by simp_all
  ultimately show ?thesis by (simp add: inlineVariantPayload_def value_ok_def Let_def)
qed

lemma value_pieces_ok:
  assumes "value_ok h v" and "\<forall>d. v \<noteq> PDecimal d" and "\<forall>a. v \<noteq> PObject a"
  shows "\<exists>ps. value_pieces h v = Some ps \<and> list_all (piece_ok h) ps"
proof (cases v)
  case (PFloat d)
  then show ?thesis using writeF64_ok [of d] by (auto simp: value_pieces_def piece_ok_def list_all_iff)
next
  case (PActorRef i g)
  have "unat i < 2 ^ LENGTH(32)" "unat g < 2 ^ LENGTH(32)" by (rule unsigned_less)+
  then show ?thesis using PActorRef by (simp add: value_pieces_def formatUint_text piece_ok_def)
qed (use assms payload_ok in \<open>auto simp: value_pieces_def value_ok_def formatInt_text formatUint_text piece_ok_def list_all_iff
    in_parens_def Let_def split: option.splits\<close>)

section \<open>Printing ends and restores the chain of ancestors\<close>

lemma print_pieces_ok:
  assumes "list_all (piece_ok h) ps" and "\<And>v anc. value_ok h v \<Longrightarrow> length anc \<le> k \<Longrightarrow> \<exists>out. go v anc = Some (out, anc)" and "length anc \<le> k"
  shows "\<exists>out. print_pieces go ps anc = Some (out, anc)"
  using assms(1,3)
proof (induction ps)
  case (Cons p ps)
  then obtain out where out: "print_pieces go ps anc = Some (out, anc)" by auto
  then show ?case
  proof (cases p)
    case (Print v)
    then show ?thesis using Cons.prems assms(2) [of v anc] out by (auto simp: piece_ok_def)
  qed simp
qed simp

lemma print_object_pieces:
  "\<forall>n. ob \<noteq> OBigint n \<Longrightarrow> print_object env go ob anc
    = (case object_pieces (pe_heap env) ob of None \<Rightarrow> None | Some ps \<Rightarrow> popping (print_pieces go ps anc))"
  by (cases ob) (simp_all add: print_object_def)

lemma print_level_plain:
  assumes "decimalRawAndScale (pe_heap env) v = Some None" and "\<forall>a. v \<noteq> PObject a"
  shows "print_level env go v anc = (case value_pieces (pe_heap env) v of None \<Rightarrow> None | Some ps \<Rightarrow> print_pieces go ps anc)"
  using assms by (cases v) (simp_all add: print_level_def)

lemma printValueDepth_ok:
  assumes h: "heap_ok rank (pe_heap env)" and mem: "\<And>n. pe_alloc env n"
  shows "value_ok (pe_heap env) v \<Longrightarrow> m + length anc \<le> PrintMaxDepth \<Longrightarrow> \<exists>out. printValueDepth m env v anc = Some (out, anc)"
proof (induction m arbitrary: v anc)
  case (Suc m)
  let ?h = "pe_heap env" and ?go = "printValueDepth m env"
  have go: "\<exists>out. ?go v anc = Some (out, anc)" if "value_ok ?h v" "length anc \<le> PrintMaxDepth - m" for v anc
    using Suc.IH [OF that(1), of anc] that(2) Suc.prems(2) by simp
  obtain r where r: "decimalRawAndScale ?h v = Some r" "decimal_fits v r" using decimal_total [OF h Suc.prems(1)] by blast
  show ?case
  proof (cases r)
    case (Some rs)
    then obtain raw scale where rs: "r = Some (raw, scale)" by (cases rs) auto
    then obtain t where "formatDecimalString raw scale = Some t" using r(2) decimal_reads [of raw scale] by (auto simp: decimal_fits_def)
    then show ?thesis using r(1) rs by (simp add: print_level_def)
  next
    case None
    show ?thesis
    proof (cases "\<exists>a. v = PObject a")
      case False
      then obtain ps where "value_pieces ?h v = Some ps" "list_all (piece_ok ?h) ps"
        using value_pieces_ok [OF Suc.prems(1)] r(2) None by (auto simp: decimal_fits_def)
      then show ?thesis
        using print_pieces_ok [of ?h ps "PrintMaxDepth - m" ?go anc] go Suc.prems(2) False None r(1) by (simp add: print_level_plain)
    next
      case True
      then obtain a ob where a: "v = PObject a" "?h a = Some ob" using Suc.prems(1) by (auto simp: value_ok_def)
      then have "object_ok ?h ob" using h by (simp add: heap_ok_def)
      from object_ok_pieces [OF this] have "\<exists>out. print_object env ?go ob (anc @ [a]) = Some (out, anc)"
      proof
        assume "\<exists>ps. object_pieces ?h ob = Some ps \<and> list_all (piece_ok ?h) ps"
        then obtain ps where ps: "object_pieces ?h ob = Some ps" "list_all (piece_ok ?h) ps" by blast
        then have nb: "\<forall>n. ob \<noteq> OBigint n" by (auto simp: object_pieces_def)
        have "\<exists>out. print_pieces ?go ps (anc @ [a]) = Some (out, anc @ [a])"
          using print_pieces_ok [of ?h ps "PrintMaxDepth - m" ?go "anc @ [a]"] ps(2) go Suc.prems(2) by simp
        then show ?thesis by (auto simp: print_object_pieces [OF nb] ps(1) popping_def)
      qed (auto simp: print_object_def mem popping_def)
      then show ?thesis using a r(1) None Suc.prems(2) by (auto simp: print_level_def)
    qed
  qed
qed simp

section \<open>A value without cycles is printed as its unfolding\<close>

text \<open>The text of a value that can be unfolded within \<open>n\<close> levels; no ancestors, no depth.\<close>

fun pieces_text :: "(pvalue \<Rightarrow> byte list option) \<Rightarrow> piece list \<Rightarrow> byte list option" where
  "pieces_text tx [] = Some []"
| "pieces_text tx (Write s # ps) = map_option (\<lambda>t. s @ t) (pieces_text tx ps)"
| "pieces_text tx (Print v # ps) = (case tx v of None \<Rightarrow> None | Some s \<Rightarrow> map_option (\<lambda>t. s @ t) (pieces_text tx ps))"

definition object_text :: "print_env \<Rightarrow> (pvalue \<Rightarrow> byte list option) \<Rightarrow> Object \<Rightarrow> byte list option" where
  "object_text env tx ob =
     (case ob of
        OBigint n \<Rightarrow> if pe_alloc env n then Some (big_text n) else None
      | _ \<Rightarrow> (case object_pieces (pe_heap env) ob of None \<Rightarrow> None | Some ps \<Rightarrow> pieces_text tx ps))"

definition text_level :: "print_env \<Rightarrow> (pvalue \<Rightarrow> byte list option) \<Rightarrow> pvalue \<Rightarrow> byte list option" where
  "text_level env tx v =
     (case decimalRawAndScale (pe_heap env) v of
        None \<Rightarrow> None
      | Some (Some (raw, scale)) \<Rightarrow> formatDecimalString raw scale
      | Some None \<Rightarrow>
          (case v of
             PObject a \<Rightarrow> (case pe_heap env a of None \<Rightarrow> None | Some ob \<Rightarrow> object_text env tx ob)
           | _ \<Rightarrow> (case value_pieces (pe_heap env) v of None \<Rightarrow> None | Some ps \<Rightarrow> pieces_text tx ps)))"

primrec value_text :: "nat \<Rightarrow> print_env \<Rightarrow> pvalue \<Rightarrow> byte list option" where
  "value_text 0 env v = None"
| "value_text (Suc n) env v = text_level env (value_text n env) v"

lemma pieces_text_mono:
  assumes "\<And>v s. tx v = Some s \<Longrightarrow> tx' v = Some s"
  shows "pieces_text tx ps = Some t \<Longrightarrow> pieces_text tx' ps = Some t"
proof (induction ps arbitrary: t)
  case (Cons p ps)
  then show ?case by (cases p) (auto split: option.split_asm simp: assms)
qed simp

lemma object_text_pieces:
  "\<forall>n. ob \<noteq> OBigint n \<Longrightarrow> object_text env tx ob = (case object_pieces (pe_heap env) ob of None \<Rightarrow> None | Some ps \<Rightarrow> pieces_text tx ps)"
  by (cases ob) (simp_all add: object_text_def)

lemma text_level_plain:
  assumes "decimalRawAndScale (pe_heap env) v = Some None" and "\<forall>a. v \<noteq> PObject a"
  shows "text_level env tx v = (case value_pieces (pe_heap env) v of None \<Rightarrow> None | Some ps \<Rightarrow> pieces_text tx ps)"
  using assms by (cases v) (simp_all add: text_level_def)

lemma text_level_mono:
  assumes tx: "\<And>v s. tx v = Some s \<Longrightarrow> tx' v = Some s" and t: "text_level env tx v = Some t"
  shows "text_level env tx' v = Some t"
proof -
  have m: "pieces_text tx ps = Some t \<Longrightarrow> pieces_text tx' ps = Some t" for ps by (rule pieces_text_mono [OF tx])
  obtain r where r: "decimalRawAndScale (pe_heap env) v = Some r" using t by (auto simp: text_level_def split: option.splits)
  show ?thesis
  proof (cases r)
    case (Some rs)
    then show ?thesis using t r by (simp add: text_level_def)
  next
    case None
    show ?thesis
    proof (cases "\<exists>a. v = PObject a")
      case True
      then obtain a ob where a: "v = PObject a" "pe_heap env a = Some ob" "object_text env tx ob = Some t"
        using t r None by (auto simp: text_level_def split: option.splits)
      have "object_text env tx' ob = Some t"
      proof (cases "\<forall>n. ob \<noteq> OBigint n")
        case True
        then show ?thesis using a(3) m unfolding object_text_pieces [OF True] by (auto split: option.splits)
      qed (use a(3) in \<open>auto simp: object_text_def\<close>)
      then show ?thesis using a r None by (simp add: text_level_def)
    next
      case False
      then show ?thesis using t r None m by (auto simp: text_level_plain split: option.splits)
    qed
  qed
qed

lemma value_text_Suc: "value_text n env v = Some t \<Longrightarrow> value_text (Suc n) env v = Some t"
proof (induction n arbitrary: v t)
  case (Suc n)
  then show ?case using text_level_mono [of "value_text n env" "value_text (Suc n) env" env v t] by simp
qed simp

lemma print_pieces_text:
  assumes go: "\<And>v s. tx v = Some s \<Longrightarrow> \<exists>out. go v anc = Some (out, anc) \<and> concat out = s"
  shows "pieces_text tx ps = Some t \<Longrightarrow> \<exists>out. print_pieces go ps anc = Some (out, anc) \<and> concat out = t"
proof (induction ps arbitrary: t)
  case (Cons p ps)
  show ?case
  proof (cases p)
    case (Write s)
    then obtain u where u: "pieces_text tx ps = Some u" "t = s @ u" using Cons.prems by auto
    then show ?thesis using Cons.IH [OF u(1)] Write by auto
  next
    case (Print v)
    then obtain s u where s: "tx v = Some s" and u: "pieces_text tx ps = Some u" "t = s @ u"
      using Cons.prems by (auto split: option.split_asm)
    then show ?thesis using Cons.IH [OF u(1)] go [OF s] Print by auto
  qed
qed simp

text \<open>
  An object whose unfolding ends is none of its own ancestors: an ancestor has no unfolding within as many levels, which is kept along the way down
  because an object that has one within fewer levels is unfolded with those.
\<close>

lemma printValueDepth_text:
  "value_text n env v = Some t \<Longrightarrow> n \<le> m \<Longrightarrow> m + length anc \<le> PrintMaxDepth \<Longrightarrow> \<forall>b \<in> set anc. value_text n env (PObject b) = None
    \<Longrightarrow> \<exists>out. printValueDepth m env v anc = Some (out, anc) \<and> concat out = t"
proof (induction n arbitrary: v t m anc)
  case (Suc n)
  let ?h = "pe_heap env"
  obtain m' where m: "m = Suc m'" using Suc.prems(2) by (cases m) auto
  let ?go = "printValueDepth m' env"
  have down: "value_text n env (PObject b) = None" if "b \<in> set anc" for b
    using value_text_Suc [of n env "PObject b"] Suc.prems(4) that by (cases "value_text n env (PObject b)") auto
  have go: "\<exists>out. ?go v anc' = Some (out, anc') \<and> concat out = s"
    if "value_text n env v = Some s" "m' + length anc' \<le> PrintMaxDepth" "\<forall>b \<in> set anc'. value_text n env (PObject b) = None" for v s anc'
    using Suc.IH [OF that(1) _ that(2,3)] Suc.prems(2) m by simp
  have t: "text_level env (value_text n env) v = Some t" using Suc.prems(1) by simp
  obtain r where r: "decimalRawAndScale ?h v = Some r" using t by (auto simp: text_level_def split: option.splits)
  show ?case
  proof (cases r)
    case (Some rs)
    then show ?thesis using t r by (cases rs) (simp add: m print_level_def text_level_def)
  next
    case None
    show ?thesis
    proof (cases "\<exists>a. v = PObject a")
      case False
      then obtain ps where ps: "value_pieces ?h v = Some ps" "pieces_text (value_text n env) ps = Some t"
        using t r None by (auto simp: text_level_plain split: option.splits)
      have "\<exists>out. print_pieces ?go ps anc = Some (out, anc) \<and> concat out = t"
        using ps(2) down Suc.prems(3) m by (intro print_pieces_text [OF go]) auto
      then show ?thesis using ps(1) False None r by (simp add: m print_level_plain)
    next
      case True
      then obtain a ob where a: "v = PObject a" "?h a = Some ob" "object_text env (value_text n env) ob = Some t"
        using t r None by (auto simp: text_level_def split: option.splits)
      have new: "a \<notin> set anc" using Suc.prems(1,4) a(1) by auto
      show ?thesis
      proof (cases "value_text n env v")
        case (Some t')
        then have "t' = t" using value_text_Suc Suc.prems(1) by force
        then show ?thesis using Suc.IH [of v t m anc] Some Suc.prems(2,3) down by simp
      next
        case no: None
        have "\<exists>out. print_object env ?go ob (anc @ [a]) = Some (out, anc) \<and> concat out = t"
        proof (cases "\<forall>n. ob \<noteq> OBigint n")
          case True
          then obtain ps where ps: "object_pieces ?h ob = Some ps" "pieces_text (value_text n env) ps = Some t"
            using a(3) by (auto simp: object_text_pieces split: option.splits)
          have "\<exists>out. print_pieces ?go ps (anc @ [a]) = Some (out, anc @ [a]) \<and> concat out = t"
            using ps(2) down no a(1) Suc.prems(3) m by (intro print_pieces_text [OF go]) auto
          then show ?thesis using ps(1) by (auto simp: print_object_pieces [OF True] popping_def)
        qed (use a(3) in \<open>auto simp: object_text_def print_object_def popping_def split: if_splits\<close>)
        then show ?thesis using a r None new Suc.prems(3) m by (auto simp: print_level_def)
      qed
    qed
  qed
qed simp

lemma printValue_unfolds:
  "value_text n env v = Some t \<Longrightarrow> n \<le> PrintMaxDepth \<Longrightarrow> \<exists>out. printValue env v = Some out \<and> concat out = t"
  using printValueDepth_text [of n env v t PrintMaxDepth "[]"] by (auto simp: printValue_def)

section \<open>Big integers without room for their digits\<close>

definition stuck_bigint :: "print_env \<Rightarrow> nat \<Rightarrow> bool" where
  "stuck_bigint env b \<longleftrightarrow> (\<exists>n. pe_heap env b = Some (OBigint n) \<and> \<not> pe_alloc env n)"

lemma decimal_none_object:
  assumes "pe_heap env b = Some ob" and "\<forall>t x. ob \<noteq> ONamedValue t x"
  shows "decimalRawAndScale (pe_heap env) (PObject b) = Some None"
  using decimal_step_object [of "pe_heap env" b ob] assms by (subst decimalRawAndScale.simps) auto

lemma print_stuck_bigint:
  assumes "stuck_bigint env b" and "b \<notin> set anc"
  shows "printValueDepth (Suc m) env (PObject b) anc = (if PrintMaxDepth \<le> length anc then None else Some ([bytes_of ''<bigint>''], anc @ [b]))"
  using assms decimal_none_object [of env b] by (auto simp: stuck_bigint_def print_level_def print_object_def)

lemma print_stuck_bigints:
  assumes "\<forall>b \<in> set bs. stuck_bigint env b" and "distinct bs" and "set bs \<inter> set anc = {}" and "PrintMaxDepth < length anc + length bs"
    and "length anc \<le> PrintMaxDepth"
  shows "print_pieces (printValueDepth (Suc m) env) (separated (map (\<lambda>b. [Print (PObject b)]) bs) @ ps) anc = None"
  using assms
proof (induction bs arbitrary: anc)
  case (Cons b bs)
  have b: "stuck_bigint env b" "b \<notin> set anc" using Cons.prems by auto
  note step = print_stuck_bigint [OF b, of m]
  show ?case
  proof (cases bs)
    case Nil
    then have "length anc = PrintMaxDepth" using Cons.prems by simp
    then show ?thesis using Nil step by simp
  next
    case (Cons c cs)
    show ?thesis
    proof (cases "PrintMaxDepth \<le> length anc")
      case True
      then show ?thesis using Cons step by simp
    next
      case False
      then have "print_pieces (printValueDepth (Suc m) env) (separated (map (\<lambda>b. [Print (PObject b)]) bs) @ ps) (anc @ [b]) = None"
        using Cons.prems by (intro Cons.IH) auto
      then show ?thesis using Cons step False by (simp del: printValueDepth.simps)
    qed
  qed
qed simp

section \<open>Writing to the host\<close>

text \<open>A host whose write callback appends what it gets on standard output.\<close>

definition collects :: "byte list io_view \<Rightarrow> bool" where
  "collects view \<longleftrightarrow> iv_allow_io view \<and> iv_write_override view \<and> (\<exists>cb. iv_write_callback view = Some cb \<and> (\<forall>s u. cb s False u = u @ s))"

lemma collects_write: "collects view \<Longrightarrow> length s < 2 ^ 31 \<Longrightarrow> io_write view False s u = Some (u @ s)"
  by (auto simp: collects_def io_write_def)

lemma collects_pieces: "collects view \<Longrightarrow> length (concat out) < 2 ^ 31 \<Longrightarrow> write_pieces view out u = Some (u @ concat out)"
  by (induction out arbitrary: u) (auto simp: collects_write)

lemma collects_args:
  assumes "collects view" and "list_all2 (\<lambda>v t. \<exists>n \<le> PrintMaxDepth. value_text n env v = Some t) vs ts" and "\<forall>t \<in> set ts. length t < 2 ^ 31"
  shows "print_args view env vs u = Some (u @ concat ts)"
  using assms(2,3)
proof (induction vs ts arbitrary: u rule: list_all2_induct)
  case (Cons v vs t ts)
  then obtain out where "printValue env v = Some out" "concat out = t" using printValue_unfolds by blast
  then show ?case using Cons collects_pieces [OF assms(1), of out u] by simp
qed simp

section \<open>Inline variants\<close>

lemma sign_extend_36:
  "(if (w :: 36 word) AND push_bit 35 1 \<noteq> 0 then (ucast w :: u64) OR 0xFFFFFFF000000000 else ucast w) = scast w"
proof -
  have c: "(0xFFFFFFF000000000 :: u64) = push_bit 36 (mask 28)" by (simp add: mask_eq_exp_minus_1 push_bit_eq_mult)
  have p: "w AND push_bit 35 1 \<noteq> 0 \<longleftrightarrow> bit w 35" using and_exp_eq_0_iff_not_bit [of w 35] by (simp add: push_bit_eq_mult)
  show ?thesis
    unfolding p c
  proof (rule bit_word_eqI)
    fix n assume n: "n < LENGTH(64)"
    have w: "bit w n \<Longrightarrow> n < 36" using bit_imp_le_length [of w n] by simp
    consider "n < 35" | "n = 35" | "36 \<le> n" by linarith
    then show "bit (if bit w 35 then (ucast w :: u64) OR push_bit 36 (mask 28) else ucast w) n = bit (scast w :: u64) n"
      using n w by cases (auto simp: bit_simps min_def)
  qed
qed

lemma sint_scast_36:
  assumes "- (2 ^ 35) \<le> n" and "n < 2 ^ 35"
  shows "sint (scast (of_int n :: 36 word) :: u64) = n"
proof -
  have "sint (scast (of_int n :: 36 word) :: u64) = sint (of_int n :: 36 word)" by (rule sint_up_scast) (simp add: is_up.rep_eq)
  also have "\<dots> = n" using assms by (simp add: signed_of_int signed_take_bit_int_eq_self)
  finally show ?thesis .
qed

lemma inlineVariantPayload_word:
  "inlineVariantPayload iv =
     (if iv_kind iv = 1 then PInt (sint (scast (iv_payload iv) :: u64))
      else if iv_kind iv = 2 then PBool (iv_payload iv \<noteq> 0)
      else if iv_kind iv = 3 then PRune (unat (ucast (iv_payload iv) :: 21 word))
      else if iv_kind iv = 4 then PDecimal (sint (scast (iv_payload iv) :: u64))
      else PNull)"
  unfolding inlineVariantPayload_def Let_def sign_extend_36 by simp

section \<open>The claims\<close>

text \<open>C36. Printing is safe on every well-formed heap, cycles included: whatever refers to whatever, printValueDepth ends at every level without a
  panic, without a write behind the 64 entries of the ancestor array, and gives the chain of ancestors back as it got it, provided the digits of big
  integers can be allocated.\<close>

theorem print_restores_ancestors:
  assumes "heap_ok rank (pe_heap env)" and "\<And>n. pe_alloc env n" and "value_ok (pe_heap env) v" and "levels + length anc \<le> 64"
  shows "\<exists>out. printValueDepth levels env v anc = Some (out, anc)"
  using assms by (intro printValueDepth_ok) (simp_all add: PrintMaxDepth_def)

definition demo_cyclic :: print_env where
  "demo_cyclic = \<lparr>pe_heap = [0 \<mapsto> OArray [PInt 1, PObject 0]], pe_alloc = (\<lambda>_. True)\<rparr>"

lemma demo_cyclic_ok: "heap_ok (\<lambda>_. 0) (pe_heap demo_cyclic)" "value_ok (pe_heap demo_cyclic) (PObject 0)"
  by (auto simp: demo_cyclic_def heap_ok_def object_ok_def object_pieces_def items_pieces_def piece_ok_def value_ok_def)

theorem print_restores_ancestors_witness: "\<exists>out. printValueDepth 64 demo_cyclic (PObject 0) [] = Some (out, [])"
  using print_restores_ancestors [OF demo_cyclic_ok(1) _ demo_cyclic_ok(2), of 64 "[]"] by (simp add: demo_cyclic_def)

text \<open>C37. A value that unfolds to a finite text within 64 levels is printed as exactly that text: neither the cycle check nor the depth limit is
  seen, so no object is taken for its own ancestor just because it is shared.\<close>

theorem print_is_unfolding:
  assumes "value_text n env v = Some t" and "n \<le> 64"
  shows "map_option concat (printValue env v) = Some t"
  using printValue_unfolds [OF assms(1)] assms(2) by (auto simp: PrintMaxDepth_def)

definition demo_shared :: print_env where
  "demo_shared = \<lparr>pe_heap = [0 \<mapsto> OArray [PBool True, PNull], 1 \<mapsto> OArray [PObject 0, PObject 0]], pe_alloc = (\<lambda>_. True)\<rparr>"

lemma demo_shared_text: "value_text 3 demo_shared (PObject 1) = Some (bytes_of ''[[true, null], [true, null]]'')"
  by (simp add: eval_nat_numeral text_level_def decimalRawAndScale.simps decimal_step_def demo_shared_def object_text_def object_pieces_def items_pieces_def
      value_pieces_def bytes_of_def)

theorem print_is_unfolding_witness:
  "map_option concat (printValue demo_shared (PObject 1)) = Some (bytes_of ''[[true, null], [true, null]]'')"
  by (rule print_is_unfolding [OF demo_shared_text]) simp

text \<open>C40. A big integer whose digits cannot be allocated is left on the chain of ancestors: an array of 64 different ones makes printing write
  behind the end of its ancestor array.\<close>

theorem print_bigints_overrun:
  assumes "pe_heap env a = Some (OArray (map PObject bs))" and "distinct bs" and "a \<notin> set bs" and "\<forall>b \<in> set bs. stuck_bigint env b"
    and "64 \<le> length bs"
  shows "printValue env (PObject a) = None"
proof -
  have "print_pieces (printValueDepth (Suc 62) env) (separated (map (\<lambda>b. [Print (PObject b)]) bs) @ [Write (bytes_of '']'')]) [a] = None"
    using assms(2-5) by (intro print_stuck_bigints) (auto simp: PrintMaxDepth_def)
  then have "print_object env (printValueDepth 63 env) (OArray (map PObject bs)) [a] = None"
    by (simp add: print_object_def object_pieces_def items_pieces_def popping_def comp_def del: printValueDepth.simps)
  then have "print_level env (printValueDepth 63 env) (PObject a) [] = None"
    using assms(1) decimal_none_object [of env a] by (simp add: print_level_def PrintMaxDepth_def)
  then have "printValueDepth (Suc 63) env (PObject a) [] = None" by (simp only: printValueDepth.simps)
  then show ?thesis by (simp add: printValue_def PrintMaxDepth_def)
qed

definition demo_bigints :: print_env where
  "demo_bigints = \<lparr>pe_heap = (\<lambda>a. if a = 0 then Some (OArray (map PObject [1..<65])) else Some (OBigint (int a))), pe_alloc = (\<lambda>_. False)\<rparr>"

theorem print_bigints_overrun_witness: "printValue demo_bigints (PObject 0) = None"
  by (rule print_bigints_overrun [of _ _ "[1..<65]"]) (auto simp: demo_bigints_def stuck_bigint_def)

text \<open>C38. A decimal is printed so that it can be read back at its scale: for every int64 and every scale the compiler accepts (0 to 18),
  formatDecimalString succeeds within its buffers and the text, its trailing zeros cut, denotes exactly the raw number at that scale.\<close>

theorem decimal_text_roundtrip:
  assumes "- (2 ^ 63) \<le> raw" and "raw < 2 ^ 63" and "scale \<le> 18"
  shows "\<exists>s. formatDecimalString raw scale = Some s \<and> read_decimal scale s = Some raw"
  using assms by (rule decimal_reads)

theorem decimal_text_roundtrip_witness: "\<exists>s. formatDecimalString (- 1250) 2 = Some s \<and> read_decimal 2 s = Some (- 1250)"
  by (rule decimal_text_roundtrip) simp_all

text \<open>A double that holds an integer below 2^64 in magnitude is printed as that integer, with all its digits and no point.\<close>

theorem float_prints_integer:
  assumes "f64_value v = Some (real_of_int n)" and "\<bar>n\<bar> < 2 ^ 64"
  shows "writeF64 v = Some (if n < 0 then [[45], uint_text (nat (- n))] else [uint_text (nat n)])"
  using assms by (rule float_int_text)

theorem float_prints_integer_witness: "writeF64 (f64_of_i64 (- 120)) = Some [[45], [49, 50, 48]]"
proof -
  have d: "uint_text 120 = [49, 50, 48]" by (simp add: uint_text_def uint_loop.simps digit_byte_def)
  show ?thesis using float_prints_integer [of "f64_of_i64 (- 120)" "- 120"] by (simp add: f64_of_i64_value d)
qed

text \<open>C39. println reaches the host: a host whose write callback appends what it gets has, after a println of values that unfold within 64 levels, the
  texts of the values one after the other and a newline behind what it had before, and the script gets null.\<close>

theorem println_reaches_host:
  assumes "collects view" and "list_all2 (\<lambda>v t. \<exists>n \<le> 64. value_text n env v = Some t) vs ts" and "\<forall>t \<in> set ts. length t < 2 ^ 31"
  shows "io_println view env vs u = Some (Inr PNull, u @ concat ts @ [10])"
proof -
  have "print_args view env vs u = Some (u @ concat ts)" using assms by (intro collects_args) (simp_all add: PrintMaxDepth_def)
  moreover have "iv_allow_io view" using assms(1) by (simp add: collects_def)
  moreover have "io_write view False [10] (u @ concat ts) = Some ((u @ concat ts) @ [10])" using assms(1) by (simp add: collects_write)
  ultimately show ?thesis by (simp add: io_println_def nbind_def nguard_def nret_def io_lift_def)
qed

definition demo_view :: "byte list io_view" where
  "demo_view = \<lparr>iv_read_override = True, iv_write_override = True, iv_read_callback = None,
     iv_write_callback = Some (\<lambda>s is_err u. if is_err then u else u @ s), iv_stdin = (\<lambda>_ u. (None, u)), iv_write_fd = (\<lambda>_ _ u. u),
     iv_allow_io = True, iv_max_input = 0, iv_usize_max = 0, iv_alloc = (\<lambda>_. True), iv_gc = (\<lambda>_. True)\<rparr>"

theorem println_reaches_host_witness:
  "io_println demo_view demo_shared [PObject 1] [] = Some (Inr PNull, bytes_of ''[[true, null], [true, null]]'' @ [10])"
proof -
  let ?t = "bytes_of ''[[true, null], [true, null]]''"
  have "collects demo_view" by (simp add: demo_view_def collects_def)
  moreover have "list_all2 (\<lambda>v t. \<exists>n \<le> 64. value_text n demo_shared v = Some t) [PObject 1] [?t]"
    using demo_shared_text by (simp only: list_all2_Cons list_all2_Nil simp_thms) (rule exI [of _ 3], simp)
  moreover have "\<forall>t \<in> set [?t]. length t < 2 ^ 31" by simp
  ultimately have "io_println demo_view demo_shared [PObject 1] [] = Some (Inr PNull, [] @ concat [?t] @ [10])" by (rule println_reaches_host)
  then show ?thesis by (simp only: append_Nil concat.simps append_Nil2)
qed

text \<open>An inline variant keeps what was packed into it: whenever tryMakeInlineVariant packs a value it can be decoded to the same payload, arm and
  type, integers and decimals sign-extended from their 36 bits.\<close>

theorem inline_variant_roundtrip:
  assumes "tryMakeInlineVariant typ_idx ordinal payload = Some v" and "\<forall>r. payload = PRune r \<longrightarrow> r < 2 ^ 21"
  shows "\<exists>iv. v = PInlineVariant iv \<and> inlineVariantPayload iv = payload \<and> unat (iv_ordinal iv) = ordinal \<and> iv_typ_idx iv = typ_idx"
proof -
  have ord: "ordinal \<le> 0xFFF" using assms(1) by (auto simp: tryMakeInlineVariant_def Let_def split: if_splits)
  then have o12: "unat (of_nat ordinal :: 12 word) = ordinal" by (simp add: unat_of_nat)
  have rune: "unat (ucast (of_nat r :: 36 word) :: 21 word) = r" if "r < 2 ^ 21" for r
    using that by (simp add: unsigned_ucast_eq unsigned_of_nat take_bit_nat_eq_self)
  have "case v of PInlineVariant iv \<Rightarrow> inlineVariantPayload iv = payload \<and> unat (iv_ordinal iv) = ordinal \<and> iv_typ_idx iv = typ_idx | _ \<Rightarrow> False"
    using assms ord by (cases payload) (auto simp: tryMakeInlineVariant_def inlineVariantPayload_word sint_scast_36 o12 rune split: if_splits)
  then show ?thesis by (cases v) auto
qed

theorem inline_variant_roundtrip_witness:
  "\<exists>iv. tryMakeInlineVariant 7 3 (PInt (- 5)) = Some (PInlineVariant iv) \<and> inlineVariantPayload iv = PInt (- 5)"
proof -
  have "tryMakeInlineVariant 7 3 (PInt (- 5)) \<noteq> None" by (simp add: tryMakeInlineVariant_def)
  then show ?thesis using inline_variant_roundtrip [of 7 3 "PInt (- 5)"] by fastforce
qed

end
