(* ===== verification/Spec2Isabelle.thy ===== *)
theory Spec2Isabelle
  imports EngineHeader EngineHosts ValueCodecProps FfiTestLib CapFsProps CapNetTrace CapErrors HostIoProps HostModuleProps ScriptAccess SlotLockClaims EngineViews ValuePrintClaims
begin

text \<open>
  A verification development for the Gengoscript engine (repository \<open>gengo\<close>): its embedding interface in C, the parts of the engine behind it
  that decide what a script can do to its host, and the C programs of the repository that embed the engine.

  \<^bold>\<open>The program.\<close> The engine is a library with a C interface, \<open>sdk/c/include/gengo-engine.h\<close>, exported by \<open>src/engine.zig\<close>. A host creates an engine
  (a handle into a table of 64 slots), registers sources, module bundles, host modules, mounts, network rules and callbacks, runs scripts and calls
  their functions; values cross as 24-byte wires, which \<open>gengo-wire.h\<close> builds and reads. A script reaches back through the natives of its
  capabilities: files below the mounts, network connections and HTTP requests through handlers of the host, input through a read callback, and
  functions of host modules. Five C programs of the repository are such hosts.

  \<^bold>\<open>The theories\<close>, in the order in which they build on each other (paths below the repository's root; \<open>...Props\<close> and \<open>...Claims\<close> hold the lemmas
  of the theory before them):
  \<^item> \<open>Prelude\<close>: byte blocks, C strings, \<open>strncpy\<close>, machine integers. \<open>ZigStd\<close>: the slice functions of Zig's library.
  \<^item> \<open>GengoWire\<close>: \<open>sdk/c/include/gengo-wire.h\<close> over a store of blocks. \<open>ValueCodec\<close>, \<open>ValueCodecProps\<close>: \<open>wireToValue\<close> and \<open>valueToWire\<close> of
    \<open>src/engine.zig\<close> with the bump allocator of \<open>src/runtime/heap.zig\<close>.
  \<^item> \<open>NetPolicy\<close>: the dial and listen rules of \<open>src/lang/native/net_state.zig\<close>. \<open>FsMounts\<close>: the mount table of \<open>fs_state.zig\<close>. \<open>PackageState\<close>: the
    bundle registry and its zip and directory loaders, \<open>package_state.zig\<close>.
  \<^item> \<open>HostApi\<close>: the prototypes of the header as a record of operations, and the contract a host program relies on, as locales.
  \<^item> \<open>EngineAbi\<close>, \<open>EngineAbiProps\<close>: every exported function of \<open>src/engine.zig\<close> on the slot table and the state of an engine.
  \<^item> \<open>FirmwareGate\<close>, \<open>BundleHost\<close>, \<open>SqlitePolicy\<close>, \<open>FastCgi\<close>, \<open>MosquittoAcl\<close>: \<open>main.c\<close> of \<open>examples/firmware-gate-c\<close>, \<open>bundle-c\<close>,
    \<open>sqlite-policy\<close> and \<open>fastcgi-host\<close>, and \<open>examples/mosquitto-acl/plugin.c\<close>, function by function over that record.
    \<open>EngineHosts\<close> puts the engine of \<open>EngineAbi\<close> into the record: its interpretation discharges the contract.
  \<^item> \<open>EngineHeader\<close>: what the comments of \<open>gengo-engine.h\<close> promise of each function, as predicates on a call, and that the code keeps them.
  \<^item> \<open>NativeCall\<close>: script values, native errors, and the sequencing of calls that the capability theories share.
  \<^item> \<open>CapFs\<close>, \<open>CapFsProps\<close>: the six natives of \<open>src/lang/native/cap_fs.zig\<close> on the mount table, with \<open>gengo_fs_driver_t\<close>.
  \<^item> \<open>CapNet\<close>, \<open>CapNetProps\<close>, \<open>CapNetTrace\<close>: the fifteen natives of \<open>cap_net.zig\<close> with \<open>gengo_net_handlers_t\<close>; a step relation that every native
    refines, and the log of handler calls in every reachable state.
  \<^item> \<open>CapHttp\<close>, \<open>CapHttpProps\<close>, \<open>CapHttpClaims\<close>, \<open>CapErrors\<close>: the natives of \<open>cap_http.zig\<close> through the fetch callback, and the
    error values of both capabilities on the table of interned strings.
  \<^item> \<open>HostIo\<close>, \<open>HostIoProps\<close>: the read, write and trace callbacks (\<open>src/runtime/io.zig\<close>) and the natives that read.
  \<^item> \<open>HostModule\<close>, \<open>HostModuleProps\<close>: calls of host modules, \<open>callHostModule\<close> with \<open>src/lang/native/host_abi.zig\<close>.
  \<^item> \<open>ScriptAccess\<close>: from the embedding interface to the natives: a mounted driver serves the reads of the script, a denied address is never dialled.
  \<^item> \<open>SlotLock\<close>, \<open>SlotLockProps\<close>, \<open>SlotLockSim\<close>, \<open>SlotLockClaims\<close>: several threads on the slot table of \<open>src/engine.zig\<close>, step by step under its
    spin lock, and their simulation by an object on which each call of \<open>EngineAbi\<close> takes effect at once.
  \<^item> \<open>EngineViews\<close>: the thread-local views of a running engine (\<open>pushEngineState\<close>, \<open>activate\<close>, the I/O overrides) under nested callbacks and on
    several threads.
  \<^item> \<open>ValuePrint\<close>, \<open>ValuePrintProps\<close>, \<open>ValuePrintClaims\<close>: the text of values (\<open>printValue\<close> of \<open>src/runtime/io.zig\<close>, decimals and inline variants of
    \<open>src/lang/value.zig\<close>) and \<open>print\<close>, \<open>println\<close> on top: an object heap, the chain of ancestors and the 64 levels, which are the fuel; printing ends on cyclic
    heaps, a value without cycles is printed as its unfolding, numbers can be read back.
  \<^item> \<open>FfiTestLib\<close>: \<open>tools/ffi_test_lib.c\<close>, over the IEEE-754 arithmetic of \<open>Ieee\<close> (rounding to nearest on exact fractions, exactness on representable
    results).
  \<^item> this theory: the hosts on the modelled engine.

  \<^bold>\<open>How the state corresponds.\<close> A record has the fields of the struct it models, in its order, and an operation is a function on it with the name of
  the source. A callback with its context pointer is a function on a state \<open>'u\<close> of the host; the C memory is \<open>cmem\<close>, blocks of bytes and of
  wires by address. \<open>None\<close> is undefined behaviour of a C program, a panic of the engine, or a loop that does not end; errors of the code are values
  of a sum. The engine is the record \<open>engine\<close>, the library \<open>world\<close>; what it is linked with is the record \<open>engine_env\<close>: the compiler and virtual machine
  (\<open>interp\<close>), the inflate decoder, the IPv6 parser, the directory walk, the build configuration. What is relied on of them is \<open>env_ok\<close>.

  \<^bold>\<open>What is shown.\<close> Invariants of every reachable state: \<open>world_ok\<close> of the library, \<open>fs_ok\<close> of the mount table, \<open>plugin_ok\<close> of the plugin, the
  tables of the network, the bracketing of nested callbacks. Safety: no undefined behaviour of the hosts, no path outside a mount, no dial against the policy, handles and descriptors
  used within their life, fail-closed decisions. Refinement: the threads on the slot table against the sequential interface, the mount table against a map, the bundles against the source provider, the engine
  against the contract of its header. Round trips of wires, records, archives, responses, lines and arguments of host calls. Equivalence of the rule table with
  its last matching rule, of the bit masks with prefixes, of the two wire decoders. And what the code does where it does not do what it says:
  the theorems on errors name the defect, and the manifest lists it.

  \<^bold>\<open>Bounds and termination.\<close> Recursion over wires is bounded by the code's depth of 64, and its measure is what is left of it; the loops over archives
  and records go down in the rest of the input. The loops that a callback can keep running (\<open>drv_read_loop\<close>, \<open>os_read_loop\<close>, \<open>os_list_loop\<close>,
  \<open>readBytesRaw\<close>) are partial functions: that a read returns is a theorem under a measure on the driver, that one never returns is a theorem
  too. There is no fuel.

  \<^bold>\<open>What is not modelled.\<close> The lexer, compiler, virtual machine, garbage collector and task scheduler (the parameter \<open>interp\<close>); the natives that stay inside the
  engine; the command line; the SDKs in other languages; the operating-system sockets, TLS and the built-in HTTP client, which are used when the host has registered
  no handlers; the formatted natives (\<open>printf\<close>, \<open>sprintf\<close>, \<open>eprint\<close>); the branches for Windows. Doubles are bit patterns, and neither the sign nor the
  payload of a NaN that an operation makes is modelled. The calls are modelled one after the other, which \<open>slots_linearizable\<close>
  justifies for threads that do not share a handle, with sequentially consistent memory and the work of a call on its engine as one read and one write; calls of
  the library from within a callback are in \<open>EngineViews\<close> only, where a call is its beginning and its end. An
  allocation succeeds or fails by its size; a conversion to wires that fails is not charged to the allocator. In the record of prototypes, which has no
  result for a panic of the library, \<open>engine_call\<close> answers -2 where it would panic; \<open>engine_call_returns\<close> excludes that for the
  wires of the C constructors.
\<close>

section \<open>Calls from the hosts\<close>

lemma too_many_args: "getEngine h w = Some e \<Longrightarrow> 64 < length args \<Longrightarrow>
    \<exists>out m' w'. engine_call h nm (Some args) (int (length args)) m w = Some (-3, out, m', w')"
  by (simp add: engine_call_def Let_def pushEngineState_def)



section \<open>The host programs on the engine\<close>


definition demo_console :: "unit world host" where
  "demo_console = \<lparr>ho_out = [], ho_err = [], ho_junk = [], ho_mem = demo_mem, ho_eng = boot demo_env\<rparr>"



definition demo_server :: "unit world fcgi" where
  "demo_server = \<lparr>io_in = [1, 1, 0, 7], io_in_fails = False, io_in_err = False, io_out = [], io_room = None, io_out_err = False,
     io_log = [], io_junk = [], io_mem = demo_mem, io_eng = boot demo_env\<rparr>"

definition demo_plugin :: "unit world plugin" where
  "demo_plugin = \<lparr>g_pid = False, g_engine = 0, g_script_path = replicate 4096 0, g_basic_auth = False, pl_callbacks = [], pl_log = [],
     pl_junk = [], pl_mem = demo_mem, pl_eng = boot demo_env\<rparr>"


end
